(* ===== verification/Prelude.thy ===== *)
theory Prelude
  imports Main "HOL-Library.Word"
begin

text \<open>
  Shared vocabulary of the development: the machine integer types of the C sources, byte
  strings, the POSIX error numbers the sources use, and the generic lemmas on lists that more
  than one component needs. Collections of simplification rules that several theories extend are
  declared here.
\<close>

unbundle bit_operations_syntax

section \<open>Types\<close>

type_synonym u8 = "8 word"
type_synonym u16 = "16 word"
type_synonym u32 = "32 word"
type_synonym u64 = "64 word"
type_synonym bytes = "8 word list"

section \<open>Collections\<close>

named_theorems byte_simps \<open>reading back what was written in a fixed byte order\<close>
named_theorems att_frame \<open>parts of the ATT state an operation leaves alone\<close>
named_theorems db_frame \<open>parts of the GATT database an operation leaves alone\<close>
named_theorems gs_frame \<open>parts of the GATT server state an operation leaves alone\<close>

section \<open>Error numbers (Linux)\<close>

abbreviation (input) ENOENT :: int where "ENOENT \<equiv> 2"
abbreviation (input) EIO :: int where "EIO \<equiv> 5"
abbreviation (input) ENXIO :: int where "ENXIO \<equiv> 6"
abbreviation (input) ENOMEM :: int where "ENOMEM \<equiv> 12"
abbreviation (input) EINVAL :: int where "EINVAL \<equiv> 22"
abbreviation (input) EOVERFLOW :: int where "EOVERFLOW \<equiv> 75"
abbreviation (input) ENOTCONN :: int where "ENOTCONN \<equiv> 107"
abbreviation (input) ETIMEDOUT :: int where "ETIMEDOUT \<equiv> 110"
abbreviation (input) EALREADY :: int where "EALREADY \<equiv> 114"
abbreviation (input) ECANCELED :: int where "ECANCELED \<equiv> 125"

section \<open>Buffers\<close>

text \<open>\<open>memcpy(buf + off, bs, length bs)\<close> into a buffer long enough for it.\<close>

definition memcpy_at :: "bytes \<Rightarrow> nat \<Rightarrow> bytes \<Rightarrow> bytes" where
  "memcpy_at buf off bs = take off buf @ bs @ drop (off + length bs) buf"

lemma length_memcpy_at [simp]:
  "off + length bs \<le> length buf \<Longrightarrow> length (memcpy_at buf off bs) = length buf"
  by (simp add: memcpy_at_def)

lemma memcpy_at_read:
  "off + length bs \<le> length buf \<Longrightarrow> take (length bs) (drop off (memcpy_at buf off bs)) = bs"
  by (simp add: memcpy_at_def)

lemma memcpy_at_before:
  "off + length bs \<le> length buf \<Longrightarrow> take off (memcpy_at buf off bs) = take off buf"
  by (simp add: memcpy_at_def)

text \<open>\<open>memcmp\<close>: the sign of the first difference.\<close>

fun memcmp :: "bytes \<Rightarrow> bytes \<Rightarrow> int" where
  "memcmp (x # xs) (y # ys) = (if x < y then -1 else if y < x then 1 else memcmp xs ys)"
| "memcmp _ _ = 0"

lemma memcmp_eq_0: "length xs = length ys \<Longrightarrow> memcmp xs ys = 0 \<longleftrightarrow> xs = ys"
  by (induction xs ys rule: memcmp.induct) (auto simp: not_less)

lemma memcmp_refl [simp]: "memcmp xs xs = 0"
  by (induction xs) auto

lemma memcmp_swap: "memcmp ys xs = - memcmp xs ys"
  by (induction xs ys rule: memcmp.induct) auto

section \<open>Lists\<close>

text \<open>Removing the first element that satisfies a predicate, as the queue does.\<close>

fun remove_first :: "('a \<Rightarrow> bool) \<Rightarrow> 'a list \<Rightarrow> 'a list" where
  "remove_first P [] = []"
| "remove_first P (x # xs) = (if P x then xs else x # remove_first P xs)"

lemma remove_first_none: "\<forall>x \<in> set xs. \<not> P x \<Longrightarrow> remove_first P xs = xs"
  by (induction xs) auto

lemma remove_first_split: "find P xs = Some x \<Longrightarrow> \<exists>us vs. xs = us @ x # vs \<and> P x \<and>
    (\<forall>u \<in> set us. \<not> P u) \<and> remove_first P xs = us @ vs"
proof (induction xs)
  case Nil
  then show ?case by simp
next
  case (Cons a xs)
  show ?case
  proof (cases "P a")
    case True
    with Cons.prems show ?thesis by (intro exI [of _ "[]"] exI [of _ xs]) simp
  next
    case False
    with Cons obtain us vs where "xs = us @ x # vs" "P x" "\<forall>u \<in> set us. \<not> P u"
        "remove_first P xs = us @ vs"
      by auto
    with False show ?thesis by (intro exI [of _ "a # us"] exI [of _ vs]) simp
  qed
qed

lemma set_remove_first: "set (remove_first P xs) \<subseteq> set xs"
  by (induction xs) auto

lemma length_remove_first:
  "length (remove_first P xs) = (if find P xs = None then length xs else length xs - 1)"
proof (cases "find P xs")
  case None
  then show ?thesis by (simp add: find_None_iff remove_first_none)
next
  case (Some x)
  with remove_first_split [OF this] show ?thesis by auto
qed

lemma remove_first_append: "\<forall>u \<in> set us. \<not> P u \<Longrightarrow> P x \<Longrightarrow> remove_first P (us @ x # vs) = us @ vs"
  by (induction us) auto

lemma find_None_remove_first: "find P xs = None \<Longrightarrow> remove_first P xs = xs"
  by (induction xs) (auto split: if_splits)

lemma distinct_map_remove_first: "distinct (map f xs) \<Longrightarrow> distinct (map f (remove_first P xs))"
  using set_remove_first by (induction xs) (auto, fastforce)

lemma remove_first_distinct:
  "distinct (map f xs) \<Longrightarrow> remove_first (\<lambda>x. f x = y) xs = filter (\<lambda>x. f x \<noteq> y) xs"
  by (induction xs) (auto simp: image_iff intro!: filter_True [symmetric])

lemma remove_first_eq_distinct: "distinct xs \<Longrightarrow> remove_first (\<lambda>x. x = y) xs = filter (\<lambda>x. x \<noteq> y) xs"
  using remove_first_distinct [of "\<lambda>x. x" xs y] by simp

lemma find_append_None: "find P us = None \<Longrightarrow> find P (us @ vs) = find P vs"
  by (induction us) (auto split: if_splits)

lemma find_SomeD: "find P xs = Some x \<Longrightarrow> x \<in> set xs \<and> P x"
  by (induction xs) (auto split: if_splits)

end
