(* ===== verification/Queue.thy ===== *)
theory Queue
  imports Prelude
begin

text \<open>
  \<^verbatim>\<open>src/shared/queue.c\<close>: the singly linked list with head, tail and entry count that every other
  component keeps its pending work in. The concrete level keeps the pointers: a store of entry
  cells addressed by numbers, fresh addresses from a counter, \<^verbatim>\<open>free\<close> removing a cell. A result
  \<open>None\<close> means that the code dereferences an address that holds no cell (or loops for ever on
  a cyclic list); a queue argument is optional because every operation tests it for
  \<^verbatim>\<open>NULL\<close>. The list level says what the operations mean; the other theories use it. The
  locale \<open>simulation\<close> carries the argument from single steps to runs, and its interpretation on
  the pointer code shows that the code implements the list level.
\<close>

section \<open>The pointer structure\<close>

record 'a queue_entry =
  entry_data :: 'a
  entry_next :: "nat option"

record 'a queue =
  q_ref_count :: int
  q_head :: "nat option"
  q_tail :: "nat option"
  q_entries :: u32
  q_cells :: "nat \<Rightarrow> 'a queue_entry option"
  q_fresh :: nat

definition queue_ref :: "'a queue \<Rightarrow> 'a queue" where
  "queue_ref q = q\<lparr>q_ref_count := q_ref_count q + 1\<rparr>"

text \<open>\<open>None\<close>: the last reference is gone and the queue is freed.\<close>

definition queue_unref :: "'a queue \<Rightarrow> 'a queue option" where
  "queue_unref q = (let q' = q\<lparr>q_ref_count := q_ref_count q - 1\<rparr> in
     if q_ref_count q' \<noteq> 0 then Some q' else None)"

definition queue_new :: "'a queue" where
  "queue_new = queue_ref \<lparr>q_ref_count = 0, q_head = None, q_tail = None, q_entries = 0,
     q_cells = (\<lambda>_. None), q_fresh = 0\<rparr>"

definition queue_entry_new :: "'a \<Rightarrow> 'a queue \<Rightarrow> nat \<times> 'a queue" where
  "queue_entry_new data q = (q_fresh q,
     q\<lparr>q_cells := (q_cells q)(q_fresh q \<mapsto> \<lparr>entry_data = data, entry_next = None\<rparr>),
       q_fresh := q_fresh q + 1\<rparr>)"

text \<open>\<open>p->next = n\<close>, a fault when \<open>p\<close> is not a cell.\<close>

definition set_next :: "nat \<Rightarrow> nat option \<Rightarrow> 'a queue \<Rightarrow> 'a queue option" where
  "set_next p n q = (case q_cells q p of None \<Rightarrow> None
     | Some c \<Rightarrow> Some (q\<lparr>q_cells := (q_cells q)(p \<mapsto> c\<lparr>entry_next := n\<rparr>)\<rparr>))"

definition queue_push_tail :: "'a \<Rightarrow> 'a queue option \<Rightarrow> (bool \<times> 'a queue option) option" where
  "queue_push_tail data queue = (case queue of None \<Rightarrow> Some (False, None) | Some q \<Rightarrow>
     (let (entry, q1) = queue_entry_new data q;
          linked = (case q_tail q1 of None \<Rightarrow> Some q1 | Some t \<Rightarrow> set_next t (Some entry) q1)
      in case linked of None \<Rightarrow> None | Some q2 \<Rightarrow>
         (let q3 = q2\<lparr>q_tail := Some entry\<rparr>;
              q4 = (if q_head q3 = None then q3\<lparr>q_head := Some entry\<rparr> else q3)
          in Some (True, Some (q4\<lparr>q_entries := q_entries q4 + 1\<rparr>)))))"

definition queue_push_head :: "'a \<Rightarrow> 'a queue option \<Rightarrow> (bool \<times> 'a queue option) option" where
  "queue_push_head data queue = (case queue of None \<Rightarrow> Some (False, None) | Some q \<Rightarrow>
     (let (entry, q1) = queue_entry_new data q
      in case set_next entry (q_head q1) q1 of None \<Rightarrow> None | Some q2 \<Rightarrow>
         (let q3 = q2\<lparr>q_head := Some entry\<rparr>;
              q4 = (if q_tail q3 = None then q3\<lparr>q_tail := Some entry\<rparr> else q3)
          in Some (True, Some (q4\<lparr>q_entries := q_entries q4 + 1\<rparr>)))))"

text \<open>
  The search loops: from \<open>entry\<close>, with \<open>prev\<close> the entry before it, the first cell whose data
  satisfies the match function, and the cell before it. \<open>Some None\<close>: the end was reached.
\<close>

partial_function (option) scan ::
  "('a \<Rightarrow> bool) \<Rightarrow> (nat \<Rightarrow> 'a queue_entry option) \<Rightarrow> nat option \<Rightarrow> nat option \<Rightarrow>
   (nat option \<times> nat) option option" where
  "scan P cells prev entry = (case entry of None \<Rightarrow> Some None | Some a \<Rightarrow>
     (case cells a of None \<Rightarrow> None | Some c \<Rightarrow>
        if P (entry_data c) then Some (Some (prev, a)) else scan P cells (Some a) (entry_next c)))"

definition queue_push_after :: "'a \<Rightarrow> 'a \<Rightarrow> 'a queue option \<Rightarrow> (bool \<times> 'a queue option) option" where
  "queue_push_after entry data queue = (case queue of None \<Rightarrow> Some (False, None) | Some q \<Rightarrow>
     (case scan (\<lambda>d. d = entry) (q_cells q) None (q_head q) of None \<Rightarrow> None
      | Some None \<Rightarrow> Some (False, Some q)
      | Some (Some (_, qentry)) \<Rightarrow>
          (let (new_entry, q1) = queue_entry_new data q
           in case q_cells q1 qentry of None \<Rightarrow> None | Some c \<Rightarrow>
             (case set_next new_entry (entry_next c) q1 of None \<Rightarrow> None | Some q2 \<Rightarrow>
                (let q3 = (if entry_next c = None then q2\<lparr>q_tail := Some new_entry\<rparr> else q2)
                 in case set_next qentry (Some new_entry) q3 of None \<Rightarrow> None | Some q4 \<Rightarrow>
                      Some (True, Some (q4\<lparr>q_entries := q_entries q4 + 1\<rparr>)))))))"

definition queue_pop_head :: "'a queue option \<Rightarrow> ('a option \<times> 'a queue option) option" where
  "queue_pop_head queue = (case queue of None \<Rightarrow> Some (None, None) | Some q \<Rightarrow>
     (case q_head q of None \<Rightarrow> Some (None, Some q) | Some e \<Rightarrow>
       (case q_cells q e of None \<Rightarrow> None | Some c \<Rightarrow>
         (let q1 = (if entry_next c = None then q\<lparr>q_head := None, q_tail := None\<rparr>
                    else q\<lparr>q_head := entry_next c\<rparr>);
              q2 = q1\<lparr>q_cells := (q_cells q1)(e := None)\<rparr>
          in Some (Some (entry_data c), Some (q2\<lparr>q_entries := q_entries q2 - 1\<rparr>))))))"

definition queue_peek_head :: "'a queue option \<Rightarrow> 'a option option" where
  "queue_peek_head queue = (case queue of None \<Rightarrow> Some None | Some q \<Rightarrow>
     (case q_head q of None \<Rightarrow> Some None | Some e \<Rightarrow>
       (case q_cells q e of None \<Rightarrow> None | Some c \<Rightarrow> Some (Some (entry_data c)))))"

definition queue_peek_tail :: "'a queue option \<Rightarrow> 'a option option" where
  "queue_peek_tail queue = (case queue of None \<Rightarrow> Some None | Some q \<Rightarrow>
     (case q_tail q of None \<Rightarrow> Some None | Some e \<Rightarrow>
       (case q_cells q e of None \<Rightarrow> None | Some c \<Rightarrow> Some (Some (entry_data c)))))"

text \<open>
  \<^verbatim>\<open>queue_foreach\<close> holds a reference while it runs; the function may change the queue, so the
  loop reads the links from the current store and stops when the queue has become empty or
  was released by everybody else.
\<close>

partial_function (option) foreach_loop ::
  "('a \<Rightarrow> 'a queue \<times> 's \<Rightarrow> 'a queue \<times> 's) \<Rightarrow> nat option \<Rightarrow> 'a queue \<Rightarrow> 's \<Rightarrow> ('a queue \<times> 's) option" where
  "foreach_loop f entry q s =
     (case entry of None \<Rightarrow> Some (q, s) | Some e \<Rightarrow>
        if q_head q \<noteq> None \<and> q_ref_count q > 1 then
          (case q_cells q e of None \<Rightarrow> None | Some c \<Rightarrow>
             foreach_loop f (entry_next c) (fst (f (entry_data c) (q, s))) (snd (f (entry_data c) (q, s))))
        else Some (q, s))"

definition queue_foreach ::
  "('a \<Rightarrow> 'a queue \<times> 's \<Rightarrow> 'a queue \<times> 's) option \<Rightarrow> 'a queue option \<Rightarrow> 's \<Rightarrow>
   ('a queue option \<times> 's) option" where
  "queue_foreach function queue s = (case (queue, function) of
     (Some q, Some f) \<Rightarrow> (if q_head q = None then Some (Some q, s) else
        (case foreach_loop f (q_head q) (queue_ref q) s of None \<Rightarrow> None
         | Some (q', s') \<Rightarrow> Some (queue_unref q', s')))
   | _ \<Rightarrow> Some (queue, s))"

definition direct_match :: "'a \<Rightarrow> 'a \<Rightarrow> bool" where
  "direct_match a b \<longleftrightarrow> a = b"

definition queue_find :: "('a \<Rightarrow> bool) \<Rightarrow> 'a queue option \<Rightarrow> 'a option option" where
  "queue_find function queue = (case queue of None \<Rightarrow> Some None | Some q \<Rightarrow>
     (case scan function (q_cells q) None (q_head q) of None \<Rightarrow> None
      | Some None \<Rightarrow> Some None
      | Some (Some (_, e)) \<Rightarrow> (case q_cells q e of None \<Rightarrow> None | Some c \<Rightarrow> Some (Some (entry_data c)))))"

text \<open>Unlinking the cell \<open>e\<close> that follows \<open>prev\<close>, as both removal functions do.\<close>

definition unlink :: "nat option \<Rightarrow> nat \<Rightarrow> 'a queue \<Rightarrow> ('a \<times> 'a queue) option" where
  "unlink prev e q = (case q_cells q e of None \<Rightarrow> None | Some c \<Rightarrow>
     (case (case prev of None \<Rightarrow> Some (q\<lparr>q_head := entry_next c\<rparr>)
                       | Some p \<Rightarrow> set_next p (entry_next c) q) of None \<Rightarrow> None
      | Some q1 \<Rightarrow>
          (let q2 = (if entry_next c = None then q1\<lparr>q_tail := prev\<rparr> else q1);
               q3 = q2\<lparr>q_cells := (q_cells q2)(e := None)\<rparr>
           in Some (entry_data c, q3\<lparr>q_entries := q_entries q3 - 1\<rparr>))))"

definition queue_remove_if :: "('a \<Rightarrow> bool) \<Rightarrow> 'a queue option \<Rightarrow> ('a option \<times> 'a queue option) option" where
  "queue_remove_if function queue = (case queue of None \<Rightarrow> Some (None, None) | Some q \<Rightarrow>
     (case scan function (q_cells q) None (q_head q) of None \<Rightarrow> None
      | Some None \<Rightarrow> Some (None, Some q)
      | Some (Some (prev, e)) \<Rightarrow> (case unlink prev e q of None \<Rightarrow> None
          | Some (data, q') \<Rightarrow> Some (Some data, Some q'))))"

definition queue_remove :: "'a \<Rightarrow> 'a queue option \<Rightarrow> (bool \<times> 'a queue option) option" where
  "queue_remove data queue = (case queue of None \<Rightarrow> Some (False, None) | Some q \<Rightarrow>
     (case scan (\<lambda>d. d = data) (q_cells q) None (q_head q) of None \<Rightarrow> None
      | Some None \<Rightarrow> Some (False, Some q)
      | Some (Some (prev, e)) \<Rightarrow> (case unlink prev e q of None \<Rightarrow> None
          | Some (_, q') \<Rightarrow> Some (True, Some q'))))"

text \<open>
  \<^verbatim>\<open>queue_remove_all\<close>, with the data handed to the destroy function, in order, as a result
  (its length is the count the code returns, as a 32 bit number).
\<close>

partial_function (option) remove_all_if ::
  "('a \<Rightarrow> bool) \<Rightarrow> 'a queue \<Rightarrow> ('a list \<times> 'a queue) option" where
  "remove_all_if P q = (case queue_remove_if P (Some q) of
     Some (Some d, Some q') \<Rightarrow>
       (if q_entries q' = q_entries q then Some ([], q')
        else Option.bind (remove_all_if P q') (\<lambda>(ds, q''). Some (d # ds, q'')))
   | Some (None, Some q') \<Rightarrow> Some ([], q')
   | _ \<Rightarrow> None)"

partial_function (option) free_all ::
  "nat option \<Rightarrow> 'a queue \<Rightarrow> ('a list \<times> 'a queue) option" where
  "free_all entry q = (case entry of None \<Rightarrow> Some ([], q) | Some e \<Rightarrow>
     (case q_cells q e of None \<Rightarrow> None | Some c \<Rightarrow>
       Option.bind (free_all (entry_next c) (q\<lparr>q_cells := (q_cells q)(e := None)\<rparr>))
         (\<lambda>(ds, q'). Some (entry_data c # ds, q'))))"

definition queue_remove_all ::
  "('a \<Rightarrow> bool) option \<Rightarrow> 'a queue option \<Rightarrow> (u32 \<times> 'a list \<times> 'a queue option) option" where
  "queue_remove_all function queue = (case queue of None \<Rightarrow> Some (0, [], None) | Some q \<Rightarrow>
     (case (case function of Some P \<Rightarrow> remove_all_if P q
            | None \<Rightarrow> free_all (q_head q) (q\<lparr>q_head := None, q_tail := None, q_entries := 0\<rparr>)) of
        None \<Rightarrow> None
      | Some (ds, q') \<Rightarrow> Some (of_nat (length ds), ds, Some q')))"

definition queue_destroy :: "'a queue option \<Rightarrow> ('a list \<times> 'a queue option) option" where
  "queue_destroy queue = (case queue of None \<Rightarrow> Some ([], None) | Some q \<Rightarrow>
     (case queue_remove_all None (Some q) of
        Some (_, ds, Some q') \<Rightarrow> Some (ds, queue_unref q')
      | _ \<Rightarrow> None))"

definition queue_get_entries :: "'a queue option \<Rightarrow> nat option" where
  "queue_get_entries queue = (case queue of None \<Rightarrow> None | Some q \<Rightarrow> q_head q)"

definition queue_length :: "'a queue option \<Rightarrow> u32" where
  "queue_length queue = (case queue of None \<Rightarrow> 0 | Some q \<Rightarrow> q_entries q)"

definition queue_isempty :: "'a queue option \<Rightarrow> bool" where
  "queue_isempty queue = (case queue of None \<Rightarrow> True | Some q \<Rightarrow> q_entries q = 0)"

section \<open>The list level\<close>

text \<open>What the operations mean, on the list of the data in queue order.\<close>

definition lq_push_tail :: "'a \<Rightarrow> 'a list \<Rightarrow> 'a list" where
  "lq_push_tail data xs = xs @ [data]"

definition lq_push_head :: "'a \<Rightarrow> 'a list \<Rightarrow> 'a list" where
  "lq_push_head data xs = data # xs"

fun lq_push_after :: "('a \<Rightarrow> bool) \<Rightarrow> 'a \<Rightarrow> 'a list \<Rightarrow> 'a list" where
  "lq_push_after P data [] = []"
| "lq_push_after P data (x # xs) =
     (if P x then x # data # xs else x # lq_push_after P data xs)"

definition lq_pop_head :: "'a list \<Rightarrow> 'a option \<times> 'a list" where
  "lq_pop_head xs = (case xs of [] \<Rightarrow> (None, []) | x # r \<Rightarrow> (Some x, r))"

definition lq_peek_head :: "'a list \<Rightarrow> 'a option" where
  "lq_peek_head xs = (case xs of [] \<Rightarrow> None | x # _ \<Rightarrow> Some x)"

definition lq_peek_tail :: "'a list \<Rightarrow> 'a option" where
  "lq_peek_tail xs = (if xs = [] then None else Some (last xs))"

definition lq_remove_if :: "('a \<Rightarrow> bool) \<Rightarrow> 'a list \<Rightarrow> 'a option \<times> 'a list" where
  "lq_remove_if P xs = (find P xs, remove_first P xs)"

section \<open>The abstraction\<close>

text \<open>\<open>path cells p axs q\<close>: following the links from \<open>p\<close> visits the cells \<open>axs\<close> and ends at \<open>q\<close>.\<close>

fun path :: "(nat \<Rightarrow> 'a queue_entry option) \<Rightarrow> nat option \<Rightarrow> (nat \<times> 'a) list \<Rightarrow> nat option \<Rightarrow> bool" where
  "path c p [] q \<longleftrightarrow> p = q"
| "path c p ((a, x) # axs) q \<longleftrightarrow>
     p = Some a \<and> (\<exists>n. c a = Some \<lparr>entry_data = x, entry_next = n\<rparr> \<and> path c n axs q)"

definition last_addr :: "nat option \<Rightarrow> (nat \<times> 'a) list \<Rightarrow> nat option" where
  "last_addr d axs = (if axs = [] then d else Some (fst (last axs)))"

text \<open>
  The invariant of the structure: one path from the head through all cells of the store (none is
  lost, none is visited twice), the tail is its last cell, the count is its length modulo
  \<open>2 ^ 32\<close>, and the addresses still to be handed out are unused.
\<close>

definition queue_rep :: "'a queue \<Rightarrow> (nat \<times> 'a) list \<Rightarrow> bool" where
  "queue_rep q axs \<longleftrightarrow> path (q_cells q) (q_head q) axs None \<and> distinct (map fst axs) \<and>
     q_tail q = last_addr None axs \<and> q_entries q = of_nat (length axs) \<and>
     (\<forall>a. q_cells q a \<noteq> None \<longleftrightarrow> a \<in> fst ` set axs) \<and> (\<forall>a \<in> fst ` set axs. a < q_fresh q) \<and> 0 < q_ref_count q"

definition queue_abs :: "'a queue \<Rightarrow> 'a list \<Rightarrow> bool" where
  "queue_abs q xs \<longleftrightarrow> (\<exists>axs. queue_rep q axs \<and> xs = map snd axs)"

lemma queue_absI: "queue_rep q axs \<Longrightarrow> xs = map snd axs \<Longrightarrow> queue_abs q xs"
  by (auto simp: queue_abs_def)

lemma path_append: "path c p (us @ vs) q \<longleftrightarrow> (\<exists>m. path c p us m \<and> path c m vs q)"
  by (induction c p us q rule: path.induct) auto

lemma path_upd: "a \<notin> fst ` set axs \<Longrightarrow> path (c(a := v)) p axs q = path c p axs q"
  by (induction c p axs q rule: path.induct) (auto simp: image_iff)

lemma path_relink:
  "path c p (us @ [(a, y)]) q \<Longrightarrow> distinct (map fst (us @ [(a, y)])) \<Longrightarrow>
   path (c(a \<mapsto> \<lparr>entry_data = y, entry_next = n\<rparr>)) p (us @ [(a, y)]) n"
  by (auto simp: path_append path_upd)

lemma path_cell: "path c p (us @ (a, x) # vs) q \<Longrightarrow> c a = Some \<lparr>entry_data = x, entry_next =
    (if vs = [] then q else Some (fst (hd vs)))\<rparr>"
  by (cases vs) (auto simp: path_append)

lemma last_addr_simps [simp]: "last_addr d [] = d" "last_addr d (us @ [(a, x)]) = Some a" "last_addr d [(a, x)] = Some a"
  by (simp_all add: last_addr_def)

fun scan_list :: "('a \<Rightarrow> bool) \<Rightarrow> nat option \<Rightarrow> (nat \<times> 'a) list \<Rightarrow> (nat option \<times> nat) option" where
  "scan_list P prev [] = None"
| "scan_list P prev ((a, x) # axs) = (if P x then Some (prev, a) else scan_list P (Some a) axs)"

lemma scan_path: "path c p axs None \<Longrightarrow> scan P c prev p = Some (scan_list P prev axs)"
proof (induction axs arbitrary: p prev)
  case Nil
  then show ?case by (simp add: scan.simps)
next
  case (Cons ax axs)
  obtain a x where ax: "ax = (a, x)" by fastforce
  with Cons.prems obtain n where "p = Some a" "c a = Some \<lparr>entry_data = x, entry_next = n\<rparr>"
      "path c n axs None"
    by auto
  then show ?case using Cons.IH by (subst scan.simps) (simp add: ax)
qed

lemma scan_list_None: "scan_list P prev axs = None \<longleftrightarrow> find P (map snd axs) = None"
  by (induction P prev axs rule: scan_list.induct) auto

lemma scan_list_Some:
  "scan_list P prev axs = Some (pr, a) \<Longrightarrow>
   \<exists>us x vs. axs = us @ (a, x) # vs \<and> P x \<and> (\<forall>u \<in> set us. \<not> P (snd u)) \<and> pr = last_addr prev us"
proof (induction P prev axs rule: scan_list.induct)
  case (1 P prev)
  then show ?case by simp
next
  case (2 P prev b y axs)
  show ?case
  proof (cases "P y")
    case True
    with "2.prems" show ?thesis by (intro exI [of _ "[]"] exI [of _ y] exI [of _ axs]) auto
  next
    case False
    with 2 obtain us x vs where "axs = us @ (a, x) # vs" "P x" "\<forall>u \<in> set us. \<not> P (snd u)"
        "pr = last_addr (Some b) us"
      by auto
    with False show ?thesis
      by (intro exI [of _ "(b, y) # us"] exI [of _ x] exI [of _ vs]) (auto simp: last_addr_def)
  qed
qed

lemma q_upd_order:
  "q\<lparr>q_fresh := f, q_cells := c\<rparr> = q\<lparr>q_cells := c, q_fresh := f\<rparr>"
  "q\<lparr>q_fresh := f, q_tail := t\<rparr> = q\<lparr>q_tail := t, q_fresh := f\<rparr>"
  "q\<lparr>q_tail := t, q_cells := c\<rparr> = q\<lparr>q_cells := c, q_tail := t\<rparr>"
  by simp_all

section \<open>Every operation implements its list operation\<close>

lemma queue_new_abs: "queue_abs queue_new []"
  by (auto simp: queue_abs_def queue_rep_def queue_new_def queue_ref_def)

lemma fresh_notin: "queue_rep q axs \<Longrightarrow> q_fresh q \<notin> fst ` set axs"
  by (auto simp: queue_rep_def)

lemma push_tail_abs:
  assumes "queue_abs q xs"
  shows "\<exists>q'. queue_push_tail x (Some q) = Some (True, Some q') \<and> queue_abs q' (lq_push_tail x xs)"
proof -
  from assms obtain axs where r: "queue_rep q axs" and xs: "xs = map snd axs"
    by (auto simp: queue_abs_def)
  note new = fresh_notin [OF r]
  show ?thesis
  proof (cases axs rule: rev_cases)
    case Nil
    with r xs show ?thesis
      by (auto simp: queue_push_tail_def queue_entry_new_def queue_rep_def lq_push_tail_def
          intro!: queue_absI [of _ "[(q_fresh q, x)]"])
  next
    case (snoc us ay)
    obtain a y where ay: "ay = (a, y)" by fastforce
    have c: "q_cells q a = Some \<lparr>entry_data = y, entry_next = None\<rparr>"
      using r path_cell [of "q_cells q" "q_head q" us a y "[]"] by (simp add: queue_rep_def snoc ay)
    have t: "q_tail q = Some a" using r by (simp add: queue_rep_def snoc ay)
    have h: "q_head q \<noteq> None" using r by (cases us) (auto simp: queue_rep_def snoc ay)
    have p: "path ((q_cells q)(a \<mapsto> \<lparr>entry_data = y, entry_next = Some (q_fresh q)\<rparr>)) (q_head q)
        (us @ [(a, y)]) (Some (q_fresh q))"
      using r by (intro path_relink) (auto simp: queue_rep_def snoc ay)
    have ne: "a \<noteq> q_fresh q" using new by (auto simp: snoc ay)
    let ?c = "(q_cells q)(a \<mapsto> \<lparr>entry_data = y, entry_next = Some (q_fresh q)\<rparr>,
                          q_fresh q \<mapsto> \<lparr>entry_data = x, entry_next = None\<rparr>)"
    have p': "path ?c (q_head q) (us @ [(a, y)] @ [(q_fresh q, x)]) None"
      using p new ne by (auto simp: path_append path_upd snoc ay)
    have "queue_rep (q\<lparr>q_cells := ?c, q_fresh := q_fresh q + 1, q_tail := Some (q_fresh q),
        q_entries := q_entries q + 1\<rparr>) (us @ [(a, y)] @ [(q_fresh q, x)])"
      using r p' new by (auto simp: queue_rep_def snoc ay last_addr_def)
    moreover have "queue_push_tail x (Some q) = Some (True, Some (q\<lparr>q_cells := ?c,
        q_fresh := q_fresh q + 1, q_tail := Some (q_fresh q), q_entries := q_entries q + 1\<rparr>))"
      using c t h ne
      by (simp add: queue_push_tail_def queue_entry_new_def set_next_def fun_upd_twist [OF ne]
          q_upd_order Let_def)
    ultimately show ?thesis
      by (auto simp: lq_push_tail_def xs snoc ay intro!: queue_absI)
  qed
qed

lemma push_head_abs:
  assumes "queue_abs q xs"
  shows "\<exists>q'. queue_push_head x (Some q) = Some (True, Some q') \<and> queue_abs q' (lq_push_head x xs)"
proof -
  from assms obtain axs where r: "queue_rep q axs" and xs: "xs = map snd axs"
    by (auto simp: queue_abs_def)
  note new = fresh_notin [OF r]
  have "\<exists>q'. queue_push_head x (Some q) = Some (True, Some q') \<and> queue_rep q' ((q_fresh q, x) # axs)"
    using r new
    by (cases axs)
      (auto simp: queue_push_head_def queue_entry_new_def set_next_def queue_rep_def path_upd
        last_addr_def)
  then show ?thesis
    by (auto simp: lq_push_head_def xs intro!: queue_absI)
qed

lemma pop_head_abs:
  assumes "queue_abs q xs"
  shows "\<exists>q'. queue_pop_head (Some q) = Some (fst (lq_pop_head xs), Some q') \<and>
     queue_abs q' (snd (lq_pop_head xs))"
proof -
  from assms obtain axs where r: "queue_rep q axs" and xs: "xs = map snd axs"
    by (auto simp: queue_abs_def)
  show ?thesis
  proof (cases axs)
    case Nil
    with r xs assms show ?thesis by (auto simp: queue_pop_head_def lq_pop_head_def queue_rep_def)
  next
    case (Cons ax bxs)
    obtain a x where ax: "ax = (a, x)" by fastforce
    have "\<exists>q'. queue_pop_head (Some q) = Some (Some x, Some q') \<and> queue_rep q' bxs"
      using r by (cases bxs) (auto simp: queue_pop_head_def queue_rep_def Cons ax path_upd last_addr_def)
    then show ?thesis
      by (auto simp: lq_pop_head_def xs Cons ax intro!: queue_absI)
  qed
qed

lemma peek_abs:
  assumes "queue_abs q xs"
  shows "queue_peek_head (Some q) = Some (lq_peek_head xs)"
    and "queue_peek_tail (Some q) = Some (lq_peek_tail xs)"
proof -
  from assms obtain axs where r: "queue_rep q axs" and xs: "xs = map snd axs"
    by (auto simp: queue_abs_def)
  show "queue_peek_head (Some q) = Some (lq_peek_head xs)"
    using r by (cases axs) (auto simp: queue_peek_head_def lq_peek_head_def queue_rep_def xs)
  show "queue_peek_tail (Some q) = Some (lq_peek_tail xs)"
    using r path_cell [of "q_cells q" "q_head q" _ _ _ "[]" None]
    by (cases axs rule: rev_cases)
      (auto simp: queue_peek_tail_def lq_peek_tail_def queue_rep_def xs)
qed

lemma queue_scan:
  assumes "queue_rep q axs"
  shows "scan P (q_cells q) None (q_head q) = Some (scan_list P None axs)"
  using assms by (intro scan_path) (simp add: queue_rep_def)

lemma find_abs:
  assumes "queue_abs q xs"
  shows "queue_find P (Some q) = Some (find P xs)"
proof -
  from assms obtain axs where r: "queue_rep q axs" and xs: "xs = map snd axs"
    by (auto simp: queue_abs_def)
  show ?thesis
  proof (cases "scan_list P None axs")
    case None
    then have "find P xs = None" by (simp add: scan_list_None xs)
    with None show ?thesis by (simp add: queue_find_def queue_scan [OF r])
  next
    case (Some pa)
    obtain pr a where "pa = (pr, a)" by fastforce
    with scan_list_Some [of P None axs pr a] Some obtain us x vs where *: "axs = us @ (a, x) # vs" "P x"
        "\<forall>u \<in> set us. \<not> P (snd u)" "pa = (pr, a)"
      by auto
    have "find P (map snd us) = None" using *(3) by (auto simp: find_None_iff)
    then have "find P xs = Some x"
      using *(2) by (simp add: xs *(1) find_append_None)
    moreover have "q_cells q a \<noteq> None \<and> entry_data (the (q_cells q a)) = x"
      using r path_cell [of "q_cells q" "q_head q" us a x vs None] by (simp add: queue_rep_def *(1))
    ultimately show ?thesis
      by (auto simp: queue_find_def queue_scan [OF r] Some *(4))
  qed
qed

text \<open>Unlinking a cell of the path leaves the path without it, and frees exactly that cell.\<close>

lemma unlink_rep:
  assumes r: "queue_rep q (us @ (a, x) # vs)"
  shows "\<exists>q'. unlink (last_addr None us) a q = Some (x, q') \<and> queue_rep q' (us @ vs)"
proof -
  define n where "n = (if vs = [] then None else Some (fst (hd vs)))"
  have c: "q_cells q a = Some \<lparr>entry_data = x, entry_next = n\<rparr>"
    using r path_cell [of "q_cells q" "q_head q" us a x vs None] by (simp add: queue_rep_def n_def)
  have a: "a \<notin> fst ` set us" "a \<notin> fst ` set vs" using r by (auto simp: queue_rep_def)
  have tail: "n = None \<longleftrightarrow> vs = []" by (simp add: n_def)
  show ?thesis
  proof (cases us rule: rev_cases)
    case Nil
    with r c a tail show ?thesis
      by (auto simp: unlink_def queue_rep_def path_upd last_addr_def)
  next
    case (snoc ws pz)
    obtain p y where pz: "pz = (p, y)" by fastforce
    have cp: "q_cells q p = Some \<lparr>entry_data = y, entry_next = Some a\<rparr>"
      using r path_cell [of "q_cells q" "q_head q" ws p y "(a, x) # vs" None]
      by (simp add: queue_rep_def snoc pz)
    let ?c = "(q_cells q)(p \<mapsto> \<lparr>entry_data = y, entry_next = n\<rparr>)"
    have "path (q_cells q) (q_head q) us (Some a)" "path (q_cells q) n vs None"
      using r c by (auto simp: queue_rep_def path_append)
    then have "path ?c (q_head q) us n" "path ?c n vs None"
      using r path_relink [of "q_cells q" "q_head q" ws p y "Some a" n]
      by (auto simp: queue_rep_def snoc pz path_upd)
    then have "path (?c(a := None)) (q_head q) (us @ vs) None"
      using a by (auto simp: path_append path_upd)
    then have rep: "queue_rep (q\<lparr>q_cells := ?c(a := None), q_tail := last_addr None (us @ vs),
        q_entries := q_entries q - 1\<rparr>) (us @ vs)"
      using r a by (auto simp: queue_rep_def snoc pz)
    have ne: "a \<noteq> p" using a(1) by (auto simp: snoc pz)
    show ?thesis
    proof (cases "vs = []")
      case True
      then have "unlink (last_addr None us) a q = Some (x, q\<lparr>q_cells := ?c(a := None),
          q_tail := last_addr None (us @ vs), q_entries := q_entries q - 1\<rparr>)"
        using c cp tail by (simp add: unlink_def set_next_def snoc pz q_upd_order Let_def)
      with rep show ?thesis by blast
    next
      case False
      then have "q_tail q = last_addr None (us @ vs)"
        using r by (simp add: queue_rep_def last_addr_def)
      with rep have "queue_rep (q\<lparr>q_cells := ?c(a := None), q_entries := q_entries q - 1\<rparr>) (us @ vs)"
        by (simp add: queue_rep_def)
      moreover have "unlink (last_addr None us) a q = Some (x, q\<lparr>q_cells := ?c(a := None),
          q_entries := q_entries q - 1\<rparr>)"
        using False c cp tail by (auto simp: unlink_def set_next_def snoc pz Let_def)
      ultimately show ?thesis by blast
    qed
  qed
qed

lemma remove_if_rep:
  assumes r: "queue_rep q axs"
  shows "\<exists>q' bxs. queue_remove_if P (Some q) = Some (find P (map snd axs), Some q') \<and> queue_rep q' bxs \<and>
     map snd bxs = remove_first P (map snd axs)"
proof (cases "scan_list P None axs")
  case None
  then have "find P (map snd axs) = None" by (simp add: scan_list_None)
  then show ?thesis
    using r by (auto simp: queue_remove_if_def queue_scan [OF r] None find_None_remove_first)
next
  case (Some pa)
  obtain pr a where pa: "pa = (pr, a)" by fastforce
  with scan_list_Some [of P None axs pr a] Some obtain us x vs where *: "axs = us @ (a, x) # vs" "P x"
      "\<forall>u \<in> set us. \<not> P (snd u)" "pr = last_addr None us"
    by auto
  have f: "find P (map snd axs) = Some x" and m: "remove_first P (map snd axs) = map snd (us @ vs)"
    using *(2,3) unfolding *(1) by (induction us) auto
  obtain q' where "unlink (last_addr None us) a q = Some (x, q')" "queue_rep q' (us @ vs)"
    using unlink_rep [OF r [unfolded *(1)]] by blast
  then show ?thesis
    using f m by (auto simp: queue_remove_if_def queue_scan [OF r] Some pa *(4) intro!: exI [of _ "us @ vs"])
qed

lemma remove_if_abs:
  assumes "queue_abs q xs"
  shows "\<exists>q'. queue_remove_if P (Some q) = Some (fst (lq_remove_if P xs), Some q') \<and>
     queue_abs q' (snd (lq_remove_if P xs))"
  using assms remove_if_rep by (fastforce simp: queue_abs_def lq_remove_if_def)

lemma remove_abs:
  assumes "queue_abs q xs"
  shows "\<exists>q'. queue_remove x (Some q) = Some (x \<in> set xs, Some q') \<and>
     queue_abs q' (remove_first (\<lambda>d. d = x) xs)"
proof -
  have same: "queue_remove x (Some q) = (case queue_remove_if (\<lambda>d. d = x) (Some q) of None \<Rightarrow> None
      | Some (r, q') \<Rightarrow> Some (r \<noteq> None, q'))"
    by (auto simp: queue_remove_def queue_remove_if_def split: option.splits prod.splits)
  have "find (\<lambda>d. d = x) xs \<noteq> None \<longleftrightarrow> x \<in> set xs" by (auto simp: find_None_iff)
  then show ?thesis
    using remove_if_abs [OF assms, of "\<lambda>d. d = x"] same by (auto simp: lq_remove_if_def)
qed

lemma push_after_abs:
  assumes "queue_abs q xs"
  shows "\<exists>q'. queue_push_after e x (Some q) = Some (e \<in> set xs, Some q') \<and>
     queue_abs q' (lq_push_after (\<lambda>d. d = e) x xs)"
proof -
  from assms obtain axs where r: "queue_rep q axs" and xs: "xs = map snd axs"
    by (auto simp: queue_abs_def)
  note new = fresh_notin [OF r]
  have absent: "lq_push_after P x ys = ys" if "find P ys = None" for P ys
    using that by (induction ys) (auto split: if_splits)
  show ?thesis
  proof (cases "scan_list (\<lambda>d. d = e) None axs")
    case None
    then have "find (\<lambda>d. d = e) xs = None" by (simp add: scan_list_None xs)
    then show ?thesis
      using assms absent [of "\<lambda>d. d = e" xs] None
      by (auto simp: queue_push_after_def queue_scan [OF r] find_None_iff)
  next
    case (Some pa)
    obtain pr a where pa: "pa = (pr, a)" by fastforce
    with scan_list_Some [of "\<lambda>d. d = e" None axs pr a] Some obtain us vs where *: "axs = us @ (a, e) # vs"
        "\<forall>u \<in> set us. snd u \<noteq> e"
      by auto
    define n where "n = (if vs = [] then None else Some (fst (hd vs)))"
    have c: "q_cells q a = Some \<lparr>entry_data = e, entry_next = n\<rparr>"
      using r path_cell [of "q_cells q" "q_head q" us a e vs None] by (simp add: queue_rep_def n_def *(1))
    have ne: "a \<noteq> q_fresh q" and nu: "q_fresh q \<notin> fst ` set us" "q_fresh q \<notin> fst ` set vs"
      using new by (auto simp: *(1))
    let ?c = "(q_cells q)(q_fresh q \<mapsto> \<lparr>entry_data = x, entry_next = n\<rparr>,
                          a \<mapsto> \<lparr>entry_data = e, entry_next = Some (q_fresh q)\<rparr>)"
    have "path (q_cells q) (q_head q) us (Some a)" "path (q_cells q) n vs None"
      using r c by (auto simp: queue_rep_def path_append *(1))
    then have p: "path ?c (q_head q) (us @ (a, e) # (q_fresh q, x) # vs) None"
      using r nu ne by (auto simp: path_append path_upd queue_rep_def *(1))
    let ?q = "q\<lparr>q_cells := ?c, q_fresh := q_fresh q + 1,
        q_tail := last_addr None (us @ (a, e) # (q_fresh q, x) # vs), q_entries := q_entries q + 1\<rparr>"
    have "\<forall>b \<in> fst ` set axs. b < q_fresh q + 1"
      using r by (simp add: queue_rep_def less_SucI)
    then have "\<forall>b \<in> fst ` set (us @ (a, e) # (q_fresh q, x) # vs). b < q_fresh q + 1"
      by (simp add: *(1) ball_Un image_Un)
    then have rep: "queue_rep ?q (us @ (a, e) # (q_fresh q, x) # vs)"
      using r p new nu unfolding queue_rep_def *(1) by (auto simp: last_addr_def)
    have "lq_push_after (\<lambda>d. d = e) x (map snd us @ e # map snd vs) = map snd us @ e # x # map snd vs"
      using *(2) by (induction us) auto
    then have l: "lq_push_after (\<lambda>d. d = e) x xs = map snd (us @ (a, e) # (q_fresh q, x) # vs)"
      by (simp add: xs *(1))
    have "\<exists>q'. queue_push_after e x (Some q) = Some (True, Some q') \<and>
        queue_rep q' (us @ (a, e) # (q_fresh q, x) # vs)"
    proof (cases "vs = []")
      case True
      with c ne rep show ?thesis
        by (auto simp: queue_push_after_def queue_scan [OF r] Some pa queue_entry_new_def set_next_def
            n_def Let_def q_upd_order last_addr_def)
    next
      case False
      then have t: "last_addr None (us @ (a, e) # (q_fresh q, x) # vs) = q_tail q"
        using r by (simp add: queue_rep_def last_addr_def *(1))
      with rep have "queue_rep (?q\<lparr>q_tail := q_tail q\<rparr>) (us @ (a, e) # (q_fresh q, x) # vs)" by simp
      with False c ne show ?thesis
        by (auto simp: queue_push_after_def queue_scan [OF r] Some pa queue_entry_new_def set_next_def
            n_def Let_def q_upd_order queue_rep_def)
    qed
    then obtain q' where "queue_push_after e x (Some q) = Some (True, Some q')"
        "queue_abs q' (lq_push_after (\<lambda>d. d = e) x xs)"
      unfolding l by (blast intro: queue_absI [OF _ refl])
    then show ?thesis by (auto simp: xs *(1))
  qed
qed

lemma free_all_path:
  assumes "path (q_cells q) p axs None" and "distinct (map fst axs)" and "c = q_cells q"
  shows "free_all p q =
    Some (map snd axs, q\<lparr>q_cells := (\<lambda>a. if a \<in> fst ` set axs then None else c a)\<rparr>)"
  using assms
proof (induction axs arbitrary: p q c)
  case Nil
  then show ?case by (simp add: free_all.simps)
next
  case (Cons ax axs)
  obtain a x where ax: "ax = (a, x)" by fastforce
  from Cons.prems obtain n where n: "p = Some a" "q_cells q a = Some \<lparr>entry_data = x, entry_next = n\<rparr>"
      "path (q_cells q) n axs None" "a \<notin> fst ` set axs"
    by (auto simp: ax)
  let ?q = "q\<lparr>q_cells := (q_cells q)(a := None)\<rparr>"
  have "free_all n ?q =
      Some (map snd axs, ?q\<lparr>q_cells := (\<lambda>b. if b \<in> fst ` set axs then None else ((q_cells q)(a := None)) b)\<rparr>)"
    using Cons.prems n by (intro Cons.IH) (simp_all add: path_upd del: fun_upd_apply)
  moreover have "(\<lambda>b. if b \<in> fst ` set axs then None else ((q_cells q)(a := None)) b) =
      (\<lambda>b. if b \<in> fst ` set (ax # axs) then None else q_cells q b)"
    by (auto simp: ax fun_eq_iff)
  ultimately show ?case
    unfolding Cons.prems(3) using n by (subst free_all.simps) (simp add: ax)
qed

lemma filter_remove_first:
  "find P xs = Some x \<Longrightarrow> filter P xs = x # filter P (remove_first P xs)"
  "filter (\<lambda>y. \<not> P y) (remove_first P xs) = filter (\<lambda>y. \<not> P y) xs"
  by (induction xs) (auto split: if_splits)

lemma remove_all_if_rep:
  "queue_rep q axs \<Longrightarrow> \<exists>q' bxs. remove_all_if P q = Some (filter P (map snd axs), q') \<and>
     queue_rep q' bxs \<and> map snd bxs = filter (\<lambda>x. \<not> P x) (map snd axs)"
proof (induction "length axs" arbitrary: axs q rule: less_induct)
  case less
  obtain q1 bxs where s: "queue_remove_if P (Some q) = Some (find P (map snd axs), Some q1)"
      "queue_rep q1 bxs" "map snd bxs = remove_first P (map snd axs)"
    using remove_if_rep [OF less.prems] by blast
  show ?case
  proof (cases "find P (map snd axs)")
    case None
    then have "filter P (map snd axs) = []" "remove_first P (map snd axs) = map snd axs"
      by (auto simp: find_None_iff filter_empty_conv find_None_remove_first)
    moreover from this(1) have "filter (\<lambda>x. \<not> P x) (map snd axs) = map snd axs"
      by (auto simp: filter_empty_conv filter_id_conv)
    ultimately show ?thesis using s None by (subst remove_all_if.simps) auto
  next
    case (Some x)
    then have len: "length axs = Suc (length bxs)"
      using arg_cong [OF s(3), of length] length_remove_first [of P "map snd axs"] find_SomeD [OF Some]
      by (cases axs) auto
    then have ne: "q_entries q1 \<noteq> q_entries q"
      using s(2) less.prems by (auto simp: queue_rep_def)
    obtain q' cxs where "remove_all_if P q1 = Some (filter P (map snd bxs), q')" "queue_rep q' cxs"
        "map snd cxs = filter (\<lambda>x. \<not> P x) (map snd bxs)"
      using less.hyps [of bxs q1] len s(2) by auto
    then show ?thesis
      using s Some ne filter_remove_first [of P "map snd axs"]
      by (subst remove_all_if.simps) auto
  qed
qed

text \<open>All at once or by a predicate: what is removed, in order, and what stays.\<close>

lemma remove_all_abs:
  assumes "queue_abs q xs"
  shows "\<exists>q'. queue_remove_all f (Some q) =
       Some (of_nat (length (filter (case f of None \<Rightarrow> \<lambda>_. True | Some P \<Rightarrow> P) xs)),
             filter (case f of None \<Rightarrow> \<lambda>_. True | Some P \<Rightarrow> P) xs, Some q') \<and>
     queue_abs q' (filter (\<lambda>x. \<not> (case f of None \<Rightarrow> \<lambda>_. True | Some P \<Rightarrow> P) x) xs)"
proof -
  from assms obtain axs where r: "queue_rep q axs" and xs: "xs = map snd axs"
    by (auto simp: queue_abs_def)
  show ?thesis
  proof (cases f)
    case None
    let ?q = "q\<lparr>q_head := None, q_tail := None, q_entries := 0\<rparr>"
    have "free_all (q_head q) ?q =
        Some (map snd axs, ?q\<lparr>q_cells := (\<lambda>a. if a \<in> fst ` set axs then None else q_cells q a)\<rparr>)"
      using r by (intro free_all_path) (auto simp: queue_rep_def)
    moreover have "(\<lambda>a. if a \<in> fst ` set axs then None else q_cells q a) = (\<lambda>_. None)"
      using r by (intro ext) (metis queue_rep_def)
    ultimately show ?thesis
      using r by (auto simp: queue_remove_all_def None xs queue_rep_def intro!: queue_absI [of _ "[]"])
  next
    case (Some P)
    with remove_all_if_rep [OF r, of P] show ?thesis
      by (auto simp: queue_remove_all_def xs intro: queue_absI [OF _ sym])
  qed
qed

lemma destroy_abs:
  assumes "queue_abs q xs" and "q_ref_count q = 1"
  shows "queue_destroy (Some q) = Some (xs, None)"
proof -
  from assms(1) obtain axs where r: "queue_rep q axs" and xs: "xs = map snd axs"
    by (auto simp: queue_abs_def)
  let ?q = "q\<lparr>q_head := None, q_tail := None, q_entries := 0\<rparr>"
  have "free_all (q_head q) ?q =
      Some (map snd axs, ?q\<lparr>q_cells := (\<lambda>a. if a \<in> fst ` set axs then None else q_cells q a)\<rparr>)"
    using r by (intro free_all_path) (auto simp: queue_rep_def)
  then show ?thesis
    using assms(2) by (simp add: queue_destroy_def queue_remove_all_def queue_unref_def xs)
qed

text \<open>A function that leaves the queue alone is folded over the data in order.\<close>

lemma foreach_loop_fold:
  assumes "path (q_cells q) p axs None" and "axs \<noteq> [] \<Longrightarrow> q_head q \<noteq> None" and "q_ref_count q > 1"
    and "\<And>d s. f d (q, s) = (q, g d s)"
  shows "foreach_loop f p q s = Some (q, fold g (map snd axs) s)"
  using assms(1,2)
proof (induction axs arbitrary: p s)
  case Nil
  then show ?case by (simp add: foreach_loop.simps)
next
  case (Cons ax axs)
  obtain a x where ax: "ax = (a, x)" by fastforce
  with Cons.prems obtain n where "p = Some a" "q_cells q a = Some \<lparr>entry_data = x, entry_next = n\<rparr>"
      "path (q_cells q) n axs None"
    by auto
  then show ?case
    using Cons.IH [of n "g x s"] Cons.prems(2) assms(3)
    by (subst foreach_loop.simps) (simp add: ax assms(4))
qed

lemma foreach_abs:
  assumes "queue_abs q xs" and "\<And>d s. f d (queue_ref q, s) = (queue_ref q, g d s)"
  shows "queue_foreach (Some f) (Some q) s = Some (Some q, fold g xs s)"
proof -
  from assms(1) obtain axs where r: "queue_rep q axs" and xs: "xs = map snd axs"
    by (auto simp: queue_abs_def)
  have empty: "q_head q = None \<longleftrightarrow> axs = []" using r by (cases axs) (auto simp: queue_rep_def)
  have "foreach_loop f (q_head q) (queue_ref q) s = Some (queue_ref q, fold g (map snd axs) s)"
    using r empty assms(2) by (intro foreach_loop_fold) (auto simp: queue_rep_def queue_ref_def)
  then show ?thesis
    using r empty by (auto simp: queue_foreach_def xs queue_unref_def queue_ref_def queue_rep_def Let_def)
qed

lemma length_abs: "queue_abs q xs \<Longrightarrow> queue_length (Some q) = of_nat (length xs)"
  by (auto simp: queue_abs_def queue_rep_def queue_length_def)

section \<open>Runs\<close>

text \<open>
  A concrete machine whose steps may fault simulates an abstract one that cannot: each step on
  related states returns what the abstract step returns and leaves related states.
\<close>

primrec crun :: "('o \<Rightarrow> 'c \<Rightarrow> ('r \<times> 'c) option) \<Rightarrow> 'o list \<Rightarrow> 'c \<Rightarrow> ('r list \<times> 'c) option" where
  "crun step [] c = Some ([], c)"
| "crun step (op # ops) c = (case step op c of None \<Rightarrow> None | Some (r, c') \<Rightarrow>
     (case crun step ops c' of None \<Rightarrow> None | Some (rs, c'') \<Rightarrow> Some (r # rs, c'')))"

primrec arun :: "('o \<Rightarrow> 'a \<Rightarrow> 'r \<times> 'a) \<Rightarrow> 'o list \<Rightarrow> 'a \<Rightarrow> 'r list \<times> 'a" where
  "arun step [] a = ([], a)"
| "arun step (op # ops) a = (fst (step op a) # fst (arun step ops (snd (step op a))),
     snd (arun step ops (snd (step op a))))"

locale simulation =
  fixes rel :: "'c \<Rightarrow> 'a \<Rightarrow> bool"
    and cstep :: "'o \<Rightarrow> 'c \<Rightarrow> ('r \<times> 'c) option"
    and astep :: "'o \<Rightarrow> 'a \<Rightarrow> 'r \<times> 'a"
  assumes step_sim: "rel c a \<Longrightarrow> \<exists>c'. cstep op c = Some (fst (astep op a), c') \<and> rel c' (snd (astep op a))"
begin

lemma run_sim:
  "rel c a \<Longrightarrow> \<exists>c'. crun cstep ops c = Some (fst (arun astep ops a), c') \<and> rel c' (snd (arun astep ops a))"
proof (induction ops arbitrary: c a)
  case Nil
  then show ?case by simp
next
  case (Cons op ops)
  from step_sim [OF Cons.prems, of op] obtain c' where c': "cstep op c = Some (fst (astep op a), c')"
      "rel c' (snd (astep op a))"
    by blast
  with Cons.IH [OF c'(2)] show ?case by auto
qed

lemma run_no_fault: "rel c a \<Longrightarrow> crun cstep ops c \<noteq> None"
  using run_sim by fastforce

end

text \<open>The calls a client makes on a queue it owns, and what they return.\<close>

datatype 'a qop = Push_Tail 'a | Push_Head 'a | Push_After 'a 'a | Pop_Head | Peek_Head | Peek_Tail
  | Find "'a \<Rightarrow> bool" | Remove 'a | Remove_If "'a \<Rightarrow> bool" | Remove_All "('a \<Rightarrow> bool) option"
  | Foreach | Get_Length | Is_Empty

datatype 'a qres = RBool bool | RData "'a option" | RRemoved u32 "'a list" | RVisited "'a list" | RLength u32

definition qret :: "('x \<Rightarrow> 'a qres) \<Rightarrow> ('x \<times> 'a queue option) option \<Rightarrow> ('a qres \<times> 'a queue) option" where
  "qret mk r = (case r of Some (x, Some q') \<Rightarrow> Some (mk x, q') | _ \<Rightarrow> None)"

definition queue_step :: "'a qop \<Rightarrow> 'a queue \<Rightarrow> ('a qres \<times> 'a queue) option" where
  "queue_step op q =
     (let peek = (\<lambda>r. case r of Some x \<Rightarrow> Some (RData x, q) | None \<Rightarrow> None)
      in case op of
        Push_Tail x \<Rightarrow> qret RBool (queue_push_tail x (Some q))
      | Push_Head x \<Rightarrow> qret RBool (queue_push_head x (Some q))
      | Push_After e x \<Rightarrow> qret RBool (queue_push_after e x (Some q))
      | Pop_Head \<Rightarrow> qret RData (queue_pop_head (Some q))
      | Peek_Head \<Rightarrow> peek (queue_peek_head (Some q))
      | Peek_Tail \<Rightarrow> peek (queue_peek_tail (Some q))
      | Find P \<Rightarrow> peek (queue_find P (Some q))
      | Remove x \<Rightarrow> qret RBool (queue_remove x (Some q))
      | Remove_If P \<Rightarrow> qret RData (queue_remove_if P (Some q))
      | Remove_All f \<Rightarrow> (case queue_remove_all f (Some q) of
            Some (n, ds, Some q') \<Rightarrow> Some (RRemoved n ds, q') | _ \<Rightarrow> None)
      | Foreach \<Rightarrow> (case queue_foreach (Some (\<lambda>d (q, seen). (q, seen @ [d]))) (Some q) [] of
            Some (Some q', seen) \<Rightarrow> Some (RVisited seen, q') | _ \<Rightarrow> None)
      | Get_Length \<Rightarrow> Some (RLength (queue_length (Some q)), q)
      | Is_Empty \<Rightarrow> Some (RBool (queue_isempty (Some q)), q))"

definition lq_step :: "'a qop \<Rightarrow> 'a list \<Rightarrow> 'a qres \<times> 'a list" where
  "lq_step op xs = (case op of
        Push_Tail x \<Rightarrow> (RBool True, lq_push_tail x xs)
      | Push_Head x \<Rightarrow> (RBool True, lq_push_head x xs)
      | Push_After e x \<Rightarrow> (RBool (e \<in> set xs), lq_push_after (\<lambda>d. d = e) x xs)
      | Pop_Head \<Rightarrow> (RData (fst (lq_pop_head xs)), snd (lq_pop_head xs))
      | Peek_Head \<Rightarrow> (RData (lq_peek_head xs), xs)
      | Peek_Tail \<Rightarrow> (RData (lq_peek_tail xs), xs)
      | Find P \<Rightarrow> (RData (find P xs), xs)
      | Remove x \<Rightarrow> (RBool (x \<in> set xs), remove_first (\<lambda>d. d = x) xs)
      | Remove_If P \<Rightarrow> (RData (find P xs), remove_first P xs)
      | Remove_All f \<Rightarrow> (let P = (case f of None \<Rightarrow> \<lambda>_. True | Some P \<Rightarrow> P) in
            (RRemoved (of_nat (length (filter P xs))) (filter P xs), filter (\<lambda>x. \<not> P x) xs))
      | Foreach \<Rightarrow> (RVisited xs, xs)
      | Get_Length \<Rightarrow> (RLength (of_nat (length xs)), xs)
      | Is_Empty \<Rightarrow> (RBool (of_nat (length xs) = (0 :: u32)), xs))"

lemma fold_snoc: "fold (\<lambda>d s. s @ [d]) xs s = s @ xs"
  by (induction xs arbitrary: s) auto

lemma queue_step_sim:
  assumes "queue_abs q xs"
  shows "\<exists>q'. queue_step op q = Some (fst (lq_step op xs), q') \<and> queue_abs q' (snd (lq_step op xs))"
proof (cases op)
  case (Push_Tail x)
  with push_tail_abs [OF assms, of x] show ?thesis by (auto simp: queue_step_def qret_def lq_step_def)
next
  case (Push_Head x)
  with push_head_abs [OF assms, of x] show ?thesis by (auto simp: queue_step_def qret_def lq_step_def)
next
  case (Push_After e x)
  with push_after_abs [OF assms, of e x] show ?thesis by (auto simp: queue_step_def qret_def lq_step_def)
next
  case Pop_Head
  with pop_head_abs [OF assms] show ?thesis by (auto simp: queue_step_def qret_def lq_step_def)
next
  case (Remove x)
  with remove_abs [OF assms, of x] show ?thesis by (auto simp: queue_step_def qret_def lq_step_def)
next
  case (Remove_If P)
  with remove_if_abs [OF assms, of P] show ?thesis by (auto simp: queue_step_def qret_def lq_step_def lq_remove_if_def)
next
  case (Remove_All f)
  with remove_all_abs [OF assms, of f] show ?thesis by (auto simp: queue_step_def qret_def lq_step_def Let_def)
next
  case Foreach
  have "queue_foreach (Some (\<lambda>d (q, seen). (q, seen @ [d]))) (Some q) [] = Some (Some q, xs)"
    using foreach_abs [OF assms, of "\<lambda>d (q, seen). (q, seen @ [d])" "\<lambda>d s. s @ [d]" "[]"]
    by (simp add: fold_snoc)
  with Foreach assms show ?thesis by (simp add: queue_step_def qret_def lq_step_def)
qed (use assms peek_abs [OF assms] find_abs [OF assms] length_abs [OF assms] in
      \<open>simp_all add: queue_step_def qret_def lq_step_def queue_isempty_def queue_length_def\<close>)

interpretation queue_code: simulation queue_abs queue_step lq_step
  by unfold_locales (rule queue_step_sim)

text \<open>
  Claim C21. The pointer code of the queue implements the list machine: any sequence of calls on a
  queue fresh from \<^verbatim>\<open>queue_new\<close> follows every link to a live entry, returns what the same calls
  return on a list, and leaves a structure (links, tail, count, no lost entry) that represents the
  resulting list.
\<close>

theorem queue_runs_refine_lists:
  "\<exists>q'. crun queue_step ops queue_new = Some (fst (arun lq_step ops []), q') \<and>
     queue_abs q' (snd (arun lq_step ops []))"
  by (rule queue_code.run_sim [OF queue_new_abs])

end
