(* ===== verification/Bytes.thy ===== *)
theory Bytes
  imports Prelude
begin

text \<open>
  The fixed byte order accessors of \<^verbatim>\<open>src/shared/util.h\<close> (\<^verbatim>\<open>get_le16\<close>, \<^verbatim>\<open>put_le16\<close>, \<dots>) and
  \<^verbatim>\<open>bswap_128\<close> of \<^verbatim>\<open>lib/bluetooth.h\<close>. A write is the list of bytes it stores; a read takes the
  buffer and the offset of the pointer in it. Both are independent of the byte order of the
  host, as the macros \<^verbatim>\<open>le16_to_cpu\<close>, \<^verbatim>\<open>cpu_to_be32\<close>, \<dots> make the C functions.
\<close>

section \<open>Sixteen bits\<close>

definition put_le16 :: "u16 \<Rightarrow> bytes" where
  "put_le16 v = [ucast v, ucast (drop_bit 8 v)]"

definition get_le16 :: "bytes \<Rightarrow> nat \<Rightarrow> u16" where
  "get_le16 bs off = ucast (bs ! off) OR push_bit 8 (ucast (bs ! (off + 1)))"

definition put_be16 :: "u16 \<Rightarrow> bytes" where
  "put_be16 v = [ucast (drop_bit 8 v), ucast v]"

definition get_be16 :: "bytes \<Rightarrow> nat \<Rightarrow> u16" where
  "get_be16 bs off = push_bit 8 (ucast (bs ! off)) OR ucast (bs ! (off + 1))"

section \<open>Thirty-two and sixty-four bits\<close>

definition put_le32 :: "u32 \<Rightarrow> bytes" where
  "put_le32 v = put_le16 (ucast v) @ put_le16 (ucast (drop_bit 16 v))"

definition get_le32 :: "bytes \<Rightarrow> nat \<Rightarrow> u32" where
  "get_le32 bs off = ucast (get_le16 bs off) OR push_bit 16 (ucast (get_le16 bs (off + 2)))"

definition put_be32 :: "u32 \<Rightarrow> bytes" where
  "put_be32 v = put_be16 (ucast (drop_bit 16 v)) @ put_be16 (ucast v)"

definition get_be32 :: "bytes \<Rightarrow> nat \<Rightarrow> u32" where
  "get_be32 bs off = push_bit 16 (ucast (get_be16 bs off)) OR ucast (get_be16 bs (off + 2))"

definition put_le64 :: "u64 \<Rightarrow> bytes" where
  "put_le64 v = put_le32 (ucast v) @ put_le32 (ucast (drop_bit 32 v))"

definition get_le64 :: "bytes \<Rightarrow> nat \<Rightarrow> u64" where
  "get_le64 bs off = ucast (get_le32 bs off) OR push_bit 32 (ucast (get_le32 bs (off + 4)))"

definition put_be64 :: "u64 \<Rightarrow> bytes" where
  "put_be64 v = put_be32 (ucast (drop_bit 32 v)) @ put_be32 (ucast v)"

definition get_be64 :: "bytes \<Rightarrow> nat \<Rightarrow> u64" where
  "get_be64 bs off = push_bit 32 (ucast (get_be32 bs off)) OR ucast (get_be32 bs (off + 4))"

definition get_s8 :: "bytes \<Rightarrow> nat \<Rightarrow> int" where
  "get_s8 bs off = sint (bs ! off)"

definition get_u8 :: "bytes \<Rightarrow> nat \<Rightarrow> u8" where
  "get_u8 bs off = bs ! off"

text \<open>\<^verbatim>\<open>bswap_128\<close> copies sixteen bytes in reverse order.\<close>

definition bswap_128 :: "bytes \<Rightarrow> bytes" where
  "bswap_128 s = rev (take 16 s)"

section \<open>Lengths\<close>

lemma length_put [simp]:
  "length (put_le16 v) = 2" "length (put_be16 v) = 2"
  "length (put_le32 w) = 4" "length (put_be32 w) = 4"
  "length (put_le64 x) = 8" "length (put_be64 x) = 8"
  by (simp_all add: put_le16_def put_be16_def put_le32_def put_be32_def put_le64_def put_be64_def)

lemma length_bswap_128 [simp]: "length s = 16 \<Longrightarrow> length (bswap_128 s) = 16"
  by (simp add: bswap_128_def)

lemma bswap_128_invol: "length s = 16 \<Longrightarrow> bswap_128 (bswap_128 s) = s"
  by (simp add: bswap_128_def)

section \<open>Reading back what was written\<close>

lemma word16_split: "ucast (ucast v :: u8) OR push_bit 8 (ucast (ucast (drop_bit 8 v) :: u8)) = (v :: u16)"
  by (rule bit_word_eqI) (auto simp: bit_simps)

lemma word32_split: "ucast (ucast v :: u16) OR push_bit 16 (ucast (ucast (drop_bit 16 v) :: u16)) = (v :: u32)"
  by (rule bit_word_eqI) (auto simp: bit_simps)

lemma word64_split: "ucast (ucast v :: u32) OR push_bit 32 (ucast (ucast (drop_bit 32 v) :: u32)) = (v :: u64)"
  by (rule bit_word_eqI) (auto simp: bit_simps)

lemma get_put_le16 [byte_simps]: "get_le16 (pre @ put_le16 v @ post) (length pre) = v"
  by (simp add: get_le16_def put_le16_def nth_append word16_split)

lemma get_put_le16_0 [byte_simps]: "get_le16 (put_le16 v @ post) 0 = v"
  using get_put_le16 [of "[]"] by simp

lemma get_put_le16_1 [byte_simps]: "get_le16 (b # put_le16 v @ post) 1 = v"
  using get_put_le16 [of "[b]"] by simp

lemma get_le16_append: "off + 2 \<le> length xs \<Longrightarrow> get_le16 (xs @ ys) off = get_le16 xs off"
  by (simp add: get_le16_def nth_append)

lemma get_le16_shift: "get_le16 (xs @ ys) (length xs + off) = get_le16 ys off"
  by (simp add: get_le16_def nth_append)

lemma put_get_le16: "length bs = 2 \<Longrightarrow> put_le16 (get_le16 bs 0) = bs"
proof -
  assume "length bs = 2"
  then obtain a b where bs: "bs = [a, b]"
    by (metis (no_types, opaque_lifting) One_nat_def Suc_length_conv length_0_conv numeral_2_eq_2)
  have "ucast (ucast a OR push_bit 8 (ucast b :: u16)) = a"
    by (rule bit_word_eqI) (auto simp: bit_simps)
  moreover have "ucast (drop_bit 8 (ucast a OR push_bit 8 (ucast b :: u16))) = b"
    by (rule bit_word_eqI) (auto simp: bit_simps dest: bit_imp_le_length)
  ultimately show ?thesis by (simp add: bs get_le16_def put_le16_def)
qed

lemma get_put_be16 [byte_simps]: "get_be16 (pre @ put_be16 v @ post) (length pre) = v"
  by (simp add: get_be16_def put_be16_def nth_append word16_split or.commute)

lemma get_put_le32 [byte_simps]: "get_le32 (pre @ put_le32 v @ post) (length pre) = v"
proof -
  have "get_le16 (pre @ put_le32 v @ post) (length pre) = ucast v"
    using get_put_le16 [of pre "ucast v" "put_le16 (ucast (drop_bit 16 v)) @ post"]
    by (simp add: put_le32_def)
  moreover have "get_le16 (pre @ put_le32 v @ post) (length pre + 2) = ucast (drop_bit 16 v)"
    using get_put_le16 [of "pre @ put_le16 (ucast v)" "ucast (drop_bit 16 v)" post]
    by (simp add: put_le32_def)
  ultimately show ?thesis by (simp add: get_le32_def word32_split)
qed

lemma get_put_be32 [byte_simps]: "get_be32 (pre @ put_be32 v @ post) (length pre) = v"
proof -
  have "get_be16 (pre @ put_be32 v @ post) (length pre) = ucast (drop_bit 16 v)"
    using get_put_be16 [of pre "ucast (drop_bit 16 v)" "put_be16 (ucast v) @ post"]
    by (simp add: put_be32_def)
  moreover have "get_be16 (pre @ put_be32 v @ post) (length pre + 2) = ucast v"
    using get_put_be16 [of "pre @ put_be16 (ucast (drop_bit 16 v))" "ucast v" post]
    by (simp add: put_be32_def)
  ultimately show ?thesis by (simp add: get_be32_def word32_split or.commute)
qed

lemma get_put_le64 [byte_simps]: "get_le64 (pre @ put_le64 v @ post) (length pre) = v"
proof -
  have "get_le32 (pre @ put_le64 v @ post) (length pre) = ucast v"
    using get_put_le32 [of pre "ucast v" "put_le32 (ucast (drop_bit 32 v)) @ post"]
    by (simp add: put_le64_def)
  moreover have "get_le32 (pre @ put_le64 v @ post) (length pre + 4) = ucast (drop_bit 32 v)"
    using get_put_le32 [of "pre @ put_le32 (ucast v)" "ucast (drop_bit 32 v)" post]
    by (simp add: put_le64_def)
  ultimately show ?thesis by (simp add: get_le64_def word64_split)
qed

lemma put_le16_inj: "put_le16 a = put_le16 b \<longleftrightarrow> a = b"
  using get_put_le16_0 [of _ "[]"] by (metis append_Nil2)

lemma put_be16_inj: "put_be16 a = put_be16 b \<longleftrightarrow> a = b"
  using get_put_be16 [of "[]" _ "[]"] by (metis append_Nil append_Nil2)

lemma put_be32_inj: "put_be32 a = put_be32 b \<longleftrightarrow> a = b"
  using get_put_be32 [of "[]" _ "[]"] by (metis append_Nil append_Nil2)

end
