(* ===== verification/Uuid.thy ===== *)
theory Uuid
  imports Bytes
begin

text \<open>
  \<^verbatim>\<open>lib/uuid.c\<close> and \<^verbatim>\<open>lib/uuid.h\<close>: Bluetooth UUIDs of 16, 32 and 128 bits, their common 128 bit
  form, comparison, the little endian wire form, and the textual form. The tagged union
  \<^verbatim>\<open>bt_uuid_t\<close> is a datatype whose constructors are the tags. Strings are the characters
  before the terminating zero. \<open>sscanf\<close> and \<open>strtol\<close> are modelled as the C standard describes
  them, for the conversions the code uses.
\<close>

section \<open>The type\<close>

datatype bt_uuid =
    BT_UUID_UNSPEC
  | BT_UUID16 u16
  | BT_UUID32 u32
  | BT_UUID128 bytes  \<comment> \<open>the sixteen bytes of \<open>uint128_t\<close>, big endian\<close>

definition bt_uuid_len :: "bt_uuid \<Rightarrow> nat" where
  "bt_uuid_len uuid = (case uuid of BT_UUID_UNSPEC \<Rightarrow> 0 | BT_UUID16 _ \<Rightarrow> 16 div 8
     | BT_UUID32 _ \<Rightarrow> 32 div 8 | BT_UUID128 _ \<Rightarrow> 128 div 8)"

definition bt_uuid16_create :: "u16 \<Rightarrow> bt_uuid" where
  "bt_uuid16_create value = BT_UUID16 value"

definition bt_uuid32_create :: "u32 \<Rightarrow> bt_uuid" where
  "bt_uuid32_create value = BT_UUID32 value"

definition bt_uuid128_create :: "bytes \<Rightarrow> bt_uuid" where
  "bt_uuid128_create value = BT_UUID128 value"

text \<open>What the type does not say: a 128 bit value has sixteen bytes.\<close>

definition uuid_ok :: "bt_uuid \<Rightarrow> bool" where
  "uuid_ok uuid = (case uuid of BT_UUID_UNSPEC \<Rightarrow> False | BT_UUID16 _ \<Rightarrow> True | BT_UUID32 _ \<Rightarrow> True
     | BT_UUID128 d \<Rightarrow> length d = 16)"

section \<open>The 128 bit form\<close>

definition bluetooth_base_uuid :: bytes where
  "bluetooth_base_uuid = [0x00, 0x00, 0x00, 0x00, 0x00, 0x00, 0x10, 0x00,
     0x80, 0x00, 0x00, 0x80, 0x5F, 0x9B, 0x34, 0xFB]"

definition BASE_UUID16_OFFSET :: nat where "BASE_UUID16_OFFSET = 2"
definition BASE_UUID32_OFFSET :: nat where "BASE_UUID32_OFFSET = 0"

definition bt_uuid16_to_uuid128 :: "u16 \<Rightarrow> bt_uuid" where
  "bt_uuid16_to_uuid128 v =
     BT_UUID128 (memcpy_at bluetooth_base_uuid BASE_UUID16_OFFSET (put_be16 v))"

definition bt_uuid32_to_uuid128 :: "u32 \<Rightarrow> bt_uuid" where
  "bt_uuid32_to_uuid128 v =
     BT_UUID128 (memcpy_at bluetooth_base_uuid BASE_UUID32_OFFSET (put_be32 v))"

text \<open>\<open>None\<close>: the destination is not written (the type is unspecified).\<close>

definition bt_uuid_to_uuid128 :: "bt_uuid \<Rightarrow> bt_uuid option" where
  "bt_uuid_to_uuid128 src = (case src of
     BT_UUID128 d \<Rightarrow> Some (BT_UUID128 d)
   | BT_UUID32 v \<Rightarrow> Some (bt_uuid32_to_uuid128 v)
   | BT_UUID16 v \<Rightarrow> Some (bt_uuid16_to_uuid128 v)
   | BT_UUID_UNSPEC \<Rightarrow> None)"

fun u128_data :: "bt_uuid \<Rightarrow> bytes" where
  "u128_data (BT_UUID128 d) = d"
| "u128_data _ = []"

definition bt_uuid128_cmp :: "bt_uuid \<Rightarrow> bt_uuid \<Rightarrow> int" where
  "bt_uuid128_cmp u1 u2 = memcmp (u128_data u1) (u128_data u2)"

text \<open>\<open>None\<close>: the code compares a 128 bit form that was never written.\<close>

definition bt_uuid_cmp :: "bt_uuid \<Rightarrow> bt_uuid \<Rightarrow> int option" where
  "bt_uuid_cmp uuid1 uuid2 =
     (case (bt_uuid_to_uuid128 uuid1, bt_uuid_to_uuid128 uuid2) of
        (Some u1, Some u2) \<Rightarrow> Some (bt_uuid128_cmp u1 u2)
      | _ \<Rightarrow> None)"

text \<open>The callers' \<^verbatim>\<open>!bt_uuid_cmp(a, b)\<close>.\<close>

definition uuid_match :: "bt_uuid \<Rightarrow> bt_uuid \<Rightarrow> bool" where
  "uuid_match a b \<longleftrightarrow> bt_uuid_cmp a b = Some 0"

section \<open>The wire form\<close>

text \<open>The result code and what is stored at \<^verbatim>\<open>dst\<close>.\<close>

definition bt_uuid_to_le :: "bt_uuid \<Rightarrow> int \<times> bytes" where
  "bt_uuid_to_le src = (case src of
     BT_UUID16 v \<Rightarrow> (0, put_le16 v)
   | BT_UUID32 v \<Rightarrow> (0, bswap_128 (u128_data (bt_uuid32_to_uuid128 v)))
   | BT_UUID128 d \<Rightarrow> (0, bswap_128 d)
   | BT_UUID_UNSPEC \<Rightarrow> (- EINVAL, []))"

section \<open>The text form\<close>

definition hexdigit :: "int \<Rightarrow> char" where
  "hexdigit n = ''0123456789abcdef'' ! nat n"

text \<open>\<open>%.nx\<close> of a value below \<open>16 ^ n\<close>.\<close>

fun hex_string :: "nat \<Rightarrow> int \<Rightarrow> string" where
  "hex_string 0 v = []"
| "hex_string (Suc n) v = hex_string n (v div 16) @ [hexdigit (v mod 16)]"

text \<open>The text of a UUID in 128 bit form, and \<^verbatim>\<open>snprintf\<close>'s truncation to the buffer.\<close>

definition uuid128_string :: "bytes \<Rightarrow> string" where
  "uuid128_string data =
     hex_string 8 (uint (get_be32 data 0)) @ ''-'' @
     hex_string 4 (uint (get_be16 data 4)) @ ''-'' @
     hex_string 4 (uint (get_be16 data 6)) @ ''-'' @
     hex_string 4 (uint (get_be16 data 8)) @ ''-'' @
     hex_string 8 (uint (get_be32 data 10)) @ hex_string 4 (uint (get_be16 data 14))"

definition bt_uuid_to_string :: "bt_uuid option \<Rightarrow> nat \<Rightarrow> int \<times> string" where
  "bt_uuid_to_string uuid n = (case uuid of
     None \<Rightarrow> (- EINVAL, take (n - 1) ''NULL'')
   | Some u \<Rightarrow> (case bt_uuid_to_uuid128 u of
        None \<Rightarrow> (- EINVAL, take (n - 1) ''NULL'')
      | Some tmp \<Rightarrow> (0, take (n - 1) (uuid128_string (u128_data tmp)))))"

definition is_uuid128 :: "string \<Rightarrow> bool" where
  "is_uuid128 s \<longleftrightarrow> length s = 36 \<and> s ! 8 = CHR ''-'' \<and> s ! 13 = CHR ''-'' \<and>
     s ! 18 = CHR ''-'' \<and> s ! 23 = CHR ''-''"

definition is_uuid32 :: "string \<Rightarrow> bool" where
  "is_uuid32 s \<longleftrightarrow> length s = 8 \<or> length s = 10"

definition is_uuid16 :: "string \<Rightarrow> bool" where
  "is_uuid16 s \<longleftrightarrow> length s = 4 \<or> length s = 6"

subsection \<open>\<open>sscanf\<close> and \<open>strtol\<close>\<close>

definition isspace :: "char \<Rightarrow> bool" where
  "isspace c \<longleftrightarrow> c = CHR '' '' \<or> (9 \<le> (of_char c :: int) \<and> (of_char c :: int) \<le> 13)"

definition hexval :: "char \<Rightarrow> int option" where
  "hexval c = (let n = (of_char c :: int) in
     if 48 \<le> n \<and> n \<le> 57 then Some (n - 48)
     else if 97 \<le> n \<and> n \<le> 102 then Some (n - 87)
     else if 65 \<le> n \<and> n \<le> 70 then Some (n - 55)
     else None)"

text \<open>At most \<open>w\<close> hexadecimal digits: how many there were, their value, and the rest.\<close>

fun hex_digits :: "nat \<Rightarrow> nat \<Rightarrow> int \<Rightarrow> string \<Rightarrow> nat \<times> int \<times> string" where
  "hex_digits (Suc w) k acc (c # cs) = (case hexval c of
      None \<Rightarrow> (k, acc, c # cs)
    | Some d \<Rightarrow> hex_digits w (Suc k) (16 * acc + d) cs)"
| "hex_digits _ k acc cs = (k, acc, cs)"

definition hex_sign :: "nat \<Rightarrow> string \<Rightarrow> bool \<times> nat \<times> string" where
  "hex_sign w cs = (case cs of [] \<Rightarrow> (False, w, cs)
    | c # r \<Rightarrow> if (c = CHR ''-'' \<or> c = CHR ''+'') \<and> 0 < w then (c = CHR ''-'', w - 1, r)
              else (False, w, cs))"

definition hex_prefix :: "nat \<Rightarrow> string \<Rightarrow> bool \<times> nat \<times> string" where
  "hex_prefix w cs = (case cs of
      z # x # r \<Rightarrow> if z = CHR ''0'' \<and> (x = CHR ''x'' \<or> x = CHR ''X'') \<and> 2 \<le> w
                 then (True, w - 2, r) else (False, w, cs)
    | _ \<Rightarrow> (False, w, cs))"

text \<open>A \<open>%wx\<close> conversion: the value (as an integer, negated by a minus sign) and the rest.\<close>

definition scan_hex :: "nat \<Rightarrow> string \<Rightarrow> (int \<times> string) option" where
  "scan_hex w s =
     (let (neg, w1, s1) = hex_sign w (dropWhile isspace s);
          (_, w2, s2) = hex_prefix w1 s1;
          (k, v, r) = hex_digits w2 0 0 s2
      in if k = 0 then None else Some (if neg then - v else v, r))"

definition scan_lit :: "string \<Rightarrow> string \<Rightarrow> string option" where
  "scan_lit lit s = (if take (length lit) s = lit then Some (drop (length lit) s) else None)"

text \<open>A \<open>%1[ab]\<close> conversion.\<close>

definition scan_set1 :: "string \<Rightarrow> string \<Rightarrow> string option" where
  "scan_set1 cset s = (case s of c # r \<Rightarrow> if c \<in> set cset then Some r else None | [] \<Rightarrow> None)"

text \<open>
  \<open>strtol(s, &endptr, 16)\<close> on strings too short to overflow a \<open>long\<close>: the value and the rest at
  \<open>endptr\<close>. With no digits after the prefix \<open>0x\<close> the number is the \<open>0\<close>; with no digits at all
  nothing is consumed.
\<close>

definition strtol16 :: "string \<Rightarrow> int \<times> string" where
  "strtol16 s =
     (let (neg, _, s1) = hex_sign (length s + 1) (dropWhile isspace s);
          (pre, _, s2) = hex_prefix (length s + 1) s1;
          (k, v, r) = hex_digits (length s + 1) 0 0 s2
      in if k = 0 then (if pre then (0, tl s1) else (0, s))
         else (if neg then - v else v, r))"

text \<open>The format \<^verbatim>\<open>0000%04hx-0000-1000-8000-00805%1[fF]9%1[bB]34%1[fF]%1[bB]\<close>, all five
  conversions made; \<open>base_uuid_tail\<close> is the part after the second one.\<close>

definition base_uuid_tail :: "string \<Rightarrow> bool" where
  "base_uuid_tail s2 =
     (case scan_lit ''-0000-1000-8000-00805'' s2 of None \<Rightarrow> False | Some s3 \<Rightarrow>
     (case scan_set1 ''fF'' s3 of None \<Rightarrow> False | Some s4 \<Rightarrow>
     (case scan_lit ''9'' s4 of None \<Rightarrow> False | Some s5 \<Rightarrow>
     (case scan_set1 ''bB'' s5 of None \<Rightarrow> False | Some s6 \<Rightarrow>
     (case scan_lit ''34'' s6 of None \<Rightarrow> False | Some s7 \<Rightarrow>
     (case scan_set1 ''fF'' s7 of None \<Rightarrow> False | Some s8 \<Rightarrow>
      scan_set1 ''bB'' s8 \<noteq> None))))))"

definition is_base_uuid128 :: "string \<Rightarrow> bool" where
  "is_base_uuid128 s = (if \<not> is_uuid128 s then False else
     (case scan_lit ''0000'' s of None \<Rightarrow> False | Some s1 \<Rightarrow>
     (case scan_hex 4 s1 of None \<Rightarrow> False | Some (_, s2) \<Rightarrow> base_uuid_tail s2)))"

text \<open>The UUID a string denotes; \<open>None\<close> is \<^verbatim>\<open>-EINVAL\<close>.\<close>

definition bt_string_to_uuid16 :: "string \<Rightarrow> bt_uuid option" where
  "bt_string_to_uuid16 s = (let (v, endp) = strtol16 s in
     if endp = [] \<or> hd endp = CHR ''-'' then Some (bt_uuid16_create (of_int v)) else None)"

definition bt_string_to_uuid32 :: "string \<Rightarrow> bt_uuid option" where
  "bt_string_to_uuid32 s = (let (v, endp) = strtol16 s in
     if endp = [] then Some (bt_uuid32_create (of_int v)) else None)"

definition bt_string_to_uuid128 :: "string \<Rightarrow> bt_uuid option" where
  "bt_string_to_uuid128 s =
     (case scan_hex 8 s of None \<Rightarrow> None | Some (data0, s0) \<Rightarrow>
     (case scan_lit ''-'' s0 of None \<Rightarrow> None | Some s1 \<Rightarrow>
     (case scan_hex 4 s1 of None \<Rightarrow> None | Some (data1, s2) \<Rightarrow>
     (case scan_lit ''-'' s2 of None \<Rightarrow> None | Some s3 \<Rightarrow>
     (case scan_hex 4 s3 of None \<Rightarrow> None | Some (data2, s4) \<Rightarrow>
     (case scan_lit ''-'' s4 of None \<Rightarrow> None | Some s5 \<Rightarrow>
     (case scan_hex 4 s5 of None \<Rightarrow> None | Some (data3, s6) \<Rightarrow>
     (case scan_lit ''-'' s6 of None \<Rightarrow> None | Some s7 \<Rightarrow>
     (case scan_hex 8 s7 of None \<Rightarrow> None | Some (data4, s8) \<Rightarrow>
     (case scan_hex 4 s8 of None \<Rightarrow> None | Some (data5, _) \<Rightarrow>
        Some (bt_uuid128_create
          (put_be32 (of_int data0) @ put_be16 (of_int data1) @ put_be16 (of_int data2) @
           put_be16 (of_int data3) @ put_be32 (of_int data4) @ put_be16 (of_int data5)))))))))))))"

definition bt_string_to_uuid :: "string \<Rightarrow> bt_uuid option" where
  "bt_string_to_uuid s =
     (if is_base_uuid128 s then bt_string_to_uuid16 (drop 4 s)
      else if is_uuid128 s then bt_string_to_uuid128 s
      else if is_uuid32 s then bt_string_to_uuid32 s
      else if is_uuid16 s then bt_string_to_uuid16 s
      else None)"

definition bt_uuid_strcmp :: "string \<Rightarrow> string \<Rightarrow> int option" where
  "bt_uuid_strcmp a b = (case bt_string_to_uuid a of None \<Rightarrow> Some (- EINVAL) | Some u1 \<Rightarrow>
     (case bt_string_to_uuid b of None \<Rightarrow> Some (- EINVAL) | Some u2 \<Rightarrow> bt_uuid_cmp u1 u2))"

section \<open>Comparison\<close>

lemma length_base [simp]: "length bluetooth_base_uuid = 16"
  by (simp add: bluetooth_base_uuid_def)

lemma uuid_ok_128:
  assumes "uuid_ok u"
  obtains d where "bt_uuid_to_uuid128 u = Some (BT_UUID128 d)" "length d = 16"
  using assms
  by (cases u) (auto simp: uuid_ok_def bt_uuid_to_uuid128_def bt_uuid16_to_uuid128_def
      bt_uuid32_to_uuid128_def BASE_UUID16_OFFSET_def BASE_UUID32_OFFSET_def)

lemma uuid_match_iff:
  assumes "uuid_ok a" and "uuid_ok b"
  shows "uuid_match a b \<longleftrightarrow> bt_uuid_to_uuid128 a = bt_uuid_to_uuid128 b"
proof -
  obtain d e where "bt_uuid_to_uuid128 a = Some (BT_UUID128 d)" "length d = 16"
      "bt_uuid_to_uuid128 b = Some (BT_UUID128 e)" "length e = 16"
    using uuid_ok_128 [OF assms(1)] uuid_ok_128 [OF assms(2)] by metis
  then show ?thesis
    by (simp add: uuid_match_def bt_uuid_cmp_def bt_uuid128_cmp_def memcmp_eq_0)
qed

lemma uuid_match_refl: "uuid_ok a \<Longrightarrow> uuid_match a a"
  by (simp add: uuid_match_iff)

lemma uuid_match_sym: "uuid_match a b \<Longrightarrow> uuid_match b a"
  by (auto simp: uuid_match_def bt_uuid_cmp_def bt_uuid128_cmp_def split: option.splits)
    (metis memcmp_swap minus_zero)

lemma uuid_match_trans:
  "uuid_ok a \<Longrightarrow> uuid_ok b \<Longrightarrow> uuid_ok c \<Longrightarrow> uuid_match a b \<Longrightarrow> uuid_match b c \<Longrightarrow> uuid_match a c"
  by (simp add: uuid_match_iff)

lemma uuid16_to_128: "bt_uuid_to_uuid128 (BT_UUID16 v) =
    Some (BT_UUID128 ([0, 0] @ put_be16 v @ drop 4 bluetooth_base_uuid))"
  by (simp add: bt_uuid_to_uuid128_def bt_uuid16_to_uuid128_def memcpy_at_def BASE_UUID16_OFFSET_def)
    (simp add: bluetooth_base_uuid_def)

lemma uuid16_match [simp]: "uuid_match (BT_UUID16 a) (BT_UUID16 b) \<longleftrightarrow> a = b"
  by (simp add: uuid_match_iff uuid_ok_def uuid16_to_128 put_be16_inj)

lemma uuid_match_uuid16:
  assumes "uuid_match u (BT_UUID16 v)" and "uuid_ok u"
  shows "uuid_match u (BT_UUID16 w) \<longleftrightarrow> v = w"
proof
  assume "uuid_match u (BT_UUID16 w)"
  with assms have "uuid_match (BT_UUID16 v) (BT_UUID16 w)"
    by (simp add: uuid_match_iff uuid_ok_def del: uuid16_match)
  then show "v = w" by simp
qed (use assms in simp)

section \<open>Text round trip\<close>

lemma length_hex_string [simp]: "length (hex_string n v) = n"
  by (induction n arbitrary: v) auto

lemma nibble_set:
  assumes "(0::int) \<le> n" and "n < 16"
  shows "n \<in> set [0..15]"
  using assms by simp

lemma nibble_all: "\<forall>n \<in> set [0..15]. hexval (hexdigit n) = Some n \<and> hexdigit n \<in> set ''0123456789abcdef''"
  by code_simp

lemma hexval_hexdigit: "0 \<le> n \<Longrightarrow> n < 16 \<Longrightarrow> hexval (hexdigit n) = Some n"
proof -
  assume "0 \<le> n" "n < 16"
  then show ?thesis
    using nibble_set nibble_all by blast
qed

lemma set_hex_string: "c \<in> set (hex_string n v) \<Longrightarrow> c \<in> set ''0123456789abcdef''"
proof (induction n arbitrary: v)
  case 0
  then show ?case by simp
next
  case (Suc n)
  have *: "hexdigit (v mod 16) \<in> set ''0123456789abcdef''"
    using nibble_set [of "v mod 16"] nibble_all by simp
  from Suc.prems have "c \<in> set (hex_string n (v div 16)) \<or> c = hexdigit (v mod 16)" by auto
  with Suc.IH * show ?case by blast
qed

lemma hex_digits_hex_string:
  "0 \<le> v \<Longrightarrow> v < 16 ^ n \<Longrightarrow> n \<le> w \<Longrightarrow>
   hex_digits w k acc (hex_string n v @ r) = hex_digits (w - n) (k + n) (acc * 16 ^ n + v) r"
proof (induction n arbitrary: v r)
  case 0
  then have "v = 0" by simp
  then show ?case by simp
next
  case (Suc n)
  have "0 \<le> v div 16" "v div 16 < 16 ^ n" using Suc.prems by auto
  moreover obtain m where m: "w - n = Suc m" "w - Suc n = m"
    using Suc.prems by (metis Suc_diff_Suc Suc_le_eq)
  ultimately have "hex_digits w k acc (hex_string (Suc n) v @ r) =
      hex_digits m (Suc (k + n)) (16 * (acc * 16 ^ n + v div 16) + v mod 16) r"
    using Suc.IH [of "v div 16" "hexdigit (v mod 16) # r"] Suc.prems
    by (simp add: hexval_hexdigit)
  moreover have "16 * (acc * 16 ^ n + v div 16) + v mod 16 = acc * 16 ^ Suc n + v"
    by (simp add: algebra_simps)
  ultimately show ?case by (simp only: m(2) add_Suc_right)
qed

lemma scan_hex_hex_string:
  assumes "0 \<le> v" and "v < 16 ^ n" and "2 \<le> n"
  shows "scan_hex n (hex_string n v @ r) = Some (v, r)"
    and "(r = [] \<or> hd r = CHR ''-'') \<Longrightarrow> strtol16 (hex_string n v @ r) = (v, r)"
proof -
  obtain a b cs where s: "hex_string n v = a # b # cs"
    using assms(3) by (metis Suc_le_length_iff length_hex_string numeral_2_eq_2)
  have "a \<in> set ''0123456789abcdef''" "b \<in> set ''0123456789abcdef''"
    by (rule set_hex_string [of _ n v], simp add: s)+
  then have a: "\<not> isspace a" "a \<noteq> CHR ''-''" "a \<noteq> CHR ''+''" and b: "b \<noteq> CHR ''x''" "b \<noteq> CHR ''X''"
    by (auto simp: isspace_def)
  have sign: "hex_sign w (a # t) = (False, w, a # t)" for w t
    using a by (simp add: hex_sign_def)
  have pre: "hex_prefix w (a # b # t) = (False, w, a # b # t)" for w t
    using b by (auto simp: hex_prefix_def)
  show "scan_hex n (hex_string n v @ r) = Some (v, r)"
    using hex_digits_hex_string [of v n n 0 0 r] assms a
    by (simp add: s scan_hex_def sign pre)
  assume r: "r = [] \<or> hd r = CHR ''-''"
  have "hex_digits (Suc (length r)) n v r = (n, v, r)"
    using r by (cases r) (auto simp: hexval_def)
  then have "hex_digits (length (hex_string n v @ r) + 1) 0 0 (hex_string n v @ r) = (n, v, r)"
    using hex_digits_hex_string [of v n "Suc (n + length r)" 0 0 r] assms by simp
  then have "hex_digits (length (a # b # cs @ r) + 1) 0 0 (a # b # cs @ r) = (n, v, r)"
    by (simp only: s append_Cons)
  then show "strtol16 (hex_string n v @ r) = (v, r)"
    using assms(3) a by (simp add: s strtol16_def sign pre del: hex_digits.simps)
qed

lemma hex_string_inj:
  assumes "hex_string n v = hex_string n w" "0 \<le> v" "v < 16 ^ n" "0 \<le> w" "w < 16 ^ n"
  shows "v = w"
  using hex_digits_hex_string [of v n n 0 0 "[]"] hex_digits_hex_string [of w n n 0 0 "[]"] assms
  by simp

lemma hex_string_append:
  "0 \<le> v \<Longrightarrow> hex_string (m + n) v = hex_string m (v div 16 ^ n) @ hex_string n (v mod 16 ^ n)"
proof (induction n arbitrary: v)
  case 0
  then show ?case by simp
next
  case (Suc n)
  have "v div 16 div 16 ^ n = v div 16 ^ Suc n"
    by (simp add: zdiv_zmult2_eq)
  moreover have "v div 16 mod 16 ^ n = v mod 16 ^ Suc n div 16"
    by (simp add: zmod_zmult2_eq)
  moreover have "v mod 16 ^ Suc n mod 16 = v mod 16" by (simp add: mod_mod_cancel)
  ultimately show ?case using Suc by simp
qed

section \<open>From text to UUID and back\<close>

lemma length_uuid128_string [simp]: "length (uuid128_string d) = 36"
  by (simp add: uuid128_string_def)

lemma is_uuid128_string: "is_uuid128 (uuid128_string d)"
  by (simp add: is_uuid128_def uuid128_string_def nth_append)

lemma put_be16_get_be16: "put_be16 (get_be16 d i) = [d ! i, d ! (i + 1)]"
proof -
  have "ucast (drop_bit 8 (push_bit 8 (ucast a) OR ucast b :: u16)) = a" for a b :: u8
    by (rule bit_word_eqI) (auto simp: bit_simps dest: bit_imp_le_length)
  moreover have "ucast (push_bit 8 (ucast a) OR ucast b :: u16) = b" for a b :: u8
    by (rule bit_word_eqI) (auto simp: bit_simps)
  ultimately show ?thesis by (simp add: get_be16_def put_be16_def)
qed

lemma put_be32_get_be32:
  "put_be32 (get_be32 d i) = [d ! i, d ! (i + 1), d ! (i + 2), d ! (i + 3)]"
proof -
  have "ucast (drop_bit 16 (push_bit 16 (ucast a) OR ucast b :: u32)) = a" for a b :: u16
    by (rule bit_word_eqI) (auto simp: bit_simps dest: bit_imp_le_length)
  moreover have "ucast (push_bit 16 (ucast a) OR ucast b :: u32) = b" for a b :: u16
    by (rule bit_word_eqI) (auto simp: bit_simps)
  ultimately show ?thesis by (simp add: get_be32_def put_be32_def put_be16_get_be16 numeral_3_eq_3)
qed

lemma list16: "length d = 16 \<Longrightarrow> d = [d ! 0, d ! 1, d ! 2, d ! 3, d ! 4, d ! 5, d ! 6, d ! 7,
    d ! 8, d ! 9, d ! 10, d ! 11, d ! 12, d ! 13, d ! 14, d ! 15]"
  by (rule nth_equalityI) (auto simp: less_Suc_eq numeral_eq_Suc)

lemma uint_bounds:
  "0 \<le> uint (w :: u16)" "uint (w :: u16) < 16 ^ 4" "0 \<le> uint (x :: u32)" "uint (x :: u32) < 16 ^ 8"
  using uint_lt2p [of w] uint_lt2p [of x] by simp_all

lemma scan_lit_append: "scan_lit l (l @ r) = Some r"
  by (simp add: scan_lit_def)

lemma bt_string_to_uuid128_string:
  assumes "length d = 16"
  shows "bt_string_to_uuid128 (uuid128_string d) = Some (BT_UUID128 d)"
proof -
  note scan = scan_hex_hex_string(1) [OF uint_bounds(1,2)] scan_hex_hex_string(1) [OF uint_bounds(3,4)]
  have dash: "scan_lit ''-'' (CHR ''-'' # r) = Some r" for r
    by (simp add: scan_lit_def)
  have last: "scan_hex 4 (hex_string 4 (uint (get_be16 d 14))) = Some (uint (get_be16 d 14), [])"
    using scan(1) [of "get_be16 d 14" "[]"] by simp
  show ?thesis
    using list16 [OF assms, symmetric]
    by (simp add: numeral_2_eq_2 bt_string_to_uuid128_def uuid128_string_def scan dash last bt_uuid128_create_def
        put_be16_get_be16 put_be32_get_be32)
qed

lemma uint_halves:
  "uint (get_be32 d i) div 16 ^ 4 = uint (get_be16 d i)"
  "uint (get_be32 d i) mod 16 ^ 4 = uint (get_be16 d (i + 2))"
proof -
  have hi: "uint (ucast (drop_bit 16 w) :: u16) = uint w div 65536" for w :: u32
  proof -
    have "uint w div 65536 < 65536" "0 \<le> uint w div 65536"
      using uint_lt2p [of w] by (simp_all add: pos_imp_zdiv_nonneg_iff)
    then show ?thesis
      by (simp add: unsigned_ucast_eq take_bit_eq_mod drop_bit_eq_div uint_div mod_pos_pos_trivial)
  qed
  have lo: "uint (ucast w :: u16) = uint w mod 65536" for w :: u32
    by (simp add: unsigned_ucast_eq take_bit_eq_mod)
  have "ucast (drop_bit 16 (get_be32 d i)) = get_be16 d i"
    unfolding get_be32_def
    by (rule bit_word_eqI) (auto simp: bit_simps dest: bit_imp_le_length)
  with hi [of "get_be32 d i"] show "uint (get_be32 d i) div 16 ^ 4 = uint (get_be16 d i)"
    by simp
  have "ucast (get_be32 d i) = get_be16 d (i + 2)"
    unfolding get_be32_def by (rule bit_word_eqI) (auto simp: bit_simps)
  with lo [of "get_be32 d i"] show "uint (get_be32 d i) mod 16 ^ 4 = uint (get_be16 d (i + 2))"
    by simp
qed

lemma hex8_halves:
  "hex_string 8 (uint (get_be32 d i)) =
     hex_string 4 (uint (get_be16 d i)) @ hex_string 4 (uint (get_be16 d (i + 2)))"
  using hex_string_append [of "uint (get_be32 d i)" 4 4]
  by (simp only: uint_halves uint_ge_0 simp_thms) (simp add: numeral_2_eq_2)

lemma list4: "length s = 4 \<Longrightarrow> \<exists>a b c d. s = [a, b, c, d]"
  by (auto simp: numeral_eq_Suc length_Suc_conv)

lemma list8: "length s = 8 \<Longrightarrow> \<exists>a b c d e f g h. s = [a, b, c, d, e, f, g, h]"
  by (auto simp: numeral_eq_Suc length_Suc_conv)

lemma base_uuid_tail_string:
  assumes "base_uuid_tail (''-'' @ C @ ''-'' @ D @ ''-'' @ E @ ''-'' @ F @ G)"
    and "length C = 4" "length D = 4" "length E = 4" "length F = 8" "length G = 4"
    and "set (F @ G) \<subseteq> set ''0123456789abcdef''"
  shows "C = ''0000'' \<and> D = ''1000'' \<and> E = ''8000'' \<and> F = ''00805f9b'' \<and> G = ''34fb''"
proof -
  obtain c0 c1 c2 c3 d0 d1 d2 d3 e0 e1 e2 e3 where "C = [c0, c1, c2, c3]" "D = [d0, d1, d2, d3]"
      "E = [e0, e1, e2, e3]"
    using list4 [OF assms(2)] list4 [OF assms(3)] list4 [OF assms(4)] by blast
  moreover obtain f0 f1 f2 f3 f4 f5 f6 f7 g0 g1 g2 g3 where
      "F = [f0, f1, f2, f3, f4, f5, f6, f7]" "G = [g0, g1, g2, g3]"
    using list8 [OF assms(5)] list4 [OF assms(6)] by blast
  ultimately show ?thesis
    using assms(1,7)
    by (simp add: base_uuid_tail_def scan_lit_def scan_set1_def split: if_splits) auto
qed

lemma base_uuid_string:
  assumes "is_base_uuid128 (uuid128_string d)"
  shows "hex_string 4 (uint (get_be16 d 0)) = ''0000'' \<and> hex_string 4 (uint (get_be16 d 4)) = ''0000'' \<and>
    hex_string 4 (uint (get_be16 d 6)) = ''1000'' \<and> hex_string 4 (uint (get_be16 d 8)) = ''8000'' \<and>
    hex_string 8 (uint (get_be32 d 10)) = ''00805f9b'' \<and> hex_string 4 (uint (get_be16 d 14)) = ''34fb''"
proof -
  let ?A = "hex_string 4 (uint (get_be16 d 0))" and ?B = "hex_string 4 (uint (get_be16 d 2))"
  let ?R = "''-'' @ hex_string 4 (uint (get_be16 d 4)) @ ''-'' @ hex_string 4 (uint (get_be16 d 6)) @
    ''-'' @ hex_string 4 (uint (get_be16 d 8)) @ ''-'' @ hex_string 8 (uint (get_be32 d 10)) @
    hex_string 4 (uint (get_be16 d 14))"
  have s: "uuid128_string d = ?A @ ?B @ ?R"
    by (simp only: uuid128_string_def hex8_halves [of d 0] append_assoc add_0)
  have A: "?A = ''0000''"
    using assms by (simp add: is_base_uuid128_def scan_lit_def s split: if_splits)
  have B: "scan_hex 4 (?B @ ?R) = Some (uint (get_be16 d 2), ?R)"
    using uint_bounds(1,2) [of "get_be16 d 2"] by (intro scan_hex_hex_string(1)) simp_all
  have "scan_lit ''0000'' (uuid128_string d) = Some (?B @ ?R)"
    unfolding s A by (rule scan_lit_append)
  with assms have "base_uuid_tail ?R"
    by (simp only: is_base_uuid128_def is_uuid128_string simp_thms if_False option.case B prod.case)
  moreover have "set (hex_string 8 v @ hex_string 4 w) \<subseteq> set ''0123456789abcdef''" for v w
    unfolding set_append by (intro Un_least subsetI; erule set_hex_string)
  ultimately show ?thesis
    using A base_uuid_tail_string length_hex_string by blast
qed

lemma base_uuid_bytes:
  assumes "length d = 16" and "is_base_uuid128 (uuid128_string d)"
  shows "bt_uuid_to_uuid128 (BT_UUID16 (get_be16 d 2)) = Some (BT_UUID128 d)"
proof -
  note h = base_uuid_string [OF assms(2)]
  have eq4: "get_be16 d i = v" if "hex_string 4 (uint (get_be16 d i)) = hex_string 4 (uint v)" for i v
    using hex_string_inj [OF that] uint_bounds(1,2) by (simp add: word_uint_eq_iff)
  have eq8: "get_be32 d i = v" if "hex_string 8 (uint (get_be32 d i)) = hex_string 8 (uint v)" for i v
    using hex_string_inj [OF that] uint_bounds(3,4) by (simp add: word_uint_eq_iff)
  have lits: "hex_string 4 (uint (0 :: u16)) = ''0000''" "hex_string 4 (uint (0x1000 :: u16)) = ''1000''"
      "hex_string 4 (uint (0x8000 :: u16)) = ''8000''" "hex_string 4 (uint (0x34fb :: u16)) = ''34fb''"
      "hex_string 8 (uint (0x00805f9b :: u32)) = ''00805f9b''"
    by code_simp+
  have g: "get_be16 d 0 = 0" "get_be16 d 4 = 0" "get_be16 d 6 = 0x1000" "get_be16 d 8 = 0x8000"
      "get_be32 d 10 = 0x00805f9b" "get_be16 d 14 = 0x34fb"
    by (rule eq4 eq8, simp only: h lits)+
  have b16: "[d ! i, d ! (i + 1)] = put_be16 v" if "get_be16 d i = v" for i v
    using that put_be16_get_be16 by metis
  have b32: "[d ! i, d ! (i + 1), d ! (i + 2), d ! (i + 3)] = put_be32 v" if "get_be32 d i = v" for i v
    using that put_be32_get_be32 by metis
  have puts: "put_be16 0 = [0, 0]" "put_be16 0x1000 = [0x10, 0]" "put_be16 0x8000 = [0x80, 0]"
      "put_be16 0x34fb = [0x34, 0xfb]" "put_be32 0x00805f9b = [0, 0x80, 0x5f, 0x9b]"
    by code_simp+
  have "[0, 0] @ put_be16 (get_be16 d 2) @ drop 4 bluetooth_base_uuid = d"
    unfolding put_be16_get_be16
    using list16 [OF assms(1), symmetric] b16 [OF g(1)] b16 [OF g(2)] b16 [OF g(3)] b16 [OF g(4)]
      b32 [OF g(5)] b16 [OF g(6)]
    unfolding puts by (simp add: bluetooth_base_uuid_def numeral_3_eq_3)
  then show ?thesis by (simp only: uuid16_to_128)
qed

lemma bt_string_to_uuid16_string:
  "bt_string_to_uuid16 (drop 4 (uuid128_string d)) = Some (BT_UUID16 (get_be16 d 2))"
proof -
  let ?R = "''-'' @ hex_string 4 (uint (get_be16 d 4)) @ ''-'' @ hex_string 4 (uint (get_be16 d 6)) @
    ''-'' @ hex_string 4 (uint (get_be16 d 8)) @ ''-'' @ hex_string 8 (uint (get_be32 d 10)) @
    hex_string 4 (uint (get_be16 d 14))"
  have "drop 4 (uuid128_string d) = hex_string 4 (uint (get_be16 d 2)) @ ?R"
    by (simp add: uuid128_string_def hex8_halves [of d 0] numeral_2_eq_2)
  moreover have "strtol16 (hex_string 4 (uint (get_be16 d 2)) @ ?R) = (uint (get_be16 d 2), ?R)"
    using uint_bounds(1,2) [of "get_be16 d 2"] by (intro scan_hex_hex_string(2)) simp_all
  ultimately show ?thesis
    by (simp add: bt_string_to_uuid16_def bt_uuid16_create_def)
qed

text \<open>
  Claim C27. Printing a UUID and parsing the text gives back the same UUID: whatever its width,
  \<^verbatim>\<open>bt_string_to_uuid\<close> on the output of \<^verbatim>\<open>bt_uuid_to_string\<close> succeeds with a UUID that
  \<^verbatim>\<open>bt_uuid_cmp\<close> finds equal (a short form of the Bluetooth base UUID may come back as its 16
  bit form). The buffer of \<^verbatim>\<open>MAX_LEN_UUID_STR\<close> (37) bytes is long enough.
\<close>

theorem uuid_string_roundtrip:
  assumes "uuid_ok u"
  shows "\<exists>s v. bt_uuid_to_string (Some u) 37 = (0, s) \<and> bt_string_to_uuid s = Some v \<and> uuid_match v u"
proof -
  obtain d where d: "bt_uuid_to_uuid128 u = Some (BT_UUID128 d)" "length d = 16"
    using assms by (rule uuid_ok_128)
  have "bt_uuid_to_string (Some u) 37 = (0, uuid128_string d)"
    by (simp add: bt_uuid_to_string_def d(1))
  moreover have "\<exists>v. bt_string_to_uuid (uuid128_string d) = Some v \<and> uuid_match v u"
  proof (cases "is_base_uuid128 (uuid128_string d)")
    case True
    then show ?thesis
      using bt_string_to_uuid16_string [of d] base_uuid_bytes [OF d(2) True] assms d(1)
      by (simp add: bt_string_to_uuid_def uuid_match_iff uuid_ok_def)
  next
    case False
    then show ?thesis
      using bt_string_to_uuid128_string [OF d(2)] is_uuid128_string [of d] assms d
      by (simp add: bt_string_to_uuid_def uuid_match_iff uuid_ok_def)
        (simp add: bt_uuid_to_uuid128_def)
  qed
  ultimately show ?thesis by blast
qed

theorem uuid_string_roundtrip_witness:
  "uuid_ok (BT_UUID16 0x2A00) \<and>
   (\<exists>s v. bt_uuid_to_string (Some (BT_UUID16 0x2A00)) 37 = (0, s) \<and> bt_string_to_uuid s = Some v \<and>
      uuid_match v (BT_UUID16 0x2A00))"
proof -
  have ok: "uuid_ok (BT_UUID16 0x2A00)" by (simp add: uuid_ok_def)
  then show ?thesis using uuid_string_roundtrip [OF ok] by blast
qed

end
