(* ===== verification/Gatt_Db.thy ===== *)
theory Gatt_Db
  imports Att_Types Uuid Queue
begin

text \<open>
  \<^verbatim>\<open>src/shared/gatt-db.c\<close>: the attribute database. A service owns an array of attribute
  pointers, allocated with the number of handles the service reserves and filled from the front;
  index 0 is the service declaration. A pointer to an attribute is the address of its service and
  its index. Queues are lists (the list level of theory \<open>Queue\<close>). Function pointers are values of
  type \<open>'f\<close>, user data of type \<open>'u\<close>; what the code calls through a function pointer is an output
  event, in order, because the functions called belong to the clients. Timeout identifiers come
  from \<^verbatim>\<open>timeout_add\<close> and are arguments. The database argument itself is never \<open>NULL\<close>; other
  pointers that the code tests are optional. A pointer that designates no attribute (freed
  memory) is outside the contract of the code: operations then return their failure value.
\<close>

section \<open>Data\<close>

definition GATT_PRIM_SVC_UUID :: u16 where "GATT_PRIM_SVC_UUID = 0x2800"
definition GATT_SND_SVC_UUID :: u16 where "GATT_SND_SVC_UUID = 0x2801"
definition GATT_INCLUDE_UUID :: u16 where "GATT_INCLUDE_UUID = 0x2802"
definition GATT_CHARAC_UUID :: u16 where "GATT_CHARAC_UUID = 0x2803"
definition GATT_CHARAC_EXT_PROPER_UUID :: u16 where "GATT_CHARAC_EXT_PROPER_UUID = 0x2900"

definition primary_service_uuid :: bt_uuid where "primary_service_uuid = BT_UUID16 GATT_PRIM_SVC_UUID"
definition secondary_service_uuid :: bt_uuid where "secondary_service_uuid = BT_UUID16 GATT_SND_SVC_UUID"
definition characteristic_uuid :: bt_uuid where "characteristic_uuid = BT_UUID16 GATT_CHARAC_UUID"
definition included_service_uuid :: bt_uuid where "included_service_uuid = BT_UUID16 GATT_INCLUDE_UUID"
definition ext_desc_uuid :: bt_uuid where "ext_desc_uuid = BT_UUID16 GATT_CHARAC_EXT_PROPER_UUID"


type_synonym attr_ptr = "nat \<times> nat"

text \<open>\<^verbatim>\<open>struct pending_read\<close> and \<^verbatim>\<open>struct pending_write\<close>; the attribute is the one that holds it.\<close>

record ('f, 'u) pending =
  p_id :: u32
  p_timeout_id :: u32
  p_func :: 'f
  p_user_data :: 'u

record ('f, 'u) gatt_db_attribute =
  attr_service :: nat
  attr_handle :: u16
  attr_uuid :: bt_uuid
  permissions :: u32
  value_len :: u16
  attr_value :: "bytes option"
  read_func :: "'f option"
  write_func :: "'f option"
  attr_user_data :: "'u option"
  read_id :: u32
  pending_reads :: "('f, 'u) pending list"
  write_id :: u32
  pending_writes :: "('f, 'u) pending list"

record ('f, 'u) gatt_db_service =
  svc_addr :: nat
  active :: bool
  claimed :: bool
  num_handles :: u16
  attributes :: "('f, 'u) gatt_db_attribute option list"

record ('f, 'u) notify =
  n_id :: u32
  service_added :: "'f option"
  service_removed :: "'f option"
  n_destroy :: "'f option"
  n_user_data :: 'u

record ('f, 'u) gatt_db =
  db_ref_count :: int
  next_handle :: u16
  services :: "('f, 'u) gatt_db_service list"
  notify_list :: "('f, 'u) notify list"
  next_notify_id :: u32
  db_fresh :: nat  \<comment> \<open>the next address of a service\<close>

text \<open>What the database calls, and on which attribute.\<close>

datatype ('f, 'u) db_event =
    Call_Read_Result 'f attr_ptr int "bytes option" 'u  \<comment> \<open>\<^verbatim>\<open>func(attrib, err, value, len, user_data)\<close>\<close>
  | Call_Write_Result 'f attr_ptr int 'u
  | Call_Read 'f attr_ptr u32 u16 u8 "'u option"  \<comment> \<open>\<^verbatim>\<open>read_func(attrib, id, offset, opcode, att, user_data)\<close>\<close>
  | Call_Write 'f attr_ptr u32 u16 "bytes option" u8 "'u option"
  | Call_Service "'f option" attr_ptr 'u  \<comment> \<open>\<open>None\<close>: a call through a null pointer\<close>
  | Call_Destroy 'f 'u
  | Timeout_Remove u32

section \<open>Access\<close>

definition svc_decl :: "('f, 'u) gatt_db_service \<Rightarrow> ('f, 'u) gatt_db_attribute" where
  "svc_decl s = the (attributes s ! 0)"

definition find_service :: "('f, 'u) gatt_db \<Rightarrow> nat \<Rightarrow> ('f, 'u) gatt_db_service option" where
  "find_service db a = find (\<lambda>s. svc_addr s = a) (services db)"

definition attr_at :: "('f, 'u) gatt_db \<Rightarrow> attr_ptr \<Rightarrow> ('f, 'u) gatt_db_attribute option" where
  "attr_at db p = Option.bind (find_service db (fst p))
     (\<lambda>s. if snd p < length (attributes s) then attributes s ! snd p else None)"

definition upd_service ::
  "nat \<Rightarrow> (('f, 'u) gatt_db_service \<Rightarrow> ('f, 'u) gatt_db_service) \<Rightarrow> ('f, 'u) gatt_db \<Rightarrow> ('f, 'u) gatt_db" where
  "upd_service a f db = db\<lparr>services := map (\<lambda>s. if svc_addr s = a then f s else s) (services db)\<rparr>"

definition upd_attr ::
  "attr_ptr \<Rightarrow> (('f, 'u) gatt_db_attribute \<Rightarrow> ('f, 'u) gatt_db_attribute) \<Rightarrow> ('f, 'u) gatt_db \<Rightarrow> ('f, 'u) gatt_db" where
  "upd_attr p f db = upd_service (fst p)
     (\<lambda>s. s\<lparr>attributes := (attributes s)[snd p := map_option f (attributes s ! snd p)]\<rparr>) db"

section \<open>Attributes\<close>

definition set_attribute_data ::
  "'f option \<Rightarrow> 'f option \<Rightarrow> u32 \<Rightarrow> 'u option \<Rightarrow> ('f, 'u) gatt_db_attribute \<Rightarrow> ('f, 'u) gatt_db_attribute" where
  "set_attribute_data rdf wrf perms ud a =
     a\<lparr>permissions := perms, read_func := rdf, write_func := wrf, attr_user_data := ud\<rparr>"

definition pending_read_result ::
  "attr_ptr \<Rightarrow> ('f, 'u) pending \<Rightarrow> int \<Rightarrow> bytes option \<Rightarrow> ('f, 'u) db_event list" where
  "pending_read_result attrib p err data =
     (if p_timeout_id p > 0 then [Timeout_Remove (p_timeout_id p)] else []) @
     [Call_Read_Result (p_func p) attrib err data (p_user_data p)]"

definition pending_read_free :: "attr_ptr \<Rightarrow> ('f, 'u) pending \<Rightarrow> ('f, 'u) db_event list" where
  "pending_read_free attrib p = pending_read_result attrib p (- ECANCELED) None"

definition pending_write_result :: "attr_ptr \<Rightarrow> ('f, 'u) pending \<Rightarrow> int \<Rightarrow> ('f, 'u) db_event list" where
  "pending_write_result attrib p err =
     (if p_timeout_id p > 0 then [Timeout_Remove (p_timeout_id p)] else []) @
     [Call_Write_Result (p_func p) attrib err (p_user_data p)]"

definition pending_write_free :: "attr_ptr \<Rightarrow> ('f, 'u) pending \<Rightarrow> ('f, 'u) db_event list" where
  "pending_write_free attrib p = pending_write_result attrib p (- ECANCELED)"

definition attribute_destroy ::
  "attr_ptr \<Rightarrow> ('f, 'u) gatt_db_attribute option \<Rightarrow> ('f, 'u) db_event list" where
  "attribute_destroy p attribute = (case attribute of None \<Rightarrow> []
     | Some a \<Rightarrow> concat (map (pending_read_free p) (pending_reads a)) @
                 concat (map (pending_write_free p) (pending_writes a)))"

text \<open>A value of length 0 stays \<open>NULL\<close>; otherwise it is a copy.\<close>

definition new_attribute :: "nat \<Rightarrow> u16 \<Rightarrow> bt_uuid \<Rightarrow> bytes \<Rightarrow> ('f, 'u) gatt_db_attribute" where
  "new_attribute service handle type val =
     \<lparr>attr_service = service, attr_handle = handle, attr_uuid = type, permissions = 0,
      value_len = of_nat (length val), attr_value = (if val = [] then None else Some val),
      read_func = None, write_func = None, attr_user_data = None,
      read_id = 0, pending_reads = [], write_id = 0, pending_writes = []\<rparr>"

section \<open>The database\<close>

definition gatt_db_ref :: "('f, 'u) gatt_db \<Rightarrow> ('f, 'u) gatt_db" where
  "gatt_db_ref db = db\<lparr>db_ref_count := db_ref_count db + 1\<rparr>"

definition gatt_db_new :: "('f, 'u) gatt_db" where
  "gatt_db_new = gatt_db_ref \<lparr>db_ref_count = 0, next_handle = 0x0001, services = [], notify_list = [],
     next_notify_id = 0, db_fresh = 0\<rparr>"

definition notify_destroy :: "('f, 'u) notify \<Rightarrow> ('f, 'u) db_event list" where
  "notify_destroy n = (case n_destroy n of None \<Rightarrow> [] | Some f \<Rightarrow> [Call_Destroy f (n_user_data n)])"

definition handle_notify :: "attr_ptr \<Rightarrow> bool \<Rightarrow> ('f, 'u) notify \<Rightarrow> ('f, 'u) db_event" where
  "handle_notify attr added n =
     Call_Service (if added then service_added n else service_removed n) attr (n_user_data n)"

definition notify_service_changed ::
  "('f, 'u) notify list \<Rightarrow> nat \<Rightarrow> bool \<Rightarrow> ('f, 'u) db_event list" where
  "notify_service_changed notifies svc added = map (handle_notify (svc, 0) added) notifies"

definition gatt_db_service_destroy ::
  "('f, 'u) notify list \<Rightarrow> ('f, 'u) gatt_db_service \<Rightarrow> ('f, 'u) db_event list" where
  "gatt_db_service_destroy notifies s =
     (if active s then notify_service_changed notifies (svc_addr s) False else []) @
     concat (map (\<lambda>i. attribute_destroy (svc_addr s, i) (attributes s ! i)) [0..<unat (num_handles s)])"

definition gatt_db_destroy :: "('f, 'u) gatt_db \<Rightarrow> ('f, 'u) db_event list" where
  "gatt_db_destroy db = concat (map notify_destroy (notify_list db)) @
     concat (map (gatt_db_service_destroy []) (services db))"

text \<open>\<open>None\<close>: the last reference is gone, the database is freed.\<close>

definition gatt_db_unref :: "('f, 'u) gatt_db \<Rightarrow> ('f, 'u) db_event list \<times> ('f, 'u) gatt_db option" where
  "gatt_db_unref db = (let db' = db\<lparr>db_ref_count := db_ref_count db - 1\<rparr> in
     if db_ref_count db' \<noteq> 0 then ([], Some db') else (gatt_db_destroy db', None))"

definition gatt_db_isempty :: "('f, 'u) gatt_db \<Rightarrow> bool" where
  "gatt_db_isempty db \<longleftrightarrow> services db = []"

text \<open>
  The UUID as it is stored in a declaration: 2 or 16 bytes. (For a UUID of unspecified type the
  code copies an uninitialised buffer; no caller has one.)
\<close>

definition uuid_to_le :: "bt_uuid \<Rightarrow> bytes" where
  "uuid_to_le uuid = (case uuid of BT_UUID16 v \<Rightarrow> put_le16 v
     | _ \<Rightarrow> (case bt_uuid_to_uuid128 uuid of Some u \<Rightarrow> bswap_128 (u128_data u) | None \<Rightarrow> []))"

definition le_to_uuid :: "bytes \<Rightarrow> bt_uuid option" where
  "le_to_uuid src =
     (if length src = 2 then Some (bt_uuid16_create (get_le16 src 0))
      else if length src = 4 then Some (bt_uuid32_create (get_le32 src 0))
      else if length src \<noteq> 16 then None
      else Some (bt_uuid128_create (bswap_128 src)))"

section \<open>Services\<close>

definition gatt_db_service_create ::
  "nat \<Rightarrow> bt_uuid \<Rightarrow> u16 \<Rightarrow> bool \<Rightarrow> u16 \<Rightarrow> ('f, 'u) gatt_db_service option" where
  "gatt_db_service_create addr uuid handle primary n =
     (if n < 1 then None
      else
        (let type = (if primary then primary_service_uuid else secondary_service_uuid);
             decl = new_attribute addr handle type (uuid_to_le uuid)
         in Some \<lparr>svc_addr = addr, active = False, claimed = False, num_handles = 0,
              attributes = (replicate (unat n) None)
                [0 := Some (set_attribute_data None None BT_ATT_PERM_READ None decl)]\<rparr>))"

text \<open>First and last handle; the last is stored in 16 bits.\<close>

definition gatt_db_service_get_handles :: "('f, 'u) gatt_db_service \<Rightarrow> u16 \<times> u16" where
  "gatt_db_service_get_handles s =
     (attr_handle (svc_decl s), attr_handle (svc_decl s) + num_handles s - 1)"

definition match_range :: "u16 \<Rightarrow> u16 \<Rightarrow> ('f, 'u) gatt_db_service \<Rightarrow> bool" where
  "match_range start stop s \<longleftrightarrow> (let (svc_start, svc_end) = gatt_db_service_get_handles s in
     svc_start \<le> stop \<and> svc_end \<ge> start)"

text \<open>The UUID in the declaration of the attribute's service. \<open>None\<close>: the result is not written.\<close>

definition service_uuid :: "('f, 'u) gatt_db_service \<Rightarrow> bt_uuid option" where
  "service_uuid s = (let d = svc_decl s; v = (case attr_value d of None \<Rightarrow> [] | Some v \<Rightarrow> v) in
     if value_len d = 2 then Some (bt_uuid16_create (get_le16 v 0))
     else if value_len d = 16 then Some (bt_uuid128_create (bswap_128 (take 16 v)))
     else None)"

definition gatt_db_attribute_get_service_uuid ::
  "('f, 'u) gatt_db \<Rightarrow> attr_ptr option \<Rightarrow> bt_uuid option" where
  "gatt_db_attribute_get_service_uuid db attrib = (case attrib of None \<Rightarrow> None
     | Some p \<Rightarrow> Option.bind (find_service db (fst p)) service_uuid)"

text \<open>
  The service that overlaps the range, and otherwise the service after which the new one goes:
  \<open>(found, after)\<close>.
\<close>

fun find_insert_loc_from ::
  "('f, 'u) gatt_db_service list \<Rightarrow> u16 \<Rightarrow> u16 \<Rightarrow> ('f, 'u) gatt_db_service option \<Rightarrow>
   ('f, 'u) gatt_db_service option \<times> ('f, 'u) gatt_db_service option" where
  "find_insert_loc_from [] start stop after = (None, after)"
| "find_insert_loc_from (s # ss) start stop after =
     (let (cur_start, cur_end) = gatt_db_service_get_handles s in
      if start \<ge> cur_start \<and> start \<le> cur_end then (Some s, after)
      else if stop \<ge> cur_start \<and> stop \<le> cur_end then (Some s, after)
      else if stop < cur_start then (None, after)
      else find_insert_loc_from ss start stop (Some s))"

definition find_insert_loc ::
  "('f, 'u) gatt_db \<Rightarrow> u16 \<Rightarrow> u16 \<Rightarrow> ('f, 'u) gatt_db_service option \<times> ('f, 'u) gatt_db_service option" where
  "find_insert_loc db start stop = find_insert_loc_from (services db) start stop None"

definition gatt_db_insert_service ::
  "('f, 'u) gatt_db \<Rightarrow> u16 \<Rightarrow> bt_uuid \<Rightarrow> bool \<Rightarrow> u16 \<Rightarrow> attr_ptr option \<times> ('f, 'u) gatt_db" where
  "gatt_db_insert_service db handle uuid primary n =
     (if handle < 1 then (None, db)
      else if n < 1 \<or> uint handle + uint n - 1 > 0xFFFF then (None, db)
      else
        (case find_insert_loc db handle (handle + n - 1) of
          (Some s, _) \<Rightarrow>
            (let type = (if primary then primary_service_uuid else secondary_service_uuid);
                 value = (case service_uuid s of Some v \<Rightarrow> v | None \<Rightarrow> BT_UUID_UNSPEC)
             in if uuid_match (attr_uuid (svc_decl s)) type \<and> uuid_match value uuid \<and>
                   num_handles s = n \<and> attr_handle (svc_decl s) = handle
                then (Some (svc_addr s, 0), db) else (None, db))
        | (None, after) \<Rightarrow>
            (case gatt_db_service_create (db_fresh db) uuid handle primary n of
               None \<Rightarrow> (None, db)
             | Some s \<Rightarrow>
                 (let s' = s\<lparr>num_handles := n, attributes := (attributes s)
                        [0 := map_option (\<lambda>a. a\<lparr>attr_handle := handle\<rparr>) (attributes s ! 0)]\<rparr>;
                      ss = (case after of
                          Some a \<Rightarrow> lq_push_after (\<lambda>x. svc_addr x = svc_addr a) s' (services db)
                        | None \<Rightarrow> lq_push_head s' (services db));
                      next = (if uint handle + uint n > uint (next_handle db) then handle + n
                              else next_handle db)
                  in (Some (svc_addr s', 0),
                      db\<lparr>services := ss, next_handle := next, db_fresh := db_fresh db + 1\<rparr>)))))"

definition gatt_db_add_service ::
  "('f, 'u) gatt_db \<Rightarrow> bt_uuid \<Rightarrow> bool \<Rightarrow> u16 \<Rightarrow> attr_ptr option \<times> ('f, 'u) gatt_db" where
  "gatt_db_add_service db uuid primary n = gatt_db_insert_service db (next_handle db) uuid primary n"

definition gatt_db_remove_service ::
  "('f, 'u) gatt_db \<Rightarrow> attr_ptr option \<Rightarrow> bool \<times> ('f, 'u) db_event list \<times> ('f, 'u) gatt_db" where
  "gatt_db_remove_service db attrib = (case attrib of None \<Rightarrow> (False, [], db)
     | Some p \<Rightarrow> (case find_service db (fst p) of None \<Rightarrow> (False, [], db)
        | Some s \<Rightarrow> (True, gatt_db_service_destroy (notify_list db) s,
            db\<lparr>services := remove_first (\<lambda>x. svc_addr x = svc_addr s) (services db)\<rparr>)))"

definition gatt_db_clear_range ::
  "('f, 'u) gatt_db \<Rightarrow> u16 \<Rightarrow> u16 \<Rightarrow> bool \<times> ('f, 'u) db_event list \<times> ('f, 'u) gatt_db" where
  "gatt_db_clear_range db start_handle end_handle =
     (if start_handle > end_handle then (False, [], db)
      else
        (let P = (if start_handle = 1 \<and> end_handle = 0xFFFF then \<lambda>_. True
                  else match_range start_handle end_handle);
             evs = concat (map (gatt_db_service_destroy (notify_list db)) (filter P (services db)));
             db1 = db\<lparr>services := filter (\<lambda>s. \<not> P s) (services db)\<rparr>;
             db2 = (if gatt_db_isempty db1 then db1\<lparr>next_handle := 0\<rparr> else db1)
         in (True, evs, db2)))"

definition gatt_db_clear ::
  "('f, 'u) gatt_db \<Rightarrow> bool \<times> ('f, 'u) db_event list \<times> ('f, 'u) gatt_db" where
  "gatt_db_clear db = gatt_db_clear_range db 1 0xFFFF"

text \<open>\<open>0\<close>: refused. Both callbacks may be \<open>NULL\<close>, but not at once.\<close>

definition gatt_db_register ::
  "('f, 'u) gatt_db \<Rightarrow> 'f option \<Rightarrow> 'f option \<Rightarrow> 'u \<Rightarrow> 'f option \<Rightarrow> u32 \<times> ('f, 'u) gatt_db" where
  "gatt_db_register db added removed ud destroy =
     (if added = None \<and> removed = None then (0, db)
      else
        (let id = (if next_notify_id db < 1 then 1 else next_notify_id db)
         in (id, db\<lparr>next_notify_id := id + 1,
               notify_list := lq_push_tail \<lparr>n_id = id, service_added = added, service_removed = removed,
                 n_destroy = destroy, n_user_data = ud\<rparr> (notify_list db)\<rparr>)))"

definition match_notify_id :: "u32 \<Rightarrow> ('f, 'u) notify \<Rightarrow> bool" where
  "match_notify_id i n \<longleftrightarrow> n_id n = i"

definition gatt_db_unregister ::
  "('f, 'u) gatt_db \<Rightarrow> u32 \<Rightarrow> bool \<times> ('f, 'u) db_event list \<times> ('f, 'u) gatt_db" where
  "gatt_db_unregister db i =
     (if i = 0 then (False, [], db)
      else (case find (match_notify_id i) (notify_list db) of None \<Rightarrow> (False, [], db)
        | Some n \<Rightarrow> (True, notify_destroy n,
            db\<lparr>notify_list := remove_first (match_notify_id i) (notify_list db)\<rparr>)))"

section \<open>Characteristics, descriptors, includes\<close>

definition get_attribute_index :: "('f, 'u) gatt_db_service \<Rightarrow> nat \<Rightarrow> nat" where
  "get_attribute_index s end_offset =
     (let n = unat (num_handles s) - end_offset;
          i = length (takeWhile (\<lambda>a. a \<noteq> None) (take n (attributes s)))
      in if i = n then 0 else i)"

definition get_handle_at_index :: "('f, 'u) gatt_db_service \<Rightarrow> nat \<Rightarrow> u16" where
  "get_handle_at_index s i = attr_handle (the (attributes s ! i))"

text \<open>The new attribute takes the handle after its predecessor's, whatever it had.\<close>

definition attribute_update :: "nat \<Rightarrow> ('f, 'u) gatt_db_service \<Rightarrow> ('f, 'u) gatt_db_service" where
  "attribute_update i s = s\<lparr>attributes := (attributes s)
     [i := map_option (\<lambda>a. a\<lparr>attr_handle := get_handle_at_index s (i - 1) + 1\<rparr>) (attributes s ! i)]\<rparr>"

text \<open>
  The insertions on a service: the index of the attribute returned and the new service, or
  \<open>None\<close> when the code returns \<open>NULL\<close>.
\<close>

definition service_insert_characteristic ::
  "('f, 'u) gatt_db_service \<Rightarrow> u16 \<Rightarrow> bt_uuid \<Rightarrow> u32 \<Rightarrow> u8 \<Rightarrow> 'f option \<Rightarrow> 'f option \<Rightarrow> 'u option \<Rightarrow>
   (nat \<times> ('f, 'u) gatt_db_service) option" where
  "service_insert_characteristic s handle uuid perms properties rdf wrf ud =
     (if handle \<noteq> 0 \<and> handle \<le> attr_handle (svc_decl s) then None
      else if handle = 0xFFFF then None
      else
        (let i = get_attribute_index s 1 in
         if i = 0 then None
         else
           (let h = (if handle = 0 then get_handle_at_index s (i - 1) + 2 else handle);
                value = properties # put_le16 h @ uuid_to_le uuid;
                decl = set_attribute_data None None BT_ATT_PERM_READ None
                         (new_attribute (svc_addr s) (h - 1) characteristic_uuid value);
                val = set_attribute_data rdf wrf perms ud (new_attribute (svc_addr s) h uuid [])
            in Some (i + 1, s\<lparr>attributes := (attributes s)[i := Some decl, i + 1 := Some val]\<rparr>))))"

definition service_insert_descriptor ::
  "('f, 'u) gatt_db_service \<Rightarrow> u16 \<Rightarrow> bt_uuid \<Rightarrow> u32 \<Rightarrow> 'f option \<Rightarrow> 'f option \<Rightarrow> 'u option \<Rightarrow>
   (nat \<times> ('f, 'u) gatt_db_service) option" where
  "service_insert_descriptor s handle uuid perms rdf wrf ud =
     (let i = get_attribute_index s 0 in
      if i = 0 then None
      else if handle \<noteq> 0 \<and> handle \<le> attr_handle (svc_decl s) then None
      else
        (let h = (if handle = 0 then get_handle_at_index s (i - 1) + 1 else handle);
             desc = set_attribute_data rdf wrf perms ud (new_attribute (svc_addr s) h uuid [])
         in Some (i, s\<lparr>attributes := (attributes s)[i := Some desc]\<rparr>)))"

definition service_insert_included ::
  "('f, 'u) gatt_db_service \<Rightarrow> u16 \<Rightarrow> ('f, 'u) gatt_db_service \<Rightarrow> (nat \<times> ('f, 'u) gatt_db_service) option" where
  "service_insert_included s handle included =
     (let incl = svc_decl included;
          value = put_le16 (attr_handle incl) @ put_le16 (attr_handle incl + num_handles included - 1) @
            (if value_len incl = 2 then (case attr_value incl of None \<Rightarrow> [] | Some v \<Rightarrow> v) else []);
          i = get_attribute_index s 0
      in if i = 0 then None
         else if handle \<noteq> 0 \<and> handle \<le> attr_handle (svc_decl s) then None
         else
           (let h = (if handle = 0 then get_handle_at_index s (i - 1) + 1 else handle);
                a = set_attribute_data None None BT_ATT_PERM_READ None
                      (new_attribute (svc_addr s) h included_service_uuid value)
            in Some (i, attribute_update i (s\<lparr>attributes := (attributes s)[i := Some a]\<rparr>))))"

section \<open>Lookup\<close>

definition find_service_for_handle :: "u16 \<Rightarrow> ('f, 'u) gatt_db_service \<Rightarrow> bool" where
  "find_service_for_handle handle s \<longleftrightarrow> (let (start, stop) = gatt_db_service_get_handles s in
     start \<le> handle \<and> handle \<le> stop)"

definition gatt_db_get_service :: "('f, 'u) gatt_db \<Rightarrow> u16 \<Rightarrow> attr_ptr option" where
  "gatt_db_get_service db handle =
     (if handle = 0 then None
      else map_option (\<lambda>s. (svc_addr s, 0)) (find (find_service_for_handle handle) (services db)))"

text \<open>The entries of the array the loops over \<open>num_handles\<close> visit, with their index.\<close>

definition service_slots :: "('f, 'u) gatt_db_service \<Rightarrow> (nat \<times> ('f, 'u) gatt_db_attribute option) list" where
  "service_slots s = enumerate 0 (take (unat (num_handles s)) (attributes s))"

definition slot_has_handle :: "u16 \<Rightarrow> nat \<times> ('f, 'u) gatt_db_attribute option \<Rightarrow> bool" where
  "slot_has_handle h slot = (case snd slot of None \<Rightarrow> False | Some a \<Rightarrow> attr_handle a = h)"

definition gatt_db_get_attribute :: "('f, 'u) gatt_db \<Rightarrow> u16 \<Rightarrow> attr_ptr option" where
  "gatt_db_get_attribute db handle =
     Option.bind (gatt_db_get_service db handle)
       (\<lambda>p. Option.bind (find_service db (fst p))
         (\<lambda>s. map_option (\<lambda>slot. (svc_addr s, fst slot)) (find (slot_has_handle handle) (service_slots s))))"

definition find_service_with_uuid :: "bt_uuid \<Rightarrow> ('f, 'u) gatt_db_service \<Rightarrow> bool" where
  "find_service_with_uuid uuid s = (case service_uuid s of None \<Rightarrow> False | Some u \<Rightarrow> uuid_match uuid u)"

definition gatt_db_get_service_with_uuid :: "('f, 'u) gatt_db \<Rightarrow> bt_uuid option \<Rightarrow> attr_ptr option" where
  "gatt_db_get_service_with_uuid db uuid = (case uuid of None \<Rightarrow> None
     | Some u \<Rightarrow> map_option (\<lambda>s. (svc_addr s, 0)) (find (find_service_with_uuid u) (services db)))"

section \<open>Insertion by clients\<close>

text \<open>An insertion into the service of an attribute.\<close>

definition insert_at ::
  "('f, 'u) gatt_db \<Rightarrow> attr_ptr option \<Rightarrow>
   (('f, 'u) gatt_db_service \<Rightarrow> (nat \<times> ('f, 'u) gatt_db_service) option) \<Rightarrow> attr_ptr option \<times> ('f, 'u) gatt_db" where
  "insert_at db attrib ins = (case attrib of None \<Rightarrow> (None, db)
     | Some p \<Rightarrow> (case Option.bind (find_service db (fst p)) ins of None \<Rightarrow> (None, db)
        | Some (i, s) \<Rightarrow> (Some (fst p, i), upd_service (fst p) (\<lambda>_. s) db)))"

definition gatt_db_insert_characteristic where
  "gatt_db_insert_characteristic db handle uuid perms properties rdf wrf ud =
     insert_at db (gatt_db_get_service db handle)
       (\<lambda>s. service_insert_characteristic s handle uuid perms properties rdf wrf ud)"

definition gatt_db_service_insert_characteristic where
  "gatt_db_service_insert_characteristic db attrib handle uuid perms properties rdf wrf ud =
     (if handle = 0 then (None, db) else insert_at db attrib
       (\<lambda>s. service_insert_characteristic s handle uuid perms properties rdf wrf ud))"

definition gatt_db_service_add_characteristic where
  "gatt_db_service_add_characteristic db attrib uuid perms properties rdf wrf ud =
     insert_at db attrib (\<lambda>s. service_insert_characteristic s 0 uuid perms properties rdf wrf ud)"

definition gatt_db_insert_descriptor where
  "gatt_db_insert_descriptor db handle uuid perms rdf wrf ud =
     insert_at db (gatt_db_get_service db handle)
       (\<lambda>s. service_insert_descriptor s handle uuid perms rdf wrf ud)"

definition gatt_db_service_insert_descriptor where
  "gatt_db_service_insert_descriptor db attrib handle uuid perms rdf wrf ud =
     (if handle = 0 then (None, db) else insert_at db attrib
       (\<lambda>s. service_insert_descriptor s handle uuid perms rdf wrf ud))"

definition gatt_db_service_add_descriptor where
  "gatt_db_service_add_descriptor db attrib uuid perms rdf wrf ud =
     insert_at db attrib (\<lambda>s. service_insert_descriptor s 0 uuid perms rdf wrf ud)"

definition insert_included_at ::
  "('f, 'u) gatt_db \<Rightarrow> attr_ptr option \<Rightarrow> u16 \<Rightarrow> attr_ptr option \<Rightarrow> attr_ptr option \<times> ('f, 'u) gatt_db" where
  "insert_included_at db attrib handle incl =
     (case Option.bind incl (\<lambda>p. find_service db (fst p)) of None \<Rightarrow> (None, db)
      | Some included \<Rightarrow> insert_at db attrib (\<lambda>s. service_insert_included s handle included))"

definition gatt_db_service_add_included where
  "gatt_db_service_add_included db attrib incl = insert_included_at db attrib 0 incl"

definition gatt_db_service_insert_included where
  "gatt_db_service_insert_included db attrib handle incl =
     (if handle = 0 then (None, db) else insert_included_at db attrib handle incl)"

definition gatt_db_insert_included where
  "gatt_db_insert_included db handle incl =
     insert_included_at db (gatt_db_get_service db handle) handle incl"

section \<open>Flags\<close>

definition gatt_db_service_set_active ::
  "('f, 'u) gatt_db \<Rightarrow> attr_ptr option \<Rightarrow> bool \<Rightarrow> bool \<times> ('f, 'u) db_event list \<times> ('f, 'u) gatt_db" where
  "gatt_db_service_set_active db attrib act = (case attrib of None \<Rightarrow> (False, [], db)
     | Some p \<Rightarrow> (case find_service db (fst p) of None \<Rightarrow> (False, [], db)
        | Some s \<Rightarrow>
            if active s = act then (True, [], db)
            else (True, notify_service_changed (notify_list db) (svc_addr s) act,
                  upd_service (fst p) (\<lambda>s. s\<lparr>active := act\<rparr>) db)))"

definition gatt_db_service_get_active :: "('f, 'u) gatt_db \<Rightarrow> attr_ptr option \<Rightarrow> bool" where
  "gatt_db_service_get_active db attrib = (case attrib of None \<Rightarrow> False
     | Some p \<Rightarrow> (case find_service db (fst p) of None \<Rightarrow> False | Some s \<Rightarrow> active s))"

definition gatt_db_service_set_claimed ::
  "('f, 'u) gatt_db \<Rightarrow> attr_ptr option \<Rightarrow> bool \<Rightarrow> bool \<times> ('f, 'u) gatt_db" where
  "gatt_db_service_set_claimed db attrib c = (case attrib of None \<Rightarrow> (False, db)
     | Some p \<Rightarrow> (True, upd_service (fst p) (\<lambda>s. s\<lparr>claimed := c\<rparr>) db))"

definition gatt_db_service_get_claimed :: "('f, 'u) gatt_db \<Rightarrow> attr_ptr option \<Rightarrow> bool" where
  "gatt_db_service_get_claimed db attrib = (case attrib of None \<Rightarrow> False
     | Some p \<Rightarrow> (case find_service db (fst p) of None \<Rightarrow> False | Some s \<Rightarrow> claimed s))"

section \<open>Searches\<close>

text \<open>
  The searches return the attributes in the order in which the code pushes them to the result
  queue or hands them to the callback. \<open>sz\<close> is \<^verbatim>\<open>uuid_size\<close>, 0 before the first match.
\<close>

fun group_type_from ::
  "u16 \<Rightarrow> u16 \<Rightarrow> bt_uuid \<Rightarrow> u16 \<Rightarrow> ('f, 'u) gatt_db_service list \<Rightarrow> attr_ptr list" where
  "group_type_from start stop type sz [] = []"
| "group_type_from start stop type sz (s # ss) =
     (if \<not> active s then group_type_from start stop type sz ss
      else if \<not> uuid_match type (attr_uuid (svc_decl s)) then group_type_from start stop type sz ss
      else
        (let (grp_start, grp_end) = gatt_db_service_get_handles s in
         if grp_end < start \<or> grp_start > stop then group_type_from start stop type sz ss
         else if grp_start < start \<or> grp_start > stop then group_type_from start stop type sz ss
         else if sz = 0 then (svc_addr s, 0) # group_type_from start stop type (value_len (svc_decl s)) ss
         else if sz \<noteq> value_len (svc_decl s) then []
         else (svc_addr s, 0) # group_type_from start stop type sz ss))"

definition gatt_db_read_by_group_type :: "('f, 'u) gatt_db \<Rightarrow> u16 \<Rightarrow> u16 \<Rightarrow> bt_uuid \<Rightarrow> attr_ptr list" where
  "gatt_db_read_by_group_type db start stop type = group_type_from start stop type 0 (services db)"

definition find_by_type_matches ::
  "u16 \<Rightarrow> u16 \<Rightarrow> bt_uuid \<Rightarrow> bytes option \<Rightarrow> ('f, 'u) gatt_db_attribute option \<Rightarrow> bool" where
  "find_by_type_matches start stop uuid value attribute = (case attribute of None \<Rightarrow> False
     | Some a \<Rightarrow>
        if attr_handle a < start \<or> attr_handle a > stop then False
        else if \<not> uuid_match uuid (attr_uuid a) then False
        else (case value of None \<Rightarrow> True
          | Some v \<Rightarrow> int (length v) = uint (value_len a) \<and>
              memcmp (take (length v) (case attr_value a of None \<Rightarrow> [] | Some w \<Rightarrow> w)) v = 0))"

definition find_by_type ::
  "u16 \<Rightarrow> u16 \<Rightarrow> bt_uuid \<Rightarrow> bytes option \<Rightarrow> ('f, 'u) gatt_db_service \<Rightarrow> attr_ptr list" where
  "find_by_type start stop uuid value s =
     (if \<not> active s then []
      else map (\<lambda>slot. (svc_addr s, fst slot))
             (filter (\<lambda>slot. find_by_type_matches start stop uuid value (snd slot)) (service_slots s)))"

text \<open>The attributes handed to the callback, and the count returned.\<close>

definition gatt_db_find_by_type :: "('f, 'u) gatt_db \<Rightarrow> u16 \<Rightarrow> u16 \<Rightarrow> bt_uuid \<Rightarrow> attr_ptr list \<times> u32" where
  "gatt_db_find_by_type db start stop type =
     (let r = concat (map (find_by_type start stop type None) (services db)) in (r, of_nat (length r)))"

text \<open>Here the count starts from whatever \<open>junk\<close> the uninitialised counter holds.\<close>

definition gatt_db_find_by_type_value ::
  "u32 \<Rightarrow> ('f, 'u) gatt_db \<Rightarrow> u16 \<Rightarrow> u16 \<Rightarrow> bt_uuid \<Rightarrow> bytes option \<Rightarrow> attr_ptr list \<times> u32" where
  "gatt_db_find_by_type_value junk db start stop type value =
     (let r = concat (map (find_by_type start stop type value) (services db))
      in (r, junk + of_nat (length r)))"

text \<open>
  The loop of \<^verbatim>\<open>read_by_type\<close> and \<^verbatim>\<open>find_information\<close> over a service: it ends at the first handle
  beyond the range.
\<close>

fun slots_in_range ::
  "u16 \<Rightarrow> u16 \<Rightarrow> (bt_uuid \<Rightarrow> bool) \<Rightarrow> (nat \<times> ('f, 'u) gatt_db_attribute option) list \<Rightarrow> nat list" where
  "slots_in_range start stop P [] = []"
| "slots_in_range start stop P ((i, slot) # slots) = (case slot of
      None \<Rightarrow> slots_in_range start stop P slots
    | Some a \<Rightarrow>
        if attr_handle a < start then slots_in_range start stop P slots
        else if attr_handle a > stop then []
        else if \<not> P (attr_uuid a) then slots_in_range start stop P slots
        else i # slots_in_range start stop P slots)"

definition read_by_type :: "u16 \<Rightarrow> u16 \<Rightarrow> bt_uuid \<Rightarrow> ('f, 'u) gatt_db_service \<Rightarrow> attr_ptr list" where
  "read_by_type start stop type s = (if \<not> active s then []
     else map (\<lambda>i. (svc_addr s, i)) (slots_in_range start stop (uuid_match type) (service_slots s)))"

definition gatt_db_read_by_type :: "('f, 'u) gatt_db \<Rightarrow> u16 \<Rightarrow> u16 \<Rightarrow> bt_uuid \<Rightarrow> attr_ptr list" where
  "gatt_db_read_by_type db start stop type = concat (map (read_by_type start stop type) (services db))"

definition find_information :: "u16 \<Rightarrow> u16 \<Rightarrow> ('f, 'u) gatt_db_service \<Rightarrow> attr_ptr list" where
  "find_information start stop s =
     (if \<not> active s then []
      else if uint (attr_handle (svc_decl s)) + uint (num_handles s) - 1 < uint start then []
      else map (\<lambda>i. (svc_addr s, i)) (slots_in_range start stop (\<lambda>_. True) (service_slots s)))"

definition gatt_db_find_information :: "('f, 'u) gatt_db \<Rightarrow> u16 \<Rightarrow> u16 \<Rightarrow> attr_ptr list" where
  "gatt_db_find_information db start stop = concat (map (find_information start stop) (services db))"

text \<open>The iterators: the attributes on which the callback runs.\<close>

definition foreach_service_in_range :: "bt_uuid option \<Rightarrow> u16 \<Rightarrow> u16 \<Rightarrow> ('f, 'u) gatt_db_service \<Rightarrow> attr_ptr list" where
  "foreach_service_in_range uuid start stop s =
     (let svc_start = get_handle_at_index s 0 in
      if svc_start > stop \<or> svc_start < start then []
      else (case uuid of None \<Rightarrow> [(svc_addr s, 0)]
        | Some u \<Rightarrow> (case service_uuid s of None \<Rightarrow> []
            | Some v \<Rightarrow> if uuid_match v u then [(svc_addr s, 0)] else [])))"

definition gatt_db_foreach_service_in_range ::
  "('f, 'u) gatt_db \<Rightarrow> bt_uuid option \<Rightarrow> u16 \<Rightarrow> u16 \<Rightarrow> attr_ptr list" where
  "gatt_db_foreach_service_in_range db uuid start stop =
     (if start > stop then [] else concat (map (foreach_service_in_range uuid start stop) (services db)))"

definition gatt_db_foreach_service :: "('f, 'u) gatt_db \<Rightarrow> bt_uuid option \<Rightarrow> attr_ptr list" where
  "gatt_db_foreach_service db uuid = gatt_db_foreach_service_in_range db uuid 0x0001 0xffff"

definition gatt_db_service_foreach :: "('f, 'u) gatt_db \<Rightarrow> attr_ptr option \<Rightarrow> bt_uuid option \<Rightarrow> attr_ptr list" where
  "gatt_db_service_foreach db attrib uuid =
     (case Option.bind attrib (\<lambda>p. find_service db (fst p)) of None \<Rightarrow> []
      | Some s \<Rightarrow> map (\<lambda>slot. (svc_addr s, fst slot)) (filter (\<lambda>slot. case snd slot of None \<Rightarrow> False
            | Some a \<Rightarrow> (case uuid of None \<Rightarrow> True | Some u \<Rightarrow> uuid_match u (attr_uuid a))) (service_slots s)))"

definition gatt_db_service_foreach_char :: "('f, 'u) gatt_db \<Rightarrow> attr_ptr option \<Rightarrow> attr_ptr list" where
  "gatt_db_service_foreach_char db attrib = gatt_db_service_foreach db attrib (Some characteristic_uuid)"

definition gatt_db_service_foreach_incl :: "('f, 'u) gatt_db \<Rightarrow> attr_ptr option \<Rightarrow> attr_ptr list" where
  "gatt_db_service_foreach_incl db attrib = gatt_db_service_foreach db attrib (Some included_service_uuid)"

fun desc_slots :: "(nat \<times> ('f, 'u) gatt_db_attribute option) list \<Rightarrow> nat list" where
  "desc_slots [] = []"
| "desc_slots ((i, slot) # slots) = (case slot of None \<Rightarrow> desc_slots slots
    | Some a \<Rightarrow> if uuid_match characteristic_uuid (attr_uuid a) \<or>
                  uuid_match included_service_uuid (attr_uuid a) then []
               else i # desc_slots slots)"

definition gatt_db_service_foreach_desc :: "('f, 'u) gatt_db \<Rightarrow> attr_ptr option \<Rightarrow> attr_ptr list" where
  "gatt_db_service_foreach_desc db attrib = (case attrib of None \<Rightarrow> []
     | Some p \<Rightarrow> (case (find_service db (fst p), attr_at db p) of
          (Some s, Some a) \<Rightarrow>
            if \<not> uuid_match characteristic_uuid (attr_uuid a) then []
            else map (\<lambda>i. (svc_addr s, i)) (desc_slots (drop (snd p + 2) (service_slots s)))
        | _ \<Rightarrow> []))"

section \<open>Reading an attribute's description\<close>

definition gatt_db_attribute_get_type :: "('f, 'u) gatt_db \<Rightarrow> attr_ptr option \<Rightarrow> bt_uuid option" where
  "gatt_db_attribute_get_type db attrib = Option.bind attrib (\<lambda>p. map_option attr_uuid (attr_at db p))"

definition gatt_db_attribute_get_handle :: "('f, 'u) gatt_db \<Rightarrow> attr_ptr option \<Rightarrow> u16" where
  "gatt_db_attribute_get_handle db attrib =
     (case Option.bind attrib (attr_at db) of None \<Rightarrow> 0 | Some a \<Rightarrow> attr_handle a)"

definition gatt_db_attribute_get_service_handles ::
  "('f, 'u) gatt_db \<Rightarrow> attr_ptr option \<Rightarrow> (u16 \<times> u16) option" where
  "gatt_db_attribute_get_service_handles db attrib =
     Option.bind attrib (\<lambda>p. map_option gatt_db_service_get_handles (find_service db (fst p)))"

text \<open>
  Start, end, whether the service is primary, and the UUID; the last is \<open>None\<close> when the
  declaration's value is no UUID (the call then returns false if the UUID was asked for).
\<close>

definition gatt_db_attribute_get_service_data ::
  "('f, 'u) gatt_db \<Rightarrow> attr_ptr option \<Rightarrow> (u16 \<times> u16 \<times> bool \<times> bt_uuid option) option" where
  "gatt_db_attribute_get_service_data db attrib =
     Option.bind attrib (\<lambda>p. map_option (\<lambda>s. (let decl = svc_decl s; (start, stop) = gatt_db_service_get_handles s in
        (start, stop, \<not> uuid_match (attr_uuid decl) secondary_service_uuid,
         le_to_uuid (take (unat (value_len decl)) (case attr_value decl of None \<Rightarrow> [] | Some v \<Rightarrow> v)))))
       (find_service db (fst p)))"

text \<open>Handle, value handle, properties and UUID of a characteristic declaration.\<close>

definition gatt_db_attribute_get_char_data ::
  "('f, 'u) gatt_db \<Rightarrow> attr_ptr option \<Rightarrow> (u16 \<times> u16 \<times> u8 \<times> bt_uuid option) option" where
  "gatt_db_attribute_get_char_data db attrib = (case Option.bind attrib (attr_at db) of None \<Rightarrow> None
     | Some a \<Rightarrow>
         if \<not> uuid_match characteristic_uuid (attr_uuid a) then None
         else (case attr_value a of None \<Rightarrow> None
           | Some v \<Rightarrow>
               if value_len a \<noteq> 5 \<and> value_len a \<noteq> 19 then None
               else Some (attr_handle a, get_le16 v 1, v ! 0,
                          le_to_uuid (take (unat (value_len a) - 3) (drop 3 v)))))"

text \<open>
  The extended properties asked for with the call above: a descriptor found after the value
  is read. \<open>read\<close> performs the read of an attribute with the state \<open>'w\<close> and gives error and value
  when the result arrives during the call (a later one would be written to a dead local variable).
\<close>

definition read_ext_prop_value :: "u16 \<Rightarrow> (int \<times> bytes) option \<Rightarrow> u16" where
  "read_ext_prop_value ext_prop result = (case result of None \<Rightarrow> ext_prop
     | Some (err, value) \<Rightarrow> if err \<noteq> 0 \<or> length value \<noteq> 2 then ext_prop else ucast (value ! 0))"

definition read_ext_prop ::
  "(attr_ptr \<Rightarrow> 'w \<Rightarrow> (int \<times> bytes) option \<times> 'w) \<Rightarrow> ('f, 'u) gatt_db \<Rightarrow> attr_ptr \<Rightarrow> u16 \<times> 'w \<Rightarrow> u16 \<times> 'w" where
  "read_ext_prop read db p st = (case st of (ext_prop, w) \<Rightarrow>
     if ext_prop \<noteq> 0 then (ext_prop, w)
     else (case attr_at db p of None \<Rightarrow> (ext_prop, w)
       | Some a \<Rightarrow>
           if \<not> uuid_match ext_desc_uuid (attr_uuid a) then (ext_prop, w)
           else (case read p w of (r, w') \<Rightarrow> (read_ext_prop_value ext_prop r, w'))))"

definition get_char_extended_prop ::
  "(attr_ptr \<Rightarrow> 'w \<Rightarrow> (int \<times> bytes) option \<times> 'w) \<Rightarrow> ('f, 'u) gatt_db \<Rightarrow> attr_ptr option \<Rightarrow> 'w \<Rightarrow> u8 \<times> 'w" where
  "get_char_extended_prop read db attrib w = (case Option.bind attrib (attr_at db) of None \<Rightarrow> (0, w)
     | Some a \<Rightarrow>
         if \<not> uuid_match characteristic_uuid (attr_uuid a) then (0, w)
         else if (case attr_value a of None \<Rightarrow> 0 | Some v \<Rightarrow> v ! 0) AND BT_GATT_CHRC_PROP_EXT_PROP = 0 then (0, w)
         else (case fold (read_ext_prop read db) (gatt_db_service_foreach_desc db attrib) (0, w) of
                 (ext_prop, w') \<Rightarrow> (ucast ext_prop, w')))"

text \<open>Handle, start and end of an include declaration.\<close>

definition gatt_db_attribute_get_incl_data ::
  "('f, 'u) gatt_db \<Rightarrow> attr_ptr option \<Rightarrow> (u16 \<times> u16 \<times> u16) option" where
  "gatt_db_attribute_get_incl_data db attrib = (case Option.bind attrib (attr_at db) of None \<Rightarrow> None
     | Some a \<Rightarrow>
         if \<not> uuid_match included_service_uuid (attr_uuid a) then None
         else (case attr_value a of None \<Rightarrow> None
           | Some v \<Rightarrow> if value_len a < 4 \<or> value_len a > 6 then None
                      else Some (attr_handle a, get_le16 v 0, get_le16 v 2)))"

definition gatt_db_attribute_get_permissions :: "('f, 'u) gatt_db \<Rightarrow> attr_ptr option \<Rightarrow> u32" where
  "gatt_db_attribute_get_permissions db attrib =
     (case Option.bind attrib (attr_at db) of None \<Rightarrow> 0 | Some a \<Rightarrow> permissions a)"

definition gatt_db_attribute_get_user_data :: "('f, 'u) gatt_db \<Rightarrow> attr_ptr option \<Rightarrow> 'u option" where
  "gatt_db_attribute_get_user_data db attrib = Option.bind attrib (\<lambda>p. Option.bind (attr_at db p) attr_user_data)"

section \<open>Values\<close>

text \<open>
  A read: of an attribute with a read function, it becomes pending under a fresh identifier and the
  function is called; otherwise the result is delivered at once. \<open>tid\<close> is the timeout's identifier.
\<close>

definition gatt_db_attribute_read ::
  "u32 \<Rightarrow> ('f, 'u) gatt_db \<Rightarrow> attr_ptr option \<Rightarrow> u16 \<Rightarrow> u8 \<Rightarrow> 'f option \<Rightarrow> 'u \<Rightarrow>
   bool \<times> ('f, 'u) db_event list \<times> ('f, 'u) gatt_db" where
  "gatt_db_attribute_read tid db attrib offset opcode func ud =
     (case (attrib, func) of
        (Some p, Some f) \<Rightarrow> (case attr_at db p of None \<Rightarrow> (False, [], db)
          | Some a \<Rightarrow> (case read_func a of
              Some rdf \<Rightarrow>
                (let i = read_id a + 1;
                     pend = \<lparr>p_id = i, p_timeout_id = tid, p_func = f, p_user_data = ud\<rparr>
                 in (True, [Call_Read rdf p i offset opcode (attr_user_data a)],
                     upd_attr p (\<lambda>a. a\<lparr>read_id := i, pending_reads := lq_push_tail pend (pending_reads a)\<rparr>) db))
            | None \<Rightarrow>
                if offset > value_len a then
                  (True, [Call_Read_Result f p BT_ATT_ERROR_INVALID_OFFSET None ud], db)
                else
                  (let value = (if offset = value_len a then None
                                else map_option (\<lambda>v. take (unat (value_len a - offset)) (drop (unat offset) v))
                                       (attr_value a))
                   in (True, [Call_Read_Result f p 0 value ud], db))))
      | _ \<Rightarrow> (False, [], db))"

definition find_pending :: "u32 \<Rightarrow> ('f, 'u) pending \<Rightarrow> bool" where
  "find_pending i p \<longleftrightarrow> p_id p = i"

definition gatt_db_attribute_read_result ::
  "('f, 'u) gatt_db \<Rightarrow> attr_ptr option \<Rightarrow> u32 \<Rightarrow> int \<Rightarrow> bytes option \<Rightarrow>
   bool \<times> ('f, 'u) db_event list \<times> ('f, 'u) gatt_db" where
  "gatt_db_attribute_read_result db attrib i err value =
     (case attrib of None \<Rightarrow> (False, [], db)
      | Some p \<Rightarrow> if i = 0 then (False, [], db) else
          (case attr_at db p of None \<Rightarrow> (False, [], db)
           | Some a \<Rightarrow> (case lq_remove_if (find_pending i) (pending_reads a) of
               (None, _) \<Rightarrow> (False, [], db)
             | (Some pend, rest) \<Rightarrow> (True, pending_read_result p pend err value,
                 upd_attr p (\<lambda>a. a\<lparr>pending_reads := rest\<rparr>) db))))"

text \<open>The timeout of a pending read: the entry goes, its function hears of it.\<close>

definition read_timeout ::
  "('f, 'u) gatt_db \<Rightarrow> attr_ptr \<Rightarrow> ('f, 'u) pending \<Rightarrow> ('f, 'u) db_event list \<times> ('f, 'u) gatt_db" where
  "read_timeout db p pend = (pending_read_result p (pend\<lparr>p_timeout_id := 0\<rparr>) (- ETIMEDOUT) None,
     upd_attr p (\<lambda>a. a\<lparr>pending_reads := remove_first (\<lambda>x. x = pend) (pending_reads a)\<rparr>) db)"

text \<open>\<^verbatim>\<open>realloc(old, n)\<close>: the bytes beyond the old block hold \<open>junk\<close>.\<close>

definition realloc :: "(nat \<Rightarrow> u8) \<Rightarrow> bytes option \<Rightarrow> nat \<Rightarrow> bytes" where
  "realloc junk old n = (let o' = (case old of None \<Rightarrow> [] | Some v \<Rightarrow> v) in
     take n o' @ map junk [length o'..<n])"

text \<open>What a write of bytes to a value kept in the database leaves there, and the new \<^verbatim>\<open>value_len\<close>.\<close>

definition store_value ::
  "(nat \<Rightarrow> u8) \<Rightarrow> u16 \<Rightarrow> bytes \<Rightarrow> ('f, 'u) gatt_db_attribute \<Rightarrow> ('f, 'u) gatt_db_attribute" where
  "store_value junk offset value a =
     (let off = unat offset; len = length value;
          grow = (attr_value a = None \<or> offset \<ge> value_len a \<or> int len > uint (value_len a) - uint offset);
          buf0 = (if grow then realloc junk (attr_value a) (len + off)
                  else (case attr_value a of None \<Rightarrow> [] | Some v \<Rightarrow> v));
          buf1 = (if grow \<and> value_len a = 0 then memcpy_at buf0 0 (replicate off 0) else buf0);
          vlen = (if grow then of_nat (len + off) else value_len a)
      in a\<lparr>value_len := vlen, attr_value := Some (memcpy_at buf1 off value)\<rparr>)"

definition gatt_db_attribute_write ::
  "(nat \<Rightarrow> u8) \<Rightarrow> u32 \<Rightarrow> ('f, 'u) gatt_db \<Rightarrow> attr_ptr option \<Rightarrow> u16 \<Rightarrow> bytes option \<Rightarrow> u8 \<Rightarrow> 'f option \<Rightarrow> 'u \<Rightarrow>
   bool \<times> ('f, 'u) db_event list \<times> ('f, 'u) gatt_db" where
  "gatt_db_attribute_write junk tid db attrib offset value opcode func ud =
     (case (attrib, func) of
        (Some p, Some f) \<Rightarrow> (case attr_at db p of None \<Rightarrow> (False, [], db)
          | Some a \<Rightarrow> (case write_func a of
              Some wrf \<Rightarrow>
                (let i = write_id a + 1;
                     pend = \<lparr>p_id = i, p_timeout_id = tid, p_func = f, p_user_data = ud\<rparr>
                 in (True, [Call_Write wrf p i offset value opcode (attr_user_data a)],
                     upd_attr p (\<lambda>a. a\<lparr>write_id := i, pending_writes := lq_push_tail pend (pending_writes a)\<rparr>) db))
            | None \<Rightarrow>
                (True, [Call_Write_Result f p 0 ud],
                 (case value of None \<Rightarrow> db
                  | Some v \<Rightarrow> if v = [] then db else upd_attr p (store_value junk offset v) db))))
      | _ \<Rightarrow> (False, [], db))"

definition gatt_db_attribute_write_result ::
  "('f, 'u) gatt_db \<Rightarrow> attr_ptr option \<Rightarrow> u32 \<Rightarrow> int \<Rightarrow> bool \<times> ('f, 'u) db_event list \<times> ('f, 'u) gatt_db" where
  "gatt_db_attribute_write_result db attrib i err =
     (case attrib of None \<Rightarrow> (False, [], db)
      | Some p \<Rightarrow> if i = 0 then (False, [], db) else
          (case attr_at db p of None \<Rightarrow> (False, [], db)
           | Some a \<Rightarrow> (case lq_remove_if (find_pending i) (pending_writes a) of
               (None, _) \<Rightarrow> (False, [], db)
             | (Some pend, rest) \<Rightarrow> (True, pending_write_result p pend err,
                 upd_attr p (\<lambda>a. a\<lparr>pending_writes := rest\<rparr>) db))))"

definition write_timeout ::
  "('f, 'u) gatt_db \<Rightarrow> attr_ptr \<Rightarrow> ('f, 'u) pending \<Rightarrow> ('f, 'u) db_event list \<times> ('f, 'u) gatt_db" where
  "write_timeout db p pend = (pending_write_result p (pend\<lparr>p_timeout_id := 0\<rparr>) (- ETIMEDOUT),
     upd_attr p (\<lambda>a. a\<lparr>pending_writes := remove_first (\<lambda>x. x = pend) (pending_writes a)\<rparr>) db)"

definition gatt_db_attribute_reset ::
  "('f, 'u) gatt_db \<Rightarrow> attr_ptr option \<Rightarrow> bool \<times> ('f, 'u) gatt_db" where
  "gatt_db_attribute_reset db attrib = (case attrib of None \<Rightarrow> (False, db)
     | Some p \<Rightarrow> (True, upd_attr p (\<lambda>a. if attr_value a = None \<or> value_len a = 0 then a
                                      else a\<lparr>attr_value := None, value_len := 0\<rparr>) db))"

end
