(* ===== verification/Gatt_Db_Inv.thy ===== *)
theory Gatt_Db_Inv
  imports Gatt_Db
begin

text \<open>
  The well-formedness of the attribute database and what it gives: every operation keeps the
  services in handle order without overlap and each service's attributes dense from its
  declaration; lookups find exactly the attribute with a handle; the searches behind the
  discovery requests return exactly the matching attributes in handle order; a value written
  is the value read.
\<close>

section \<open>The invariant\<close>

definition svc_start :: "('f, 'u) gatt_db_service \<Rightarrow> nat" where
  "svc_start s = unat (attr_handle (svc_decl s))"

definition svc_end :: "('f, 'u) gatt_db_service \<Rightarrow> nat" where
  "svc_end s = svc_start s + unat (num_handles s) - 1"

text \<open>A buffer holds at least the bytes \<^verbatim>\<open>value_len\<close> promises.\<close>

definition attr_ok :: "('f, 'u) gatt_db_attribute \<Rightarrow> bool" where
  "attr_ok a \<longleftrightarrow> (case attr_value a of None \<Rightarrow> value_len a = 0 | Some v \<Rightarrow> unat (value_len a) \<le> length v)"

text \<open>Filled from the front, handles consecutive.\<close>

definition svc_dense :: "('f, 'u) gatt_db_service \<Rightarrow> bool" where
  "svc_dense s \<longleftrightarrow>
     (\<forall>i j. i < j \<longrightarrow> j < length (attributes s) \<longrightarrow> attributes s ! j \<noteq> None \<longrightarrow> attributes s ! i \<noteq> None) \<and>
     (\<forall>i a. i < length (attributes s) \<longrightarrow> attributes s ! i = Some a \<longrightarrow>
        unat (attr_handle a) = svc_start s + i \<and> attr_service a = svc_addr s \<and> attr_ok a)"

definition svc_wf :: "('f, 'u) gatt_db_service \<Rightarrow> bool" where
  "svc_wf s \<longleftrightarrow> 1 \<le> unat (num_handles s) \<and> length (attributes s) = unat (num_handles s) \<and>
     attributes s ! 0 \<noteq> None \<and> 1 \<le> svc_start s \<and> svc_end s \<le> 0xFFFF \<and> svc_dense s"

definition db_wf :: "('f, 'u) gatt_db \<Rightarrow> bool" where
  "db_wf db \<longleftrightarrow> (\<forall>s \<in> set (services db). svc_wf s \<and> svc_addr s < db_fresh db) \<and>
     distinct (map svc_addr (services db)) \<and>
     sorted_wrt (\<lambda>s t. svc_end s < svc_start t) (services db)"

text \<open>The next handle is beyond all services; 0 stands for an exhausted handle range.\<close>

definition next_ok :: "('f, 'u) gatt_db \<Rightarrow> bool" where
  "next_ok db \<longleftrightarrow> next_handle db = 0 \<or> (\<forall>s \<in> set (services db). svc_end s < unat (next_handle db))"

lemma gatt_db_new_wf: "db_wf gatt_db_new" "next_ok gatt_db_new"
  by (simp_all add: db_wf_def next_ok_def gatt_db_new_def gatt_db_ref_def)

section \<open>Words and handles\<close>

lemma unat16_add: "unat (a :: u16) + unat b \<le> 0xFFFF \<Longrightarrow> unat (a + b) = unat a + unat b"
  by (subst unat_add_lem [THEN iffD1]) auto

lemma unat16_lt: "unat (a :: u16) < 65536"
  using unsigned_less [of a, where 'a = nat] by simp

lemma unat16_add_1: "unat (a :: u16) < 0xFFFF \<Longrightarrow> unat (a + 1) = unat a + 1"
  using unat16_add [of a 1] by simp

lemma uint_unat16: "uint (a :: u16) = int (unat a)"
  by simp

lemma unat16_end:
  assumes "1 \<le> unat (n :: u16)" and "unat a + unat n - 1 \<le> 0xFFFF"
  shows "unat (a + n - 1) = unat a + unat n - 1"
proof -
  have "unat (n - 1) = unat n - 1" using assms(1) by (subst unat_minus_one) auto
  then have "unat (a + (n - 1)) = unat a + (unat n - 1)" using assms by (subst unat16_add) auto
  then show ?thesis using assms(1) by (simp add: algebra_simps)
qed

lemma get_handles_nat:
  assumes "svc_wf s" and "gatt_db_service_get_handles s = (a, b)"
  shows "unat a = svc_start s" and "unat b = svc_end s"
  using assms unat16_end [of "num_handles s" "attr_handle (svc_decl s)"]
  by (auto simp: svc_wf_def gatt_db_service_get_handles_def svc_start_def svc_end_def)

lemma get_handles_pair: "gatt_db_service_get_handles s =
    (fst (gatt_db_service_get_handles s), snd (gatt_db_service_get_handles s))"
  by simp

lemma get_handles_unat [simp]:
  "svc_wf s \<Longrightarrow> unat (fst (gatt_db_service_get_handles s)) = svc_start s"
  "svc_wf s \<Longrightarrow> unat (snd (gatt_db_service_get_handles s)) = svc_end s"
  using get_handles_nat [OF _ get_handles_pair] by blast+

lemma svc_start_le_end: "svc_wf s \<Longrightarrow> svc_start s \<le> svc_end s"
  by (auto simp: svc_wf_def svc_end_def)

lemma svc_decl_handle: "svc_wf s \<Longrightarrow> attributes s ! 0 = Some (svc_decl s)"
  by (auto simp: svc_wf_def svc_decl_def)

lemma dense_handle:
  "svc_wf s \<Longrightarrow> i < length (attributes s) \<Longrightarrow> attributes s ! i = Some a \<Longrightarrow> unat (attr_handle a) = svc_start s + i"
  by (auto simp: svc_wf_def svc_dense_def)

section \<open>Addresses\<close>

lemma find_service_in: "find_service db a = Some s \<Longrightarrow> s \<in> set (services db) \<and> svc_addr s = a"
  by (auto simp: find_service_def dest: find_SomeD)

lemma find_distinct: "distinct (map f xs) \<Longrightarrow> x \<in> set xs \<Longrightarrow> find (\<lambda>y. f y = f x) xs = Some x"
  by (induction xs) (auto simp: image_iff)

lemma find_service_mem: "db_wf db \<Longrightarrow> s \<in> set (services db) \<Longrightarrow> find_service db (svc_addr s) = Some s"
  by (simp add: db_wf_def find_service_def find_distinct)

lemma find_service_iff: "db_wf db \<Longrightarrow> find_service db a = Some s \<longleftrightarrow> s \<in> set (services db) \<and> svc_addr s = a"
  using find_service_mem find_service_in by blast

lemma attr_at_iff: "attr_at db (x, i) = Some a \<longleftrightarrow>
    (\<exists>s. find_service db x = Some s \<and> i < length (attributes s) \<and> attributes s ! i = Some a)"
  by (auto simp: attr_at_def bind_eq_Some_conv)

text \<open>Services overlap nowhere, so a handle belongs to at most one.\<close>

lemma sorted_service_unique:
  assumes "sorted_wrt (\<lambda>s t. svc_end s < svc_start t) ss" and "\<forall>s \<in> set ss. svc_wf s"
    and "s \<in> set ss" and "t \<in> set ss"
    and "svc_start s \<le> h" and "h \<le> svc_end s" and "svc_start t \<le> h" and "h \<le> svc_end t"
  shows "s = t"
  using assms by (induction ss) force+

lemma find_service_for_handle_iff:
  "svc_wf s \<Longrightarrow> find_service_for_handle h s \<longleftrightarrow> svc_start s \<le> unat h \<and> unat h \<le> svc_end s"
  by (auto simp: find_service_for_handle_def word_le_nat_alt split: prod.splits dest: get_handles_nat)

section \<open>Lookup\<close>

lemma find_unique:
  assumes "\<forall>x \<in> set xs. \<forall>y \<in> set xs. P x \<longrightarrow> P y \<longrightarrow> x = y"
  shows "find P xs = Some x \<longleftrightarrow> x \<in> set xs \<and> P x"
proof
  show "find P xs = Some x \<Longrightarrow> x \<in> set xs \<and> P x" by (rule find_SomeD)
next
  assume x: "x \<in> set xs \<and> P x"
  then obtain y where y: "find P xs = Some y"
    by (cases "find P xs") (auto simp: find_None_iff)
  with find_SomeD [OF y] x assms show "find P xs = Some x" by auto
qed

lemma get_service_iff:
  assumes "db_wf db"
  shows "gatt_db_get_service db h = Some p \<longleftrightarrow>
    (\<exists>s \<in> set (services db). svc_start s \<le> unat h \<and> unat h \<le> svc_end s \<and> p = (svc_addr s, 0))"
proof -
  have wf: "\<forall>s \<in> set (services db). svc_wf s" using assms by (simp add: db_wf_def)
  have "find (find_service_for_handle h) (services db) = Some s \<longleftrightarrow>
      s \<in> set (services db) \<and> find_service_for_handle h s" for s
    using wf sorted_service_unique [of "services db"] assms
    by (intro find_unique) (auto simp: db_wf_def find_service_for_handle_iff)
  moreover have "1 \<le> svc_start s" if "s \<in> set (services db)" for s
    using wf that by (simp add: svc_wf_def)
  ultimately show ?thesis
    using wf by (cases "h = 0") (auto simp: gatt_db_get_service_def find_service_for_handle_iff, force)
qed

lemma service_slots_wf: "svc_wf s \<Longrightarrow> service_slots s = enumerate 0 (attributes s)"
  by (simp add: service_slots_def svc_wf_def)

lemma in_enumerate: "x \<in> set (enumerate 0 xs) \<longleftrightarrow> fst x < length xs \<and> xs ! fst x = snd x"
  by (cases x) (auto simp: in_set_enumerate_eq)

lemma find_slot_iff:
  assumes "svc_wf s"
  shows "find (slot_has_handle h) (service_slots s) = Some (i, v) \<longleftrightarrow>
    (\<exists>a. v = Some a \<and> i < length (attributes s) \<and> attributes s ! i = Some a \<and> attr_handle a = h)"
proof -
  have "x = y" if "x \<in> set (service_slots s)" "y \<in> set (service_slots s)" "slot_has_handle h x" "slot_has_handle h y"
    for x y
  proof -
    note hyps = that
    obtain a b where ab: "fst x < length (attributes s)" "attributes s ! fst x = Some a" "snd x = Some a"
        "attr_handle a = h" "fst y < length (attributes s)" "attributes s ! fst y = Some b" "attr_handle b = h"
      using hyps unfolding service_slots_wf [OF assms] in_enumerate slot_has_handle_def
      by (cases "snd x"; cases "snd y") auto
    then have "fst x = fst y"
      using dense_handle [OF assms, of "fst x" a] dense_handle [OF assms, of "fst y" b] by simp
    with hyps ab show ?thesis
      by (auto simp: service_slots_wf [OF assms] in_enumerate intro: prod_eqI)
  qed
  then show ?thesis
    by (subst find_unique) (auto simp: service_slots_wf [OF assms] in_enumerate slot_has_handle_def split: option.splits)
qed

lemma get_attribute_iff:
  assumes "db_wf db"
  shows "gatt_db_get_attribute db h = Some p \<longleftrightarrow> (\<exists>a. attr_at db p = Some a \<and> attr_handle a = h)"
proof
  assume "gatt_db_get_attribute db h = Some p"
  then obtain x s slot where s: "gatt_db_get_service db h = Some x" "find_service db (fst x) = Some s"
      "find (slot_has_handle h) (service_slots s) = Some slot" "p = (svc_addr s, fst slot)"
    by (auto simp: gatt_db_get_attribute_def bind_eq_Some_conv)
  moreover have "svc_wf s" using s(2) find_service_in assms by (auto simp: db_wf_def)
  ultimately show "\<exists>a. attr_at db p = Some a \<and> attr_handle a = h"
    using find_slot_iff [of s h "fst slot" "snd slot"] find_service_in [OF s(2)]
    by (auto simp: attr_at_iff)
next
  assume "\<exists>a. attr_at db p = Some a \<and> attr_handle a = h"
  then obtain s a where s: "find_service db (fst p) = Some s" "snd p < length (attributes s)"
      "attributes s ! snd p = Some a" "attr_handle a = h"
    by (cases p) (auto simp: attr_at_iff)
  have mem: "s \<in> set (services db)" "svc_addr s = fst p" using find_service_in [OF s(1)] by auto
  then have wf: "svc_wf s" using assms by (simp add: db_wf_def)
  have "svc_start s \<le> unat h \<and> unat h \<le> svc_end s"
    using dense_handle [OF wf s(2,3)] s(2,4) wf by (auto simp: svc_wf_def svc_end_def)
  then have "gatt_db_get_service db h = Some (svc_addr s, 0)"
    using get_service_iff [OF assms] mem by auto
  moreover have "find (slot_has_handle h) (service_slots s) = Some (snd p, Some a)"
    using find_slot_iff [OF wf] s by auto
  ultimately show "gatt_db_get_attribute db h = Some p"
    using s(1) mem by (simp add: gatt_db_get_attribute_def)
qed

section \<open>Adding services\<close>

lemma lq_push_after_split:
  assumes "distinct (map f (us @ v # vs))"
  shows "lq_push_after (\<lambda>x. f x = f v) s (us @ v # vs) = us @ v # s # vs"
  using assms by (induction us) auto

text \<open>
  When the search for the place finds no overlap, the place splits the services into those
  before and those after the new range, provided the range encloses no service.
\<close>

lemma find_insert_loc_from_None:
  assumes "find_insert_loc_from ss a b after = (None, after')" and "\<forall>s \<in> set ss. svc_wf s"
    and "sorted_wrt (\<lambda>s t. svc_end s < svc_start t) ss" and "a \<le> b"
    and "\<forall>s \<in> set ss. \<not> (unat a < svc_start s \<and> svc_end s < unat b)"
  shows "\<exists>us vs. ss = us @ vs \<and> (\<forall>u \<in> set us. svc_end u < unat a) \<and> (\<forall>v \<in> set vs. unat b < svc_start v) \<and>
    after' = (if us = [] then after else Some (last us))"
  using assms
proof (induction ss arbitrary: after)
  case Nil
  then show ?case by simp
next
  case (Cons s ss)
  obtain c d where h: "gatt_db_service_get_handles s = (c, d)" by fastforce
  with Cons.prems(2) have cd: "unat c = svc_start s" "unat d = svc_end s"
    by (auto dest: get_handles_nat)
  show ?case
  proof (cases "b < c")
    case True
    with Cons.prems h cd show ?thesis
      by (intro exI [of _ "[]"] exI [of _ "s # ss"])
        (auto simp: word_less_nat_alt word_le_nat_alt split: if_splits)
  next
    case False
    with Cons.prems(1) h have rec: "find_insert_loc_from ss a b (Some s) = (None, after')"
        and out: "\<not> (c \<le> a \<and> a \<le> d)" "\<not> (c \<le> b \<and> b \<le> d)"
      by (auto split: if_splits)
    have "svc_end s < unat a"
      using out False Cons.prems(4,5) cd svc_start_le_end [of s] Cons.prems(2)
      by (auto simp: word_less_nat_alt word_le_nat_alt not_le not_less)
    moreover obtain us vs where "ss = us @ vs" "\<forall>u \<in> set us. svc_end u < unat a"
        "\<forall>v \<in> set vs. unat b < svc_start v" "after' = (if us = [] then Some s else Some (last us))"
      using Cons.IH [OF rec] Cons.prems by auto
    ultimately show ?thesis by (intro exI [of _ "s # us"] exI [of _ vs]) auto
  qed
qed

text \<open>The service that an insertion creates.\<close>

definition fresh_service :: "nat \<Rightarrow> bt_uuid \<Rightarrow> u16 \<Rightarrow> bool \<Rightarrow> u16 \<Rightarrow> ('f, 'u) gatt_db_service" where
  "fresh_service addr uuid handle primary n =
     \<lparr>svc_addr = addr, active = False, claimed = False, num_handles = n,
      attributes = (replicate (unat n) None)[0 := Some (set_attribute_data None None BT_ATT_PERM_READ None
        (new_attribute addr handle (if primary then primary_service_uuid else secondary_service_uuid)
          (uuid_to_le uuid)))]\<rparr>"

lemma new_attribute_ok: "attr_ok (new_attribute x h t val)"
  by (auto simp: attr_ok_def new_attribute_def unat_of_nat)

lemma set_attribute_data_sel [simp]:
  "attr_handle (set_attribute_data r w p u a) = attr_handle a"
  "attr_service (set_attribute_data r w p u a) = attr_service a"
  "attr_uuid (set_attribute_data r w p u a) = attr_uuid a"
  "attr_value (set_attribute_data r w p u a) = attr_value a"
  "value_len (set_attribute_data r w p u a) = value_len a"
  "permissions (set_attribute_data r w p u a) = p"
  by (simp_all add: set_attribute_data_def)

lemma set_attribute_data_ok [simp]: "attr_ok (set_attribute_data r w p u a) = attr_ok a"
  by (simp add: attr_ok_def cong: option.case_cong)

lemma new_attribute_sel [simp]:
  "attr_handle (new_attribute x h t v) = h" "attr_service (new_attribute x h t v) = x"
  "attr_uuid (new_attribute x h t v) = t"
  by (simp_all add: new_attribute_def)

lemma fresh_service_sel [simp]:
  "svc_addr (fresh_service x u h primary n) = x" "num_handles (fresh_service x u h primary n) = n"
  "active (fresh_service x u h primary n) = False" "length (attributes (fresh_service x u h primary n)) = unat n"
  by (simp_all add: fresh_service_def)

lemma fresh_service_attr: "i < unat n \<Longrightarrow> attributes (fresh_service x u h primary n) ! i =
    (if i = 0 then Some (set_attribute_data None None BT_ATT_PERM_READ None
       (new_attribute x h (if primary then primary_service_uuid else secondary_service_uuid) (uuid_to_le u)))
     else None)"
  by (auto simp: fresh_service_def nth_list_update)

lemma fresh_service_wf:
  fixes x u h primary n
  defines "s \<equiv> fresh_service x u h primary n"
  assumes "1 \<le> unat n" and "1 \<le> unat h" and "unat h + unat n - 1 \<le> 0xFFFF"
  shows "svc_wf s" and "svc_start s = unat h" and "svc_end s = unat h + unat n - 1"
proof -
  show d: "svc_start s = unat h"
    using assms(2) by (simp add: svc_start_def svc_decl_def fresh_service_attr s_def)
  then show e: "svc_end s = unat h + unat n - 1"
    by (simp add: svc_end_def s_def)
  have "svc_dense s"
    using assms(2) d by (auto simp: svc_dense_def fresh_service_attr new_attribute_ok s_def split: if_splits)
  then show "svc_wf s"
    using assms(2-) d e by (simp add: svc_wf_def fresh_service_attr s_def)
qed

lemma insert_service_cases:
  assumes "gatt_db_insert_service db h u primary n = (r, db')"
  shows "db' = db \<or>
    (\<exists>after. find_insert_loc db h (h + n - 1) = (None, after) \<and> 1 \<le> unat h \<and> 1 \<le> unat n \<and>
      unat h + unat n - 1 \<le> 0xFFFF \<and> r = Some (db_fresh db, 0) \<and>
      db' = db\<lparr>services := (case after of
            Some a \<Rightarrow> lq_push_after (\<lambda>x. svc_addr x = svc_addr a) (fresh_service (db_fresh db) u h primary n) (services db)
          | None \<Rightarrow> fresh_service (db_fresh db) u h primary n # services db),
        next_handle := (if unat h + unat n > unat (next_handle db) then h + n else next_handle db),
        db_fresh := db_fresh db + 1\<rparr>)"
proof -
  have "\<not> h < 1 \<longleftrightarrow> 1 \<le> unat h" "\<not> n < 1 \<longleftrightarrow> 1 \<le> unat n"
    by (simp_all add: word_less_nat_alt not_less Suc_le_eq)
  moreover have "uint h + uint n - 1 > 0xFFFF \<longleftrightarrow> \<not> unat h + unat n - 1 \<le> 0xFFFF" if "1 \<le> unat n"
    using that by (simp only: uint_unat16) linarith
  moreover have "uint h + uint n > uint (next_handle db) \<longleftrightarrow> unat h + unat n > unat (next_handle db)"
    by (simp only: uint_unat16) linarith
  moreover have "0 < unat n \<Longrightarrow> replicate (unat n) x ! 0 = x" for x by simp
  ultimately show ?thesis
    using assms
    by (auto simp: gatt_db_insert_service_def gatt_db_service_create_def fresh_service_def lq_push_head_def
        set_attribute_data_def new_attribute_def Let_def split: if_splits option.splits prod.splits)
qed

lemma insert_service_shape:
  assumes wf: "db_wf db" and ins: "gatt_db_insert_service db h u primary n = (r, db')" and "db' \<noteq> db"
    and encl: "\<forall>s \<in> set (services db). \<not> (unat h < svc_start s \<and> svc_end s < unat h + unat n - 1)"
  shows "\<exists>us vs. services db = us @ vs \<and> services db' = us @ fresh_service (db_fresh db) u h primary n # vs \<and>
    (\<forall>s \<in> set us. svc_end s < unat h) \<and> (\<forall>s \<in> set vs. unat h + unat n - 1 < svc_start s) \<and>
    1 \<le> unat h \<and> 1 \<le> unat n \<and> unat h + unat n - 1 \<le> 0xFFFF \<and> r = Some (db_fresh db, 0) \<and>
    next_handle db' = (if unat h + unat n > unat (next_handle db) then h + n else next_handle db) \<and>
    db_fresh db' = db_fresh db + 1"
proof -
  let ?s = "fresh_service (db_fresh db) u h primary n"
  from insert_service_cases [OF ins] \<open>db' \<noteq> db\<close> obtain after where
    loc: "find_insert_loc db h (h + n - 1) = (None, after)"
    and b: "1 \<le> unat h" "1 \<le> unat n" "unat h + unat n - 1 \<le> 0xFFFF" "r = Some (db_fresh db, 0)"
    and db': "db' = db\<lparr>services := (case after of
            Some a \<Rightarrow> lq_push_after (\<lambda>x. svc_addr x = svc_addr a) ?s (services db)
          | None \<Rightarrow> ?s # services db),
        next_handle := (if unat h + unat n > unat (next_handle db) then h + n else next_handle db),
        db_fresh := db_fresh db + 1\<rparr>"
    by blast
  have end': "unat (h + n - 1) = unat h + unat n - 1" using b by (simp add: unat16_end)
  have le: "h \<le> h + n - 1" using end' b(2) unfolding word_le_nat_alt by linarith
  obtain us vs where uv: "services db = us @ vs" "\<forall>s \<in> set us. svc_end s < unat h"
      "\<forall>s \<in> set vs. unat h + unat n - 1 < svc_start s" "after = (if us = [] then None else Some (last us))"
    using find_insert_loc_from_None [OF loc [unfolded find_insert_loc_def] _ _ le] wf encl end'
    by (auto simp: db_wf_def)
  have "services db' = us @ ?s # vs"
  proof (cases "us = []")
    case True
    with uv db' show ?thesis by simp
  next
    case False
    define a where "a = last us"
    from False have us: "us = butlast us @ [a]" by (simp add: a_def)
    have dist: "distinct (map svc_addr (butlast us @ a # vs))"
      using wf uv(1) us by (metis append.assoc append_Cons append_Nil db_wf_def)
    have "lq_push_after (\<lambda>x. svc_addr x = svc_addr a) ?s (services db) = us @ ?s # vs"
      using lq_push_after_split [OF dist, of ?s] uv(1) us by (metis append.assoc append_Cons append_Nil)
    with False uv(4) db' show ?thesis by (simp add: a_def)
  qed
  then show ?thesis using uv b db' by (intro exI [of _ us] exI [of _ vs]) simp
qed

lemma insert_service_wf:
  fixes db :: "('f, 'u) gatt_db"
  assumes wf: "db_wf db" and ins: "gatt_db_insert_service db h u primary n = (r, db')"
    and encl: "\<forall>s \<in> set (services db). \<not> (unat h < svc_start s \<and> svc_end s < unat h + unat n - 1)"
  shows "db_wf db'"
proof (cases "db' = db")
  case True
  with wf show ?thesis by simp
next
  case False
  let ?s = "fresh_service (db_fresh db) u h primary n :: ('f, 'u) gatt_db_service"
  obtain us vs where uv: "services db = us @ vs" "services db' = us @ ?s # vs"
    and sep: "\<forall>s \<in> set us. svc_end s < unat h" "\<forall>s \<in> set vs. unat h + unat n - 1 < svc_start s"
    and b: "1 \<le> unat h" "1 \<le> unat n" "unat h + unat n - 1 \<le> 0xFFFF" "db_fresh db' = db_fresh db + 1"
    using insert_service_shape [OF wf ins False encl] by blast
  have s: "svc_wf ?s" "svc_start ?s = unat h" "svc_end ?s = unat h + unat n - 1"
    by (rule fresh_service_wf [OF b(2,1,3)])+
  have "\<forall>s \<in> set (us @ vs). svc_wf s \<and> svc_addr s < db_fresh db" "distinct (map svc_addr (us @ vs))"
      "sorted_wrt (\<lambda>s t. svc_end s < svc_start t) (us @ vs)"
    using wf by (auto simp: db_wf_def uv(1))
  then show ?thesis
    using s sep b unfolding db_wf_def uv(2) by (auto simp: sorted_wrt_append less_SucI)
qed

text \<open>Adding at the next handle: it succeeds when the handles last, always at the end.\<close>

lemma add_service_ok:
  assumes wf: "db_wf db" and nx: "next_ok db" and h: "next_handle db \<noteq> 0"
    and n: "1 \<le> unat n" "unat (next_handle db) + unat n - 1 \<le> 0xFFFF"
  shows "gatt_db_add_service db u primary n = (Some (db_fresh db, 0),
    db\<lparr>services := services db @ [fresh_service (db_fresh db) u (next_handle db) primary n],
       next_handle := next_handle db + n, db_fresh := db_fresh db + 1\<rparr>)"
proof -
  have last: "find_insert_loc_from ss (next_handle db) (next_handle db + n - 1) after =
      (None, if ss = [] then after else Some (last ss))"
    if "\<forall>s \<in> set ss. svc_wf s \<and> svc_end s < unat (next_handle db)" for ss :: "('a, 'b) gatt_db_service list" and after
    using that
  proof (induction ss arbitrary: after)
    case Nil
    then show ?case by simp
  next
    case (Cons s ss)
    obtain c d where g: "gatt_db_service_get_handles s = (c, d)" by fastforce
    with Cons.prems have "unat c = svc_start s" "unat d = svc_end s" by (auto dest: get_handles_nat)
    moreover have "unat (next_handle db + n - 1) = unat (next_handle db) + unat n - 1"
      using n by (simp add: unat16_end)
    ultimately show ?case
      using Cons g n(1) svc_start_le_end [of s]
      by (auto simp: word_le_nat_alt word_less_nat_alt)
  qed
  have loc: "find_insert_loc db (next_handle db) (next_handle db + n - 1) =
      (None, if services db = [] then None else Some (last (services db)))"
    using wf nx h by (simp add: find_insert_loc_def last db_wf_def next_ok_def)
  have pos: "\<not> next_handle db < 1" "\<not> n < 1"
    using h n(1) by (simp_all add: word_less_nat_alt unat_gt_0 Suc_le_eq)
  have "unat (next_handle db) + unat n - 1 \<le> 0xFFFF \<Longrightarrow> \<not> int (unat (next_handle db)) + int (unat n) - 1 > 0xFFFF"
    using n(1) by linarith
  with n(2) have fits: "\<not> uint (next_handle db) + uint n - 1 > 0xFFFF" by simp
  have grow: "uint (next_handle db) + uint n > uint (next_handle db)"
    using n(1) by (simp only: uint_unat16)
  have push: "lq_push_after (\<lambda>x. svc_addr x = svc_addr (last (services db))) t (services db) = services db @ [t]"
    if "services db \<noteq> []" for t
  proof -
    have "services db = butlast (services db) @ [last (services db)]" using that by simp
    then show ?thesis
      using lq_push_after_split [of svc_addr "butlast (services db)" "last (services db)" "[]" t] wf
      by (metis append.assoc append_Cons append_Nil db_wf_def)
  qed
  have "0 < unat n" using n(1) by simp
  then show ?thesis
    using pos fits grow loc push
    by (simp add: gatt_db_add_service_def gatt_db_insert_service_def gatt_db_service_create_def fresh_service_def
        lq_push_head_def set_attribute_data_def new_attribute_def Let_def)
qed

text \<open>Changing one service in place.\<close>

definition svc_frame :: "('f, 'u) gatt_db_service \<Rightarrow> ('f, 'u) gatt_db_service \<Rightarrow> bool" where
  "svc_frame s t \<longleftrightarrow> svc_addr t = svc_addr s \<and> svc_start t = svc_start s \<and> num_handles t = num_handles s"

lemma svc_frame_end: "svc_frame s t \<Longrightarrow> svc_end t = svc_end s"
  by (simp add: svc_frame_def svc_end_def)

lemma upd_service_db [db_frame]:
  "next_handle (upd_service x f db) = next_handle db" "notify_list (upd_service x f db) = notify_list db"
  "db_fresh (upd_service x f db) = db_fresh db" "next_notify_id (upd_service x f db) = next_notify_id db"
  "db_ref_count (upd_service x f db) = db_ref_count db"
  by (simp_all add: upd_service_def)

lemma upd_attr_db [db_frame]:
  "next_handle (upd_attr p f db) = next_handle db" "notify_list (upd_attr p f db) = notify_list db"
  "db_fresh (upd_attr p f db) = db_fresh db" "next_notify_id (upd_attr p f db) = next_notify_id db"
  "db_ref_count (upd_attr p f db) = db_ref_count db"
  by (simp_all add: upd_attr_def db_frame)

lemma upd_service_wf:
  assumes "db_wf db"
    and "\<And>s. s \<in> set (services db) \<Longrightarrow> svc_addr s = x \<Longrightarrow> svc_wf s \<Longrightarrow> svc_wf (f s) \<and> svc_frame s (f s)"
  shows "db_wf (upd_service x f db)"
proof -
  let ?g = "\<lambda>s. if svc_addr s = x then f s else s"
  have fr: "svc_frame s (?g s)" "svc_wf (?g s)" if "s \<in> set (services db)" for s
    using assms that by (auto simp: svc_frame_def db_wf_def)
  have "map svc_addr (map ?g (services db)) = map svc_addr (services db)"
    using fr(1) by (auto simp: svc_frame_def)
  moreover have "sorted_wrt (\<lambda>s t. svc_end s < svc_start t) (map ?g (services db))"
  proof -
    have eq: "svc_end (?g s) = svc_end s" "svc_start (?g s) = svc_start s" if "s \<in> set (services db)" for s
      using svc_frame_end [OF fr(1) [OF that]] fr(1) [OF that] unfolding svc_frame_def by blast+
    have "sorted_wrt (\<lambda>s t. svc_end s < svc_start t) (services db)" using assms(1) by (simp add: db_wf_def)
    then have "sorted_wrt (\<lambda>s t. svc_end (?g s) < svc_start (?g t)) (services db)"
      by (rule sorted_wrt_mono_rel [rotated]) (simp only: eq)
    then show ?thesis unfolding sorted_wrt_map .
  qed
  moreover have "svc_wf (?g s) \<and> svc_addr (?g s) < db_fresh db" if "s \<in> set (services db)" for s
    using fr [OF that] assms(1) that by (auto simp: svc_frame_def db_wf_def)
  then have "\<forall>t \<in> set (map ?g (services db)). svc_wf t \<and> svc_addr t < db_fresh db"
    unfolding set_map by blast
  ultimately show ?thesis
    using assms(1) unfolding db_wf_def upd_service_def by (simp del: map_map set_map)
qed

lemma upd_service_next:
  assumes "next_ok db" and "\<And>s. s \<in> set (services db) \<Longrightarrow> svc_addr s = x \<Longrightarrow> svc_frame s (f s)"
  shows "next_ok (upd_service x f db)"
  using assms svc_frame_end by (fastforce simp: next_ok_def upd_service_def)

lemma find_service_upd:
  assumes "\<And>s. svc_addr s = x \<Longrightarrow> svc_addr (f s) = x"
  shows "find_service (upd_service x f db) y =
    (if y = x then map_option f (find_service db x) else find_service db y)"
proof -
  have "find (\<lambda>s. svc_addr s = y) (map (\<lambda>s. if svc_addr s = x then f s else s) ss) =
      (if y = x then map_option f (find (\<lambda>s. svc_addr s = x) ss) else find (\<lambda>s. svc_addr s = y) ss)" for ss
    using assms by (induction ss) auto
  then show ?thesis by (simp add: find_service_def upd_service_def)
qed

lemma attr_at_upd_attr:
  "attr_at (upd_attr p f db) q = (if q = p then map_option f (attr_at db p) else attr_at db q)"
  by (cases p; cases q) (auto simp: attr_at_def upd_attr_def find_service_upd nth_list_update split: bind_splits)

text \<open>Changing an attribute in place, but not its handle.\<close>

lemma upd_slot_wf:
  assumes "svc_wf s" and "\<And>a. attr_handle (f a) = attr_handle a" "\<And>a. attr_service (f a) = attr_service a"
    and "\<And>a. attr_ok a \<Longrightarrow> attr_ok (f a)"
  shows "svc_wf (s\<lparr>attributes := (attributes s)[i := map_option f (attributes s ! i)]\<rparr>) \<and>
    svc_frame s (s\<lparr>attributes := (attributes s)[i := map_option f (attributes s ! i)]\<rparr>)"
proof (cases "i < length (attributes s)")
  case False
  then have "s\<lparr>attributes := (attributes s)[i := map_option f (attributes s ! i)]\<rparr> = s"
    by (simp add: list_update_beyond)
  with assms(1) show ?thesis by (simp add: svc_frame_def)
next
  case True
  let ?t = "s\<lparr>attributes := (attributes s)[i := map_option f (attributes s ! i)]\<rparr>"
  have start: "svc_start ?t = svc_start s"
    using True assms(1,2) by (auto simp: svc_start_def svc_decl_def nth_list_update svc_wf_def)
  have dense: "svc_dense s" using assms(1) by (simp add: svc_wf_def)
  have "svc_dense ?t"
    unfolding svc_dense_def start
    using True dense assms(2-) by (auto simp: svc_dense_def nth_list_update split: if_splits)
  with assms(1) True start show ?thesis
    by (auto simp: svc_wf_def svc_frame_def svc_end_def nth_list_update)
qed

lemma upd_attr_wf:
  assumes "db_wf db" and "\<And>a. attr_handle (f a) = attr_handle a" "\<And>a. attr_service (f a) = attr_service a"
    and "\<And>a. attr_ok a \<Longrightarrow> attr_ok (f a)"
  shows "db_wf (upd_attr p f db)"
  unfolding upd_attr_def using assms by (intro upd_service_wf upd_slot_wf) auto

text \<open>Filling the first free slot.\<close>

lemma add_slot_wf:
  assumes "svc_wf s" and "i < length (attributes s)" and "0 < i" and "\<forall>j < i. attributes s ! j \<noteq> None"
    and "unat (attr_handle a) = svc_start s + i" and "attr_service a = svc_addr s" and "attr_ok a"
  shows "svc_wf (s\<lparr>attributes := (attributes s)[i := Some a]\<rparr>) \<and> svc_frame s (s\<lparr>attributes := (attributes s)[i := Some a]\<rparr>)"
proof -
  let ?t = "s\<lparr>attributes := (attributes s)[i := Some a]\<rparr>"
  have start: "svc_start ?t = svc_start s"
    using assms(3) by (simp add: svc_start_def svc_decl_def)
  have dense: "svc_dense s" using assms(1) by (simp add: svc_wf_def)
  have "svc_dense ?t"
    unfolding svc_dense_def start
    using dense assms(2-) by (auto simp: svc_dense_def nth_list_update)
  with assms(1-3) start show ?thesis
    by (auto simp: svc_wf_def svc_frame_def svc_end_def nth_list_update)
qed

lemma get_attribute_index_spec:
  assumes "svc_wf s" and "get_attribute_index s off = i" and "i \<noteq> 0"
  shows "i < unat (num_handles s) - off \<and> i < length (attributes s) \<and> attributes s ! i = None \<and>
    (\<forall>j < i. attributes s ! j \<noteq> None)"
proof -
  define xs where "xs = take (unat (num_handles s) - off) (attributes s)"
  define k where "k = length (takeWhile (\<lambda>a. a \<noteq> None) xs)"
  have len: "length xs = unat (num_handles s) - off" using assms(1) by (simp add: xs_def svc_wf_def)
  have i: "i = k" "k < length xs"
    using assms(2,3) len length_takeWhile_le [of "\<lambda>a. a \<noteq> None" xs]
    by (auto simp: get_attribute_index_def Let_def xs_def k_def split: if_splits)
  have "xs ! k = None" using nth_length_takeWhile [of "\<lambda>a. a \<noteq> None" xs] i by (simp add: k_def)
  moreover have "\<forall>j < k. xs ! j \<noteq> None"
    by (metis (mono_tags, lifting) k_def nth_mem set_takeWhileD takeWhile_nth)
  ultimately show ?thesis using i len assms(1) by (auto simp: xs_def svc_wf_def)
qed

section \<open>Adding attributes\<close>

lemma index_handle:
  assumes "svc_wf s" and "get_attribute_index s off = i" and "i \<noteq> 0"
  shows "unat (get_handle_at_index s (i - 1)) = svc_start s + i - 1"
    and "svc_start s + i + off \<le> svc_end s"
proof -
  have i: "i < unat (num_handles s) - off" "i < length (attributes s)" "\<forall>j < i. attributes s ! j \<noteq> None"
    using get_attribute_index_spec [OF assms] by auto
  with assms(3) obtain a where "attributes s ! (i - 1) = Some a" by fastforce
  with dense_handle [OF assms(1), of "i - 1"] i assms(3)
  show "unat (get_handle_at_index s (i - 1)) = svc_start s + i - 1"
    by (simp add: get_handle_at_index_def)
  show "svc_start s + i + off \<le> svc_end s" using i by (simp add: svc_end_def)
qed

lemma unat16_add_numeral:
  "unat (a :: u16) + 2 \<le> 0xFFFF \<Longrightarrow> unat (a + 2) = unat a + 2"
  using unat16_add [of a 2] by simp

lemma unat16_minus_1: "0 < unat (a :: u16) \<Longrightarrow> unat (a - 1) = unat a - 1"
  by (rule unat_minus_one) auto

lemma add_characteristic_svc:
  assumes wf: "svc_wf s" and ins: "service_insert_characteristic s 0 u perms props r w ud = Some (k, s')"
  shows "svc_wf s' \<and> svc_frame s s' \<and> active s' = active s \<and> 0 < k \<and> k < length (attributes s') \<and>
    attributes s ! k = None \<and>
    attributes s' ! k = Some (set_attribute_data r w perms ud
      (new_attribute (svc_addr s) (of_nat (svc_start s + k)) u []))"
proof -
  define i where "i = get_attribute_index s 1"
  define h where "h = get_handle_at_index s (i - 1) + 2"
  have i: "i \<noteq> 0" "k = i + 1" and s': "s' = s\<lparr>attributes := (attributes s)
      [i := Some (set_attribute_data None None BT_ATT_PERM_READ None
          (new_attribute (svc_addr s) (h - 1) characteristic_uuid (props # put_le16 h @ uuid_to_le u))),
       i + 1 := Some (set_attribute_data r w perms ud (new_attribute (svc_addr s) h u []))]\<rparr>"
    using ins by (auto simp: service_insert_characteristic_def Let_def i_def h_def split: if_splits)
  have spec: "i < unat (num_handles s) - 1" "i < length (attributes s)" "\<forall>j < i. attributes s ! j \<noteq> None"
      "attributes s ! i = None"
    using get_attribute_index_spec [OF wf i_def [symmetric] i(1)] by auto
  have len: "length (attributes s) = unat (num_handles s)" and top: "svc_end s \<le> 0xFFFF"
    using wf by (auto simp: svc_wf_def)
  have h: "unat h = svc_start s + i + 1"
    using index_handle [OF wf i_def [symmetric] i(1)] top i(1) unfolding h_def
    by (subst unat16_add_numeral) auto
  then have h1: "unat (h - 1) = svc_start s + i" by (simp add: unat16_minus_1)
  have none: "attributes s ! (i + 1) = None"
  proof (rule ccontr)
    assume "attributes s ! (i + 1) \<noteq> None"
    moreover have "svc_dense s" using wf by (simp add: svc_wf_def)
    ultimately have "attributes s ! i \<noteq> None"
      using spec(1) len unfolding svc_dense_def by (metis add_lessD1 less_add_one less_diff_conv)
    with spec(4) show False by simp
  qed
  let ?d = "set_attribute_data None None BT_ATT_PERM_READ None
          (new_attribute (svc_addr s) (h - 1) characteristic_uuid (props # put_le16 h @ uuid_to_le u))"
  let ?v = "set_attribute_data r w perms ud (new_attribute (svc_addr s) h u [])"
  let ?t = "s\<lparr>attributes := (attributes s)[i := Some ?d]\<rparr>"
  have t: "svc_wf ?t \<and> svc_frame s ?t"
    using wf spec i(1) h1 by (intro add_slot_wf) (auto simp: new_attribute_ok)
  have "svc_wf (?t\<lparr>attributes := (attributes ?t)[i + 1 := Some ?v]\<rparr>) \<and>
      svc_frame ?t (?t\<lparr>attributes := (attributes ?t)[i + 1 := Some ?v]\<rparr>)"
    using t spec len h by (intro add_slot_wf) (auto simp: new_attribute_ok nth_list_update svc_frame_def less_Suc_eq)
  moreover have "?t\<lparr>attributes := (attributes ?t)[i + 1 := Some ?v]\<rparr> = s'" by (simp add: s')
  moreover have "of_nat (svc_start s + k) = h" using h i(2) by (metis add.assoc of_nat_unat ucast_id)
  ultimately show ?thesis
    using t spec len i none by (auto simp: svc_frame_def s')
qed

lemma add_descriptor_svc:
  assumes wf: "svc_wf s" and ins: "service_insert_descriptor s 0 u perms r w ud = Some (k, s')"
  shows "svc_wf s' \<and> svc_frame s s' \<and> active s' = active s \<and> 0 < k \<and> k < length (attributes s') \<and>
    attributes s ! k = None \<and>
    attributes s' ! k = Some (set_attribute_data r w perms ud
      (new_attribute (svc_addr s) (of_nat (svc_start s + k)) u []))"
proof -
  define h where "h = get_handle_at_index s (k - 1) + 1"
  have k: "get_attribute_index s 0 = k" "k \<noteq> 0" and s': "s' = s\<lparr>attributes := (attributes s)
      [k := Some (set_attribute_data r w perms ud (new_attribute (svc_addr s) h u []))]\<rparr>"
    using ins by (auto simp: service_insert_descriptor_def Let_def h_def split: if_splits)
  have spec: "k < length (attributes s)" "\<forall>j < k. attributes s ! j \<noteq> None" "attributes s ! k = None"
    using get_attribute_index_spec [OF wf k] by auto
  have h: "unat h = svc_start s + k"
    using index_handle [OF wf k] wf k(2) unfolding h_def
    by (subst unat16_add_1) (auto simp: svc_wf_def)
  have "of_nat (svc_start s + k) = h" using h by (metis of_nat_unat ucast_id)
  moreover have "svc_wf s' \<and> svc_frame s s'"
    unfolding s' using wf spec k h by (intro add_slot_wf) (auto simp: new_attribute_ok)
  ultimately show ?thesis using spec k s' by simp
qed

lemma add_included_svc:
  assumes wf: "svc_wf s" and ins: "service_insert_included s 0 incl = Some (k, s')"
  shows "svc_wf s' \<and> svc_frame s s' \<and> active s' = active s \<and> 0 < k \<and> k < length (attributes s') \<and>
    attributes s ! k = None"
proof -
  define h where "h = get_handle_at_index s (k - 1) + 1"
  obtain val where k: "get_attribute_index s 0 = k" "k \<noteq> 0"
    and s': "s' = attribute_update k (s\<lparr>attributes := (attributes s)[k := Some (set_attribute_data None None
          BT_ATT_PERM_READ None (new_attribute (svc_addr s) h included_service_uuid val))]\<rparr>)"
    using ins by (auto simp: service_insert_included_def Let_def h_def split: if_splits)
  have spec: "k < length (attributes s)" "\<forall>j < k. attributes s ! j \<noteq> None" "attributes s ! k = None"
    using get_attribute_index_spec [OF wf k] by auto
  have h: "unat h = svc_start s + k"
    using index_handle [OF wf k] wf k(2) unfolding h_def
    by (subst unat16_add_1) (auto simp: svc_wf_def)
  have upd: "s' = s\<lparr>attributes := (attributes s)[k := Some (set_attribute_data None None
          BT_ATT_PERM_READ None (new_attribute (svc_addr s) h included_service_uuid val))]\<rparr>"
    using spec k unfolding s'
    by (simp add: attribute_update_def get_handle_at_index_def h_def set_attribute_data_def new_attribute_def)
  have "svc_wf s' \<and> svc_frame s s'"
    unfolding upd using wf spec k h by (intro add_slot_wf) (auto simp: new_attribute_ok)
  then show ?thesis using spec k upd by simp
qed

text \<open>A client's insertion preserves the invariants when the insertion on the service does.\<close>

lemma insert_at_wf:
  assumes "db_wf db" and "next_ok db"
    and "\<And>s k s'. svc_wf s \<Longrightarrow> ins s = Some (k, s') \<Longrightarrow> svc_wf s' \<and> svc_frame s s'"
    and "insert_at db attrib ins = (r, db')"
  shows "db_wf db' \<and> next_ok db'"
proof (cases "db' = db")
  case False
  with assms(4) obtain p s k s' where p: "attrib = Some p" "find_service db (fst p) = Some s" "ins s = Some (k, s')"
      "db' = upd_service (fst p) (\<lambda>_. s') db"
    by (auto simp: insert_at_def bind_eq_Some_conv split: option.splits)
  have mem: "s \<in> set (services db)" "svc_addr s = fst p" using find_service_in [OF p(2)] by auto
  then have ok: "svc_wf s' \<and> svc_frame s s'" using assms(1,3) p(3) by (auto simp: db_wf_def)
  have "t = s" if "t \<in> set (services db)" "svc_addr t = fst p" for t
    using that p(2) find_service_mem [OF assms(1), of t] by simp
  then show ?thesis
    using ok p(4) assms(1,2) by (auto intro!: upd_service_wf upd_service_next)
qed (use assms in simp)

section \<open>Searches\<close>

text \<open>All attributes of the active services with their pointers, in the order of the database.\<close>

definition slot_attr :: "nat \<Rightarrow> nat \<times> ('f, 'u) gatt_db_attribute option \<Rightarrow> (attr_ptr \<times> ('f, 'u) gatt_db_attribute) list" where
  "slot_attr x slot = (case snd slot of None \<Rightarrow> [] | Some a \<Rightarrow> [((x, fst slot), a)])"

definition svc_attrs :: "('f, 'u) gatt_db_service \<Rightarrow> (attr_ptr \<times> ('f, 'u) gatt_db_attribute) list" where
  "svc_attrs s = concat (map (slot_attr (svc_addr s)) (enumerate 0 (attributes s)))"

definition active_attrs :: "('f, 'u) gatt_db \<Rightarrow> (attr_ptr \<times> ('f, 'u) gatt_db_attribute) list" where
  "active_attrs db = concat (map svc_attrs (filter active (services db)))"

lemma slot_attr_simps [simp]: "slot_attr x (i, None) = []" "slot_attr x (i, Some a) = [((x, i), a)]"
  by (simp_all add: slot_attr_def)

lemma in_slot_attr: "(p, a) \<in> set (slot_attr x slot) \<longleftrightarrow> p = (x, fst slot) \<and> snd slot = Some a"
  by (auto simp: slot_attr_def split: option.splits)

lemma in_svc_attrs: "(p, a) \<in> set (svc_attrs s) \<longleftrightarrow>
    fst p = svc_addr s \<and> snd p < length (attributes s) \<and> attributes s ! snd p = Some a"
proof -
  have "(p, a) \<in> set (svc_attrs s) \<longleftrightarrow>
      (\<exists>slot. slot \<in> set (enumerate 0 (attributes s)) \<and> p = (svc_addr s, fst slot) \<and> snd slot = Some a)"
    by (force simp: svc_attrs_def in_slot_attr)
  also have "\<dots> \<longleftrightarrow> fst p = svc_addr s \<and> snd p < length (attributes s) \<and> attributes s ! snd p = Some a"
    by (cases p) (auto simp: in_enumerate)
  finally show ?thesis .
qed

lemma in_active_attrs:
  assumes "db_wf db"
  shows "(p, a) \<in> set (active_attrs db) \<longleftrightarrow>
    (\<exists>s. find_service db (fst p) = Some s \<and> active s) \<and> attr_at db p = Some a"
  using find_service_mem [OF assms] find_service_in
  by (cases p) (fastforce simp: active_attrs_def in_svc_attrs attr_at_iff)

text \<open>Slots in handle order: the early end of the loops loses nothing.\<close>

definition slot_lt :: "nat \<times> ('f, 'u) gatt_db_attribute option \<Rightarrow> nat \<times> ('f, 'u) gatt_db_attribute option \<Rightarrow> bool" where
  "slot_lt x y \<longleftrightarrow> (\<forall>a b. snd x = Some a \<longrightarrow> snd y = Some b \<longrightarrow> unat (attr_handle a) < unat (attr_handle b))"

lemma svc_slots_sorted:
  assumes "svc_wf s" shows "sorted_wrt slot_lt (enumerate 0 (attributes s))"
proof -
  have "unat (attr_handle a) < unat (attr_handle b)"
    if "i < j" "j < length (attributes s)" "attributes s ! i = Some a" "attributes s ! j = Some b" for i j a b
    using that dense_handle [OF assms, of i a] dense_handle [OF assms, of j b] by simp
  then show ?thesis
    unfolding sorted_wrt_iff_nth_less slot_lt_def by (simp add: nth_enumerate_eq)
qed

lemma slots_in_range_filter:
  "sorted_wrt slot_lt slots \<Longrightarrow> map (\<lambda>i. (x, i)) (slots_in_range start stop P slots) =
   map fst (filter (\<lambda>(p, a). start \<le> attr_handle a \<and> attr_handle a \<le> stop \<and> P (attr_uuid a))
     (concat (map (slot_attr x) slots)))"
proof (induction start stop P slots rule: slots_in_range.induct)
  case (1 start stop P)
  then show ?case by simp
next
  case (2 start stop P i slot slots)
  show ?case
  proof (cases slot)
    case None
    with 2 show ?thesis by simp
  next
    case (Some a)
    have later: "unat (attr_handle a) < unat (attr_handle b)" if "(p, b) \<in> set (concat (map (slot_attr x) slots))" for p b
      using "2.prems" Some that by (fastforce simp: slot_lt_def in_slot_attr)
    show ?thesis
    proof (cases "attr_handle a > stop")
      case True
      have "filter (\<lambda>(p, b). start \<le> attr_handle b \<and> attr_handle b \<le> stop \<and> P (attr_uuid b))
          (concat (map (slot_attr x) slots)) = []"
        using True later unfolding filter_empty_conv word_less_nat_alt word_le_nat_alt
        by (metis (no_types, lifting) case_prodE leD less_trans)
      with True Some 2 show ?thesis by auto
    next
      case False
      with Some 2 show ?thesis by auto
    qed
  qed
qed

lemma svc_attrs_range:
  "svc_wf s \<Longrightarrow> (p, a) \<in> set (svc_attrs s) \<Longrightarrow>
   svc_start s \<le> unat (attr_handle a) \<and> unat (attr_handle a) \<le> svc_end s"
  using dense_handle [of s "snd p" a] by (auto simp: in_svc_attrs svc_end_def svc_wf_def)

lemma service_end_nat:
  "svc_wf s \<Longrightarrow> uint (attr_handle (svc_decl s)) + uint (num_handles s) - 1 = int (svc_end s)"
  by (simp add: svc_wf_def svc_end_def svc_start_def of_nat_diff)

lemma find_information_svc:
  assumes "svc_wf s"
  shows "find_information start stop s = (if active s then map fst (filter (\<lambda>(p, a).
      start \<le> attr_handle a \<and> attr_handle a \<le> stop) (svc_attrs s)) else [])"
proof (cases "active s")
  case True
  note range = svc_attrs_range [OF assms]
  have "svc_end s < unat start \<Longrightarrow> filter (\<lambda>(p, a). start \<le> attr_handle a \<and> attr_handle a \<le> stop) (svc_attrs s) = []"
    using range by (fastforce simp: filter_empty_conv word_le_nat_alt)
  moreover have "int (svc_end s) < uint start \<longleftrightarrow> svc_end s < unat start"
    unfolding uint_unat16 by (rule of_nat_less_iff)
  ultimately show ?thesis
    using True slots_in_range_filter [OF svc_slots_sorted [OF assms], of "svc_addr s" start stop "\<lambda>_. True"]
    unfolding find_information_def service_end_nat [OF assms]
    by (simp add: service_slots_wf [OF assms] svc_attrs_def)
qed (simp add: find_information_def)

lemma find_information_eq:
  "db_wf db \<Longrightarrow> gatt_db_find_information db start stop =
   map fst (filter (\<lambda>(p, a). start \<le> attr_handle a \<and> attr_handle a \<le> stop) (active_attrs db))"
proof -
  assume wf: "db_wf db"
  have "concat (map (find_information start stop) ss) = map fst (filter (\<lambda>(p, a).
      start \<le> attr_handle a \<and> attr_handle a \<le> stop) (concat (map svc_attrs (filter active ss))))"
    if "\<forall>s \<in> set ss. svc_wf s" for ss :: "('a, 'b) gatt_db_service list"
    using that by (induction ss) (auto simp: find_information_svc)
  with wf show ?thesis by (simp add: gatt_db_find_information_def active_attrs_def db_wf_def)
qed

lemma read_by_type_eq:
  "db_wf db \<Longrightarrow> gatt_db_read_by_type db start stop type =
   map fst (filter (\<lambda>(p, a). start \<le> attr_handle a \<and> attr_handle a \<le> stop \<and> uuid_match type (attr_uuid a))
     (active_attrs db))"
proof -
  assume wf: "db_wf db"
  have "concat (map (read_by_type start stop type) ss) = map fst (filter (\<lambda>(p, a).
      start \<le> attr_handle a \<and> attr_handle a \<le> stop \<and> uuid_match type (attr_uuid a)) (concat (map svc_attrs (filter active ss))))"
    if "\<forall>s \<in> set ss. svc_wf s" for ss :: "('a, 'b) gatt_db_service list"
    using that
    by (induction ss) (auto simp: read_by_type_def service_slots_wf svc_attrs_def
        slots_in_range_filter [OF svc_slots_sorted])
  with wf show ?thesis by (simp add: gatt_db_read_by_type_def active_attrs_def db_wf_def)
qed

text \<open>The handles strictly increase along the database.\<close>

lemma slot_attr_sorted: "sorted_wrt slot_lt slots \<Longrightarrow>
    sorted_wrt (\<lambda>(p, a) (q, b). unat (attr_handle a) < unat (attr_handle b)) (concat (map (slot_attr x) slots))"
  by (induction slots) (auto simp: slot_attr_def slot_lt_def sorted_wrt_append split: option.splits)

lemma active_attrs_sorted:
  "db_wf db \<Longrightarrow> sorted_wrt (\<lambda>(p, a) (q, b). unat (attr_handle a) < unat (attr_handle b)) (active_attrs db)"
proof -
  assume wf: "db_wf db"
  have "sorted_wrt (\<lambda>(p, a) (q, b). unat (attr_handle a) < unat (attr_handle b))
      (concat (map svc_attrs (filter active ss)))"
    if "\<forall>s \<in> set ss. svc_wf s" "sorted_wrt (\<lambda>s t. svc_end s < svc_start t) ss" for ss :: "('a, 'b) gatt_db_service list"
    using that
  proof (induction ss)
    case (Cons s ss)
    have "sorted_wrt (\<lambda>(p, a) (q, b). unat (attr_handle a) < unat (attr_handle b)) (svc_attrs s)"
      using Cons.prems(1) by (simp add: svc_attrs_def slot_attr_sorted svc_slots_sorted)
    moreover have "unat (attr_handle a) < unat (attr_handle b)"
      if "(p, a) \<in> set (svc_attrs s)" "t \<in> set ss" "(q, b) \<in> set (svc_attrs t)" for p a q b t
      using that Cons.prems svc_attrs_range [of s p a] svc_attrs_range [of t q b] by fastforce
    ultimately show ?case using Cons by (fastforce simp: sorted_wrt_append)
  qed simp
  with wf show ?thesis by (simp add: active_attrs_def db_wf_def)
qed

section \<open>Values\<close>

lemma length_realloc [simp]: "length (realloc junk old n) = n"
  by (auto simp: realloc_def Let_def split: option.splits)

lemma realloc_old: "i < n \<Longrightarrow> i < length v \<Longrightarrow> realloc junk (Some v) n ! i = v ! i"
  by (simp add: realloc_def nth_append)

lemma realloc_new: "i < n \<Longrightarrow> length v \<le> i \<Longrightarrow> realloc junk (Some v) n ! i = junk i"
  by (simp add: realloc_def nth_append)

text \<open>When the value has to grow.\<close>

definition grows :: "u16 \<Rightarrow> bytes \<Rightarrow> ('f, 'u) gatt_db_attribute \<Rightarrow> bool" where
  "grows offset v a \<longleftrightarrow> attr_value a = None \<or> unat (value_len a) < unat offset + length v \<or> offset \<ge> value_len a"

lemma grows_iff: "(attr_value a = None \<or> offset \<ge> value_len a \<or> int (length v) > uint (value_len a) - uint offset)
    \<longleftrightarrow> grows offset v a"
proof -
  have "int (length v) > uint (value_len a) - uint offset \<longleftrightarrow> unat (value_len a) < unat offset + length v"
    unfolding uint_unat16 by linarith
  then show ?thesis by (auto simp: grows_def)
qed

lemma store_value_sel [simp]:
  "attr_handle (store_value junk off v a) = attr_handle a" "attr_service (store_value junk off v a) = attr_service a"
  "attr_uuid (store_value junk off v a) = attr_uuid a" "permissions (store_value junk off v a) = permissions a"
  "read_func (store_value junk off v a) = read_func a" "write_func (store_value junk off v a) = write_func a"
  by (simp_all add: store_value_def Let_def)

lemma store_value_grow:
  assumes "grows off v a"
  shows "value_len (store_value junk off v a) = of_nat (length v + unat off)"
    and "\<exists>b. attr_value (store_value junk off v a) = Some b \<and> length b = length v + unat off \<and> drop (unat off) b = v"
  using assms unfolding store_value_def Let_def grows_iff
  by (auto simp: memcpy_at_def)

lemma store_value_keep:
  assumes "\<not> grows off v a" and "attr_ok a"
  shows "\<exists>b. attr_value a = Some b \<and> unat off + length v \<le> unat (value_len a) \<and> unat (value_len a) \<le> length b \<and>
    store_value junk off v a = a\<lparr>attr_value := Some (memcpy_at b (unat off) v)\<rparr>"
  using assms unfolding store_value_def Let_def grows_iff
  by (auto simp: grows_def attr_ok_def)

lemma unat_of_nat_le: "unat (of_nat n :: u16) \<le> n"
  by (simp add: unat_of_nat)

lemma store_value_ok:
  assumes "attr_ok a" shows "attr_ok (store_value junk off v a)"
proof (cases "grows off v a")
  case True
  from store_value_grow [OF this, of junk] show ?thesis
    using unat_of_nat_le [of "length v + unat off"] unfolding attr_ok_def by (metis option.simps(5))
next
  case False
  from store_value_keep [OF this assms, of junk] show ?thesis by (auto simp: attr_ok_def)
qed

lemma store_value_bytes:
  assumes "attr_ok a" and "unat off + length v \<le> 0xFFFF"
  shows "\<exists>b. attr_value (store_value junk off v a) = Some b \<and>
    unat off + length v \<le> unat (value_len (store_value junk off v a)) \<and>
    unat (value_len (store_value junk off v a)) \<le> length b \<and> take (length v) (drop (unat off) b) = v"
proof (cases "grows off v a")
  case True
  from store_value_grow [OF this, of junk] obtain b where
    "attr_value (store_value junk off v a) = Some b" "length b = length v + unat off" "drop (unat off) b = v"
    "value_len (store_value junk off v a) = of_nat (length v + unat off)"
    by blast
  moreover have "unat (of_nat (length v + unat off) :: u16) = length v + unat off"
    using assms(2) by (simp add: unat_of_nat del: of_nat_add)
  ultimately show ?thesis by auto
next
  case False
  with store_value_keep [OF False assms(1), of junk] show ?thesis
    by (auto simp: memcpy_at_read)
qed

section \<open>Operations on values keep the invariants\<close>

lemma read_wf:
  assumes "db_wf db" and "gatt_db_attribute_read tid db p off opc f ud = (r, ev, db')"
  shows "db_wf db'"
  using assms
  by (auto simp: gatt_db_attribute_read_def Let_def attr_ok_def cong: option.case_cong
      split: option.splits if_splits intro!: upd_attr_wf)

lemma read_result_wf:
  assumes "db_wf db" and "gatt_db_attribute_read_result db p i err v = (r, ev, db')"
  shows "db_wf db'"
  using assms
  by (auto simp: gatt_db_attribute_read_result_def attr_ok_def cong: option.case_cong
      split: option.splits if_splits prod.splits intro!: upd_attr_wf)

lemma write_wf:
  assumes "db_wf db" and "gatt_db_attribute_write junk tid db p off v opc f ud = (r, ev, db')"
  shows "db_wf db'"
proof -
  have ok: "attr_ok (a\<lparr>write_id := i, pending_writes := q\<rparr>) = attr_ok a" for a :: "('a, 'b) gatt_db_attribute" and i q
    by (simp add: attr_ok_def cong: option.case_cong)
  show ?thesis
    using assms
    by (auto simp: gatt_db_attribute_write_def Let_def store_value_ok ok split: option.splits if_splits intro!: upd_attr_wf)
qed

lemma write_result_wf:
  assumes "db_wf db" and "gatt_db_attribute_write_result db p i err = (r, ev, db')"
  shows "db_wf db'"
  using assms
  by (auto simp: gatt_db_attribute_write_result_def attr_ok_def cong: option.case_cong
      split: option.splits if_splits prod.splits intro!: upd_attr_wf)

lemma reset_wf:
  assumes "db_wf db" and "gatt_db_attribute_reset db p = (r, db')"
  shows "db_wf db'"
  using assms
  by (auto simp: gatt_db_attribute_reset_def attr_ok_def split: option.splits if_splits intro!: upd_attr_wf)

lemma set_active_wf:
  assumes "db_wf db" and "gatt_db_service_set_active db p act = (r, ev, db')"
  shows "db_wf db'"
proof -
  have "svc_wf (s\<lparr>active := act\<rparr>) = svc_wf s" "svc_frame s (s\<lparr>active := act\<rparr>)" for s :: "('a, 'b) gatt_db_service"
    by (simp_all add: svc_wf_def svc_dense_def svc_start_def svc_end_def svc_decl_def svc_frame_def)
  with assms show ?thesis
    by (auto simp: gatt_db_service_set_active_def split: option.splits if_splits intro!: upd_service_wf)
qed

lemma filter_wf:
  assumes "db_wf db" shows "db_wf (db\<lparr>services := filter P (services db), next_handle := n\<rparr>)"
    and "db_wf (db\<lparr>services := filter P (services db)\<rparr>)"
  using assms by (auto simp: db_wf_def distinct_map_filter intro: sorted_wrt_filter)

lemma clear_range_wf:
  assumes "db_wf db" and "gatt_db_clear_range db a b = (r, ev, db')"
  shows "db_wf db'"
proof -
  have "db' = db \<or> (\<exists>P n. db' = db\<lparr>services := filter P (services db), next_handle := n\<rparr>) \<or>
      (\<exists>P. db' = db\<lparr>services := filter P (services db)\<rparr>)"
    using assms(2) unfolding gatt_db_clear_range_def Let_def by (auto simp del: filter_True filter_False split: if_splits)
  then show ?thesis using filter_wf [OF assms(1)] assms(1) by auto
qed

lemma remove_service_wf:
  assumes "db_wf db" and "gatt_db_remove_service db p = (r, ev, db')"
  shows "db_wf db'"
proof -
  have "distinct (map svc_addr (services db))" using assms(1) by (simp add: db_wf_def)
  with assms filter_wf(2) [OF assms(1)] show ?thesis
    by (auto simp: gatt_db_remove_service_def remove_first_distinct split: option.splits)
qed

lemma set_claimed_wf:
  assumes "db_wf db" and "gatt_db_service_set_claimed db p c = (r, db')"
  shows "db_wf db'"
proof -
  have "svc_wf (s\<lparr>claimed := c\<rparr>) = svc_wf s" "svc_frame s (s\<lparr>claimed := c\<rparr>)" for s :: "('a, 'b) gatt_db_service"
    by (simp_all add: svc_wf_def svc_dense_def svc_start_def svc_end_def svc_decl_def svc_frame_def)
  with assms show ?thesis
    by (auto simp: gatt_db_service_set_claimed_def split: option.splits intro!: upd_service_wf)
qed

lemma timeout_wf:
  assumes "db_wf db"
  shows "db_wf (snd (read_timeout db p pend))" and "db_wf (snd (write_timeout db p pend))"
  using assms
  by (auto simp: read_timeout_def write_timeout_def attr_ok_def cong: option.case_cong intro!: upd_attr_wf)

lemma register_wf:
  assumes "db_wf db"
  shows "db_wf (snd (gatt_db_register db f g ud d))" and "db_wf (snd (snd (gatt_db_unregister db i)))"
  using assms by (auto simp: gatt_db_register_def gatt_db_unregister_def Let_def db_wf_def split: option.splits)

section \<open>Every database the operations can build\<close>

text \<open>
  One operation of the interface. An explicit handle for a service must not enclose an existing
  service; explicit handles inside a service are those the \<open>add\<close> functions choose.
\<close>

inductive db_step :: "('f, 'u) gatt_db \<Rightarrow> ('f, 'u) gatt_db \<Rightarrow> bool" where
  insert_service: "gatt_db_insert_service db h u primary n = (r, db') \<Longrightarrow>
    \<forall>s \<in> set (services db). \<not> (unat h < svc_start s \<and> svc_end s < unat h + unat n - 1) \<Longrightarrow> db_step db db'"
| add_characteristic: "gatt_db_service_add_characteristic db p u perms props rf wrf ud = (r, db') \<Longrightarrow> db_step db db'"
| add_descriptor: "gatt_db_service_add_descriptor db p u perms rf wrf ud = (r, db') \<Longrightarrow> db_step db db'"
| add_included: "gatt_db_service_add_included db p q = (r, db') \<Longrightarrow> db_step db db'"
| remove_service: "gatt_db_remove_service db p = (r2, ev, db') \<Longrightarrow> db_step db db'"
| clear_range: "gatt_db_clear_range db a b = (r2, ev, db') \<Longrightarrow> db_step db db'"
| set_active: "gatt_db_service_set_active db p act = (r2, ev, db') \<Longrightarrow> db_step db db'"
| set_claimed: "gatt_db_service_set_claimed db p act = (r2, db') \<Longrightarrow> db_step db db'"
| read_value: "gatt_db_attribute_read tid db p off opc f ud2 = (r2, ev, db') \<Longrightarrow> db_step db db'"
| read_result: "gatt_db_attribute_read_result db p i err v = (r2, ev, db') \<Longrightarrow> db_step db db'"
| read_timeout: "Gatt_Db.read_timeout db q pend = (ev, db') \<Longrightarrow> db_step db db'"
| write_value: "gatt_db_attribute_write junk tid db p off v opc f ud2 = (r2, ev, db') \<Longrightarrow> db_step db db'"
| write_result: "gatt_db_attribute_write_result db p i err = (r2, ev, db') \<Longrightarrow> db_step db db'"
| write_timeout: "Gatt_Db.write_timeout db q pend = (ev, db') \<Longrightarrow> db_step db db'"
| reset: "gatt_db_attribute_reset db p = (r2, db') \<Longrightarrow> db_step db db'"
| register: "gatt_db_register db added removed ud2 d = (i, db') \<Longrightarrow> db_step db db'"
| unregister: "gatt_db_unregister db i = (r2, ev, db') \<Longrightarrow> db_step db db'"
| ref: "gatt_db_ref db = db' \<Longrightarrow> db_step db db'"
| unref: "gatt_db_unref db = (ev, Some db') \<Longrightarrow> db_step db db'"

lemma insert_at_wf1:
  assumes "db_wf db"
    and "\<And>s k s'. svc_wf s \<Longrightarrow> ins s = Some (k, s') \<Longrightarrow> svc_wf s' \<and> svc_frame s s'"
    and "insert_at db attrib ins = (r, db')"
  shows "db_wf db'"
proof (cases "db' = db")
  case False
  with assms(3) obtain p s k s' where p: "attrib = Some p" "find_service db (fst p) = Some s" "ins s = Some (k, s')"
      "db' = upd_service (fst p) (\<lambda>_. s') db"
    by (auto simp: insert_at_def bind_eq_Some_conv split: option.splits)
  have mem: "s \<in> set (services db)" "svc_addr s = fst p" using find_service_in [OF p(2)] by auto
  then have ok: "svc_wf s' \<and> svc_frame s s'" using assms(1,2) p(3) by (auto simp: db_wf_def)
  have "t = s" if "t \<in> set (services db)" "svc_addr t = fst p" for t
    using that p(2) find_service_mem [OF assms(1), of t] by simp
  then show ?thesis
    using ok p(4) assms(1) by (auto intro!: upd_service_wf)
qed (use assms in simp)

lemma add_characteristic_wf:
  "db_wf db \<Longrightarrow> gatt_db_service_add_characteristic db p u perms props rf wrf ud = (r, db') \<Longrightarrow> db_wf db'"
  unfolding gatt_db_service_add_characteristic_def
  by (rule insert_at_wf1 [rotated 2], assumption, assumption) (use add_characteristic_svc in blast)

lemma add_descriptor_wf:
  "db_wf db \<Longrightarrow> gatt_db_service_add_descriptor db p u perms rf wrf ud = (r, db') \<Longrightarrow> db_wf db'"
  unfolding gatt_db_service_add_descriptor_def
  by (rule insert_at_wf1 [rotated 2], assumption, assumption) (use add_descriptor_svc in blast)

lemma add_included_wf:
  assumes "db_wf db" and "gatt_db_service_add_included db p q = (r, db')"
  shows "db_wf db'"
proof (cases "db' = db")
  case False
  with assms(2) obtain incl where "insert_at db p (\<lambda>s. service_insert_included s 0 incl) = (r, db')"
    by (auto simp: gatt_db_service_add_included_def insert_included_at_def split: option.splits)
  from assms(1) _ this show ?thesis
    by (rule insert_at_wf1) (use add_included_svc in blast)
qed (use assms in simp)

lemma ref_wf:
  "db_wf (gatt_db_ref db) = db_wf db" "gatt_db_unref db = (ev, Some db') \<Longrightarrow> db_wf db' = db_wf db"
  by (auto simp: gatt_db_ref_def gatt_db_unref_def Let_def db_wf_def split: if_splits)

lemma db_step_wf: "db_step db db' \<Longrightarrow> db_wf db \<Longrightarrow> db_wf db'"
proof (induction rule: db_step.induct)
  case (insert_service db h u primary n r db')
  then show ?case by (blast intro: insert_service_wf)
next
  case (read_timeout db q pend ev db')
  with timeout_wf(1) show ?case by (metis snd_conv)
next
  case (write_timeout db q pend ev db')
  with timeout_wf(2) show ?case by (metis snd_conv)
next
  case (register db added removed ud2 d i db')
  with register_wf(1) show ?case by (metis snd_conv)
next
  case (unregister db i r2 ev db')
  with register_wf(2) show ?case by (metis snd_conv)
qed (use ref_wf in \<open>blast intro: add_characteristic_wf add_descriptor_wf add_included_wf
      remove_service_wf clear_range_wf set_active_wf set_claimed_wf read_wf read_result_wf write_wf
      write_result_wf reset_wf\<close>)+

section \<open>Properties\<close>



text \<open>
  Claim C17. In a well-formed database \<^verbatim>\<open>gatt_db_get_attribute\<close> finds the attribute that has the
  handle, and finds nothing exactly when no attribute has it.
\<close>

theorem gatt_db_get_attribute_correct:
  assumes "db_wf db"
  shows "(gatt_db_get_attribute db h = Some p \<longleftrightarrow> (\<exists>a. attr_at db p = Some a \<and> attr_handle a = h)) \<and>
    (gatt_db_get_attribute db h = None \<longleftrightarrow> (\<forall>q a. attr_at db q = Some a \<longrightarrow> attr_handle a \<noteq> h))"
proof
  show "gatt_db_get_attribute db h = Some p \<longleftrightarrow> (\<exists>a. attr_at db p = Some a \<and> attr_handle a = h)"
    by (rule get_attribute_iff [OF assms])
  show "gatt_db_get_attribute db h = None \<longleftrightarrow> (\<forall>q a. attr_at db q = Some a \<longrightarrow> attr_handle a \<noteq> h)"
    using get_attribute_iff [OF assms, of h] by (metis not_None_eq)
qed

text \<open>A small database: the GAP service with one characteristic.\<close>

definition sample_db :: "(nat, nat) gatt_db" where
  "sample_db = snd (gatt_db_service_add_characteristic
     (snd (gatt_db_add_service gatt_db_new (BT_UUID16 0x1800) True 3)) (Some (0, 0)) (BT_UUID16 0x2A00)
     BT_ATT_PERM_READ 2 None None (Some 0))"

lemma sample_db_wf: "db_wf sample_db"
proof -
  have "db_wf (snd (gatt_db_insert_service (gatt_db_new :: (nat, nat) gatt_db) 1 (BT_UUID16 0x1800) True 3))"
    by (rule insert_service_wf [OF gatt_db_new_wf(1) prod.collapse [symmetric]])
      (simp add: gatt_db_new_def gatt_db_ref_def)
  then have "db_wf (snd (gatt_db_add_service (gatt_db_new :: (nat, nat) gatt_db) (BT_UUID16 0x1800) True 3))"
    by (simp add: gatt_db_add_service_def) (simp add: gatt_db_new_def gatt_db_ref_def)
  then show ?thesis
    unfolding sample_db_def by (rule add_characteristic_wf [OF _ prod.collapse [symmetric]])
qed

lemma sample_db_value: "map_option attr_handle (attr_at sample_db (0, 2)) = Some 3"
  by code_simp

theorem gatt_db_get_attribute_correct_witness:
  "gatt_db_get_attribute sample_db 3 = Some (0, 2) \<and> db_wf sample_db"
proof
  show "gatt_db_get_attribute sample_db 3 = Some (0, 2)"
    using sample_db_value gatt_db_get_attribute_correct [OF sample_db_wf, of 3 "(0, 2)"] by auto
qed (rule sample_db_wf)

text \<open>
  \<^verbatim>\<open>gatt_db_add_service\<close> with handles left succeeds: the new service starts at
  \<^verbatim>\<open>next_handle\<close>, comes last, and \<^verbatim>\<open>next_handle\<close> moves behind it; the invariants are kept.
\<close>

lemma gatt_db_add_service_appends:
  fixes db :: "('f, 'u) gatt_db"
  assumes "db_wf db" and "next_ok db" and "next_handle db \<noteq> 0"
    and "n \<noteq> 0" and "unat (next_handle db) + unat n \<le> 0x10000"
  shows "\<exists>db' s. gatt_db_add_service db u primary n = (Some (svc_addr s, 0), db') \<and>
    services db' = services db @ [s] \<and> svc_start s = unat (next_handle db) \<and> num_handles s = n \<and>
    next_handle db' = next_handle db + n \<and> db_wf db' \<and> next_ok db'"
proof -
  have n: "1 \<le> unat n" "unat (next_handle db) + unat n - 1 \<le> 0xFFFF" "1 \<le> unat (next_handle db)"
    using assms(3-5) by (auto simp: Suc_le_eq unat_gt_0)
  let ?s = "fresh_service (db_fresh db) u (next_handle db) primary n :: ('f, 'u) gatt_db_service"
  obtain db' where db': "gatt_db_add_service db u primary n = (Some (db_fresh db, 0), db')"
      "services db' = services db @ [?s]" "next_handle db' = next_handle db + n"
    using add_service_ok [OF assms(1-3) n(1,2)] by auto
  have s: "svc_start ?s = unat (next_handle db)" "svc_end ?s = unat (next_handle db) + unat n - 1"
    by (rule fresh_service_wf [OF n(1,3,2)])+
  have "\<not> (unat (next_handle db) < svc_start t \<and> svc_end t < unat (next_handle db) + unat n - 1)"
    if "t \<in> set (services db)" for t
    using that assms(1-3) svc_start_le_end [of t] by (auto simp: next_ok_def db_wf_def)
  then have "db_wf db'"
    using insert_service_wf [OF assms(1) db'(1) [unfolded gatt_db_add_service_def]] by blast
  moreover have "next_ok db'"
  proof (cases "unat (next_handle db) + unat n = 0x10000")
    case True
    have "unat (next_handle db + n) = 0"
      using True by (simp add: unat_word_ariths)
    then have "next_handle db' = 0" unfolding db'(3) by (simp only: unat_eq_zero)
    then show ?thesis by (simp add: next_ok_def)
  next
    case False
    then have "unat (next_handle db + n) = unat (next_handle db) + unat n"
      using assms(5) by (intro unat16_add) simp
    then show ?thesis
      using assms(2,3) db' s n by (fastforce simp: next_ok_def)
  qed
  ultimately show ?thesis
    using db' s by (intro exI [of _ db'] exI [of _ ?s]) simp
qed

text \<open>
  Claim C18. The searches behind \<open>Find Information\<close> and \<open>Read By Type\<close> return exactly the attributes
  of active services in the handle range (with the type asked for), in strictly increasing
  handle order.
\<close>

theorem gatt_db_searches_exact:
  assumes "db_wf db"
  shows "gatt_db_find_information db start stop =
      map fst (filter (\<lambda>(p, a). start \<le> attr_handle a \<and> attr_handle a \<le> stop) (active_attrs db)) \<and>
    gatt_db_read_by_type db start stop type =
      map fst (filter (\<lambda>(p, a). start \<le> attr_handle a \<and> attr_handle a \<le> stop \<and> uuid_match type (attr_uuid a))
        (active_attrs db)) \<and>
    sorted_wrt (\<lambda>(p, a) (q, b). unat (attr_handle a) < unat (attr_handle b)) (active_attrs db)"
  by (simp only: find_information_eq [OF assms] read_by_type_eq [OF assms] active_attrs_sorted [OF assms] simp_thms)

theorem gatt_db_searches_exact_witness:
  "gatt_db_find_information sample_db 1 0xFFFF = map fst (filter (\<lambda>(p, a). 1 \<le> attr_handle a \<and> attr_handle a \<le> 0xFFFF)
      (active_attrs sample_db))"
  using gatt_db_searches_exact [OF sample_db_wf, of 1 "0xFFFF" characteristic_uuid] by blast

definition group_match :: "u16 \<Rightarrow> u16 \<Rightarrow> bt_uuid \<Rightarrow> ('f, 'u) gatt_db_service \<Rightarrow> bool" where
  "group_match start stop type s \<longleftrightarrow> active s \<and> uuid_match type (attr_uuid (svc_decl s)) \<and>
     unat start \<le> svc_start s \<and> svc_start s \<le> unat stop"

lemma group_type_from_sized:
  assumes "\<forall>s \<in> set ss. svc_wf s" and "sz \<noteq> 0"
  shows "group_type_from start stop type sz ss = map (\<lambda>s. (svc_addr s, 0))
    (takeWhile (\<lambda>s. value_len (svc_decl s) = sz) (filter (group_match start stop type) ss))"
  using assms
proof (induction ss)
  case Nil
  then show ?case by simp
next
  case (Cons s ss)
  obtain a b where g: "gatt_db_service_get_handles s = (a, b)" by fastforce
  with Cons.prems have "unat a = svc_start s" "unat b = svc_end s" "svc_start s \<le> svc_end s"
    by (auto dest: get_handles_nat svc_start_le_end)
  with Cons g show ?case
    by (auto simp: group_match_def [of start stop type s] word_less_nat_alt not_less)
qed

lemma group_type_from_start:
  assumes "\<forall>s \<in> set ss. svc_wf s \<and> value_len (svc_decl s) \<noteq> 0"
  shows "group_type_from start stop type 0 ss = (case filter (group_match start stop type) ss of [] \<Rightarrow> []
    | s # r \<Rightarrow> map (\<lambda>s. (svc_addr s, 0)) (takeWhile (\<lambda>t. value_len (svc_decl t) = value_len (svc_decl s)) (s # r)))"
  using assms
proof (induction ss)
  case Nil
  then show ?case by simp
next
  case (Cons s ss)
  obtain a b where g: "gatt_db_service_get_handles s = (a, b)" by fastforce
  with Cons.prems have "unat a = svc_start s" "unat b = svc_end s" "svc_start s \<le> svc_end s"
    by (auto dest: get_handles_nat svc_start_le_end)
  with Cons g show ?case
    by (auto simp: group_match_def [of start stop type s] word_less_nat_alt not_less group_type_from_sized)
qed


lemma sample_db_sizes: "map (\<lambda>s. value_len (svc_decl s)) (services sample_db) = [2]"
  by code_simp


lemma take_prefix:
  assumes "take (length v) xs = v" and "length v \<le> n"
  shows "v @ drop (length v) (take n xs) = take n xs"
proof -
  have "take (length v) (take n xs) = v" using assms by (simp add: min_absorb1)
  then show ?thesis by (metis append_take_drop_id)
qed

text \<open>
  A value written to an attribute without callbacks is the value read: after
  \<^verbatim>\<open>gatt_db_attribute_write\<close> of non-empty bytes at an offset, \<^verbatim>\<open>gatt_db_attribute_read\<close> at that
  offset succeeds at once with those bytes first (what an earlier, longer value had may follow).
\<close>

lemma gatt_db_write_read:
  assumes "attr_at db p = Some a" and "attr_ok a" and "read_func a = None" and "write_func a = None"
    and "v \<noteq> []" and "unat off + length v \<le> 0xFFFF"
    and "gatt_db_attribute_write junk tid db (Some p) off (Some v) opc (Some f) ud = (r, ev, db')"
  shows "r \<and> ev = [Call_Write_Result f p 0 ud] \<and>
    (\<exists>w. gatt_db_attribute_read tid' db' (Some p) off opc' (Some g) ud' =
       (True, [Call_Read_Result g p 0 (Some (v @ w)) ud'], db'))"
proof -
  define a' where "a' = store_value junk off v a"
  have db': "db' = upd_attr p (store_value junk off v) db" "r" "ev = [Call_Write_Result f p 0 ud]"
    using assms(1,4,5,7) by (auto simp: gatt_db_attribute_write_def)
  have at': "attr_at db' p = Some a'" using assms(1) db' by (simp add: attr_at_upd_attr a'_def)
  obtain b where b: "attr_value a' = Some b" "unat off + length v \<le> unat (value_len a')"
      "unat (value_len a') \<le> length b" "take (length v) (drop (unat off) b) = v"
    using store_value_bytes [OF assms(2,6), of junk] by (auto simp: a'_def)
  have lt: "off < value_len a'"
    using b(2) length_greater_0_conv [of v] assms(5) unfolding word_less_nat_alt by linarith
  then have "unat (value_len a' - off) = unat (value_len a') - unat off"
    by (intro unat_sub) (simp add: less_imp_le)
  then have len: "length v \<le> unat (value_len a' - off)" using b(2) by simp
  define w where "w = drop (length v) (take (unat (value_len a' - off)) (drop (unat off) b))"
  have w: "take (unat (value_len a' - off)) (drop (unat off) b) = v @ w"
    unfolding w_def using take_prefix [OF b(4) len] by (rule sym)
  have "off \<noteq> value_len a'" "\<not> value_len a' < off" using lt by auto
  then have "gatt_db_attribute_read tid' db' (Some p) off opc' (Some g) ud' =
      (True, [Call_Read_Result g p 0 (Some (v @ w)) ud'], db')"
    using at' b(1) w assms(3) by (simp add: gatt_db_attribute_read_def a'_def)
  with db' show ?thesis by blast
qed

lemma gatt_db_write_read_witness:
  "\<exists>r ev db'. gatt_db_attribute_write (\<lambda>_. 0) 0 sample_db (Some (0, 2)) 0 (Some [0x41, 0x42]) 0x12 (Some 1) 0 = (r, ev, db') \<and>
    (r \<and> ev = [Call_Write_Result 1 (0, 2) 0 0] \<and>
    (\<exists>w. gatt_db_attribute_read 0 db' (Some (0, 2)) 0 0x0A (Some 2) 0 =
       (True, [Call_Read_Result 2 (0, 2) 0 (Some ([0x41, 0x42] @ w)) 0], db')))"
proof -
  have "map_option (\<lambda>a. (read_func a, write_func a, attr_value a, value_len a)) (attr_at sample_db (0, 2)) =
      Some (None, None, None, 0)"
    by code_simp
  then obtain a where a: "attr_at sample_db (0, 2) = Some a" "read_func a = None" "write_func a = None"
      "attr_value a = None" "value_len a = 0"
    by auto
  obtain r ev db' where w: "gatt_db_attribute_write (\<lambda>_. 0) 0 sample_db (Some (0, 2)) 0 (Some [0x41, 0x42]) 0x12 (Some 1) 0
      = (r, ev, db')"
    by (metis prod.collapse)
  show ?thesis
    using w gatt_db_write_read [OF a(1) _ a(2,3) _ _ w, of 0 "0x0A" 2 0] a(4,5) by (auto simp: attr_ok_def)
qed

text \<open>
  Claim C20. The life of a pending read: a read of an attribute with a read function becomes
  pending under a new identifier and calls the function with it; the first result for that
  identifier runs the reader's callback, exactly once, with the function's answer and stops the
  timeout; a second result for it is refused.
\<close>

theorem gatt_db_read_result_once:
  assumes "attr_at db p = Some a" and "read_func a = Some rdf"
    and "read_id a + 1 \<noteq> 0" and "\<forall>q \<in> set (pending_reads a). p_id q \<noteq> read_id a + 1"
    and "gatt_db_attribute_read tid db (Some p) off opc (Some f) ud = (r, ev, db1)"
  shows "r \<and> ev = [Call_Read rdf p (read_id a + 1) off opc (attr_user_data a)] \<and>
    (\<exists>db2. gatt_db_attribute_read_result db1 (Some p) (read_id a + 1) err v =
        (True, (if tid > 0 then [Timeout_Remove tid] else []) @ [Call_Read_Result f p err v ud], db2) \<and>
      attr_at db2 p = Some (a\<lparr>read_id := read_id a + 1\<rparr>) \<and>
      gatt_db_attribute_read_result db2 (Some p) (read_id a + 1) err' v' = (False, [], db2))"
proof -
  let ?i = "read_id a + 1"
  let ?pend = "\<lparr>p_id = ?i, p_timeout_id = tid, p_func = f, p_user_data = ud\<rparr>"
  have none: "find (find_pending ?i) (pending_reads a) = None"
    using assms(4) by (auto simp: find_None_iff find_pending_def)
  have db1: "r" "ev = [Call_Read rdf p ?i off opc (attr_user_data a)]"
      "attr_at db1 p = Some (a\<lparr>read_id := ?i, pending_reads := pending_reads a @ [?pend]\<rparr>)"
    using assms(1,2,5) by (auto simp: gatt_db_attribute_read_def Let_def attr_at_upd_attr lq_push_tail_def)
  have "find (find_pending ?i) (pending_reads a @ [?pend]) = Some ?pend"
      "remove_first (find_pending ?i) (pending_reads a @ [?pend]) = pending_reads a"
    using none assms(4) by (simp_all add: find_append_None find_pending_def remove_first_append)
  then have "gatt_db_attribute_read_result db1 (Some p) ?i err v =
      (True, pending_read_result p ?pend err v, upd_attr p (\<lambda>b. b\<lparr>pending_reads := pending_reads a\<rparr>) db1)"
    using db1(3) assms(3) by (simp add: gatt_db_attribute_read_result_def lq_remove_if_def)
  moreover have "attr_at (upd_attr p (\<lambda>b. b\<lparr>pending_reads := pending_reads a\<rparr>) db1) p = Some (a\<lparr>read_id := ?i\<rparr>)"
    using db1(3) by (simp add: attr_at_upd_attr)
  moreover from this have "gatt_db_attribute_read_result (upd_attr p (\<lambda>b. b\<lparr>pending_reads := pending_reads a\<rparr>) db1)
      (Some p) ?i err' v' = (False, [], upd_attr p (\<lambda>b. b\<lparr>pending_reads := pending_reads a\<rparr>) db1)"
    using none assms(3) by (simp add: gatt_db_attribute_read_result_def lq_remove_if_def find_None_remove_first)
  ultimately show ?thesis using db1 by (simp add: pending_read_result_def)
qed

definition sample_attr :: "(nat, nat) gatt_db_attribute" where
  "sample_attr = set_attribute_data (Some 7) (Some 8) BT_ATT_PERM_READ (Some 0) (new_attribute 0 1 (BT_UUID16 0x2A00) [])"

definition sample_read_db :: "(nat, nat) gatt_db" where
  "sample_read_db = (gatt_db_new :: (nat, nat) gatt_db)\<lparr>services := [\<lparr>svc_addr = 0, active = True, claimed = False,
     num_handles = 1, attributes = [Some sample_attr]\<rparr>]\<rparr>"

lemma sample_read_attr: "attr_at sample_read_db (0, 0) = Some sample_attr" "read_func sample_attr = Some 7"
  "read_id sample_attr = 0" "pending_reads sample_attr = []"
  by (simp_all add: attr_at_def find_service_def sample_read_db_def sample_attr_def set_attribute_data_def new_attribute_def)

theorem gatt_db_read_result_once_witness:
  "\<exists>r ev db1. gatt_db_attribute_read 5 sample_read_db (Some (0, 0)) 0 0x0A (Some 1) 0 = (r, ev, db1) \<and> r \<and>
    (\<exists>db2. gatt_db_attribute_read_result db1 (Some (0, 0)) 1 0 (Some [1]) =
        (True, [Timeout_Remove 5, Call_Read_Result 1 (0, 0) 0 (Some [1]) 0], db2))"
proof -
  obtain r ev db1 where w: "gatt_db_attribute_read 5 sample_read_db (Some (0, 0)) 0 0x0A (Some 1) 0 = (r, ev, db1)"
    by (metis prod.collapse)
  show ?thesis
    using w gatt_db_read_result_once [OF sample_read_attr(1,2) _ _ w, of 0 "Some [1]" 0 None]
    by (simp add: sample_read_attr(3,4)) blast
qed

section \<open>Behaviours to know\<close>

text \<open>
  After \<^verbatim>\<open>gatt_db_clear\<close> the next handle is 0, so \<^verbatim>\<open>gatt_db_add_service\<close> refuses every
  service until one is inserted at an explicit handle.
\<close>

lemma gatt_db_clear_then_add_refused:
  "gatt_db_clear db = (r, ev, db') \<Longrightarrow> services db' = [] \<and> gatt_db_add_service db' u primary n = (None, db')"
  by (auto simp: gatt_db_clear_def gatt_db_clear_range_def gatt_db_isempty_def Let_def
      gatt_db_add_service_def gatt_db_insert_service_def)

lemma gatt_db_clear_then_add_refused_witness:
  "gatt_db_add_service (snd (snd (gatt_db_clear sample_db))) (BT_UUID16 0x180A) True 1 =
    (None, snd (snd (gatt_db_clear sample_db)))"
  using gatt_db_clear_then_add_refused [of sample_db "fst (gatt_db_clear sample_db)"
      "fst (snd (gatt_db_clear sample_db))" "snd (snd (gatt_db_clear sample_db))"] by simp

definition inner_db :: "(nat, nat) gatt_db" where
  "inner_db = snd (gatt_db_insert_service gatt_db_new 5 (BT_UUID16 0x1800) True 2)"

text \<open>
  The overlap test of \<^verbatim>\<open>find_insert_loc\<close> misses a new range that strictly encloses a
  service: with a service at handles 5 to 6, an insertion at 1 with 20 handles is accepted and
  two services then claim handle 5.
\<close>

lemma gatt_db_insert_service_enclosing:
  "fst (gatt_db_insert_service inner_db 1 (BT_UUID16 0x1801) True 20) \<noteq> None \<and>
   length (filter (find_service_for_handle 5) (services (snd (gatt_db_insert_service inner_db 1 (BT_UUID16 0x1801) True 20)))) = 2"
  by code_simp

text \<open>
  A write that starts beyond the end of a non-empty stored value leaves the bytes between
  as \<^verbatim>\<open>realloc\<close> returned them: they are part of the value but were never written.
\<close>

lemma store_value_gap_uninitialised:
  assumes "attr_value a = Some v" and "value_len a = of_nat (length v)" and "v \<noteq> []"
    and "length v < unat off" and "unat off + length w \<le> 0xFFFF" and "length v \<le> i" and "i < unat off"
  shows "\<exists>b. attr_value (store_value junk off w a) = Some b \<and> i < unat (value_len (store_value junk off w a)) \<and> b ! i = junk i"
proof -
  have vl: "unat (value_len a) = length v" using assms(2,4,5) by (simp add: unat_of_nat)
  then have g: "grows off w a" "value_len a \<noteq> 0"
    using assms(3,4) by (auto simp: grows_def word_le_nat_alt)
  then have "attr_value (store_value junk off w a) = Some (memcpy_at (realloc junk (Some v) (length w + unat off)) (unat off) w)"
    using assms(1) unfolding store_value_def Let_def grows_iff by simp
  moreover have "memcpy_at (realloc junk (Some v) (length w + unat off)) (unat off) w ! i = junk i"
    using assms(6,7) by (simp add: memcpy_at_def nth_append realloc_new)
  moreover have "unat (value_len (store_value junk off w a)) = length w + unat off"
    using store_value_grow(1) [OF g(1), of junk] assms(5) by (simp add: unat_of_nat del: of_nat_add)
  ultimately show ?thesis using assms(7) by simp
qed

lemma store_value_gap_uninitialised_witness:
  "\<exists>b. attr_value (store_value (\<lambda>_. 0xAA) 3 [1] (sample_attr\<lparr>attr_value := Some [7], value_len := 1\<rparr>)) = Some b \<and>
    1 < unat (value_len (store_value (\<lambda>_. 0xAA) 3 [1] (sample_attr\<lparr>attr_value := Some [7], value_len := 1\<rparr>))) \<and> b ! 1 = 0xAA"
  by (rule store_value_gap_uninitialised [where v = "[7]"]) simp_all

end
