(* ===== verification/Att.thy ===== *)
theory Att
  imports Att_Types Bytes Queue
begin

text \<open>
  \<^verbatim>\<open>src/shared/att.c\<close> and \<^verbatim>\<open>att-types.h\<close>: the ATT bearer. The record \<open>bt_att\<close> is
  \<^verbatim>\<open>struct bt_att\<close>; it is extensible, so that the layers above add their state and a callback is a
  function on the whole state. What the code calls through function pointers is in a record of
  type \<open>att_env\<close>: the function pointer and its user data select the behaviour. The kernel and the timer
  service appear as the parts of the state they hold for this bearer (the identifiers of armed
  timeouts, the PDUs written to the socket, whether the socket was shut down), their answers as
  arguments. Logging is left out.
\<close>

section \<open>Constants\<close>

definition ATT_MIN_PDU_LEN :: int where "ATT_MIN_PDU_LEN = 1"
definition ATT_OP_CMD_MASK :: u8 where "ATT_OP_CMD_MASK = 0x40"
definition ATT_OP_SIGNED_MASK :: u8 where "ATT_OP_SIGNED_MASK = 0x80"
definition BT_ATT_SIGNATURE_LEN :: nat where "BT_ATT_SIGNATURE_LEN = 12"

section \<open>Operation types\<close>

datatype att_op_type = ATT_OP_TYPE_REQ | ATT_OP_TYPE_RSP | ATT_OP_TYPE_CMD | ATT_OP_TYPE_IND
  | ATT_OP_TYPE_NOT | ATT_OP_TYPE_CONF | ATT_OP_TYPE_UNKNOWN

definition att_opcode_type_table :: "(u8 \<times> att_op_type) list" where
  "att_opcode_type_table = [
     (BT_ATT_OP_ERROR_RSP, ATT_OP_TYPE_RSP),
     (BT_ATT_OP_MTU_REQ, ATT_OP_TYPE_REQ),
     (BT_ATT_OP_MTU_RSP, ATT_OP_TYPE_RSP),
     (BT_ATT_OP_FIND_INFO_REQ, ATT_OP_TYPE_REQ),
     (BT_ATT_OP_FIND_INFO_RSP, ATT_OP_TYPE_RSP),
     (BT_ATT_OP_FIND_BY_TYPE_REQ, ATT_OP_TYPE_REQ),
     (BT_ATT_OP_FIND_BY_TYPE_RSP, ATT_OP_TYPE_RSP),
     (BT_ATT_OP_READ_BY_TYPE_REQ, ATT_OP_TYPE_REQ),
     (BT_ATT_OP_READ_BY_TYPE_RSP, ATT_OP_TYPE_RSP),
     (BT_ATT_OP_READ_REQ, ATT_OP_TYPE_REQ),
     (BT_ATT_OP_READ_RSP, ATT_OP_TYPE_RSP),
     (BT_ATT_OP_READ_BLOB_REQ, ATT_OP_TYPE_REQ),
     (BT_ATT_OP_READ_BLOB_RSP, ATT_OP_TYPE_RSP),
     (BT_ATT_OP_READ_MULT_REQ, ATT_OP_TYPE_REQ),
     (BT_ATT_OP_READ_MULT_RSP, ATT_OP_TYPE_RSP),
     (BT_ATT_OP_READ_BY_GRP_TYPE_REQ, ATT_OP_TYPE_REQ),
     (BT_ATT_OP_READ_BY_GRP_TYPE_RSP, ATT_OP_TYPE_RSP),
     (BT_ATT_OP_WRITE_REQ, ATT_OP_TYPE_REQ),
     (BT_ATT_OP_WRITE_RSP, ATT_OP_TYPE_RSP),
     (BT_ATT_OP_WRITE_CMD, ATT_OP_TYPE_CMD),
     (BT_ATT_OP_SIGNED_WRITE_CMD, ATT_OP_TYPE_CMD),
     (BT_ATT_OP_PREP_WRITE_REQ, ATT_OP_TYPE_REQ),
     (BT_ATT_OP_PREP_WRITE_RSP, ATT_OP_TYPE_RSP),
     (BT_ATT_OP_EXEC_WRITE_REQ, ATT_OP_TYPE_REQ),
     (BT_ATT_OP_EXEC_WRITE_RSP, ATT_OP_TYPE_RSP),
     (BT_ATT_OP_HANDLE_VAL_NOT, ATT_OP_TYPE_NOT),
     (BT_ATT_OP_HANDLE_VAL_IND, ATT_OP_TYPE_IND),
     (BT_ATT_OP_HANDLE_VAL_CONF, ATT_OP_TYPE_CONF)]"

definition get_op_type :: "u8 \<Rightarrow> att_op_type" where
  "get_op_type opcode = (case map_of att_opcode_type_table opcode of
     Some t \<Rightarrow> t
   | None \<Rightarrow> if opcode AND ATT_OP_CMD_MASK \<noteq> 0 then ATT_OP_TYPE_CMD else ATT_OP_TYPE_UNKNOWN)"

definition att_req_rsp_mapping_table :: "(u8 \<times> u8) list" where
  "att_req_rsp_mapping_table = [
     (BT_ATT_OP_MTU_REQ, BT_ATT_OP_MTU_RSP),
     (BT_ATT_OP_FIND_INFO_REQ, BT_ATT_OP_FIND_INFO_RSP),
     (BT_ATT_OP_FIND_BY_TYPE_REQ, BT_ATT_OP_FIND_BY_TYPE_RSP),
     (BT_ATT_OP_READ_BY_TYPE_REQ, BT_ATT_OP_READ_BY_TYPE_RSP),
     (BT_ATT_OP_READ_REQ, BT_ATT_OP_READ_RSP),
     (BT_ATT_OP_READ_BLOB_REQ, BT_ATT_OP_READ_BLOB_RSP),
     (BT_ATT_OP_READ_MULT_REQ, BT_ATT_OP_READ_MULT_RSP),
     (BT_ATT_OP_READ_BY_GRP_TYPE_REQ, BT_ATT_OP_READ_BY_GRP_TYPE_RSP),
     (BT_ATT_OP_WRITE_REQ, BT_ATT_OP_WRITE_RSP),
     (BT_ATT_OP_PREP_WRITE_REQ, BT_ATT_OP_PREP_WRITE_RSP),
     (BT_ATT_OP_EXEC_WRITE_REQ, BT_ATT_OP_EXEC_WRITE_RSP)]"

definition get_req_opcode :: "u8 \<Rightarrow> u8" where
  "get_req_opcode rsp_opcode =
     (case find (\<lambda>e. snd e = rsp_opcode) att_req_rsp_mapping_table of Some e \<Rightarrow> fst e | None \<Rightarrow> 0)"

section \<open>State\<close>

record ('f, 'u) att_send_op =
  op_id :: u32
  op_timeout_id :: u32
  op_type :: att_op_type
  op_opcode :: u8
  op_pdu :: bytes
  op_callback :: "'f option"
  op_destroy :: "'f option"
  op_user_data :: "'u option"

record ('f, 'u) att_notify =
  an_id :: u32
  an_opcode :: u8
  an_callback :: 'f
  an_destroy :: "'f option"
  an_user_data :: "'u option"

record ('f, 'u) att_disconn =
  ad_id :: u32
  ad_removed :: bool
  ad_callback :: "'f option"
  ad_destroy :: "'f option"
  ad_user_data :: "'u option"

record ('f, 'u) sign_info =
  sign_key :: bytes
  sign_counter :: 'f
  sign_user_data :: "'u option"

text \<open>
  The last six fields are the state of the IO and timer services that belongs to the bearer:
  whether \<^verbatim>\<open>att->io\<close> is there, whether its write handler is installed, whether it closes the socket
  when destroyed, whether the socket was shut down, the PDUs written, the armed timeouts.
\<close>

record ('f, 'u) bt_att =
  att_ref_count :: int
  att_freed :: bool
  att_fd :: int
  io_on_l2cap :: bool
  io_sec_level :: int
  enc_size :: u8
  req_queue :: "('f, 'u) att_send_op list"
  pending_req :: "('f, 'u) att_send_op option"
  ind_queue :: "('f, 'u) att_send_op list"
  pending_ind :: "('f, 'u) att_send_op option"
  write_queue :: "('f, 'u) att_send_op list"
  writer_active :: bool
  att_notify_list :: "('f, 'u) att_notify list"
  disconn_list :: "('f, 'u) att_disconn list"
  in_req :: bool
  att_mtu :: u16
  next_send_id :: u32
  next_reg_id :: u32
  timeout_callback :: "'f option"
  timeout_destroy :: "'f option"
  timeout_data :: "'u option"
  debug_callback :: "'f option"
  debug_destroy :: "'f option"
  debug_data :: "'u option"
  att_crypto :: bool
  local_sign :: "('f, 'u) sign_info option"
  remote_sign :: "('f, 'u) sign_info option"
  att_io :: bool
  io_writer :: bool
  io_close :: bool
  io_shut :: bool
  att_sent :: "bytes list"
  att_timers :: "u32 list"

text \<open>
  The callbacks, the signature function of \<^verbatim>\<open>bt_crypto_sign_att\<close> (key, message, counter), the bytes
  a fresh allocation holds, and the kernel's answers to the security options of the socket.
  It is an argument of each operation, so that answers may differ from call to call.
\<close>

record ('f, 'u, 'w) att_env =
  e_response :: "'f \<Rightarrow> u8 \<Rightarrow> bytes option \<Rightarrow> 'u option \<Rightarrow> 'w \<Rightarrow> 'w"
  e_notify :: "'f \<Rightarrow> u8 \<Rightarrow> bytes \<Rightarrow> 'u option \<Rightarrow> 'w \<Rightarrow> 'w"
  e_destroy :: "'f \<Rightarrow> 'u option \<Rightarrow> 'w \<Rightarrow> 'w"
  e_disconnect :: "'f \<Rightarrow> int \<Rightarrow> 'u option \<Rightarrow> 'w \<Rightarrow> 'w"
  e_timeout :: "'f \<Rightarrow> u32 \<Rightarrow> u8 \<Rightarrow> 'u option \<Rightarrow> 'w \<Rightarrow> 'w"
  e_counter :: "'f \<Rightarrow> u32 \<Rightarrow> 'u option \<Rightarrow> u32 option"
  e_sign :: "bytes \<Rightarrow> bytes \<Rightarrow> u32 \<Rightarrow> bytes option"
  e_junk :: bytes
  e_get_security :: "int option"
  e_set_security :: "int \<Rightarrow> bool"

section \<open>Pending operations\<close>

definition timeout_remove_att :: "u32 \<Rightarrow> ('f, 'u, 'z) bt_att_scheme \<Rightarrow> ('f, 'u, 'z) bt_att_scheme" where
  "timeout_remove_att tid w = w\<lparr>att_timers := remove_first (\<lambda>t. t = tid) (att_timers w)\<rparr>"

definition call_destroy ::
  "('f, 'u, ('f, 'u, 'z) bt_att_scheme) att_env \<Rightarrow> 'f option \<Rightarrow> 'u option \<Rightarrow>
   ('f, 'u, 'z) bt_att_scheme \<Rightarrow> ('f, 'u, 'z) bt_att_scheme" where
  "call_destroy env f ud w = (case f of None \<Rightarrow> w | Some d \<Rightarrow> e_destroy env d ud w)"

definition destroy_att_send_op ::
  "('f, 'u, ('f, 'u, 'z) bt_att_scheme) att_env \<Rightarrow> ('f, 'u) att_send_op \<Rightarrow>
   ('f, 'u, 'z) bt_att_scheme \<Rightarrow> ('f, 'u, 'z) bt_att_scheme" where
  "destroy_att_send_op env op w =
     (let w1 = (if op_timeout_id op \<noteq> 0 then timeout_remove_att (op_timeout_id op) w else w)
      in call_destroy env (op_destroy op) (op_user_data op) w1)"

definition cancel_att_send_op ::
  "('f, 'u, ('f, 'u, 'z) bt_att_scheme) att_env \<Rightarrow> ('f, 'u) att_send_op \<Rightarrow>
   ('f, 'u, 'z) bt_att_scheme \<Rightarrow> ('f, 'u) att_send_op \<times> ('f, 'u, 'z) bt_att_scheme" where
  "cancel_att_send_op env op w =
     (op\<lparr>op_user_data := None, op_callback := None, op_destroy := None\<rparr>,
      call_destroy env (op_destroy op) (op_user_data op) w)"

definition destroy_att_notify where
  "destroy_att_notify env n w = call_destroy env (an_destroy n) (an_user_data n) w"

definition destroy_att_disconn where
  "destroy_att_disconn env d w = call_destroy env (ad_destroy d) (ad_user_data d) w"

definition att_match_notify_id :: "u32 \<Rightarrow> ('f, 'u) att_notify \<Rightarrow> bool" where
  "att_match_notify_id i n \<longleftrightarrow> an_id n = i"

definition match_disconn_id :: "u32 \<Rightarrow> ('f, 'u) att_disconn \<Rightarrow> bool" where
  "match_disconn_id i d \<longleftrightarrow> ad_id d = i"

definition match_op_id :: "u32 \<Rightarrow> ('f, 'u) att_send_op \<Rightarrow> bool" where
  "match_op_id i op \<longleftrightarrow> op_id op = i"

section \<open>Encoding and sending\<close>

text \<open>
  The PDU of an operation: opcode, parameters, and for an opcode with the signature bit and a local
  key twelve more bytes. Without crypto these are whatever the allocation held. The length is
  kept in 16 bits; \<open>length + 13\<close> stays below \<open>2 ^ 16\<close> in every call (beyond, the code writes out of
  bounds).
\<close>

definition encode_pdu ::
  "('f, 'u, ('f, 'u, 'z) bt_att_scheme) att_env \<Rightarrow> ('f, 'u) att_send_op \<Rightarrow> bytes option \<Rightarrow> u16 \<Rightarrow>
   ('f, 'u, 'z) bt_att_scheme \<Rightarrow> ('f, 'u) att_send_op option" where
  "encode_pdu env op pdu len w =
     (let signed = (local_sign w \<noteq> None \<and> op_opcode op AND ATT_OP_SIGNED_MASK \<noteq> 0);
          params = (if len \<noteq> 0 then (case pdu of None \<Rightarrow> [] | Some p \<Rightarrow> take (unat len) p) else []);
          pdu_len = 1 + (if signed then of_nat BT_ATT_SIGNATURE_LEN else 0) +
                    (if len \<noteq> 0 \<and> pdu \<noteq> None then len else 0)
      in if pdu_len > att_mtu w then None
         else if \<not> signed then Some (op\<lparr>op_pdu := op_opcode op # params\<rparr>)
         else if \<not> att_crypto w then
           Some (op\<lparr>op_pdu := op_opcode op # params @ take BT_ATT_SIGNATURE_LEN (e_junk env)\<rparr>)
         else (case local_sign w of None \<Rightarrow> None
           | Some sign \<Rightarrow> (case e_counter env (sign_counter sign) 0 (sign_user_data sign) of None \<Rightarrow> None
             | Some cnt \<Rightarrow> (case e_sign env (sign_key sign) (op_opcode op # params) cnt of None \<Rightarrow> None
               | Some s \<Rightarrow> Some (op\<lparr>op_pdu := op_opcode op # params @ take BT_ATT_SIGNATURE_LEN s\<rparr>)))))"

definition create_att_send_op ::
  "('f, 'u, ('f, 'u, 'z) bt_att_scheme) att_env \<Rightarrow> u8 \<Rightarrow> bytes option \<Rightarrow> u16 \<Rightarrow> 'f option \<Rightarrow> 'u option \<Rightarrow>
   'f option \<Rightarrow> ('f, 'u, 'z) bt_att_scheme \<Rightarrow> ('f, 'u) att_send_op option" where
  "create_att_send_op env opcode pdu len callback ud destroy w =
     (let type = get_op_type opcode;
          answered = (type = ATT_OP_TYPE_REQ \<or> type = ATT_OP_TYPE_IND)
      in if len \<noteq> 0 \<and> pdu = None then None
         else if type = ATT_OP_TYPE_UNKNOWN then None
         else if callback \<noteq> None \<and> \<not> answered then None
         else if callback = None \<and> answered then None
         else encode_pdu env \<lparr>op_id = 0, op_timeout_id = 0, op_type = type, op_opcode = opcode, op_pdu = [],
                op_callback = callback, op_destroy = destroy, op_user_data = ud\<rparr> pdu len w)"

definition pick_next_send_op ::
  "('f, 'u, 'z) bt_att_scheme \<Rightarrow> ('f, 'u) att_send_op option \<times> ('f, 'u, 'z) bt_att_scheme" where
  "pick_next_send_op w =
     (case lq_pop_head (write_queue w) of
        (Some op, q) \<Rightarrow> (Some op, w\<lparr>write_queue := q\<rparr>)
      | (None, _) \<Rightarrow>
        (case (if pending_req w = None then lq_pop_head (req_queue w) else (None, [])) of
           (Some op, q) \<Rightarrow> (Some op, w\<lparr>req_queue := q\<rparr>)
         | (None, _) \<Rightarrow>
           (case (if pending_ind w = None then lq_pop_head (ind_queue w) else (None, [])) of
              (Some op, q) \<Rightarrow> (Some op, w\<lparr>ind_queue := q\<rparr>)
            | (None, _) \<Rightarrow> (None, w))))"

text \<open>\<^verbatim>\<open>io_set_write_handler\<close> succeeds on a live IO object.\<close>

definition wakeup_writer :: "('f, 'u, 'z) bt_att_scheme \<Rightarrow> ('f, 'u, 'z) bt_att_scheme" where
  "wakeup_writer w =
     (if writer_active w then w
      else if write_queue w = [] \<and> (pending_req w \<noteq> None \<or> req_queue w = []) \<and>
              (pending_ind w \<noteq> None \<or> ind_queue w = []) then w
      else if \<not> att_io w then w
      else w\<lparr>io_writer := True, writer_active := True\<rparr>)"

text \<open>The queue of the operation's kind.\<close>

definition enqueue_op ::
  "('f, 'u) att_send_op \<Rightarrow> ('f, 'u, 'z) bt_att_scheme \<Rightarrow> ('f, 'u, 'z) bt_att_scheme" where
  "enqueue_op op w = (case op_type op of
     ATT_OP_TYPE_REQ \<Rightarrow> w\<lparr>req_queue := lq_push_tail op (req_queue w)\<rparr>
   | ATT_OP_TYPE_IND \<Rightarrow> w\<lparr>ind_queue := lq_push_tail op (ind_queue w)\<rparr>
   | _ \<Rightarrow> w\<lparr>write_queue := lq_push_tail op (write_queue w)\<rparr>)"

text \<open>The identifier of the operation, 0 when it was refused.\<close>

definition bt_att_send ::
  "('f, 'u, ('f, 'u, 'z) bt_att_scheme) att_env \<Rightarrow> u8 \<Rightarrow> bytes option \<Rightarrow> u16 \<Rightarrow> 'f option \<Rightarrow> 'u option \<Rightarrow>
   'f option \<Rightarrow> ('f, 'u, 'z) bt_att_scheme \<Rightarrow> u32 \<times> ('f, 'u, 'z) bt_att_scheme" where
  "bt_att_send env opcode pdu len callback ud destroy w =
     (if \<not> att_io w then (0, w)
      else (case create_att_send_op env opcode pdu len callback ud destroy w of None \<Rightarrow> (0, w)
        | Some op0 \<Rightarrow>
            (let i = (if next_send_id w < 1 then 1 else next_send_id w);
                 op = op0\<lparr>op_id := i\<rparr>;
                 w1 = w\<lparr>next_send_id := i + 1\<rparr>
             in (i, wakeup_writer (enqueue_op op w1)))))"

definition att_ecode_from_error :: "int \<Rightarrow> u8" where
  "att_ecode_from_error err =
     (if err > 0 \<and> err < 255 then word_of_int err
      else if err = - ENOENT then word_of_int BT_ATT_ERROR_INVALID_HANDLE
      else if err = - ENOMEM then word_of_int BT_ATT_ERROR_INSUFFICIENT_RESOURCES
      else if err = - EALREADY then word_of_int BT_ERROR_ALREADY_IN_PROGRESS
      else if err = - EOVERFLOW then word_of_int BT_ERROR_OUT_OF_RANGE
      else word_of_int BT_ATT_ERROR_UNLIKELY)"

definition bt_att_send_error_rsp ::
  "('f, 'u, ('f, 'u, 'z) bt_att_scheme) att_env \<Rightarrow> u8 \<Rightarrow> u16 \<Rightarrow> int \<Rightarrow>
   ('f, 'u, 'z) bt_att_scheme \<Rightarrow> u32 \<times> ('f, 'u, 'z) bt_att_scheme" where
  "bt_att_send_error_rsp env opcode handle err w =
     (if opcode = 0 then (0, w)
      else bt_att_send env BT_ATT_OP_ERROR_RSP
             (Some (opcode # put_le16 handle @ [att_ecode_from_error err])) 4 None None None w)"

definition respond_not_supported where
  "respond_not_supported env opcode w = snd (bt_att_send env BT_ATT_OP_ERROR_RSP
     (Some (opcode # put_le16 0x0000 @ [word_of_int BT_ATT_ERROR_REQUEST_NOT_SUPPORTED])) 4 None None None w)"

section \<open>Cancelling\<close>

text \<open>What is pending at the peer stays pending without handlers.\<close>

definition cancel_pending_req where
  "cancel_pending_req env w = (case pending_req w of None \<Rightarrow> w
     | Some op \<Rightarrow> (case cancel_att_send_op env op w of (op', w') \<Rightarrow> w'\<lparr>pending_req := Some op'\<rparr>))"

definition cancel_pending_ind where
  "cancel_pending_ind env w = (case pending_ind w of None \<Rightarrow> w
     | Some op \<Rightarrow> (case cancel_att_send_op env op w of (op', w') \<Rightarrow> w'\<lparr>pending_ind := Some op'\<rparr>))"

definition has_id :: "u32 \<Rightarrow> ('f, 'u) att_send_op option \<Rightarrow> bool" where
  "has_id i p = (case p of None \<Rightarrow> False | Some op \<Rightarrow> op_id op = i)"

definition bt_att_cancel ::
  "('f, 'u, ('f, 'u, 'z) bt_att_scheme) att_env \<Rightarrow> u32 \<Rightarrow> ('f, 'u, 'z) bt_att_scheme \<Rightarrow>
   bool \<times> ('f, 'u, 'z) bt_att_scheme" where
  "bt_att_cancel env i w =
     (if i = 0 then (False, w)
      else if has_id i (pending_req w) then (True, cancel_pending_req env w)
      else if has_id i (pending_ind w) then (True, cancel_pending_ind env w)
      else
        (case lq_remove_if (match_op_id i) (req_queue w) of
          (Some op, q) \<Rightarrow> (True, wakeup_writer (destroy_att_send_op env op (w\<lparr>req_queue := q\<rparr>)))
        | (None, _) \<Rightarrow>
            (case lq_remove_if (match_op_id i) (ind_queue w) of
              (Some op, q) \<Rightarrow> (True, wakeup_writer (destroy_att_send_op env op (w\<lparr>ind_queue := q\<rparr>)))
            | (None, _) \<Rightarrow>
                (case lq_remove_if (match_op_id i) (write_queue w) of
                  (Some op, q) \<Rightarrow> (True, wakeup_writer (destroy_att_send_op env op (w\<lparr>write_queue := q\<rparr>)))
                | (None, _) \<Rightarrow> (False, w)))))"

text \<open>\<^verbatim>\<open>queue_remove_all\<close> empties the queue before it hands the entries to the function.\<close>

definition bt_att_cancel_all ::
  "('f, 'u, ('f, 'u, 'z) bt_att_scheme) att_env \<Rightarrow> ('f, 'u, 'z) bt_att_scheme \<Rightarrow> ('f, 'u, 'z) bt_att_scheme" where
  "bt_att_cancel_all env w =
     (let w1 = fold (destroy_att_send_op env) (req_queue w) (w\<lparr>req_queue := []\<rparr>);
          w2 = fold (destroy_att_send_op env) (ind_queue w1) (w1\<lparr>ind_queue := []\<rparr>);
          w3 = fold (destroy_att_send_op env) (write_queue w2) (w2\<lparr>write_queue := []\<rparr>)
      in cancel_pending_ind env (cancel_pending_req env w3))"

section \<open>Registration and references\<close>

definition bt_att_register ::
  "u8 \<Rightarrow> 'f option \<Rightarrow> 'u option \<Rightarrow> 'f option \<Rightarrow> ('f, 'u, 'z) bt_att_scheme \<Rightarrow> u32 \<times> ('f, 'u, 'z) bt_att_scheme" where
  "bt_att_register opcode callback ud destroy w = (case callback of None \<Rightarrow> (0, w)
     | Some f \<Rightarrow>
         if \<not> att_io w then (0, w)
         else (let i = (if next_reg_id w < 1 then 1 else next_reg_id w)
               in (i, w\<lparr>next_reg_id := i + 1, att_notify_list := lq_push_tail \<lparr>an_id = i, an_opcode = opcode,
                     an_callback = f, an_destroy = destroy, an_user_data = ud\<rparr> (att_notify_list w)\<rparr>)))"

definition bt_att_unregister ::
  "('f, 'u, ('f, 'u, 'z) bt_att_scheme) att_env \<Rightarrow> u32 \<Rightarrow> ('f, 'u, 'z) bt_att_scheme \<Rightarrow>
   bool \<times> ('f, 'u, 'z) bt_att_scheme" where
  "bt_att_unregister env i w =
     (if i = 0 then (False, w)
      else (case lq_remove_if (att_match_notify_id i) (att_notify_list w) of
          (None, _) \<Rightarrow> (False, w)
        | (Some n, l) \<Rightarrow> (True, destroy_att_notify env n (w\<lparr>att_notify_list := l\<rparr>))))"

definition bt_att_unregister_all ::
  "('f, 'u, ('f, 'u, 'z) bt_att_scheme) att_env \<Rightarrow> ('f, 'u, 'z) bt_att_scheme \<Rightarrow> ('f, 'u, 'z) bt_att_scheme" where
  "bt_att_unregister_all env w =
     (let w1 = fold (destroy_att_notify env) (att_notify_list w) (w\<lparr>att_notify_list := []\<rparr>)
      in fold (destroy_att_disconn env) (disconn_list w1) (w1\<lparr>disconn_list := []\<rparr>))"

definition bt_att_register_disconnect ::
  "'f option \<Rightarrow> 'u option \<Rightarrow> 'f option \<Rightarrow> ('f, 'u, 'z) bt_att_scheme \<Rightarrow> u32 \<times> ('f, 'u, 'z) bt_att_scheme" where
  "bt_att_register_disconnect callback ud destroy w =
     (if \<not> att_io w then (0, w)
      else (let i = (if next_reg_id w < 1 then 1 else next_reg_id w)
            in (i, w\<lparr>next_reg_id := i + 1, disconn_list := lq_push_tail \<lparr>ad_id = i, ad_removed = False,
                  ad_callback = callback, ad_destroy = destroy, ad_user_data = ud\<rparr> (disconn_list w)\<rparr>)))"

text \<open>While the disconnect handlers run the entry is only marked.\<close>

definition bt_att_unregister_disconnect ::
  "('f, 'u, ('f, 'u, 'z) bt_att_scheme) att_env \<Rightarrow> u32 \<Rightarrow> ('f, 'u, 'z) bt_att_scheme \<Rightarrow>
   bool \<times> ('f, 'u, 'z) bt_att_scheme" where
  "bt_att_unregister_disconnect env i w =
     (if i = 0 then (False, w)
      else if \<not> att_io w then
        (case find (match_disconn_id i) (disconn_list w) of None \<Rightarrow> (False, w)
         | Some d \<Rightarrow> (True, w\<lparr>disconn_list :=
             map (\<lambda>x. if match_disconn_id i x then x\<lparr>ad_removed := True\<rparr> else x) (disconn_list w)\<rparr>))
      else (case lq_remove_if (match_disconn_id i) (disconn_list w) of
          (None, _) \<Rightarrow> (False, w)
        | (Some d, l) \<Rightarrow> (True, destroy_att_disconn env d (w\<lparr>disconn_list := l\<rparr>))))"

definition io_destroy_att :: "('f, 'u, 'z) bt_att_scheme \<Rightarrow> ('f, 'u, 'z) bt_att_scheme" where
  "io_destroy_att w = w\<lparr>att_io := False, io_writer := False\<rparr>"

definition bt_att_free ::
  "('f, 'u, ('f, 'u, 'z) bt_att_scheme) att_env \<Rightarrow> ('f, 'u, 'z) bt_att_scheme \<Rightarrow> ('f, 'u, 'z) bt_att_scheme" where
  "bt_att_free env w =
     (let w1 = (case pending_req w of None \<Rightarrow> w | Some op \<Rightarrow> destroy_att_send_op env op w);
          w2 = (case pending_ind w1 of None \<Rightarrow> w1 | Some op \<Rightarrow> destroy_att_send_op env op w1);
          w3 = io_destroy_att w2;
          w4 = call_destroy env (timeout_destroy w3) (timeout_data w3) w3;
          w5 = call_destroy env (debug_destroy w4) (debug_data w4) w4
      in w5\<lparr>att_freed := True\<rparr>)"

definition bt_att_ref :: "('f, 'u, 'z) bt_att_scheme \<Rightarrow> ('f, 'u, 'z) bt_att_scheme" where
  "bt_att_ref w = w\<lparr>att_ref_count := att_ref_count w + 1\<rparr>"

definition bt_att_unref ::
  "('f, 'u, ('f, 'u, 'z) bt_att_scheme) att_env \<Rightarrow> ('f, 'u, 'z) bt_att_scheme \<Rightarrow> ('f, 'u, 'z) bt_att_scheme" where
  "bt_att_unref env w =
     (let w1 = w\<lparr>att_ref_count := att_ref_count w - 1\<rparr>
      in if att_ref_count w1 \<noteq> 0 then w1
         else bt_att_free env (bt_att_cancel_all env (bt_att_unregister_all env w1)))"

section \<open>Timeout, writer, disconnection\<close>

definition io_shutdown_att :: "('f, 'u, 'z) bt_att_scheme \<Rightarrow> ('f, 'u, 'z) bt_att_scheme" where
  "io_shutdown_att w = (if att_io w then w\<lparr>io_shut := True\<rparr> else w)"

text \<open>
  The timeout of the operation with identifier \<open>i\<close> fired: the callback returns false, so it is not
  armed again.
\<close>

definition att_timeout_cb ::
  "('f, 'u, ('f, 'u, 'z) bt_att_scheme) att_env \<Rightarrow> u32 \<Rightarrow> ('f, 'u, 'z) bt_att_scheme \<Rightarrow> ('f, 'u, 'z) bt_att_scheme" where
  "att_timeout_cb env i w =
     (let (found, w1) =
          (if has_id i (pending_req w) then (pending_req w, w\<lparr>pending_req := None\<rparr>)
           else if has_id i (pending_ind w) then (pending_ind w, w\<lparr>pending_ind := None\<rparr>)
           else (None, w))
      in case found of None \<Rightarrow> w
       | Some op \<Rightarrow>
           (let fired = timeout_remove_att (op_timeout_id op) w1;
                w2 = (case timeout_callback fired of None \<Rightarrow> fired
                      | Some f \<Rightarrow> e_timeout env f (op_id op) (op_opcode op) (timeout_data fired) fired)
            in io_shutdown_att (destroy_att_send_op env (op\<lparr>op_timeout_id := 0\<rparr>) w2)))"

definition write_watch_destroy :: "('f, 'u, 'z) bt_att_scheme \<Rightarrow> ('f, 'u, 'z) bt_att_scheme" where
  "write_watch_destroy w = w\<lparr>writer_active := False\<rparr>"

text \<open>A timeout that could not be armed has the identifier 0.\<close>

definition arm :: "u32 \<Rightarrow> u32 list \<Rightarrow> u32 list" where
  "arm tid ts = (if tid = 0 then ts else ts @ [tid])"

text \<open>\<open>ret\<close> is what \<^verbatim>\<open>io_send\<close> returns, \<open>tid\<close> what \<^verbatim>\<open>timeout_add\<close> returns if it is called.\<close>

definition can_write_data ::
  "('f, 'u, ('f, 'u, 'z) bt_att_scheme) att_env \<Rightarrow> int \<Rightarrow> u32 \<Rightarrow> ('f, 'u, 'z) bt_att_scheme \<Rightarrow>
   bool \<times> ('f, 'u, 'z) bt_att_scheme" where
  "can_write_data env ret tid w =
     (case pick_next_send_op w of
       (None, _) \<Rightarrow> (False, w)
     | (Some op, w1) \<Rightarrow>
         if ret < 0 then
           (let w2 = (case op_callback op of None \<Rightarrow> w1
                      | Some f \<Rightarrow> e_response env f BT_ATT_OP_ERROR_RSP None (op_user_data op) w1)
            in (True, destroy_att_send_op env op w2))
         else
           (let w2 = w1\<lparr>att_sent := att_sent w1 @ [op_pdu op]\<rparr>;
                armed = op\<lparr>op_timeout_id := tid\<rparr>
            in case op_type op of
                 ATT_OP_TYPE_REQ \<Rightarrow> (True, w2\<lparr>pending_req := Some armed, att_timers := arm tid (att_timers w2)\<rparr>)
               | ATT_OP_TYPE_IND \<Rightarrow> (True, w2\<lparr>pending_ind := Some armed, att_timers := arm tid (att_timers w2)\<rparr>)
               | ATT_OP_TYPE_RSP \<Rightarrow> (True, destroy_att_send_op env op (w2\<lparr>in_req := False\<rparr>))
               | _ \<Rightarrow> (True, destroy_att_send_op env op w2)))"

text \<open>
  The IO layer's write event: a handler that returns false is removed and its destroy function
  runs.
\<close>

definition att_write_event ::
  "('f, 'u, ('f, 'u, 'z) bt_att_scheme) att_env \<Rightarrow> int \<Rightarrow> u32 \<Rightarrow> ('f, 'u, 'z) bt_att_scheme \<Rightarrow>
   ('f, 'u, 'z) bt_att_scheme" where
  "att_write_event env ret tid w =
     (if \<not> att_io w \<or> \<not> io_writer w then w
      else (case can_write_data env ret tid w of
          (True, w') \<Rightarrow> w'
        | (False, w') \<Rightarrow> write_watch_destroy (w'\<lparr>io_writer := False\<rparr>)))"

definition disc_att_send_op ::
  "('f, 'u, ('f, 'u, 'z) bt_att_scheme) att_env \<Rightarrow> ('f, 'u) att_send_op \<Rightarrow>
   ('f, 'u, 'z) bt_att_scheme \<Rightarrow> ('f, 'u, 'z) bt_att_scheme" where
  "disc_att_send_op env op w =
     (let w1 = (case op_callback op of None \<Rightarrow> w
                | Some f \<Rightarrow> e_response env f BT_ATT_OP_ERROR_RSP None (op_user_data op) w)
      in destroy_att_send_op env op w1)"

definition disconn_handler ::
  "('f, 'u, ('f, 'u, 'z) bt_att_scheme) att_env \<Rightarrow> int \<Rightarrow> u32 \<Rightarrow> ('f, 'u, 'z) bt_att_scheme \<Rightarrow>
   ('f, 'u, 'z) bt_att_scheme" where
  "disconn_handler env err i w = (case find (match_disconn_id i) (disconn_list w) of
     None \<Rightarrow> w
   | Some d \<Rightarrow>
       if ad_removed d then w
       else (case ad_callback d of None \<Rightarrow> w | Some f \<Rightarrow> e_disconnect env f err (ad_user_data d) w))"

text \<open>
  \<open>err\<close> is the socket error, 0 when it cannot be obtained. The handlers run in order, each looked
  up when its turn comes, because an earlier one may have marked it as removed.
\<close>

definition disconnect_cb ::
  "('f, 'u, ('f, 'u, 'z) bt_att_scheme) att_env \<Rightarrow> int \<Rightarrow> ('f, 'u, 'z) bt_att_scheme \<Rightarrow>
   ('f, 'u, 'z) bt_att_scheme" where
  "disconnect_cb env err w =
     (let w0 = io_destroy_att w;
          w1 = fold (disc_att_send_op env) (req_queue w0) (w0\<lparr>req_queue := []\<rparr>);
          w2 = fold (disc_att_send_op env) (ind_queue w1) (w1\<lparr>ind_queue := []\<rparr>);
          w3 = fold (disc_att_send_op env) (write_queue w2) (w2\<lparr>write_queue := []\<rparr>);
          w4 = (case pending_req w3 of None \<Rightarrow> w3 | Some op \<Rightarrow> (disc_att_send_op env op w3)\<lparr>pending_req := None\<rparr>);
          w5 = (case pending_ind w4 of None \<Rightarrow> w4 | Some op \<Rightarrow> (disc_att_send_op env op w4)\<lparr>pending_ind := None\<rparr>);
          w6 = bt_att_ref w5;
          w7 = fold (disconn_handler env err) (map ad_id (disconn_list w6)) w6
      in bt_att_unref env (bt_att_unregister_all env w7))"

section \<open>Security\<close>

text \<open>Security level, or a negative error, and the key size.\<close>

definition bt_att_get_security ::
  "('f, 'u, ('f, 'u, 'z) bt_att_scheme) att_env \<Rightarrow> ('f, 'u, 'z) bt_att_scheme \<Rightarrow> int \<times> u8" where
  "bt_att_get_security env w =
     (if \<not> io_on_l2cap w then (io_sec_level w, enc_size w)
      else (case e_get_security env of None \<Rightarrow> (- EIO, enc_size w) | Some l \<Rightarrow> (l, enc_size w)))"

definition bt_att_set_security ::
  "('f, 'u, ('f, 'u, 'z) bt_att_scheme) att_env \<Rightarrow> int \<Rightarrow> ('f, 'u, 'z) bt_att_scheme \<Rightarrow>
   bool \<times> ('f, 'u, 'z) bt_att_scheme" where
  "bt_att_set_security env level w =
     (if level < BT_ATT_SECURITY_AUTO \<or> level > BT_ATT_SECURITY_HIGH then (False, w)
      else if \<not> io_on_l2cap w then (True, w\<lparr>io_sec_level := level\<rparr>)
      else (e_set_security env level, w))"

definition change_security ::
  "('f, 'u, ('f, 'u, 'z) bt_att_scheme) att_env \<Rightarrow> int \<Rightarrow> ('f, 'u, 'z) bt_att_scheme \<Rightarrow>
   bool \<times> ('f, 'u, 'z) bt_att_scheme" where
  "change_security env ecode w =
     (if io_sec_level w \<noteq> BT_ATT_SECURITY_AUTO then (False, w)
      else
        (let security = fst (bt_att_get_security env w)
         in if ecode = BT_ATT_ERROR_INSUFFICIENT_ENCRYPTION \<and> security < BT_ATT_SECURITY_MEDIUM then
              bt_att_set_security env BT_ATT_SECURITY_MEDIUM w
            else if ecode = BT_ATT_ERROR_AUTHENTICATION then
              (if security < BT_ATT_SECURITY_MEDIUM then bt_att_set_security env BT_ATT_SECURITY_MEDIUM w
               else if security < BT_ATT_SECURITY_HIGH then bt_att_set_security env BT_ATT_SECURITY_HIGH w
               else if security < BT_ATT_SECURITY_FIPS then bt_att_set_security env BT_ATT_SECURITY_FIPS w
               else (False, w))
            else (False, w)))"

definition bt_att_set_enc_key_size :: "u8 \<Rightarrow> ('f, 'u, 'z) bt_att_scheme \<Rightarrow> ('f, 'u, 'z) bt_att_scheme" where
  "bt_att_set_enc_key_size n w = w\<lparr>enc_size := n\<rparr>"

definition sign_set_key :: "bytes \<Rightarrow> 'f \<Rightarrow> 'u option \<Rightarrow> ('f, 'u) sign_info" where
  "sign_set_key key f ud = \<lparr>sign_key = take 16 key, sign_counter = f, sign_user_data = ud\<rparr>"

definition bt_att_set_local_key ::
  "bytes \<Rightarrow> 'f \<Rightarrow> 'u option \<Rightarrow> ('f, 'u, 'z) bt_att_scheme \<Rightarrow> bool \<times> ('f, 'u, 'z) bt_att_scheme" where
  "bt_att_set_local_key key f ud w = (True, w\<lparr>local_sign := Some (sign_set_key key f ud)\<rparr>)"

definition bt_att_set_remote_key ::
  "bytes \<Rightarrow> 'f \<Rightarrow> 'u option \<Rightarrow> ('f, 'u, 'z) bt_att_scheme \<Rightarrow> bool \<times> ('f, 'u, 'z) bt_att_scheme" where
  "bt_att_set_remote_key key f ud w = (True, w\<lparr>remote_sign := Some (sign_set_key key f ud)\<rparr>)"

definition bt_att_has_crypto :: "('f, 'u, 'z) bt_att_scheme \<Rightarrow> bool" where
  "bt_att_has_crypto w = att_crypto w"

section \<open>Receiving\<close>

text \<open>
  Whether the operation is to be retried, and the opcode the error names. The parameters are
  those of the PDU after its opcode: request opcode, handle, error code. Only called with a
  request pending.
\<close>

definition handle_error_rsp ::
  "('f, 'u, ('f, 'u, 'z) bt_att_scheme) att_env \<Rightarrow> bytes \<Rightarrow> ('f, 'u, 'z) bt_att_scheme \<Rightarrow>
   bool \<times> u8 \<times> ('f, 'u, 'z) bt_att_scheme" where
  "handle_error_rsp env pdu w = (case pending_req w of None \<Rightarrow> (False, 0, w)
     | Some op \<Rightarrow>
         if length pdu \<noteq> 4 then (False, 0, w)
         else (case change_security env (uint (pdu ! 3)) w of
             (False, w') \<Rightarrow> (False, pdu ! 0, w')
           | (True, w') \<Rightarrow>
               (let w1 = (if op_timeout_id op \<noteq> 0 then timeout_remove_att (op_timeout_id op) w' else w');
                    op' = op\<lparr>op_timeout_id := 0\<rparr>
                in (True, pdu ! 0, w1\<lparr>pending_req := None, req_queue := lq_push_head op' (req_queue w1)\<rparr>))))"

text \<open>
  The end of a request: its callback with the response (or an error response without parameters),
  then the next operation.
\<close>

definition finish_req ::
  "('f, 'u, ('f, 'u, 'z) bt_att_scheme) att_env \<Rightarrow> ('f, 'u) att_send_op \<Rightarrow> u8 \<Rightarrow> bytes option \<Rightarrow>
   ('f, 'u, 'z) bt_att_scheme \<Rightarrow> ('f, 'u, 'z) bt_att_scheme" where
  "finish_req env op rsp_opcode rsp_pdu w =
     (let w1 = (case op_callback op of None \<Rightarrow> w
                | Some f \<Rightarrow> e_response env f rsp_opcode rsp_pdu (op_user_data op) w)
      in wakeup_writer ((destroy_att_send_op env op w1)\<lparr>pending_req := None\<rparr>))"

definition handle_rsp ::
  "('f, 'u, ('f, 'u, 'z) bt_att_scheme) att_env \<Rightarrow> u8 \<Rightarrow> bytes \<Rightarrow> ('f, 'u, 'z) bt_att_scheme \<Rightarrow>
   ('f, 'u, 'z) bt_att_scheme" where
  "handle_rsp env opcode pdu w = (case pending_req w of None \<Rightarrow> io_shutdown_att w
     | Some op \<Rightarrow>
         (case (if opcode = BT_ATT_OP_ERROR_RSP then handle_error_rsp env pdu w
                else (False, get_req_opcode opcode, w)) of
            (True, _, w') \<Rightarrow> wakeup_writer w'
          | (False, req_opcode, w') \<Rightarrow>
              if opcode \<noteq> BT_ATT_OP_ERROR_RSP \<and> req_opcode = 0 then
                finish_req env op BT_ATT_OP_ERROR_RSP None w'
              else if req_opcode \<noteq> op_opcode op then finish_req env op BT_ATT_OP_ERROR_RSP None w'
              else finish_req env op opcode (if pdu = [] then None else Some pdu) w'))"

definition handle_conf ::
  "('f, 'u, ('f, 'u, 'z) bt_att_scheme) att_env \<Rightarrow> bytes \<Rightarrow> ('f, 'u, 'z) bt_att_scheme \<Rightarrow>
   ('f, 'u, 'z) bt_att_scheme" where
  "handle_conf env pdu w = (case pending_ind w of None \<Rightarrow> io_shutdown_att w
     | Some op \<Rightarrow>
         if pdu \<noteq> [] then io_shutdown_att w
         else
           (let w1 = (case op_callback op of None \<Rightarrow> w
                      | Some f \<Rightarrow> e_response env f BT_ATT_OP_HANDLE_VAL_CONF None (op_user_data op) w)
            in wakeup_writer ((destroy_att_send_op env op w1)\<lparr>pending_ind := None\<rparr>)))"

definition opcode_match :: "u8 \<Rightarrow> u8 \<Rightarrow> bool" where
  "opcode_match opcode test_opcode \<longleftrightarrow>
     (let t = get_op_type test_opcode in
      opcode = BT_ATT_ALL_REQUESTS \<and> (t = ATT_OP_TYPE_REQ \<or> t = ATT_OP_TYPE_CMD)) \<or> opcode = test_opcode"

text \<open>
  The counter function may change the counter; the signature is then computed over the
  received bytes and stored over the received signature, so nothing is compared.
\<close>

definition handle_signed ::
  "('f, 'u, ('f, 'u, 'z) bt_att_scheme) att_env \<Rightarrow> bytes \<Rightarrow> ('f, 'u, 'z) bt_att_scheme \<Rightarrow> bool" where
  "handle_signed env pdu w =
     (if length pdu < 2 + BT_ATT_SIGNATURE_LEN then False
      else (case remote_sign w of None \<Rightarrow> False
        | Some sign \<Rightarrow>
            (case e_counter env (sign_counter sign) (get_le32 pdu (length pdu - BT_ATT_SIGNATURE_LEN))
                    (sign_user_data sign) of None \<Rightarrow> False
             | Some cnt \<Rightarrow>
                 att_crypto w \<and>
                 e_sign env (sign_key sign) (take (length pdu - BT_ATT_SIGNATURE_LEN) pdu) cnt \<noteq> None)))"

text \<open>
  The registered handlers in order, until one leaves the list empty. (A handler that unregisters
  single others while they wait would make the code follow freed entries.)
\<close>

fun notify_loop ::
  "('f, 'u, ('f, 'u, 'z) bt_att_scheme) att_env \<Rightarrow> u8 \<Rightarrow> bytes \<Rightarrow> ('f, 'u) att_notify list \<Rightarrow> bool \<Rightarrow>
   ('f, 'u, 'z) bt_att_scheme \<Rightarrow> bool \<times> ('f, 'u, 'z) bt_att_scheme" where
  "notify_loop env opcode pdu [] found w = (found, w)"
| "notify_loop env opcode pdu (n # ns) found w =
     (if \<not> opcode_match (an_opcode n) opcode then notify_loop env opcode pdu ns found w
      else
        (let w' = e_notify env (an_callback n) opcode pdu (an_user_data n) w
         in if att_notify_list w' = [] then (True, w')
            else notify_loop env opcode pdu ns True w'))"

definition att_handle_notify ::
  "('f, 'u, ('f, 'u, 'z) bt_att_scheme) att_env \<Rightarrow> u8 \<Rightarrow> bytes \<Rightarrow> ('f, 'u, 'z) bt_att_scheme \<Rightarrow>
   ('f, 'u, 'z) bt_att_scheme" where
  "att_handle_notify env opcode pdu0 w =
     (let check = (opcode AND ATT_OP_SIGNED_MASK \<noteq> 0 \<and> \<not> att_crypto w)
      in if check \<and> \<not> handle_signed env pdu0 w then w
         else
           (let pdu = (if check then take (length pdu0 - BT_ATT_SIGNATURE_LEN) pdu0 else pdu0);
                (found, w1) = notify_loop env opcode pdu (att_notify_list w) False (bt_att_ref w);
                w2 = (if \<not> found \<and> get_op_type opcode \<noteq> ATT_OP_TYPE_CMD
                      then respond_not_supported env opcode w1 else w1)
            in bt_att_unref env w2))"

text \<open>\<open>input\<close>: what \<^verbatim>\<open>read\<close> returns, at most \<^verbatim>\<open>mtu\<close> bytes, or \<open>None\<close> for an error.\<close>

definition can_read_data ::
  "('f, 'u, ('f, 'u, 'z) bt_att_scheme) att_env \<Rightarrow> bytes option \<Rightarrow> ('f, 'u, 'z) bt_att_scheme \<Rightarrow>
   bool \<times> ('f, 'u, 'z) bt_att_scheme" where
  "can_read_data env input w = (case input of None \<Rightarrow> (False, w)
     | Some buf \<Rightarrow>
         if int (length buf) < ATT_MIN_PDU_LEN then (True, w)
         else
           (let opcode = buf ! 0; pdu = drop 1 buf; w1 = bt_att_ref w
            in case get_op_type opcode of
                 ATT_OP_TYPE_RSP \<Rightarrow> (True, bt_att_unref env (handle_rsp env opcode pdu w1))
               | ATT_OP_TYPE_CONF \<Rightarrow> (True, bt_att_unref env (handle_conf env pdu w1))
               | ATT_OP_TYPE_REQ \<Rightarrow>
                   if in_req w1 then (False, bt_att_unref env (io_shutdown_att w1))
                   else (True, bt_att_unref env (att_handle_notify env opcode pdu (w1\<lparr>in_req := True\<rparr>)))
               | _ \<Rightarrow> (True, bt_att_unref env (att_handle_notify env opcode pdu w1))))"

section \<open>Creation and settings\<close>

text \<open>What the kernel says about a socket: \<^verbatim>\<open>getsockopt\<close> and \<^verbatim>\<open>getsockname\<close>, with \<open>None\<close> or an errno for a failure.\<close>

record sock_info =
  k_domain :: "int option"
  k_proto :: "int option"
  k_bdaddr_type :: "int + u8"
  k_omtu :: "u16 option"

definition AF_BLUETOOTH :: int where "AF_BLUETOOTH = 31"
definition BTPROTO_L2CAP :: int where "BTPROTO_L2CAP = 0"
definition BDADDR_BREDR :: u8 where "BDADDR_BREDR = 0x00"
definition BDADDR_LE_PUBLIC :: u8 where "BDADDR_LE_PUBLIC = 0x01"

definition is_io_l2cap_based :: "sock_info \<Rightarrow> bool" where
  "is_io_l2cap_based k = (case k_domain k of None \<Rightarrow> False
     | Some d \<Rightarrow> if d \<noteq> AF_BLUETOOTH then False
                else (case k_proto k of None \<Rightarrow> False | Some p \<Rightarrow> p = BTPROTO_L2CAP))"

definition get_l2cap_mtu :: "sock_info \<Rightarrow> u16" where
  "get_l2cap_mtu k = (case k_omtu k of None \<Rightarrow> 0 | Some m \<Rightarrow> m)"

text \<open>A failure is a negative errno, returned as eight bits.\<close>

definition bt_att_get_link_type :: "sock_info \<Rightarrow> ('f, 'u, 'z) bt_att_scheme \<Rightarrow> u8" where
  "bt_att_get_link_type k w =
     (if \<not> io_on_l2cap w then BT_ATT_LINK_LOCAL
      else (case k_bdaddr_type k of Inl errno \<Rightarrow> word_of_int (- errno)
        | Inr t \<Rightarrow> if t = BDADDR_BREDR then BT_ATT_LINK_BREDR else BT_ATT_LINK_LE))"

definition att_blank :: "int \<Rightarrow> ('f, 'u) bt_att" where
  "att_blank fd = \<lparr>att_ref_count = 0, att_freed = False, att_fd = fd, io_on_l2cap = False, io_sec_level = 0,
     enc_size = 0, req_queue = [], pending_req = None, ind_queue = [], pending_ind = None, write_queue = [],
     writer_active = False, att_notify_list = [], disconn_list = [], in_req = False, att_mtu = 0,
     next_send_id = 0, next_reg_id = 0, timeout_callback = None, timeout_destroy = None, timeout_data = None,
     debug_callback = None, debug_destroy = None, debug_data = None, att_crypto = False,
     local_sign = None, remote_sign = None, att_io = True, io_writer = False, io_close = False,
     io_shut = False, att_sent = [], att_timers = []\<rparr>"

text \<open>\<open>crypto\<close>: whether \<^verbatim>\<open>bt_crypto_new\<close> succeeds.\<close>

definition bt_att_new :: "sock_info \<Rightarrow> bool \<Rightarrow> int \<Rightarrow> bool \<Rightarrow> ('f, 'u) bt_att option" where
  "bt_att_new k crypto fd ext_signed =
     (if fd < 0 then None
      else
        (let w0 = att_blank fd;
             w1 = (if \<not> ext_signed then w0\<lparr>att_crypto := crypto\<rparr> else w0);
             w2 = w1\<lparr>io_on_l2cap := is_io_l2cap_based k\<rparr>;
             w3 = (if \<not> io_on_l2cap w2 then w2\<lparr>io_sec_level := BT_ATT_SECURITY_LOW\<rparr> else w2);
             w4 = w3\<lparr>att_mtu := (if bt_att_get_link_type k w3 = BT_ATT_LINK_BREDR then get_l2cap_mtu k
                                else BT_ATT_DEFAULT_LE_MTU)\<rparr>
         in if att_mtu w4 < BT_ATT_DEFAULT_LE_MTU then None else Some (bt_att_ref w4)))"

definition bt_att_set_close_on_unref :: "bool \<Rightarrow> ('f, 'u, 'z) bt_att_scheme \<Rightarrow> bool \<times> ('f, 'u, 'z) bt_att_scheme" where
  "bt_att_set_close_on_unref do_close w = (if \<not> att_io w then (False, w) else (True, w\<lparr>io_close := do_close\<rparr>))"

definition bt_att_get_fd :: "('f, 'u, 'z) bt_att_scheme \<Rightarrow> int" where
  "bt_att_get_fd w = att_fd w"

definition bt_att_set_debug ::
  "('f, 'u, ('f, 'u, 'z) bt_att_scheme) att_env \<Rightarrow> 'f option \<Rightarrow> 'u option \<Rightarrow> 'f option \<Rightarrow>
   ('f, 'u, 'z) bt_att_scheme \<Rightarrow> bool \<times> ('f, 'u, 'z) bt_att_scheme" where
  "bt_att_set_debug env callback ud destroy w =
     (True, (call_destroy env (debug_destroy w) (debug_data w) w)
        \<lparr>debug_callback := callback, debug_destroy := destroy, debug_data := ud\<rparr>)"

definition bt_att_set_timeout_cb ::
  "('f, 'u, ('f, 'u, 'z) bt_att_scheme) att_env \<Rightarrow> 'f option \<Rightarrow> 'u option \<Rightarrow> 'f option \<Rightarrow>
   ('f, 'u, 'z) bt_att_scheme \<Rightarrow> bool \<times> ('f, 'u, 'z) bt_att_scheme" where
  "bt_att_set_timeout_cb env callback ud destroy w =
     (True, (call_destroy env (timeout_destroy w) (timeout_data w) w)
        \<lparr>timeout_callback := callback, timeout_destroy := destroy, timeout_data := ud\<rparr>)"

definition bt_att_get_mtu :: "('f, 'u, 'z) bt_att_scheme \<Rightarrow> u16" where
  "bt_att_get_mtu w = att_mtu w"

definition bt_att_set_mtu :: "u16 \<Rightarrow> ('f, 'u, 'z) bt_att_scheme \<Rightarrow> bool \<times> ('f, 'u, 'z) bt_att_scheme" where
  "bt_att_set_mtu mtu w = (if mtu < BT_ATT_DEFAULT_LE_MTU then (False, w) else (True, w\<lparr>att_mtu := mtu\<rparr>))"

section \<open>Events\<close>

text \<open>What reaches the bearer from outside: socket events, timeouts, calls of its owner.\<close>

datatype ('f, 'u) att_input =
    In_Read "bytes option" | In_Write int u32 | In_Timeout u32 | In_Disconnect int
  | In_Send u8 "bytes option" u16 "'f option" "'u option" "'f option" | In_Error_Rsp u8 u16 int
  | In_Cancel u32 | In_Cancel_All | In_Register u8 "'f option" "'u option" "'f option" | In_Unregister u32
  | In_Register_Disconnect "'f option" "'u option" "'f option" | In_Unregister_Disconnect u32
  | In_Set_Mtu u16 | In_Ref | In_Unref

fun att_do ::
  "('f, 'u, ('f, 'u, 'z) bt_att_scheme) att_env \<Rightarrow> ('f, 'u) att_input \<Rightarrow> ('f, 'u, 'z) bt_att_scheme \<Rightarrow>
   ('f, 'u, 'z) bt_att_scheme" where
  "att_do env (In_Read input) w = snd (can_read_data env input w)"
| "att_do env (In_Write ret tid) w = att_write_event env ret tid w"
| "att_do env (In_Timeout i) w = att_timeout_cb env i w"
| "att_do env (In_Disconnect err) w = disconnect_cb env err w"
| "att_do env (In_Send opc pdu len cb ud d) w = snd (bt_att_send env opc pdu len cb ud d w)"
| "att_do env (In_Error_Rsp opc h e) w = snd (bt_att_send_error_rsp env opc h e w)"
| "att_do env (In_Cancel i) w = snd (bt_att_cancel env i w)"
| "att_do env In_Cancel_All w = bt_att_cancel_all env w"
| "att_do env (In_Register opc cb ud d) w = snd (bt_att_register opc cb ud d w)"
| "att_do env (In_Unregister i) w = snd (bt_att_unregister env i w)"
| "att_do env (In_Register_Disconnect cb ud d) w = snd (bt_att_register_disconnect cb ud d w)"
| "att_do env (In_Unregister_Disconnect i) w = snd (bt_att_unregister_disconnect env i w)"
| "att_do env (In_Set_Mtu m) w = snd (bt_att_set_mtu m w)"
| "att_do env In_Ref w = bt_att_ref w"
| "att_do env In_Unref w = bt_att_unref env w"

end
