(* ===== verification/Att_Inv.thy ===== *)
theory Att_Inv
  imports Att
begin

text \<open>
  What the bearer guarantees: operations wait in the queue of their kind with their opcode in front of
  the PDU, work is never left without a writer, the armed timeouts are those of the pending
  operations. The locale \<open>att_client\<close> states what the bearer asks of the code behind its
  callbacks; under it every operation and every event keeps the invariant.
\<close>

section \<open>The invariant\<close>

definition send_op_ok :: "('f, 'u) att_send_op \<Rightarrow> bool" where
  "send_op_ok op \<longleftrightarrow> op_type op = get_op_type (op_opcode op) \<and> (\<exists>r. op_pdu op = op_opcode op # r)"

definition req_op :: "('f, 'u) att_send_op \<Rightarrow> bool" where
  "req_op op \<longleftrightarrow> send_op_ok op \<and> op_type op = ATT_OP_TYPE_REQ"

definition ind_op :: "('f, 'u) att_send_op \<Rightarrow> bool" where
  "ind_op op \<longleftrightarrow> send_op_ok op \<and> op_type op = ATT_OP_TYPE_IND"

definition plain_op :: "('f, 'u) att_send_op \<Rightarrow> bool" where
  "plain_op op \<longleftrightarrow> send_op_ok op \<and> op_type op \<in> {ATT_OP_TYPE_RSP, ATT_OP_TYPE_CMD, ATT_OP_TYPE_NOT, ATT_OP_TYPE_CONF}"

text \<open>Something that could be written now.\<close>

definition has_work :: "('f, 'u, 'z) bt_att_scheme \<Rightarrow> bool" where
  "has_work w \<longleftrightarrow> write_queue w \<noteq> [] \<or> (pending_req w = None \<and> req_queue w \<noteq> []) \<or>
     (pending_ind w = None \<and> ind_queue w \<noteq> [])"

definition op_tids :: "('f, 'u) att_send_op option \<Rightarrow> u32 set" where
  "op_tids p = (case p of None \<Rightarrow> {} | Some op \<Rightarrow> {op_timeout_id op})"

lemma op_tids_simps [simp]: "op_tids None = {}" "op_tids (Some op) = {op_timeout_id op}"
  by (simp_all add: op_tids_def)

definition att_queues_ok :: "('f, 'u, 'z) bt_att_scheme \<Rightarrow> bool" where
  "att_queues_ok w \<longleftrightarrow> (\<forall>op \<in> set (req_queue w). req_op op) \<and> (\<forall>op \<in> set (ind_queue w). ind_op op) \<and>
     (\<forall>op \<in> set (write_queue w). plain_op op) \<and>
     (case pending_req w of None \<Rightarrow> True | Some op \<Rightarrow> req_op op) \<and>
     (case pending_ind w of None \<Rightarrow> True | Some op \<Rightarrow> ind_op op)"

definition att_timers_ok :: "('f, 'u, 'z) bt_att_scheme \<Rightarrow> bool" where
  "att_timers_ok w \<longleftrightarrow> distinct (att_timers w) \<and> 0 \<notin> set (att_timers w) \<and>
     set (att_timers w) \<subseteq> op_tids (pending_req w) \<union> op_tids (pending_ind w)"

definition att_writer_ok :: "('f, 'u, 'z) bt_att_scheme \<Rightarrow> bool" where
  "att_writer_ok w \<longleftrightarrow> (att_io w \<longrightarrow> writer_active w = io_writer w) \<and>
     (att_io w \<longrightarrow> \<not> io_shut w \<longrightarrow> has_work w \<longrightarrow> io_writer w)"

definition att_ok :: "('f, 'u, 'z) bt_att_scheme \<Rightarrow> bool" where
  "att_ok w \<longleftrightarrow> att_queues_ok w \<and> att_timers_ok w \<and> att_writer_ok w"

text \<open>
  What a callback may do to the bearer: keep the invariant, and leave alone which operations are
  pending and their timeouts.
\<close>

definition att_core_ok :: "('f, 'u, 'z) bt_att_scheme \<Rightarrow> bool" where
  "att_core_ok w \<longleftrightarrow> att_queues_ok w \<and> att_timers_ok w \<and> (att_io w \<longrightarrow> writer_active w = io_writer w)"

definition callback_ok :: "('f, 'u, 'z) bt_att_scheme \<Rightarrow> ('f, 'u, 'z) bt_att_scheme \<Rightarrow> bool" where
  "callback_ok w w' \<longleftrightarrow> (att_ok w \<longrightarrow> att_ok w') \<and> (att_core_ok w \<longrightarrow> att_core_ok w') \<and> op_tids (pending_req w') = op_tids (pending_req w) \<and>
     op_tids (pending_ind w') = op_tids (pending_ind w) \<and> att_timers w' = att_timers w \<and> att_io w' = att_io w"

lemma callback_ok_refl: "callback_ok w w"
  by (simp add: callback_ok_def)

lemma callback_ok_att_ok: "callback_ok w w' \<Longrightarrow> att_ok w \<Longrightarrow> att_ok w'"
  by (simp add: callback_ok_def)

lemma callback_ok_trans: "callback_ok w w' \<Longrightarrow> callback_ok w' w'' \<Longrightarrow> callback_ok w w''"
  by (simp add: callback_ok_def)

section \<open>Operation types\<close>

lemma get_op_type_simps [simp]:
  "get_op_type BT_ATT_OP_ERROR_RSP = ATT_OP_TYPE_RSP" "get_op_type BT_ATT_OP_MTU_RSP = ATT_OP_TYPE_RSP"
  "get_op_type BT_ATT_OP_FIND_INFO_RSP = ATT_OP_TYPE_RSP" "get_op_type BT_ATT_OP_FIND_BY_TYPE_RSP = ATT_OP_TYPE_RSP"
  "get_op_type BT_ATT_OP_READ_BY_TYPE_RSP = ATT_OP_TYPE_RSP" "get_op_type BT_ATT_OP_READ_RSP = ATT_OP_TYPE_RSP"
  "get_op_type BT_ATT_OP_READ_BLOB_RSP = ATT_OP_TYPE_RSP" "get_op_type BT_ATT_OP_READ_MULT_RSP = ATT_OP_TYPE_RSP"
  "get_op_type BT_ATT_OP_READ_BY_GRP_TYPE_RSP = ATT_OP_TYPE_RSP" "get_op_type BT_ATT_OP_WRITE_RSP = ATT_OP_TYPE_RSP"
  "get_op_type BT_ATT_OP_PREP_WRITE_RSP = ATT_OP_TYPE_RSP" "get_op_type BT_ATT_OP_EXEC_WRITE_RSP = ATT_OP_TYPE_RSP"
  "get_op_type BT_ATT_OP_HANDLE_VAL_NOT = ATT_OP_TYPE_NOT" "get_op_type BT_ATT_OP_HANDLE_VAL_IND = ATT_OP_TYPE_IND"
  "get_op_type BT_ATT_OP_HANDLE_VAL_CONF = ATT_OP_TYPE_CONF" "get_op_type BT_ATT_OP_WRITE_CMD = ATT_OP_TYPE_CMD"
  by (simp_all add: get_op_type_def att_opcode_type_table_def att_opcodes)

section \<open>Sending\<close>

lemma encode_pdu_ok: "encode_pdu env op pdu len w = Some op' \<Longrightarrow>
    \<exists>r. op' = op\<lparr>op_pdu := op_opcode op # r\<rparr>"
  by (auto simp: encode_pdu_def Let_def split: if_splits option.splits)

lemma create_op_ok:
  "create_att_send_op env opc pdu len cb ud d w = Some op \<Longrightarrow>
   send_op_ok op \<and> op_type op = get_op_type opc \<and> get_op_type opc \<noteq> ATT_OP_TYPE_UNKNOWN \<and> op_timeout_id op = 0"
  by (auto simp: create_att_send_op_def Let_def send_op_ok_def split: if_splits dest!: encode_pdu_ok)

text \<open>An unsigned opcode: the PDU is the opcode and the parameters.\<close>

lemma create_op_plain:
  assumes "opc AND ATT_OP_SIGNED_MASK = 0" and "length p = unat len" and "unat len + 1 \<le> unat (att_mtu w)"
    and "get_op_type opc \<noteq> ATT_OP_TYPE_UNKNOWN"
    and "(cb = None) = (get_op_type opc \<noteq> ATT_OP_TYPE_REQ \<and> get_op_type opc \<noteq> ATT_OP_TYPE_IND)"
  shows "create_att_send_op env opc (Some p) len cb ud d w =
    Some \<lparr>op_id = 0, op_timeout_id = 0, op_type = get_op_type opc, op_opcode = opc, op_pdu = opc # p,
      op_callback = cb, op_destroy = d, op_user_data = ud\<rparr>"
proof -
  have "unat (1 + len) = 1 + unat len"
    using assms(3) unsigned_less [of "att_mtu w", where 'a = nat] by (subst unat_add_lem [THEN iffD1]) auto
  then have "\<not> 1 + len > att_mtu w" using assms(3) by (simp add: word_less_nat_alt)
  then show ?thesis
    using assms by (auto simp: create_att_send_op_def encode_pdu_def Let_def)
qed

lemma wakeup_writer_frame [att_frame]:
  "req_queue (wakeup_writer w) = req_queue w" "ind_queue (wakeup_writer w) = ind_queue w"
  "write_queue (wakeup_writer w) = write_queue w" "pending_req (wakeup_writer w) = pending_req w"
  "pending_ind (wakeup_writer w) = pending_ind w" "att_timers (wakeup_writer w) = att_timers w"
  "att_mtu (wakeup_writer w) = att_mtu w" "att_io (wakeup_writer w) = att_io w" "in_req (wakeup_writer w) = in_req w"
  "io_shut (wakeup_writer w) = io_shut w" "att_notify_list (wakeup_writer w) = att_notify_list w"
  "att_sent (wakeup_writer w) = att_sent w" "att_ref_count (wakeup_writer w) = att_ref_count w"
  "bt_att.more (wakeup_writer w) = bt_att.more w"
  by (simp_all add: wakeup_writer_def)

lemma wakeup_writer_writer:
  "(att_io w \<longrightarrow> writer_active w = io_writer w) \<Longrightarrow> att_writer_ok (wakeup_writer w)"
  by (auto simp: att_writer_ok_def wakeup_writer_def has_work_def)

lemma wakeup_writer_ok:
  "att_queues_ok w \<Longrightarrow> att_timers_ok w \<Longrightarrow> (att_io w \<longrightarrow> writer_active w = io_writer w) \<Longrightarrow> att_ok (wakeup_writer w)"
  using wakeup_writer_writer [of w]
  by (simp add: att_ok_def att_queues_ok_def att_timers_ok_def att_frame)

lemma enqueue_op_frame [att_frame]:
  "pending_req (enqueue_op op w) = pending_req w" "pending_ind (enqueue_op op w) = pending_ind w"
  "att_timers (enqueue_op op w) = att_timers w" "att_mtu (enqueue_op op w) = att_mtu w"
  "att_io (enqueue_op op w) = att_io w" "in_req (enqueue_op op w) = in_req w" "io_shut (enqueue_op op w) = io_shut w"
  "io_writer (enqueue_op op w) = io_writer w" "writer_active (enqueue_op op w) = writer_active w"
  "att_notify_list (enqueue_op op w) = att_notify_list w" "att_sent (enqueue_op op w) = att_sent w"
  "att_ref_count (enqueue_op op w) = att_ref_count w" "bt_att.more (enqueue_op op w) = bt_att.more w"
  by (simp_all add: enqueue_op_def split: att_op_type.splits)

lemma enqueue_op_queues:
  "att_queues_ok w \<Longrightarrow> send_op_ok op \<Longrightarrow> op_type op \<noteq> ATT_OP_TYPE_UNKNOWN \<Longrightarrow> att_queues_ok (enqueue_op op w)"
  by (cases "op_type op") (auto simp: enqueue_op_def att_queues_ok_def lq_push_tail_def req_op_def ind_op_def plain_op_def)

lemma bt_att_send_shape:
  "snd (bt_att_send env opc pdu len cb ud d w) = w \<or>
   (\<exists>op i. create_att_send_op env opc pdu len cb ud d w = Some op \<and> att_io w \<and>
      snd (bt_att_send env opc pdu len cb ud d w) =
        wakeup_writer (enqueue_op (op\<lparr>op_id := i\<rparr>) (w\<lparr>next_send_id := i + 1\<rparr>)))"
proof (cases "att_io w \<and> create_att_send_op env opc pdu len cb ud d w \<noteq> None")
  case True
  then show ?thesis unfolding bt_att_send_def Let_def by fastforce
qed (auto simp: bt_att_send_def split: option.splits)

lemma wakeup_writer_core: "att_core_ok w \<Longrightarrow> att_core_ok (wakeup_writer w) \<and> att_ok (wakeup_writer w)"
  using wakeup_writer_ok [of w]
  by (auto simp: att_core_ok_def att_ok_def att_writer_ok_def)

lemma att_ok_core: "att_ok w \<Longrightarrow> att_core_ok w"
  by (simp add: att_ok_def att_core_ok_def att_writer_ok_def)

lemma bt_att_send_callback_ok: "callback_ok w (snd (bt_att_send env opc pdu len cb ud d w))"
proof -
  have step: "callback_ok w (wakeup_writer (enqueue_op (op\<lparr>op_id := i\<rparr>) (w\<lparr>next_send_id := i + 1\<rparr>)))"
    if op: "create_att_send_op env opc pdu len cb ud d w = Some op" for op i
  proof -
    note c = create_op_ok [OF op]
    have s: "send_op_ok (op\<lparr>op_id := i\<rparr>)" using c by (simp add: send_op_ok_def)
    have "att_core_ok (enqueue_op (op\<lparr>op_id := i\<rparr>) (w\<lparr>next_send_id := i + 1\<rparr>))" if "att_core_ok w"
    proof -
      have "att_queues_ok (enqueue_op (op\<lparr>op_id := i\<rparr>) (w\<lparr>next_send_id := i + 1\<rparr>))"
        using that c s by (intro enqueue_op_queues) (auto simp: att_core_ok_def att_queues_ok_def)
      then show ?thesis using that by (simp add: att_core_ok_def att_timers_ok_def att_frame)
    qed
    from wakeup_writer_core [OF this] att_ok_core [of w] show ?thesis
      by (auto simp: callback_ok_def att_frame)
  qed
  then show ?thesis
    using bt_att_send_shape [of env opc pdu len cb ud d w] callback_ok_refl [of w] by fastforce
qed

lemma bt_att_send_error_rsp_callback_ok: "callback_ok w (snd (bt_att_send_error_rsp env opc h e w))"
  by (simp add: bt_att_send_error_rsp_def bt_att_send_callback_ok callback_ok_refl)

section \<open>Clients of the bearer\<close>

locale att_client =
  fixes env :: "('f, 'u, ('f, 'u, 'z) bt_att_scheme) att_env"
  assumes response_ok: "callback_ok w (e_response env f opc rsp ud w)"
    and notify_ok: "callback_ok w (e_notify env f opc p ud w)"
    and destroy_ok: "callback_ok w (e_destroy env f ud w)"
    and disconnect_ok: "callback_ok w (e_disconnect env f err ud w)"
    and timeout_ok: "callback_ok w (e_timeout env f i opc ud w)"
begin

lemma call_destroy_ok: "callback_ok w (call_destroy env f ud w)"
  by (simp add: call_destroy_def destroy_ok callback_ok_refl split: option.splits)

lemma fold_callback_ok: "(\<And>x w. callback_ok w (g x w)) \<Longrightarrow> callback_ok w (fold g xs w)"
  by (induction xs arbitrary: w) (auto intro: callback_ok_refl callback_ok_trans)

text \<open>Destroying an operation disarms its timeout.\<close>

lemma destroy_op_effect:
  assumes "att_ok w"
  shows "att_ok (destroy_att_send_op env op w) \<and>
    op_tids (pending_req (destroy_att_send_op env op w)) = op_tids (pending_req w) \<and>
    op_tids (pending_ind (destroy_att_send_op env op w)) = op_tids (pending_ind w) \<and>
    att_io (destroy_att_send_op env op w) = att_io w \<and>
    att_timers (destroy_att_send_op env op w) = filter (\<lambda>t. t \<noteq> op_timeout_id op) (att_timers w)"
proof -
  define w1 where "w1 = (if op_timeout_id op \<noteq> 0 then timeout_remove_att (op_timeout_id op) w else w)"
  have t: "distinct (att_timers w)" "0 \<notin> set (att_timers w)" using assms by (auto simp: att_ok_def att_timers_ok_def)
  have tm: "att_timers w1 = filter (\<lambda>t. t \<noteq> op_timeout_id op) (att_timers w)"
    using t remove_first_eq_distinct [OF t(1)]
    by (auto simp: w1_def timeout_remove_att_def filter_id_conv intro!: filter_True [symmetric])
  have "att_ok w1"
    using assms tm unfolding att_ok_def att_timers_ok_def att_queues_ok_def att_writer_ok_def has_work_def
    by (auto simp: w1_def timeout_remove_att_def)
  moreover have "op_tids (pending_req w1) = op_tids (pending_req w)" "op_tids (pending_ind w1) = op_tids (pending_ind w)"
      "att_io w1 = att_io w"
    by (simp_all add: w1_def timeout_remove_att_def)
  moreover have "callback_ok w1 (destroy_att_send_op env op w)"
    using call_destroy_ok by (simp add: destroy_att_send_op_def w1_def Let_def)
  ultimately show ?thesis using tm by (simp add: callback_ok_def)
qed

text \<open>The same for an operation that was never written.\<close>

lemma destroy_unsent_ok: "op_timeout_id op = 0 \<Longrightarrow> callback_ok w (destroy_att_send_op env op w)"
  by (simp add: destroy_att_send_op_def call_destroy_ok)

lemma disc_op_effect:
  assumes "att_ok w"
  shows "att_ok (disc_att_send_op env op w) \<and>
    op_tids (pending_req (disc_att_send_op env op w)) = op_tids (pending_req w) \<and>
    op_tids (pending_ind (disc_att_send_op env op w)) = op_tids (pending_ind w) \<and>
    att_io (disc_att_send_op env op w) = att_io w \<and>
    att_timers (disc_att_send_op env op w) = filter (\<lambda>t. t \<noteq> op_timeout_id op) (att_timers w)"
proof -
  let ?w1 = "case op_callback op of None \<Rightarrow> w | Some f \<Rightarrow> e_response env f BT_ATT_OP_ERROR_RSP None (op_user_data op) w"
  have c: "callback_ok w ?w1" by (simp add: callback_ok_refl response_ok split: option.splits)
  then have "att_ok ?w1" using assms by (simp add: callback_ok_def)
  from destroy_op_effect [OF this, of op] c show ?thesis
    by (simp add: disc_att_send_op_def callback_ok_def)
qed

text \<open>Ending the pending request or indication leaves only the other timeout.\<close>

lemma clear_pending_req:
  assumes "att_queues_ok w" and "att_timers_ok w" and "op_tids (pending_req w) = {t}" and "t \<notin> set (att_timers w)"
  shows "att_queues_ok (w\<lparr>pending_req := None\<rparr>) \<and> att_timers_ok (w\<lparr>pending_req := None\<rparr>)"
proof -
  have "set (att_timers w) \<subseteq> op_tids (pending_ind w)" using assms by (auto simp: att_timers_ok_def)
  then show ?thesis using assms by (simp add: att_queues_ok_def att_timers_ok_def op_tids_def)
qed

lemma clear_pending_ind:
  assumes "att_queues_ok w" and "att_timers_ok w" and "op_tids (pending_ind w) = {t}" and "t \<notin> set (att_timers w)"
  shows "att_queues_ok (w\<lparr>pending_ind := None\<rparr>) \<and> att_timers_ok (w\<lparr>pending_ind := None\<rparr>)"
proof -
  have "set (att_timers w) \<subseteq> op_tids (pending_req w)" using assms by (auto simp: att_timers_ok_def)
  then show ?thesis using assms by (simp add: att_queues_ok_def att_timers_ok_def op_tids_def)
qed

lemma finish_req_ok:
  assumes "att_ok w" and "op_tids (pending_req w) = {op_timeout_id op}"
  shows "att_ok (finish_req env op r p w)"
proof -
  let ?w1 = "case op_callback op of None \<Rightarrow> w | Some f \<Rightarrow> e_response env f r p (op_user_data op) w"
  have c: "callback_ok w ?w1" by (simp add: callback_ok_refl response_ok split: option.splits)
  then have "att_ok ?w1" using assms by (simp add: callback_ok_def)
  note d = destroy_op_effect [OF this, of op]
  let ?w2 = "destroy_att_send_op env op ?w1"
  have "att_queues_ok (?w2\<lparr>pending_req := None\<rparr>) \<and> att_timers_ok (?w2\<lparr>pending_req := None\<rparr>)"
    using d c assms(2) by (intro clear_pending_req [where t = "op_timeout_id op"]) (auto simp: att_ok_def callback_ok_def)
  then show ?thesis
    unfolding finish_req_def Let_def
    by (intro wakeup_writer_ok) (use d in \<open>auto simp: att_ok_def att_writer_ok_def\<close>)
qed

lemma handle_conf_ok:
  assumes "att_ok w"
  shows "att_ok (handle_conf env p w)"
proof (cases "pending_ind w")
  case None
  with assms show ?thesis
    by (auto simp: handle_conf_def io_shutdown_att_def att_ok_def att_queues_ok_def att_timers_ok_def att_writer_ok_def)
next
  case (Some op)
  show ?thesis
  proof (cases "p = []")
    case False
    with assms Some show ?thesis
      by (auto simp: handle_conf_def io_shutdown_att_def att_ok_def att_queues_ok_def att_timers_ok_def att_writer_ok_def)
  next
    case True
    let ?w1 = "case op_callback op of None \<Rightarrow> w
      | Some f \<Rightarrow> e_response env f BT_ATT_OP_HANDLE_VAL_CONF None (op_user_data op) w"
    have c: "callback_ok w ?w1" by (simp add: callback_ok_refl response_ok split: option.splits)
    then have "att_ok ?w1" using assms by (simp add: callback_ok_def)
    note d = destroy_op_effect [OF this, of op]
    let ?w2 = "destroy_att_send_op env op ?w1"
    have "att_queues_ok (?w2\<lparr>pending_ind := None\<rparr>) \<and> att_timers_ok (?w2\<lparr>pending_ind := None\<rparr>)"
      using d c Some by (intro clear_pending_ind [where t = "op_timeout_id op"]) (auto simp: att_ok_def callback_ok_def op_tids_def)
    then have "att_ok (wakeup_writer (?w2\<lparr>pending_ind := None\<rparr>))"
      by (intro wakeup_writer_ok) (use d in \<open>auto simp: att_ok_def att_writer_ok_def\<close>)
    with True Some show ?thesis by (simp add: handle_conf_def Let_def)
  qed
qed

end

context att_client
begin

lemma att_ok_irrelevant:
  "att_ok (w\<lparr>att_ref_count := n\<rparr>) = att_ok w" "att_ok (w\<lparr>in_req := b\<rparr>) = att_ok w"
  "att_ok (w\<lparr>att_freed := b\<rparr>) = att_ok w" "att_ok (w\<lparr>io_sec_level := l3\<rparr>) = att_ok w" "att_ok (w\<lparr>att_sent := s\<rparr>) = att_ok w"
  "att_ok (w\<lparr>att_notify_list := l\<rparr>) = att_ok w" "att_ok (w\<lparr>disconn_list := l2\<rparr>) = att_ok w"
  by (simp_all add: att_ok_def att_queues_ok_def att_timers_ok_def att_writer_ok_def has_work_def)

lemma change_security_shape:
  "snd (change_security env e w) = w \<or> (\<exists>l. snd (change_security env e w) = w\<lparr>io_sec_level := l\<rparr>)"
  by (auto simp: change_security_def bt_att_set_security_def Let_def)

lemma att_shut_ok: "att_ok w \<Longrightarrow> att_ok (io_shutdown_att w)"
  by (auto simp: io_shutdown_att_def att_ok_def att_queues_ok_def att_timers_ok_def att_writer_ok_def has_work_def)

lemma io_destroy_ok: "att_ok w \<Longrightarrow> att_ok (io_destroy_att w)"
  by (simp add: io_destroy_att_def att_ok_def att_queues_ok_def att_timers_ok_def att_writer_ok_def)

lemma fold_destroy_ok:
  "att_ok w \<Longrightarrow> (\<And>x w. att_ok w \<Longrightarrow> att_ok (g x w)) \<Longrightarrow> att_ok (fold g xs w)"
  by (induction xs arbitrary: w) auto

lemma unregister_all_ok: "att_ok w \<Longrightarrow> att_ok (bt_att_unregister_all env w)"
  using call_destroy_ok unfolding callback_ok_def bt_att_unregister_all_def Let_def
  by (intro fold_destroy_ok) (auto simp: att_ok_irrelevant destroy_att_notify_def destroy_att_disconn_def intro!: fold_destroy_ok)

lemma drop_queue_ok:
  assumes "att_ok w"
  shows "att_ok (w\<lparr>req_queue := []\<rparr>)" and "att_ok (w\<lparr>ind_queue := []\<rparr>)" and "att_ok (w\<lparr>write_queue := []\<rparr>)"
  using assms by (auto simp: att_ok_def att_queues_ok_def att_timers_ok_def att_writer_ok_def has_work_def)

lemma cancelled_op:
  "req_op (op\<lparr>op_user_data := a, op_callback := b, op_destroy := c\<rparr>) = req_op op"
  "ind_op (op\<lparr>op_user_data := a, op_callback := b, op_destroy := c\<rparr>) = ind_op op"
  "req_op (op\<lparr>op_timeout_id := t\<rparr>) = req_op op" "ind_op (op\<lparr>op_timeout_id := t\<rparr>) = ind_op op"
  by (simp_all add: req_op_def ind_op_def send_op_ok_def)

lemma replace_pending_req:
  assumes "att_ok w" and "op_tids (pending_req w) = {op_timeout_id op}" and "req_op op"
  shows "att_ok (w\<lparr>pending_req := Some op\<rparr>)"
proof -
  have p: "pending_req w \<noteq> None" using assms(2) by (auto simp: op_tids_def split: option.splits)
  have "att_queues_ok (w\<lparr>pending_req := Some op\<rparr>)" using assms by (simp add: att_ok_def att_queues_ok_def)
  moreover have "att_timers_ok (w\<lparr>pending_req := Some op\<rparr>)"
    using assms by (simp add: att_ok_def att_timers_ok_def op_tids_def [of "Some op"])
  moreover have "att_writer_ok (w\<lparr>pending_req := Some op\<rparr>)"
    using assms p by (simp add: att_ok_def att_writer_ok_def has_work_def)
  ultimately show ?thesis by (simp add: att_ok_def)
qed

lemma replace_pending_ind:
  assumes "att_ok w" and "op_tids (pending_ind w) = {op_timeout_id op}" and "ind_op op"
  shows "att_ok (w\<lparr>pending_ind := Some op\<rparr>)"
proof -
  have p: "pending_ind w \<noteq> None" using assms(2) by (auto simp: op_tids_def split: option.splits)
  have "att_queues_ok (w\<lparr>pending_ind := Some op\<rparr>)" using assms by (simp add: att_ok_def att_queues_ok_def)
  moreover have "att_timers_ok (w\<lparr>pending_ind := Some op\<rparr>)"
    using assms by (simp add: att_ok_def att_timers_ok_def op_tids_def [of "Some op"])
  moreover have "att_writer_ok (w\<lparr>pending_ind := Some op\<rparr>)"
    using assms p by (simp add: att_ok_def att_writer_ok_def has_work_def)
  ultimately show ?thesis by (simp add: att_ok_def)
qed

lemma cancel_pending_ok:
  assumes "att_ok w"
  shows "att_ok (cancel_pending_req env w)" and "att_ok (cancel_pending_ind env w)"
proof -
  have c: "callback_ok w (call_destroy env d ud w)" for d ud by (rule call_destroy_ok)
  show "att_ok (cancel_pending_req env w)"
  proof (cases "pending_req w")
    case (Some op)
    then have "req_op (op\<lparr>op_user_data := None, op_callback := None, op_destroy := None\<rparr>)"
      using assms by (simp add: att_ok_def att_queues_ok_def cancelled_op)
    with Some c assms show ?thesis
      by (auto simp: cancel_pending_req_def cancel_att_send_op_def callback_ok_def op_tids_def [of "Some op"]
          intro!: replace_pending_req)
  qed (use assms in \<open>simp add: cancel_pending_req_def\<close>)
  show "att_ok (cancel_pending_ind env w)"
  proof (cases "pending_ind w")
    case (Some op)
    then have "ind_op (op\<lparr>op_user_data := None, op_callback := None, op_destroy := None\<rparr>)"
      using assms by (simp add: att_ok_def att_queues_ok_def cancelled_op)
    with Some c assms show ?thesis
      by (auto simp: cancel_pending_ind_def cancel_att_send_op_def callback_ok_def op_tids_def [of "Some op"]
          intro!: replace_pending_ind)
  qed (use assms in \<open>simp add: cancel_pending_ind_def\<close>)
qed

lemma cancel_all_ok: "att_ok w \<Longrightarrow> att_ok (bt_att_cancel_all env w)"
  using destroy_op_effect unfolding bt_att_cancel_all_def Let_def
  by (intro cancel_pending_ok fold_destroy_ok drop_queue_ok) blast+

lemma free_ok:
  assumes "att_ok w"
  shows "att_ok (bt_att_free env w) \<and> att_timers (bt_att_free env w) = []"
proof -
  define w1 where "w1 = (case pending_req w of None \<Rightarrow> w | Some op \<Rightarrow> destroy_att_send_op env op w)"
  define w2 where "w2 = (case pending_ind w1 of None \<Rightarrow> w1 | Some op \<Rightarrow> destroy_att_send_op env op w1)"
  have w1: "att_ok w1 \<and> op_tids (pending_ind w1) = op_tids (pending_ind w) \<and>
      set (att_timers w1) = set (att_timers w) - op_tids (pending_req w)"
  proof (cases "pending_req w")
    case (Some op)
    from destroy_op_effect [OF assms, of op] Some show ?thesis by (auto simp: w1_def)
  qed (use assms in \<open>simp add: w1_def\<close>)
  have w2: "att_ok w2 \<and> set (att_timers w2) = set (att_timers w1) - op_tids (pending_ind w1)"
  proof (cases "pending_ind w1")
    case (Some op)
    from destroy_op_effect [of w1 op] w1 Some show ?thesis by (auto simp: w2_def)
  qed (use w1 in \<open>simp add: w2_def\<close>)
  have "set (att_timers w) \<subseteq> op_tids (pending_req w) \<union> op_tids (pending_ind w)"
    using assms by (simp add: att_ok_def att_timers_ok_def)
  moreover have "set (att_timers w2) = set (att_timers w) - op_tids (pending_req w) - op_tids (pending_ind w)"
    using w1 w2 by simp
  ultimately have "set (att_timers w2) = {}" by auto
  then have nil: "att_timers (io_destroy_att w2) = []" by (simp add: io_destroy_att_def)
  have "att_ok (io_destroy_att w2)" using w2 io_destroy_ok by blast
  then show ?thesis
    using call_destroy_ok nil
    unfolding bt_att_free_def Let_def w1_def [symmetric] w2_def [symmetric]
    by (simp add: att_ok_irrelevant callback_ok_def)
qed

lemma unref_ok: "att_ok w \<Longrightarrow> att_ok (bt_att_unref env w)"
  using free_ok cancel_all_ok unregister_all_ok
  by (auto simp: bt_att_unref_def Let_def att_ok_irrelevant)

lemma handle_rsp_ok:
  assumes "att_ok w"
  shows "att_ok (handle_rsp env opc p w)"
proof (cases "pending_req w")
  case None
  then show ?thesis using assms by (simp add: handle_rsp_def att_shut_ok)
next
  case (Some op)
  have sec: "att_ok w' \<and> pending_req w' = pending_req w \<and> pending_ind w' = pending_ind w"
    if "change_security env e w = (b, w')" for e b w'
    using change_security_shape [of e w] that assms by (auto simp: att_ok_irrelevant)
  have tids: "op_tids (pending_req w) = {op_timeout_id op}" using Some by (simp add: op_tids_def)
  have retry: "att_ok (wakeup_writer w')" if "handle_error_rsp env p w = (True, o', w')" for o' w'
  proof -
    from that Some obtain w1 where w1: "change_security env (uint (p ! 3)) w = (True, w1)"
        "w' = (if op_timeout_id op \<noteq> 0 then timeout_remove_att (op_timeout_id op) w1 else w1)
            \<lparr>pending_req := None, req_queue := lq_push_head (op\<lparr>op_timeout_id := 0\<rparr>) (req_queue w1)\<rparr>"
      by (auto simp: handle_error_rsp_def timeout_remove_att_def Let_def split: if_splits prod.splits bool.splits)
    note s = sec [OF w1(1)]
    have "distinct (att_timers w1)" "0 \<notin> set (att_timers w1)"
        "set (att_timers w1) \<subseteq> {op_timeout_id op} \<union> op_tids (pending_ind w)"
      using s tids by (auto simp: att_ok_def att_timers_ok_def)
    then have "att_timers_ok w'"
      using s by (auto simp: w1(2) att_timers_ok_def timeout_remove_att_def remove_first_eq_distinct)
    moreover have "att_queues_ok w'" "att_io w' \<longrightarrow> writer_active w' = io_writer w'"
      using s Some by (auto simp: w1(2) att_ok_def att_queues_ok_def att_writer_ok_def timeout_remove_att_def
          lq_push_head_def req_op_def send_op_ok_def)
    ultimately show ?thesis by (intro wakeup_writer_ok)
  qed
  have fail: "att_ok w' \<and> op_tids (pending_req w') = {op_timeout_id op}" if "handle_error_rsp env p w = (False, o', w')" for o' w'
  proof -
    have "w' = w \<or> change_security env (uint (p ! 3)) w = (False, w')"
      using that Some by (auto simp: handle_error_rsp_def Let_def split: if_splits prod.splits bool.splits)
    then show ?thesis
    proof
      assume "w' = w"
      with assms tids show ?thesis by simp
    next
      assume "change_security env (uint (p ! 3)) w = (False, w')"
      from sec [OF this] tids show ?thesis by simp
    qed
  qed
  show ?thesis
  proof (cases "opc = BT_ATT_OP_ERROR_RSP")
    case False
    with Some finish_req_ok [OF assms tids] show ?thesis by (simp add: handle_rsp_def)
  next
    case True
    obtain b o' w' where h: "handle_error_rsp env p w = (b, o', w')" by (metis prod_cases3)
    show ?thesis
    proof (cases b)
      case True
      with h Some \<open>opc = BT_ATT_OP_ERROR_RSP\<close> retry show ?thesis by (simp add: handle_rsp_def)
    next
      case False
      with h fail have "att_ok w'" "op_tids (pending_req w') = {op_timeout_id op}" by simp_all
      from finish_req_ok [OF this] False h Some \<open>opc = BT_ATT_OP_ERROR_RSP\<close> show ?thesis
        by (simp add: handle_rsp_def)
    qed
  qed
qed

lemma notify_loop_ok: "callback_ok w (snd (notify_loop env opc p ns f w))"
proof (induction ns arbitrary: f w)
  case Nil
  then show ?case by (simp add: callback_ok_refl)
next
  case (Cons n ns)
  let ?w = "e_notify env (an_callback n) opc p (an_user_data n) w"
  have "callback_ok w ?w" by (rule notify_ok)
  with Cons show ?case by (auto simp: Let_def intro: callback_ok_trans)
qed

lemma att_handle_notify_ok:
  assumes "att_ok w" shows "att_ok (att_handle_notify env opc p w)"
proof -
  have loop: "att_ok w1" if "notify_loop env opc q (att_notify_list w) False (bt_att_ref w) = (f, w1)" for q f w1
    using notify_loop_ok [of "bt_att_ref w" opc q "att_notify_list w" False] assms that
    by (simp add: callback_ok_def bt_att_ref_def att_ok_irrelevant)
  moreover have "att_ok v \<Longrightarrow> att_ok (respond_not_supported env opc v)" for v
    unfolding respond_not_supported_def using bt_att_send_callback_ok unfolding callback_ok_def by blast
  ultimately show ?thesis
    using assms by (auto simp: att_handle_notify_def Let_def intro!: unref_ok split: prod.splits)
qed

lemma can_read_data_ok: "att_ok w \<Longrightarrow> att_ok (snd (can_read_data env input w))"
  by (auto simp: can_read_data_def Let_def bt_att_ref_def att_ok_irrelevant split: option.splits att_op_type.splits
      intro!: handle_rsp_ok handle_conf_ok att_handle_notify_ok unref_ok att_shut_ok)

end

context att_client
begin

lemma pick_next_cases:
  assumes "pick_next_send_op w = (Some op, w1)"
  shows "(\<exists>q. write_queue w = op # q \<and> w1 = w\<lparr>write_queue := q\<rparr>) \<or>
    (\<exists>q. pending_req w = None \<and> req_queue w = op # q \<and> w1 = w\<lparr>req_queue := q\<rparr>) \<or>
    (\<exists>q. pending_ind w = None \<and> ind_queue w = op # q \<and> w1 = w\<lparr>ind_queue := q\<rparr>)"
  using assms by (auto simp: pick_next_send_op_def lq_pop_head_def split: list.splits if_splits)

lemma pick_next_None: "pick_next_send_op w = (None, w1) \<Longrightarrow> w1 = w \<and> \<not> has_work w"
  by (auto simp: pick_next_send_op_def lq_pop_head_def has_work_def split: list.splits if_splits)

text \<open>Taking an operation keeps the queues; the writer stays installed.\<close>

lemma pick_next_ok:
  assumes "att_ok w" and "pick_next_send_op w = (Some op, w1)" and "io_writer w" and "att_io w"
  shows "att_ok w1 \<and> io_writer w1 \<and> att_io w1 \<and> writer_active w1 \<and> att_timers w1 = att_timers w \<and>
    pending_req w1 = pending_req w \<and> pending_ind w1 = pending_ind w \<and>
    (plain_op op \<or> (req_op op \<and> pending_req w = None) \<or> (ind_op op \<and> pending_ind w = None))"
proof -
  have q: "att_queues_ok w" "att_timers_ok w" "writer_active w"
    using assms by (auto simp: att_ok_def att_writer_ok_def)
  from pick_next_cases [OF assms(2)] q assms(3,4) show ?thesis
    by (elim disjE exE conjE) (simp_all add: att_ok_def att_queues_ok_def att_timers_ok_def att_writer_ok_def)
qed

text \<open>A state with the writer installed only needs its queues and timeouts checked.\<close>

lemma att_ok_writing:
  "att_queues_ok w \<Longrightarrow> att_timers_ok w \<Longrightarrow> io_writer w \<Longrightarrow> writer_active w \<Longrightarrow> att_ok w"
  by (simp add: att_ok_def att_writer_ok_def)

lemma arm_req_ok:
  assumes "att_ok w" and "io_writer w" and "writer_active w" and "pending_req w = None" and "req_op op" and "tid \<notin> set (att_timers w)"
  shows "att_ok (w\<lparr>pending_req := Some (op\<lparr>op_timeout_id := tid\<rparr>), att_timers := arm tid (att_timers w)\<rparr>)"
proof -
  have "req_op (op\<lparr>op_timeout_id := tid\<rparr>)" using assms(5) by (simp add: cancelled_op)
  then show ?thesis
    using assms by (intro att_ok_writing) (auto simp: att_ok_def att_queues_ok_def att_timers_ok_def arm_def)
qed

lemma arm_ind_ok:
  assumes "att_ok w" and "io_writer w" and "writer_active w" and "pending_ind w = None" and "ind_op op" and "tid \<notin> set (att_timers w)"
  shows "att_ok (w\<lparr>pending_ind := Some (op\<lparr>op_timeout_id := tid\<rparr>), att_timers := arm tid (att_timers w)\<rparr>)"
proof -
  have "ind_op (op\<lparr>op_timeout_id := tid\<rparr>)" using assms(5) by (simp add: cancelled_op)
  then show ?thesis
    using assms by (intro att_ok_writing) (auto simp: att_ok_def att_queues_ok_def att_timers_ok_def arm_def)
qed

lemma can_write_data_ok:
  assumes "att_ok w" and "io_writer w" and "att_io w" and "tid \<notin> set (att_timers w)"
    and "can_write_data env ret tid w = (b, w')"
  shows "att_ok w' \<and> (\<not> b \<longrightarrow> w' = w \<and> \<not> has_work w)"
proof (cases "pick_next_send_op w")
  case (Pair o' w1)
  show ?thesis
  proof (cases o')
    case None
    with Pair pick_next_None [of w w1] assms show ?thesis by (simp add: can_write_data_def)
  next
    case (Some op)
    note p = pick_next_ok [OF assms(1) Pair [unfolded Some] assms(2,3)]
    show ?thesis
    proof (cases "ret < 0")
      case True
      have "w' = disc_att_send_op env op w1" "b"
        using assms(5) Pair Some True by (auto simp: can_write_data_def disc_att_send_op_def Let_def)
      with disc_op_effect [of w1 op] p show ?thesis by simp
    next
      case False
      let ?w2 = "w1\<lparr>att_sent := att_sent w1 @ [op_pdu op]\<rparr>"
      have w2: "att_ok ?w2" "att_ok (?w2\<lparr>in_req := False\<rparr>)" using p by (simp_all add: att_ok_irrelevant)
      note d = destroy_op_effect [OF w2(1), of op] destroy_op_effect [OF w2(2), of op]
      from p have "plain_op op \<or> (req_op op \<and> pending_req w1 = None) \<or> (ind_op op \<and> pending_ind w1 = None)" by simp
      then show ?thesis
      proof (elim disjE conjE)
        assume "plain_op op"
        with assms(5) Pair Some False d show ?thesis
          by (auto simp: can_write_data_def plain_op_def Let_def)
      next
        assume o: "req_op op" "pending_req w1 = None"
        have "att_ok (?w2\<lparr>pending_req := Some (op\<lparr>op_timeout_id := tid\<rparr>), att_timers := arm tid (att_timers ?w2)\<rparr>)"
          using w2(1) p o assms(4) by (intro arm_req_ok) simp_all
        with assms(5) Pair Some False o show ?thesis
          by (auto simp: can_write_data_def req_op_def Let_def)
      next
        assume o: "ind_op op" "pending_ind w1 = None"
        have "att_ok (?w2\<lparr>pending_ind := Some (op\<lparr>op_timeout_id := tid\<rparr>), att_timers := arm tid (att_timers ?w2)\<rparr>)"
          using w2(1) p o assms(4) by (intro arm_ind_ok) simp_all
        with assms(5) Pair Some False o show ?thesis
          by (auto simp: can_write_data_def ind_op_def Let_def)
      qed
    qed
  qed
qed

lemma write_event_ok:
  assumes "att_ok w" and "tid \<notin> set (att_timers w)"
  shows "att_ok (att_write_event env ret tid w)"
proof (cases "att_io w \<and> io_writer w")
  case False
  with assms show ?thesis by (auto simp: att_write_event_def)
next
  case True
  obtain b w' where c: "can_write_data env ret tid w = (b, w')" by fastforce
  from can_write_data_ok [OF assms(1) _ _ assms(2) c] True
  have r: "att_ok w'" "\<not> b \<longrightarrow> w' = w \<and> \<not> has_work w" by simp_all
  show ?thesis
  proof (cases b)
    case False
    with r have "att_ok (write_watch_destroy (w'\<lparr>io_writer := False\<rparr>))"
      by (simp add: write_watch_destroy_def att_ok_def att_queues_ok_def att_timers_ok_def att_writer_ok_def has_work_def)
    with True c False show ?thesis by (simp add: att_write_event_def)
  qed (use True c r in \<open>simp add: att_write_event_def\<close>)
qed

lemma disconnect_cb_ok:
  assumes "att_ok w"
  shows "att_ok (disconnect_cb env err w)"
proof -
  let ?w0 = "io_destroy_att w"
  define w1 where "w1 = fold (disc_att_send_op env) (req_queue ?w0) (?w0\<lparr>req_queue := []\<rparr>)"
  define w2 where "w2 = fold (disc_att_send_op env) (ind_queue w1) (w1\<lparr>ind_queue := []\<rparr>)"
  define w3 where "w3 = fold (disc_att_send_op env) (write_queue w2) (w2\<lparr>write_queue := []\<rparr>)"
  define w4 where "w4 = (case pending_req w3 of None \<Rightarrow> w3 | Some op \<Rightarrow> (disc_att_send_op env op w3)\<lparr>pending_req := None\<rparr>)"
  define w5 where "w5 = (case pending_ind w4 of None \<Rightarrow> w4 | Some op \<Rightarrow> (disc_att_send_op env op w4)\<lparr>pending_ind := None\<rparr>)"
  have fold_io: "att_ok v \<and> \<not> att_io v \<Longrightarrow> att_ok (fold (disc_att_send_op env) ops v) \<and> \<not> att_io (fold (disc_att_send_op env) ops v)"
    for ops v
    by (induction ops arbitrary: v) (use disc_op_effect in auto)
  have w1: "att_ok w1 \<and> \<not> att_io w1" unfolding w1_def
    using assms by (intro fold_io) (simp add: drop_queue_ok io_destroy_ok, simp add: io_destroy_att_def)
  have w2: "att_ok w2 \<and> \<not> att_io w2" unfolding w2_def using w1 by (intro fold_io) (simp add: drop_queue_ok)
  have w3: "att_ok w3 \<and> \<not> att_io w3" unfolding w3_def using w2 by (intro fold_io) (simp add: drop_queue_ok)
  have w4: "att_ok w4 \<and> \<not> att_io w4"
  proof (cases "pending_req w3")
    case (Some op)
    note d = disc_op_effect [of w3 op]
    have "att_queues_ok ((disc_att_send_op env op w3)\<lparr>pending_req := None\<rparr>) \<and>
        att_timers_ok ((disc_att_send_op env op w3)\<lparr>pending_req := None\<rparr>)"
      using d w3 Some by (intro clear_pending_req [where t = "op_timeout_id op"]) (auto simp: att_ok_def)
    with d w3 Some show ?thesis by (simp add: w4_def att_ok_def att_writer_ok_def)
  qed (use w3 in \<open>simp add: w4_def\<close>)
  have w5: "att_ok w5"
  proof (cases "pending_ind w4")
    case (Some op)
    note d = disc_op_effect [of w4 op]
    have "att_queues_ok ((disc_att_send_op env op w4)\<lparr>pending_ind := None\<rparr>) \<and>
        att_timers_ok ((disc_att_send_op env op w4)\<lparr>pending_ind := None\<rparr>)"
      using d w4 Some by (intro clear_pending_ind [where t = "op_timeout_id op"]) (auto simp: att_ok_def)
    with d w4 Some show ?thesis by (simp add: w5_def att_ok_def att_writer_ok_def)
  qed (use w4 in \<open>simp add: w5_def\<close>)
  have handler: "att_ok v \<Longrightarrow> att_ok (disconn_handler env err i v)" for i v
    using disconnect_ok by (auto simp: disconn_handler_def callback_ok_def split: option.splits)
  have "att_ok (bt_att_ref w5)" using w5 by (simp add: bt_att_ref_def att_ok_irrelevant)
  then have "att_ok (fold (disconn_handler env err) (map ad_id (disconn_list (bt_att_ref w5))) (bt_att_ref w5))"
    by (rule fold_destroy_ok) (rule handler)
  then show ?thesis
    unfolding disconnect_cb_def Let_def w1_def [symmetric] w2_def [symmetric] w3_def [symmetric]
      w4_def [symmetric] w5_def [symmetric]
    by (intro unref_ok unregister_all_ok)
qed

end

text \<open>The identifiers of armed timeouts are not given out again.\<close>

definition fresh_timeout :: "('f, 'u) att_input \<Rightarrow> ('f, 'u, 'z) bt_att_scheme \<Rightarrow> bool" where
  "fresh_timeout inp w = (case inp of In_Write ret tid \<Rightarrow> tid \<notin> set (att_timers w) | _ \<Rightarrow> True)"

fun fresh_timeouts ::
  "('f, 'u, ('f, 'u, 'z) bt_att_scheme) att_env \<Rightarrow> ('f, 'u) att_input list \<Rightarrow> ('f, 'u, 'z) bt_att_scheme \<Rightarrow> bool" where
  "fresh_timeouts env [] w = True"
| "fresh_timeouts env (i # is) w = (fresh_timeout i w \<and> fresh_timeouts env is (att_do env i w))"

context att_client
begin

lemma fired_core:
  assumes "att_ok w"
  shows "pending_req w = Some op \<Longrightarrow> att_core_ok (timeout_remove_att (op_timeout_id op) (w\<lparr>pending_req := None\<rparr>))"
    and "pending_ind w = Some op \<Longrightarrow> att_core_ok (timeout_remove_att (op_timeout_id op) (w\<lparr>pending_ind := None\<rparr>))"
proof -
  have d: "distinct (att_timers w)" using assms by (simp add: att_ok_def att_timers_ok_def)
  note r = remove_first_eq_distinct [OF d]
  show "pending_req w = Some op \<Longrightarrow> att_core_ok (timeout_remove_att (op_timeout_id op) (w\<lparr>pending_req := None\<rparr>))"
    and "pending_ind w = Some op \<Longrightarrow> att_core_ok (timeout_remove_att (op_timeout_id op) (w\<lparr>pending_ind := None\<rparr>))"
    using assms r
    by (auto simp: timeout_remove_att_def att_core_ok_def att_ok_def att_queues_ok_def att_timers_ok_def att_writer_ok_def)
qed

lemma shut_core: "att_core_ok w \<Longrightarrow> att_ok (io_shutdown_att w)"
  by (auto simp: io_shutdown_att_def att_core_ok_def att_ok_def att_queues_ok_def att_timers_ok_def att_writer_ok_def)

lemma timeout_tail_ok:
  assumes "att_core_ok w"
  shows "att_ok (io_shutdown_att (destroy_att_send_op env (op\<lparr>op_timeout_id := 0\<rparr>)
    (case timeout_callback w of None \<Rightarrow> w | Some f \<Rightarrow> e_timeout env f (op_id op) (op_opcode op) (timeout_data w) w)))"
proof -
  let ?w2 = "case timeout_callback w of None \<Rightarrow> w
    | Some f \<Rightarrow> e_timeout env f (op_id op) (op_opcode op) (timeout_data w) w"
  have "callback_ok w ?w2" by (simp add: callback_ok_refl timeout_ok split: option.splits)
  then have "callback_ok w (destroy_att_send_op env (op\<lparr>op_timeout_id := 0\<rparr>) ?w2)"
    using destroy_unsent_ok [of "op\<lparr>op_timeout_id := 0\<rparr>" ?w2] by (auto intro: callback_ok_trans)
  then show ?thesis using assms by (intro shut_core) (simp add: callback_ok_def)
qed

lemma timeout_cb_ok:
  assumes "att_ok w"
  shows "att_ok (att_timeout_cb env i w)"
proof (cases "has_id i (pending_req w)")
  case True
  then obtain op where "pending_req w = Some op" by (auto simp: has_id_def split: option.splits)
  with timeout_tail_ok [OF fired_core(1) [OF assms this], of op] True show ?thesis
    by (simp add: att_timeout_cb_def Let_def)
next
  case no_req: False
  show ?thesis
  proof (cases "has_id i (pending_ind w)")
    case True
    then obtain op where "pending_ind w = Some op" by (auto simp: has_id_def split: option.splits)
    with timeout_tail_ok [OF fired_core(2) [OF assms this], of op] True no_req show ?thesis
      by (simp add: att_timeout_cb_def Let_def)
  qed (use no_req assms in \<open>simp add: att_timeout_cb_def Let_def\<close>)
qed

end

context att_client
begin

lemma remove_if_subset: "lq_remove_if P xs = (r, q) \<Longrightarrow> set q \<subseteq> set xs"
  using set_remove_first [of P xs] by (auto simp: lq_remove_if_def split: option.splits)

lemma att_ok_fewer:
  assumes "att_ok w"
  shows "set q \<subseteq> set (req_queue w) \<Longrightarrow> att_ok (w\<lparr>req_queue := q\<rparr>)"
    and "set q \<subseteq> set (ind_queue w) \<Longrightarrow> att_ok (w\<lparr>ind_queue := q\<rparr>)"
    and "set q \<subseteq> set (write_queue w) \<Longrightarrow> att_ok (w\<lparr>write_queue := q\<rparr>)"
  using assms by (auto simp: att_ok_def att_queues_ok_def att_timers_ok_def att_writer_ok_def has_work_def)

lemmas take_queue_att_ok =
  att_ok_fewer(1) [OF _ remove_if_subset] att_ok_fewer(2) [OF _ remove_if_subset] att_ok_fewer(3) [OF _ remove_if_subset]

lemma destroy_wakeup_ok: "att_ok w \<Longrightarrow> att_ok (wakeup_writer (destroy_att_send_op env op w))"
  using destroy_op_effect [of w op] wakeup_writer_core att_ok_core by blast

lemma cancel_ok: "att_ok w \<Longrightarrow> att_ok (snd (bt_att_cancel env i w))"
  by (auto simp: bt_att_cancel_def cancel_pending_ok destroy_wakeup_ok take_queue_att_ok
      split: prod.splits option.splits)

lemma unregister_ok: "att_ok w \<Longrightarrow> att_ok (snd (bt_att_unregister env i w))"
  using call_destroy_ok unfolding callback_ok_def
  by (auto simp: bt_att_unregister_def destroy_att_notify_def att_ok_irrelevant split: prod.splits option.splits)

lemma unregister_disconnect_ok: "att_ok w \<Longrightarrow> att_ok (snd (bt_att_unregister_disconnect env i w))"
  using call_destroy_ok unfolding callback_ok_def
  by (auto simp: bt_att_unregister_disconnect_def destroy_att_disconn_def att_ok_irrelevant
      split: prod.splits option.splits)

lemma att_ok_registers:
  "att_ok w \<Longrightarrow> att_ok (snd (bt_att_register opc cb ud d w))"
  "att_ok w \<Longrightarrow> att_ok (snd (bt_att_register_disconnect cb ud d w))"
  "att_ok w \<Longrightarrow> att_ok (snd (bt_att_set_mtu m w))"
  "att_ok w \<Longrightarrow> att_ok (bt_att_ref w)"
  by (auto simp: bt_att_register_def bt_att_register_disconnect_def bt_att_set_mtu_def bt_att_ref_def Let_def
      att_ok_def att_queues_ok_def att_timers_ok_def att_writer_ok_def has_work_def split: option.splits)

lemma do_ok: "att_ok w \<Longrightarrow> fresh_timeout i w \<Longrightarrow> att_ok (att_do env i w)"
  using callback_ok_att_ok [OF bt_att_send_callback_ok] callback_ok_att_ok [OF bt_att_send_error_rsp_callback_ok]
  by (cases i) (simp_all add: can_read_data_ok write_event_ok timeout_cb_ok disconnect_cb_ok cancel_ok cancel_all_ok
      unregister_ok unregister_disconnect_ok att_ok_registers unref_ok fresh_timeout_def)

lemma run_ok: "att_ok w \<Longrightarrow> fresh_timeouts env is w \<Longrightarrow> att_ok (fold (att_do env) is w)"
  by (induction "is" arbitrary: w) (simp_all add: do_ok)

end

section \<open>What the bearer does\<close>

lemma send_id_not_0: "(if n < 1 then 1 else n) \<noteq> (0 :: u32)"
  by (simp add: word_less_1)

text \<open>
  Claim C22. Sending: a message without signature that fits the MTU gets a
  non-zero identifier and goes, opcode first, to the end of the queue of its kind, and the writer is
  installed as soon as something can be written; one that does not fit is refused and nothing
  changes.
\<close>

theorem bt_att_send_correct:
  assumes "att_io w" and "opc AND ATT_OP_SIGNED_MASK = 0" and "get_op_type opc \<noteq> ATT_OP_TYPE_UNKNOWN"
    and "(cb = None) = (get_op_type opc \<noteq> ATT_OP_TYPE_REQ \<and> get_op_type opc \<noteq> ATT_OP_TYPE_IND)"
    and "length p = unat len" and "unat len < 65535"
    and "bt_att_send env opc (Some p) len cb ud d w = (i, w')"
  shows "(unat (att_mtu w) < length p + 1 \<longrightarrow> i = 0 \<and> w' = w) \<and>
    (length p + 1 \<le> unat (att_mtu w) \<longrightarrow> i \<noteq> 0 \<and> (\<exists>op. op_opcode op = opc \<and> op_pdu op = opc # p \<and> op_id op = i \<and>
        op_callback op = cb \<and> op_user_data op = ud \<and>
        req_queue w' = req_queue w @ (if get_op_type opc = ATT_OP_TYPE_REQ then [op] else []) \<and>
        ind_queue w' = ind_queue w @ (if get_op_type opc = ATT_OP_TYPE_IND then [op] else []) \<and>
        write_queue w' = write_queue w @ (if get_op_type opc \<in> {ATT_OP_TYPE_REQ, ATT_OP_TYPE_IND} then [] else [op])) \<and>
      (att_writer_ok w \<longrightarrow> att_writer_ok w'))"
proof (cases "length p + 1 \<le> unat (att_mtu w)")
  case False
  have "unat (1 + len) = 1 + unat len"
    using assms(6) by (subst unat_add_lem [THEN iffD1]) auto
  then have "1 + len > att_mtu w" using False assms(5) by (simp add: word_less_nat_alt)
  moreover have "len = 0 \<Longrightarrow> \<not> att_mtu w < 1 \<or> length p + 1 > unat (att_mtu w)" using assms(5) False by simp
  moreover have "p = [] \<Longrightarrow> len = 0" using assms(5) by (simp add: unat_eq_0)
  ultimately have "create_att_send_op env opc (Some p) len cb ud d w = None"
    using assms by (auto simp: create_att_send_op_def encode_pdu_def Let_def)
  then show ?thesis using assms(1,7) False by (simp add: bt_att_send_def)
next
  case True
  define k where "k = (if next_send_id w < 1 then 1 else next_send_id w)"
  define op where "op = \<lparr>op_id = k, op_timeout_id = 0, op_type = get_op_type opc, op_opcode = opc, op_pdu = opc # p,
      op_callback = cb, op_destroy = d, op_user_data = ud\<rparr>"
  have "create_att_send_op env opc (Some p) len cb ud d w = Some (op\<lparr>op_id := 0\<rparr>)"
    using create_op_plain [of opc p len w cb env ud d] assms True by (simp add: op_def)
  then have "i = k \<and> w' = wakeup_writer (enqueue_op op (w\<lparr>next_send_id := k + 1\<rparr>))"
    using assms(1,7) unfolding bt_att_send_def Let_def k_def [symmetric] by (auto simp: op_def)
  then have r: "i = k" "w' = wakeup_writer (enqueue_op op (w\<lparr>next_send_id := k + 1\<rparr>))" by simp_all
  have "att_writer_ok w'" if "att_writer_ok w"
    unfolding r by (rule wakeup_writer_writer) (use that in \<open>simp add: att_writer_ok_def att_frame\<close>)
  moreover have "req_queue w' = req_queue w @ (if get_op_type opc = ATT_OP_TYPE_REQ then [op] else []) \<and>
        ind_queue w' = ind_queue w @ (if get_op_type opc = ATT_OP_TYPE_IND then [op] else []) \<and>
        write_queue w' = write_queue w @ (if get_op_type opc \<in> {ATT_OP_TYPE_REQ, ATT_OP_TYPE_IND} then [] else [op])"
    by (simp add: r att_frame) (cases "get_op_type opc"; simp add: enqueue_op_def op_def lq_push_tail_def)
  ultimately show ?thesis
    using True r(1) send_id_not_0 [of "next_send_id w"] by (auto simp: op_def k_def)
qed

text \<open>A bearer on a socket that is not Bluetooth, with callbacks that do nothing.\<close>

definition local_socket :: sock_info where
  "local_socket = \<lparr>k_domain = Some 1, k_proto = None, k_bdaddr_type = Inl 95, k_omtu = None\<rparr>"

definition quiet_env :: "(unit, unit, (unit, unit, 'z) bt_att_scheme) att_env" where
  "quiet_env = \<lparr>e_response = \<lambda>f opc rsp ud w. w, e_notify = \<lambda>f opc p ud w. w, e_destroy = \<lambda>f ud w. w,
     e_disconnect = \<lambda>f err ud w. w, e_timeout = \<lambda>f i opc ud w. w, e_counter = \<lambda>f old ud. Some (old + 1),
     e_sign = \<lambda>key m cnt. Some (replicate 12 0), e_junk = [], e_get_security = Some 1, e_set_security = \<lambda>l. True\<rparr>"

definition sample_att :: "(unit, unit) bt_att" where
  "sample_att = bt_att_ref ((att_blank 3)\<lparr>att_mtu := 23, io_sec_level := 1\<rparr>)"

lemma bt_att_new_local: "bt_att_new local_socket False 3 True = Some sample_att"
  by code_simp

theorem bt_att_send_correct_witness:
  "\<exists>i w'. bt_att_send quiet_env BT_ATT_OP_READ_RSP (Some [1, 2]) 2 None None None sample_att = (i, w') \<and>
     i \<noteq> 0 \<and> (\<exists>op. op_pdu op = BT_ATT_OP_READ_RSP # [1, 2] \<and> write_queue w' = write_queue sample_att @ [op])"
proof -
  obtain i w' where r: "bt_att_send quiet_env BT_ATT_OP_READ_RSP (Some [1, 2]) 2 None None None sample_att = (i, w')"
    by fastforce
  have "att_io sample_att" "unat (att_mtu sample_att) = 23" by code_simp+
  moreover have "BT_ATT_OP_READ_RSP AND ATT_OP_SIGNED_MASK = 0" by code_simp
  ultimately have "i \<noteq> 0 \<and> (\<exists>op. op_pdu op = BT_ATT_OP_READ_RSP # [1, 2] \<and> write_queue w' = write_queue sample_att @ [op])"
    using bt_att_send_correct [OF _ _ _ _ _ _ r] by simp blast
  with r show ?thesis by blast
qed

lemma write_event_plain:
  assumes "att_io w" and "io_writer w" and "write_queue w = op # q" and "plain_op op" and "op_destroy op = None" and "0 \<le> ret"
  shows "att_io (att_write_event env ret tid w)" and "io_writer (att_write_event env ret tid w)"
    and "write_queue (att_write_event env ret tid w) = q" and "req_queue (att_write_event env ret tid w) = req_queue w"
    and "pending_req (att_write_event env ret tid w) = pending_req w"
    and "att_sent (att_write_event env ret tid w) = att_sent w @ [op_pdu op]"
    and "in_req (att_write_event env ret tid w) = (in_req w \<and> op_type op \<noteq> ATT_OP_TYPE_RSP)"
  using assms
  by (auto simp: att_write_event_def can_write_data_def pick_next_send_op_def lq_pop_head_def plain_op_def
      destroy_att_send_op_def call_destroy_def timeout_remove_att_def Let_def split: if_split_asm)

text \<open>
  Claim C23. While the socket accepts data, write events send the queued
  responses, commands, notifications and confirmations in the order they were queued, before any
  queued request, and with the response the bearer takes requests again.
\<close>

theorem write_queue_drains_in_order:
  assumes "att_io w" and "io_writer w" and "\<forall>op \<in> set (write_queue w). plain_op op \<and> op_destroy op = None"
    and "length evs = length (write_queue w)" and "\<forall>(ret, tid) \<in> set evs. 0 \<le> ret"
    and "w' = fold (\<lambda>(ret, tid). att_write_event env ret tid) evs w"
  shows "write_queue w' = [] \<and> att_sent w' = att_sent w @ map op_pdu (write_queue w) \<and>
    req_queue w' = req_queue w \<and> pending_req w' = pending_req w \<and>
    in_req w' = (in_req w \<and> ATT_OP_TYPE_RSP \<notin> op_type ` set (write_queue w))"
  using assms
proof (induction "write_queue w" arbitrary: w evs)
  case Nil
  then show ?case by simp
next
  case (Cons op q)
  then obtain ret tid evs' where e: "evs = (ret, tid) # evs'" "0 \<le> ret"
    by (cases evs) auto
  have op: "plain_op op" "op_destroy op = None" using Cons by (auto simp: Cons(2) [symmetric])
  note s = write_event_plain [OF Cons.prems(1,2) Cons(2) [symmetric] op e(2), where env = env and tid = tid]
  have "write_queue w' = [] \<and> att_sent w' = att_sent (att_write_event env ret tid w) @ map op_pdu q \<and>
    req_queue w' = req_queue (att_write_event env ret tid w) \<and> pending_req w' = pending_req (att_write_event env ret tid w) \<and>
    in_req w' = (in_req (att_write_event env ret tid w) \<and> ATT_OP_TYPE_RSP \<notin> op_type ` set q)"
    using Cons(1) [OF s(3) [symmetric] s(1,2), of evs'] Cons.prems(3-6) s(3) e by (auto simp: Cons(2) [symmetric])
  then show ?case using s by (auto simp: Cons(2) [symmetric])
qed

definition plain_sample :: "u8 \<Rightarrow> bytes \<Rightarrow> (unit, unit) att_send_op" where
  "plain_sample opc p = \<lparr>op_id = 1, op_timeout_id = 0, op_type = get_op_type opc, op_opcode = opc, op_pdu = opc # p,
     op_callback = None, op_destroy = None, op_user_data = None\<rparr>"

theorem write_queue_drains_in_order_witness:
  "\<exists>w'. w' = fold (\<lambda>(ret, tid). att_write_event quiet_env ret tid) [(4, 0), (6, 0)]
      (sample_att\<lparr>in_req := True, io_writer := True, writer_active := True,
        write_queue := [plain_sample BT_ATT_OP_HANDLE_VAL_NOT [7, 0, 1], plain_sample BT_ATT_OP_WRITE_RSP []]\<rparr>) \<and>
     att_sent w' = [[BT_ATT_OP_HANDLE_VAL_NOT, 7, 0, 1], [BT_ATT_OP_WRITE_RSP]] \<and> \<not> in_req w'"
proof -
  define w where "w = sample_att\<lparr>in_req := True, io_writer := True, writer_active := True,
        write_queue := [plain_sample BT_ATT_OP_HANDLE_VAL_NOT [7, 0, 1], plain_sample BT_ATT_OP_WRITE_RSP []]\<rparr>"
  have "att_io w" "io_writer w" "\<forall>op \<in> set (write_queue w). plain_op op \<and> op_destroy op = None" "att_sent w = []"
    by (simp_all add: w_def plain_sample_def plain_op_def send_op_ok_def)
       (simp_all add: sample_att_def bt_att_ref_def att_blank_def)
  from write_queue_drains_in_order [OF this(1-3), of "[(4, 0), (6, 0)]", OF _ _ refl, of quiet_env] this(4)
  show ?thesis unfolding w_def [symmetric]
    by (simp add: w_def plain_sample_def)
qed

text \<open>
  Claim C24. A request that arrives before the response to the previous one has
  been written is not handled: the socket is shut down, no handler runs and nothing is queued.
\<close>

theorem second_request_shuts_down:
  assumes "att_io w" and "in_req w" and "get_op_type opc = ATT_OP_TYPE_REQ" and "0 < att_ref_count w"
  shows "can_read_data env (Some (opc # p)) w = (False, w\<lparr>io_shut := True\<rparr>)"
  using assms
  by (simp add: can_read_data_def ATT_MIN_PDU_LEN_def bt_att_ref_def io_shutdown_att_def bt_att_unref_def)

theorem second_request_shuts_down_witness:
  "can_read_data quiet_env (Some [BT_ATT_OP_READ_REQ, 1, 0]) (sample_att\<lparr>in_req := True\<rparr>) =
     (False, sample_att\<lparr>in_req := True, io_shut := True\<rparr>)"
proof -
  have "get_op_type BT_ATT_OP_READ_REQ = ATT_OP_TYPE_REQ" by code_simp
  from second_request_shuts_down [of "sample_att\<lparr>in_req := True\<rparr>", OF _ _ this, of quiet_env "[1, 0]"]
  show ?thesis by (simp add: sample_att_def bt_att_ref_def att_blank_def)
qed

text \<open>
  Claim C26. Signed commands: with crypto available the handlers get the whole
  PDU, signature included, and nothing is verified; without crypto the signature would be
  checked, but no signature can be computed then, so the PDU is dropped.
\<close>

theorem signed_commands_not_verified:
  assumes "opc AND ATT_OP_SIGNED_MASK \<noteq> 0" and "get_op_type opc = ATT_OP_TYPE_CMD"
  shows "att_handle_notify env opc p w =
    (if att_crypto w then bt_att_unref env (snd (notify_loop env opc p (att_notify_list w) False (bt_att_ref w))) else w)"
  using assms
  by (auto simp: att_handle_notify_def Let_def handle_signed_def split: prod.splits option.splits)

theorem signed_commands_not_verified_witness:
  "att_handle_notify quiet_env BT_ATT_OP_SIGNED_WRITE_CMD [7, 0, 1] sample_att = sample_att"
proof -
  have "BT_ATT_OP_SIGNED_WRITE_CMD AND ATT_OP_SIGNED_MASK \<noteq> 0" by code_simp
  moreover have "get_op_type BT_ATT_OP_SIGNED_WRITE_CMD = ATT_OP_TYPE_CMD" by code_simp
  moreover have "\<not> att_crypto sample_att" by code_simp
  ultimately show ?thesis
    using signed_commands_not_verified [of BT_ATT_OP_SIGNED_WRITE_CMD quiet_env "[7, 0, 1]" sample_att] by simp
qed

text \<open>
  Claim C25. An error response makes the bearer retry the pending request at its
  head, with the timeout disarmed, only if security was automatic and the level below high: the code
  for the level above high cannot succeed.
\<close>

theorem error_rsp_retry:
  assumes "handle_error_rsp env p w = (True, opc, w')"
  shows "\<exists>op. pending_req w = Some op \<and> pending_req w' = None \<and>
    req_queue w' = op\<lparr>op_timeout_id := 0\<rparr> # req_queue w \<and> att_timers w' = remove_first (\<lambda>t. t = op_timeout_id op \<and> t \<noteq> 0) (att_timers w) \<and>
    io_sec_level w = BT_ATT_SECURITY_AUTO \<and> fst (bt_att_get_security env w) < BT_ATT_SECURITY_HIGH \<and>
    uint (p ! 3) \<in> {BT_ATT_ERROR_INSUFFICIENT_ENCRYPTION, BT_ATT_ERROR_AUTHENTICATION}"
proof -
  obtain op where op: "pending_req w = Some op" using assms by (auto simp: handle_error_rsp_def split: option.splits)
  obtain w1 where c: "change_security env (uint (p ! 3)) w = (True, w1)"
    and w': "w' = (if op_timeout_id op \<noteq> 0 then timeout_remove_att (op_timeout_id op) w1 else w1)
            \<lparr>pending_req := None, req_queue := lq_push_head (op\<lparr>op_timeout_id := 0\<rparr>) (req_queue w1)\<rparr>"
    using assms op by (auto simp: handle_error_rsp_def timeout_remove_att_def Let_def split: if_splits prod.splits bool.splits)
  have s: "w1 = w \<or> (\<exists>l. w1 = w\<lparr>io_sec_level := l\<rparr>)" "io_sec_level w = BT_ATT_SECURITY_AUTO"
      "fst (bt_att_get_security env w) < BT_ATT_SECURITY_HIGH"
      "uint (p ! 3) \<in> {BT_ATT_ERROR_INSUFFICIENT_ENCRYPTION, BT_ATT_ERROR_AUTHENTICATION}"
    using c by (auto simp: change_security_def bt_att_set_security_def Let_def BT_ATT_SECURITY_AUTO_def
        BT_ATT_SECURITY_MEDIUM_def BT_ATT_SECURITY_HIGH_def BT_ATT_SECURITY_FIPS_def split: if_splits)
  have "remove_first (\<lambda>t. t = 0 \<and> t \<noteq> 0) ts = ts" for ts :: "u32 list" by (simp add: remove_first_none)
  moreover have "remove_first (\<lambda>t. t = x \<and> t \<noteq> 0) ts = remove_first (\<lambda>t. t = x) ts" if "x \<noteq> 0" for ts and x :: u32
    by (rule arg_cong [where f = "\<lambda>P. remove_first P ts"]) (use that in auto)
  ultimately show ?thesis
    using s op by (auto simp: w' timeout_remove_att_def lq_push_head_def)
qed

theorem error_rsp_retry_witness:
  "\<exists>op w'. handle_error_rsp quiet_env [BT_ATT_OP_READ_REQ, 1, 0, 15]
      (sample_att\<lparr>io_on_l2cap := True, io_sec_level := 0, pending_req := Some op, att_timers := [5]\<rparr>) =
        (True, BT_ATT_OP_READ_REQ, w') \<and>
     op_pdu op = [BT_ATT_OP_READ_REQ, 1, 0] \<and> req_queue w' = [op\<lparr>op_timeout_id := 0\<rparr>] \<and> att_timers w' = []"
proof -
  define op where "op = (plain_sample BT_ATT_OP_READ_REQ [1, 0])\<lparr>op_timeout_id := 5\<rparr>"
  define w where "w = sample_att\<lparr>io_on_l2cap := True, io_sec_level := 0, pending_req := Some op, att_timers := [5]\<rparr>"
  obtain w' where r: "handle_error_rsp quiet_env [BT_ATT_OP_READ_REQ, 1, 0, 15] w = (True, BT_ATT_OP_READ_REQ, w')"
    by (auto simp: handle_error_rsp_def w_def change_security_def bt_att_get_security_def bt_att_set_security_def
        quiet_env_def Let_def BT_ATT_SECURITY_AUTO_def BT_ATT_SECURITY_MEDIUM_def BT_ATT_SECURITY_HIGH_def
        BT_ATT_ERROR_INSUFFICIENT_ENCRYPTION_def)
  have f: "pending_req w = Some op" "req_queue w = []" "att_timers w = [5]" "op_timeout_id op = 5"
    by (simp_all add: w_def op_def sample_att_def bt_att_ref_def att_blank_def)
  from error_rsp_retry [OF r] f have "req_queue w' = [op\<lparr>op_timeout_id := 0\<rparr>]" "att_timers w' = []" by auto
  moreover have "op_pdu op = [BT_ATT_OP_READ_REQ, 1, 0]" by (simp add: op_def plain_sample_def)
  ultimately show ?thesis using r unfolding w_def by blast
qed

text \<open>
  The error code on the air: a positive code below 255 is sent as it is,
  every other value, 255 included, becomes one of five codes; it is never 0.
\<close>

lemma att_ecode_from_error_codes:
  "att_ecode_from_error err \<noteq> 0 \<and>
   (0 < err \<and> err < 255 \<longrightarrow> uint (att_ecode_from_error err) = err) \<and>
   (\<not> (0 < err \<and> err < 255) \<longrightarrow> uint (att_ecode_from_error err) \<in> {BT_ATT_ERROR_INVALID_HANDLE,
      BT_ATT_ERROR_INSUFFICIENT_RESOURCES, BT_ERROR_ALREADY_IN_PROGRESS, BT_ERROR_OUT_OF_RANGE, BT_ATT_ERROR_UNLIKELY}) \<and>
   att_ecode_from_error BT_ERROR_OUT_OF_RANGE = word_of_int BT_ATT_ERROR_UNLIKELY"
proof -
  have "uint (word_of_int err :: u8) = err" if "0 < err" "err < 255"
    using that by (simp add: uint_word_of_int take_bit_eq_mod)
  then have "uint (att_ecode_from_error err) = err" if "0 < err" "err < 255"
    using that by (simp add: att_ecode_from_error_def)
  moreover have "uint (att_ecode_from_error err) \<in> {BT_ATT_ERROR_INVALID_HANDLE,
      BT_ATT_ERROR_INSUFFICIENT_RESOURCES, BT_ERROR_ALREADY_IN_PROGRESS, BT_ERROR_OUT_OF_RANGE, BT_ATT_ERROR_UNLIKELY}"
    if "\<not> (0 < err \<and> err < 255)"
    using that by (auto simp: att_ecode_from_error_def att_errors)
  moreover have "uint (att_ecode_from_error err) \<noteq> 0"
    by (cases "0 < err \<and> err < 255") (use calculation in \<open>auto simp: att_errors\<close>)
  moreover have "att_ecode_from_error BT_ERROR_OUT_OF_RANGE = word_of_int BT_ATT_ERROR_UNLIKELY"
    by (simp add: att_ecode_from_error_def att_errors)
  ultimately show ?thesis by (metis unsigned_0)
qed

lemma att_ecode_from_error_codes_witness:
  "att_ecode_from_error (- 2) = 1 \<and> att_ecode_from_error 19 = 19"
proof -
  have "uint (att_ecode_from_error 19) = 19" using att_ecode_from_error_codes [of 19] by simp
  then have "att_ecode_from_error 19 = 19" by (metis word_of_int_numeral word_of_int_uint)
  moreover have "att_ecode_from_error (- 2) = 1" by code_simp
  ultimately show ?thesis by simp
qed

interpretation quiet: att_client quiet_env
  by unfold_locales (simp_all add: quiet_env_def callback_ok_refl)

lemma sample_att_ok: "att_ok sample_att"
  by (simp add: sample_att_def att_ok_def att_queues_ok_def att_timers_ok_def att_writer_ok_def has_work_def
      bt_att_ref_def att_blank_def)

end
