(* ===== verification/Gatt_Server.thy ===== *)
theory Gatt_Server
  imports Att Gatt_Db
begin

text \<open>
  \<^verbatim>\<open>src/shared/gatt-server.c\<close>: the GATT server. Its state extends the bearer's record by the
  database and the fields of \<^verbatim>\<open>struct bt_gatt_server\<close>. The functions the server passes to bearer and
  database are constructors of \<open>att_cb\<close> and \<open>db_cb\<close>, their user data constructors of \<open>att_ud\<close> and
  \<open>db_ud\<close>, beside those of the server's client. The client's read and write functions are in the
  record \<open>gs_env\<close>: they may change the state and give the result they report for the identifier
  they were called with, as their last action, or \<open>None\<close> when they will report it later. Memory is
  always available; the length of a PDU is that of the byte list. Writes beyond a buffer set
  the field \<open>gs_fault\<close>.
\<close>

section \<open>Data\<close>

record async_read_op =
  ro_opcode :: u8
  ro_done :: bool
  ro_pdu :: bytes  \<comment> \<open>the first \<^verbatim>\<open>pdu_len\<close> bytes\<close>
  ro_value_len :: nat
  ro_db_data :: "attr_ptr list"

record async_write_op =
  wo_opcode :: u8

record prep_write_data =
  pw_value :: "bytes option"
  pw_handle :: u16
  pw_offset :: u16
  pw_length :: u16
  pw_reliable_supported :: bool

text \<open>The handles after the one being read stand for \<^verbatim>\<open>handles\<close>, \<^verbatim>\<open>cur_handle\<close> and \<^verbatim>\<open>num_handles\<close>.\<close>

record read_multiple_resp_data =
  rm_rest :: "u16 list"
  rm_rsp_data :: bytes  \<comment> \<open>the first \<^verbatim>\<open>length\<close> bytes\<close>
  rm_mtu :: nat

record prep_write_complete_data =
  pc_pdu :: bytes

record ('c, 'v) ind_data =
  id_callback :: "'c option"
  id_destroy :: "'c option"
  id_user_data :: "'v option"

datatype 'c att_cb =
    Exchange_Mtu_Cb | Read_By_Grp_Type_Cb | Read_By_Type_Cb | Find_Info_Cb | Find_By_Type_Val_Cb | Write_Cb
  | Read_Cb | Read_Blob_Cb | Read_Multiple_Cb | Prep_Write_Cb | Exec_Write_Cb | Conf_Cb | Destroy_Ind_Data
  | Att_Client_Cb 'c

datatype ('c, 'v) att_ud = Ud_Server | Ud_Ind "('c, 'v) ind_data" | Ud_Att_Client 'v

datatype 'c db_cb =
    Attribute_Read_Cb | Read_By_Type_Read_Complete_Cb | Read_Complete_Cb | Read_Multiple_Complete_Cb
  | Write_Complete_Cb | Prep_Write_Complete_Cb | Exec_Write_Complete_Cb | Read_Ext_Prop_Value
  | Db_Client_Cb 'c

datatype 'v db_ud =
    Ud_Iov | Ud_Read async_read_op | Ud_Mult read_multiple_resp_data | Ud_Write async_write_op
  | Ud_Prep prep_write_complete_data | Ud_Exec | Ud_Db_Client 'v

text \<open>
  The twelve identifiers of the registered handlers, in the order of registration, are a list. The
  operation behind \<^verbatim>\<open>pending_read_op\<close> travels with the read; the field says whether there is one.
\<close>

record ('c, 'v) gatt_world = "('c att_cb, ('c, 'v) att_ud) bt_att" +
  gs_db :: "('c db_cb, 'v db_ud) gatt_db"
  gs_ref_count :: int
  gs_freed :: bool
  gs_mtu :: u16
  gs_ids :: "u32 list"
  gs_min_enc_size :: u8
  prep_queue :: "prep_write_data list"
  max_prep_queue_len :: nat
  pending_read_op :: bool
  pending_write_op :: bool
  gs_debug_callback :: "'c option"
  gs_debug_destroy :: "'c option"
  gs_debug_data :: "'v option"
  gs_fault :: bool

text \<open>
  The rest of the program: the bearer's environment, the client's functions, the identifiers the timer
  service gives out, and what fresh memory holds.
\<close>

record ('c, 'v, 'w) gs_env =
  ge_att :: "('c att_cb, ('c, 'v) att_ud, 'w) att_env"
  ge_read :: "'c \<Rightarrow> attr_ptr \<Rightarrow> u32 \<Rightarrow> u16 \<Rightarrow> u8 \<Rightarrow> 'v db_ud option \<Rightarrow> 'w \<Rightarrow> (int \<times> bytes option) option \<times> 'w"
  ge_write :: "'c \<Rightarrow> attr_ptr \<Rightarrow> u32 \<Rightarrow> u16 \<Rightarrow> bytes option \<Rightarrow> u8 \<Rightarrow> 'v db_ud option \<Rightarrow> 'w \<Rightarrow> int option \<times> 'w"
  ge_conf :: "'c \<Rightarrow> 'v option \<Rightarrow> 'w \<Rightarrow> 'w"
  ge_destroy :: "'c \<Rightarrow> 'v option \<Rightarrow> 'w \<Rightarrow> 'w"
  ge_tid :: "'w \<Rightarrow> u32"
  ge_junk :: "'w \<Rightarrow> nat \<Rightarrow> u8"

type_synonym ('c, 'v, 'z) gs_env_of = "('c, 'v, ('c, 'v, 'z) gatt_world_scheme) gs_env"

definition DEFAULT_MAX_PREP_QUEUE_LEN :: nat where "DEFAULT_MAX_PREP_QUEUE_LEN = 30"

section \<open>Using the bearer and the database\<close>

text \<open>\<^verbatim>\<open>bt_att_send\<close> of a response or a notification.\<close>

definition gs_send ::
  "('c, 'v, 'z) gs_env_of \<Rightarrow> u8 \<Rightarrow> bytes option \<Rightarrow> ('c, 'v, 'z) gatt_world_scheme \<Rightarrow> ('c, 'v, 'z) gatt_world_scheme" where
  "gs_send k opc pdu w = snd (bt_att_send (ge_att k) opc pdu
     (case pdu of None \<Rightarrow> 0 | Some p \<Rightarrow> of_nat (length p)) None None None w)"

definition gs_error ::
  "('c, 'v, 'z) gs_env_of \<Rightarrow> u8 \<Rightarrow> u16 \<Rightarrow> int \<Rightarrow> ('c, 'v, 'z) gatt_world_scheme \<Rightarrow> ('c, 'v, 'z) gatt_world_scheme" where
  "gs_error k opc h err w = snd (bt_att_send_error_rsp (ge_att k) opc h err w)"

definition db_client :: "'c db_cb \<Rightarrow> 'c option" where
  "db_client f = (case f of Db_Client_Cb c \<Rightarrow> Some c | _ \<Rightarrow> None)"

text \<open>
  What the database calls during a read or write: the completion function, whose arguments are the
  result, or the client's function, which reports its result to the database.
\<close>

definition run_read_event ::
  "('c, 'v, 'z) gs_env_of \<Rightarrow> ('c db_cb, 'v db_ud) db_event \<Rightarrow> ('c, 'v, 'z) gatt_world_scheme \<Rightarrow>
   (int \<times> bytes option) option \<times> ('c, 'v, 'z) gatt_world_scheme" where
  "run_read_event k ev w = (case ev of
     Call_Read_Result _ _ err value _ \<Rightarrow> (Some (err, value), w)
   | Call_Read f q i off opc cud \<Rightarrow>
       (case db_client f of None \<Rightarrow> (None, w)
        | Some c \<Rightarrow> (case ge_read k c q i off opc cud w of
            (None, w') \<Rightarrow> (None, w')
          | (Some (err, value), w') \<Rightarrow>
              (Some (err, value),
               w'\<lparr>gs_db := snd (snd (gatt_db_attribute_read_result (gs_db w') (Some q) i err value))\<rparr>)))
   | _ \<Rightarrow> (None, w))"

definition run_write_event ::
  "('c, 'v, 'z) gs_env_of \<Rightarrow> ('c db_cb, 'v db_ud) db_event \<Rightarrow> ('c, 'v, 'z) gatt_world_scheme \<Rightarrow>
   int option \<times> ('c, 'v, 'z) gatt_world_scheme" where
  "run_write_event k ev w = (case ev of
     Call_Write_Result _ _ err _ \<Rightarrow> (Some err, w)
   | Call_Write f q i off v opc cud \<Rightarrow>
       (case db_client f of None \<Rightarrow> (None, w)
        | Some c \<Rightarrow> (case ge_write k c q i off v opc cud w of
            (None, w') \<Rightarrow> (None, w')
          | (Some err, w') \<Rightarrow>
              (Some err, w'\<lparr>gs_db := snd (snd (gatt_db_attribute_write_result (gs_db w') (Some q) i err))\<rparr>)))
   | _ \<Rightarrow> (None, w))"

text \<open>
  \<^verbatim>\<open>gatt_db_attribute_read\<close> up to the call of the completion function: whether it returns true,
  and the completion's arguments unless the client deferred its result.
\<close>

definition gs_attribute_read ::
  "('c, 'v, 'z) gs_env_of \<Rightarrow> attr_ptr \<Rightarrow> u16 \<Rightarrow> u8 \<Rightarrow> 'c db_cb \<Rightarrow> 'v db_ud \<Rightarrow> ('c, 'v, 'z) gatt_world_scheme \<Rightarrow>
   bool \<times> (int \<times> bytes option) option \<times> ('c, 'v, 'z) gatt_world_scheme" where
  "gs_attribute_read k p offset opc f ud w =
     (case gatt_db_attribute_read (ge_tid k w) (gs_db w) (Some p) offset opc (Some f) ud of
        (ok, evs, db') \<Rightarrow> (case evs of
            [] \<Rightarrow> (ok, None, w\<lparr>gs_db := db'\<rparr>)
          | ev # _ \<Rightarrow> (ok, run_read_event k ev (w\<lparr>gs_db := db'\<rparr>))))"

definition gs_attribute_write ::
  "('c, 'v, 'z) gs_env_of \<Rightarrow> attr_ptr \<Rightarrow> u16 \<Rightarrow> bytes option \<Rightarrow> u8 \<Rightarrow> 'c db_cb \<Rightarrow> 'v db_ud \<Rightarrow>
   ('c, 'v, 'z) gatt_world_scheme \<Rightarrow> bool \<times> int option \<times> ('c, 'v, 'z) gatt_world_scheme" where
  "gs_attribute_write k p offset value opc f ud w =
     (case gatt_db_attribute_write (ge_junk k w) (ge_tid k w) (gs_db w) (Some p) offset value opc (Some f) ud of
        (ok, evs, db') \<Rightarrow> (case evs of
            [] \<Rightarrow> (ok, None, w\<lparr>gs_db := db'\<rparr>)
          | ev # _ \<Rightarrow> (ok, run_write_event k ev (w\<lparr>gs_db := db'\<rparr>))))"

text \<open>The bytes a completion function is given.\<close>

definition value_bytes :: "bytes option \<Rightarrow> bytes" where
  "value_bytes v = (case v of None \<Rightarrow> [] | Some b \<Rightarrow> b)"

section \<open>Permissions\<close>

definition check_min_key_size :: "u8 \<Rightarrow> u8 \<Rightarrow> bool" where
  "check_min_key_size min_size key_size =
     (if min_size = 0 \<or> key_size = 0 then True else min_size \<le> key_size)"

definition check_permissions ::
  "('c, 'v, 'z) gs_env_of \<Rightarrow> attr_ptr \<Rightarrow> u32 \<Rightarrow> ('c, 'v, 'z) gatt_world_scheme \<Rightarrow> int" where
  "check_permissions k attr msk w =
     (let perm = gatt_db_attribute_get_permissions (gs_db w) (Some attr)
      in if perm \<noteq> 0 \<and> msk AND BT_ATT_PERM_READ \<noteq> 0 \<and> perm AND BT_ATT_PERM_READ = 0
         then BT_ATT_ERROR_READ_NOT_PERMITTED
         else if perm \<noteq> 0 \<and> msk AND BT_ATT_PERM_WRITE \<noteq> 0 \<and> perm AND BT_ATT_PERM_WRITE = 0
         then BT_ATT_ERROR_WRITE_NOT_PERMITTED
         else
           (let perm' = perm AND msk
            in if perm' = 0 then 0
               else
                 (let (security, enc) = bt_att_get_security (ge_att k) w;
                      key_ok = check_min_key_size (gs_min_enc_size w) enc
                  in if security < 0 then BT_ATT_ERROR_UNLIKELY
                     else if perm' AND BT_ATT_PERM_SECURE \<noteq> 0 \<and> security < BT_ATT_SECURITY_FIPS
                     then BT_ATT_ERROR_AUTHENTICATION
                     else if perm' AND BT_ATT_PERM_SECURE \<noteq> 0 \<and> \<not> key_ok
                     then BT_ATT_ERROR_INSUFFICIENT_ENCRYPTION_KEY_SIZE
                     else if perm' AND BT_ATT_PERM_AUTHEN \<noteq> 0 \<and> security < BT_ATT_SECURITY_HIGH
                     then BT_ATT_ERROR_AUTHENTICATION
                     else if perm' AND BT_ATT_PERM_AUTHEN \<noteq> 0 \<and> \<not> key_ok
                     then BT_ATT_ERROR_INSUFFICIENT_ENCRYPTION_KEY_SIZE
                     else if perm' AND BT_ATT_PERM_ENCRYPT \<noteq> 0 \<and> security < BT_ATT_SECURITY_MEDIUM
                     then BT_ATT_ERROR_INSUFFICIENT_ENCRYPTION
                     else if perm' AND BT_ATT_PERM_ENCRYPT \<noteq> 0 \<and> \<not> key_ok
                     then BT_ATT_ERROR_INSUFFICIENT_ENCRYPTION_KEY_SIZE
                     else 0)))"

text \<open>The masks the handlers pass.\<close>

definition read_mask :: u32 where
  "read_mask = BT_ATT_PERM_READ OR BT_ATT_PERM_READ_AUTHEN OR BT_ATT_PERM_READ_ENCRYPT"

definition write_mask :: u32 where
  "write_mask = BT_ATT_PERM_WRITE OR BT_ATT_PERM_WRITE_AUTHEN OR BT_ATT_PERM_WRITE_ENCRYPT"

section \<open>Read By Group Type\<close>

definition get_uuid_le :: "bytes \<Rightarrow> bt_uuid option" where
  "get_uuid_le uuid =
     (if length uuid = 2 then Some (bt_uuid16_create (get_le16 uuid 0))
      else if length uuid = 16 then Some (bt_uuid128_create (bswap_128 uuid))
      else None)"

definition attribute_read_cb :: "(int \<times> bytes option) option \<Rightarrow> bytes" where
  "attribute_read_cb result = (case result of None \<Rightarrow> [] | Some (err, value) \<Rightarrow> value_bytes value)"

text \<open>
  The data length, the bytes before the unit, and whether the unit ends the list. \<open>pdu\<close>: the bytes encoded
  so far; its length is \<^verbatim>\<open>iter\<close>.
\<close>

definition grp_unit :: "u16 \<Rightarrow> nat \<Rightarrow> bytes \<Rightarrow> bytes \<Rightarrow> nat \<times> bytes \<times> bool" where
  "grp_unit mtu data_val_len pdu value =
     (let first = (pdu = []);
          dvl = (if first then min (min (unat mtu - 6) 251) (length value) else data_val_len);
          pdu' = (if first then [of_nat (dvl + 4)] else pdu)
      in (dvl, pdu', \<not> first \<and> length value \<noteq> dvl \<or> int (length pdu') + int dvl + 4 > uint mtu - 1))"

text \<open>\<open>None\<close>: the code returns false.\<close>

primrec encode_read_by_grp_type_rsp ::
  "('c, 'v, 'z) gs_env_of \<Rightarrow> attr_ptr list \<Rightarrow> u16 \<Rightarrow> nat \<Rightarrow> bytes \<Rightarrow> ('c, 'v, 'z) gatt_world_scheme \<Rightarrow>
   bytes option \<times> ('c, 'v, 'z) gatt_world_scheme" where
  "encode_read_by_grp_type_rsp k [] mtu data_val_len pdu w = (Some pdu, w)"
| "encode_read_by_grp_type_rsp k (attrib # q) mtu data_val_len pdu w =
     (case gs_attribute_read k attrib 0 BT_ATT_OP_READ_BY_GRP_TYPE_REQ Attribute_Read_Cb Ud_Iov w of
        (ok, result, w') \<Rightarrow>
          (let value = attribute_read_cb result
           in if \<not> ok \<or> value = [] then (None, w')
              else (case grp_unit mtu data_val_len pdu value of
                  (dvl, pdu', stop) \<Rightarrow>
                    if stop then (Some pdu', w')
                    else (case gatt_db_attribute_get_service_handles (gs_db w') (Some attrib) of
                        None \<Rightarrow> (None, w')
                      | Some (start, end_handle) \<Rightarrow>
                          encode_read_by_grp_type_rsp k q mtu dvl
                            (pdu' @ put_le16 start @ put_le16 end_handle @ take dvl value) w'))))"

definition read_by_grp_type_cb ::
  "('c, 'v, 'z) gs_env_of \<Rightarrow> u8 \<Rightarrow> bytes \<Rightarrow> ('c, 'v, 'z) gatt_world_scheme \<Rightarrow> ('c, 'v, 'z) gatt_world_scheme" where
  "read_by_grp_type_cb k opc pdu w =
     (if length pdu \<noteq> 6 \<and> length pdu \<noteq> 20 then gs_error k opc 0 BT_ATT_ERROR_INVALID_PDU w
      else (case get_uuid_le (drop 4 pdu) of None \<Rightarrow> w
        | Some type \<Rightarrow>
            (let start = get_le16 pdu 0; stop = get_le16 pdu 2
             in if start = 0 \<or> stop = 0 then gs_error k opc 0 BT_ATT_ERROR_INVALID_HANDLE w
                else if start > stop then gs_error k opc start BT_ATT_ERROR_INVALID_HANDLE w
                else if \<not> uuid_match type (bt_uuid16_create GATT_PRIM_SVC_UUID) \<and>
                        \<not> uuid_match type (bt_uuid16_create GATT_SND_SVC_UUID)
                then gs_error k opc start BT_ATT_ERROR_UNSUPPORTED_GROUP_TYPE w
                else (case gatt_db_read_by_group_type (gs_db w) start stop type of
                    [] \<Rightarrow> gs_error k opc start BT_ATT_ERROR_ATTRIBUTE_NOT_FOUND w
                  | q \<Rightarrow> (case encode_read_by_grp_type_rsp k q (bt_att_get_mtu w) 0 [] w of
                       (None, w') \<Rightarrow> gs_error k opc start BT_ATT_ERROR_UNLIKELY w'
                     | (Some rsp, w') \<Rightarrow> gs_send k BT_ATT_OP_READ_BY_GRP_TYPE_RSP (Some rsp) w')))))"

section \<open>Read By Type\<close>

definition async_read_op_destroy :: "('c, 'v, 'z) gatt_world_scheme \<Rightarrow> ('c, 'v, 'z) gatt_world_scheme" where
  "async_read_op_destroy w = (if gs_freed w then w else w\<lparr>pending_read_op := False\<rparr>)"

text \<open>
  The completion of one read up to the continuation: the request is over (\<open>None\<close>), or goes on with
  the operation, which is done when the length differs or the value does not fit.
\<close>

definition read_by_type_add_value ::
  "('c, 'v, 'z) gs_env_of \<Rightarrow> async_read_op \<Rightarrow> attr_ptr \<Rightarrow> int \<Rightarrow> bytes option \<Rightarrow>
   ('c, 'v, 'z) gatt_world_scheme \<Rightarrow> async_read_op option \<times> ('c, 'v, 'z) gatt_world_scheme" where
  "read_by_type_add_value k op attr err value w =
     (if gs_freed w then (None, async_read_op_destroy w)
      else
        (let mtu = bt_att_get_mtu w; handle = gatt_db_attribute_get_handle (gs_db w) (Some attr);
             v = value_bytes value
         in if err \<noteq> 0 then (None, async_read_op_destroy (gs_error k BT_ATT_OP_READ_BY_TYPE_REQ handle err w))
            else
              (let first = (ro_pdu op = []);
                   vlen = (if first then min (min (unat mtu - 4) 253) (length v) else ro_value_len op);
                   op1 = op\<lparr>ro_value_len := vlen, ro_pdu := (if first then [of_nat (vlen + 2)] else ro_pdu op)\<rparr>
               in if \<not> first \<and> length v \<noteq> ro_value_len op then (Some (op\<lparr>ro_done := True\<rparr>), w)
                  else if int (length (ro_pdu op1)) + int vlen + 2 > uint mtu - 1 then
                    (Some (op1\<lparr>ro_done := True\<rparr>), w)
                  else
                    (let pdu = ro_pdu op1 @ put_le16 handle @ take vlen v
                     in (Some (op1\<lparr>ro_pdu := pdu, ro_done := ro_done op1 \<or> int (length pdu) = uint mtu - 1\<rparr>), w)))))"

text \<open>The recursion goes over the attributes that remain, the field \<open>ro_db_data\<close> of the operation.\<close>

primrec process_read_by_type ::
  "('c, 'v, 'z) gs_env_of \<Rightarrow> attr_ptr list \<Rightarrow> async_read_op \<Rightarrow>
   ('c, 'v, 'z) gatt_world_scheme \<Rightarrow> ('c, 'v, 'z) gatt_world_scheme" where
  "process_read_by_type k [] op w =
     async_read_op_destroy (gs_send k BT_ATT_OP_READ_BY_TYPE_RSP (Some (ro_pdu op)) w)"
| "process_read_by_type k (attr # rest) op w =
     (if ro_done op then async_read_op_destroy (gs_send k BT_ATT_OP_READ_BY_TYPE_RSP (Some (ro_pdu op)) w)
      else
        (let op' = op\<lparr>ro_db_data := rest\<rparr>; ecode = check_permissions k attr read_mask w;
             handle = gatt_db_attribute_get_handle (gs_db w) (Some attr)
         in if ecode \<noteq> 0 then async_read_op_destroy (gs_error k BT_ATT_OP_READ_BY_TYPE_REQ handle ecode w)
            else (case gs_attribute_read k attr 0 (ro_opcode op) Read_By_Type_Read_Complete_Cb (Ud_Read op') w of
                (ok, result, w') \<Rightarrow>
                  if \<not> ok then
                    async_read_op_destroy (gs_error k BT_ATT_OP_READ_BY_TYPE_REQ handle BT_ATT_ERROR_UNLIKELY w')
                  else (case result of None \<Rightarrow> w'
                    | Some (err, value) \<Rightarrow> (case read_by_type_add_value k op' attr err value w' of
                        (None, w'') \<Rightarrow> w''
                      | (Some op'', w'') \<Rightarrow> process_read_by_type k rest op'' w'')))))"

definition read_by_type_read_complete_cb ::
  "('c, 'v, 'z) gs_env_of \<Rightarrow> async_read_op \<Rightarrow> attr_ptr \<Rightarrow> int \<Rightarrow> bytes option \<Rightarrow>
   ('c, 'v, 'z) gatt_world_scheme \<Rightarrow> ('c, 'v, 'z) gatt_world_scheme" where
  "read_by_type_read_complete_cb k op attr err value w =
     (case read_by_type_add_value k op attr err value w of
        (None, w') \<Rightarrow> w'
      | (Some op', w') \<Rightarrow> process_read_by_type k (ro_db_data op') op' w')"

definition read_by_type_cb ::
  "('c, 'v, 'z) gs_env_of \<Rightarrow> u8 \<Rightarrow> bytes \<Rightarrow> ('c, 'v, 'z) gatt_world_scheme \<Rightarrow> ('c, 'v, 'z) gatt_world_scheme" where
  "read_by_type_cb k opc pdu w =
     (if length pdu \<noteq> 6 \<and> length pdu \<noteq> 20 then gs_error k opc 0 BT_ATT_ERROR_INVALID_PDU w
      else (case get_uuid_le (drop 4 pdu) of None \<Rightarrow> w
        | Some type \<Rightarrow>
            (let start = get_le16 pdu 0; stop = get_le16 pdu 2
             in if start = 0 \<or> stop = 0 then gs_error k opc 0 BT_ATT_ERROR_INVALID_HANDLE w
                else if start > stop then gs_error k opc start BT_ATT_ERROR_INVALID_HANDLE w
                else
                  (let q = gatt_db_read_by_type (gs_db w) start stop type
                   in if q = [] then gs_error k opc start BT_ATT_ERROR_ATTRIBUTE_NOT_FOUND w
                      else if pending_read_op w then gs_error k opc start BT_ATT_ERROR_UNLIKELY w
                      else process_read_by_type k q \<lparr>ro_opcode = opc, ro_done = False, ro_pdu = [], ro_value_len = 0,
                             ro_db_data = q\<rparr> (w\<lparr>pending_read_op := True\<rparr>)))))"

section \<open>Find Information\<close>

text \<open>\<open>iter = 0\<close> on the first attribute, which fixes the UUID length.\<close>

primrec encode_find_info_rsp ::
  "('c db_cb, 'v db_ud) gatt_db \<Rightarrow> attr_ptr list \<Rightarrow> u16 \<Rightarrow> nat \<Rightarrow> bytes \<Rightarrow> bytes option" where
  "encode_find_info_rsp db [] mtu uuid_len pdu = Some pdu"
| "encode_find_info_rsp db (attr # q) mtu uuid_len pdu =
     (let handle = gatt_db_attribute_get_handle db (Some attr)
      in case gatt_db_attribute_get_type db (Some attr) of None \<Rightarrow> None
       | Some type \<Rightarrow>
           if handle = 0 then None
           else
             (let cur_uuid_len = bt_uuid_len type; first = (pdu = []);
                  ulen = (if first then (if cur_uuid_len = 2 then 2 else 16) else uuid_len);
                  pdu' = (if first then [if cur_uuid_len = 2 then 0x01 else 0x02] else pdu)
              in if first \<and> cur_uuid_len \<notin> {2, 4, 16} then None
                 else if \<not> first \<and> cur_uuid_len \<noteq> uuid_len then Some pdu'
                 else if int (length pdu') + int ulen + 2 > uint mtu - 1 then Some pdu'
                 else encode_find_info_rsp db q mtu ulen (pdu' @ put_le16 handle @ snd (bt_uuid_to_le type))))"

definition find_info_cb ::
  "('c, 'v, 'z) gs_env_of \<Rightarrow> u8 \<Rightarrow> bytes \<Rightarrow> ('c, 'v, 'z) gatt_world_scheme \<Rightarrow> ('c, 'v, 'z) gatt_world_scheme" where
  "find_info_cb k opc pdu w =
     (if length pdu \<noteq> 4 then gs_error k opc 0 BT_ATT_ERROR_INVALID_PDU w
      else
        (let start = get_le16 pdu 0; stop = get_le16 pdu 2
         in if start = 0 \<or> stop = 0 then gs_error k opc 0 BT_ATT_ERROR_INVALID_HANDLE w
            else if start > stop then gs_error k opc start BT_ATT_ERROR_INVALID_HANDLE w
            else
              (let q = gatt_db_find_information (gs_db w) start stop
               in if q = [] then gs_error k opc start BT_ATT_ERROR_ATTRIBUTE_NOT_FOUND w
                  else (case encode_find_info_rsp (gs_db w) q (bt_att_get_mtu w) 0 [] of
                      None \<Rightarrow> gs_error k opc start BT_ATT_ERROR_UNLIKELY w
                    | Some rsp \<Rightarrow> gs_send k BT_ATT_OP_FIND_INFO_RSP (Some rsp) w))))"

section \<open>Find By Type Value\<close>

record find_by_type_val_data =
  fd_pdu :: bytes  \<comment> \<open>the first \<^verbatim>\<open>len\<close> bytes\<close>
  fd_mtu :: u16
  fd_ecode :: int

definition find_by_type_val_att_cb ::
  "('c db_cb, 'v db_ud) gatt_db \<Rightarrow> attr_ptr \<Rightarrow> find_by_type_val_data \<Rightarrow> find_by_type_val_data" where
  "find_by_type_val_att_cb db attrib data =
     (if fd_ecode data \<noteq> 0 then data
      else if int (length (fd_pdu data)) + 4 > uint (fd_mtu data) - 1 then data
      else
        (let (handle, end_handle) = (case gatt_db_attribute_get_service_data db (Some attrib) of
                None \<Rightarrow> (0, 0) | Some (start, stop, _, _) \<Rightarrow> (start, stop))
         in if handle = 0 \<or> end_handle = 0 then data\<lparr>fd_ecode := BT_ATT_ERROR_UNLIKELY\<rparr>
            else data\<lparr>fd_pdu := fd_pdu data @ put_le16 handle @ put_le16 end_handle\<rparr>))"

definition find_by_type_val_cb ::
  "('c, 'v, 'z) gs_env_of \<Rightarrow> u8 \<Rightarrow> bytes \<Rightarrow> ('c, 'v, 'z) gatt_world_scheme \<Rightarrow> ('c, 'v, 'z) gatt_world_scheme" where
  "find_by_type_val_cb k opc pdu w =
     (if length pdu < 6 then gs_error k opc 0 BT_ATT_ERROR_INVALID_PDU w
      else
        (let start = get_le16 pdu 0; stop = get_le16 pdu 2; uuid16 = get_le16 pdu 4
         in if start > stop then gs_error k opc start BT_ATT_ERROR_INVALID_HANDLE w
            else
              (let attrs = fst (gatt_db_find_by_type_value 0 (gs_db w) start stop (bt_uuid16_create uuid16)
                                  (Some (drop 6 pdu)));
                   data = fold (find_by_type_val_att_cb (gs_db w)) attrs
                            \<lparr>fd_pdu = [], fd_mtu = bt_att_get_mtu w, fd_ecode = 0\<rparr>;
                   ecode = (if fd_pdu data = [] then BT_ATT_ERROR_ATTRIBUTE_NOT_FOUND else fd_ecode data)
               in if ecode \<noteq> 0 then gs_error k opc start ecode w
                  else gs_send k BT_ATT_OP_FIND_BY_TYPE_RSP (Some (fd_pdu data)) w)))"

section \<open>Write\<close>

definition async_write_op_destroy :: "('c, 'v, 'z) gatt_world_scheme \<Rightarrow> ('c, 'v, 'z) gatt_world_scheme" where
  "async_write_op_destroy w = (if gs_freed w then w else w\<lparr>pending_write_op := False\<rparr>)"

definition write_complete_cb ::
  "('c, 'v, 'z) gs_env_of \<Rightarrow> async_write_op \<Rightarrow> attr_ptr \<Rightarrow> int \<Rightarrow>
   ('c, 'v, 'z) gatt_world_scheme \<Rightarrow> ('c, 'v, 'z) gatt_world_scheme" where
  "write_complete_cb k op attr err w =
     (if gs_freed w \<or> wo_opcode op = BT_ATT_OP_WRITE_CMD then async_write_op_destroy w
      else
        (let handle = gatt_db_attribute_get_handle (gs_db w) (Some attr)
         in async_write_op_destroy
              (if err \<noteq> 0 then gs_error k (wo_opcode op) handle err w
               else gs_send k BT_ATT_OP_WRITE_RSP None w)))"

definition write_cb ::
  "('c, 'v, 'z) gs_env_of \<Rightarrow> u8 \<Rightarrow> bytes \<Rightarrow> ('c, 'v, 'z) gatt_world_scheme \<Rightarrow> ('c, 'v, 'z) gatt_world_scheme" where
  "write_cb k opc pdu w =
     (let failed = (\<lambda>handle ecode v. if opc = BT_ATT_OP_WRITE_CMD then v else gs_error k opc handle ecode v)
      in if length pdu < 2 then failed 0 BT_ATT_ERROR_INVALID_PDU w
         else
           (let handle = get_le16 pdu 0
            in case gatt_db_get_attribute (gs_db w) handle of
                 None \<Rightarrow> failed handle BT_ATT_ERROR_INVALID_HANDLE w
               | Some attr \<Rightarrow>
                   (let ecode = check_permissions k attr write_mask w
                    in if ecode \<noteq> 0 then failed handle ecode w
                       else if pending_write_op w then failed handle BT_ATT_ERROR_UNLIKELY w
                       else
                         (let op = \<lparr>wo_opcode = opc\<rparr>
                          in case gs_attribute_write k attr 0 (Some (drop 2 pdu)) opc Write_Complete_Cb (Ud_Write op)
                                    (w\<lparr>pending_write_op := True\<rparr>) of
                               (True, None, w') \<Rightarrow> w'
                             | (True, Some err, w') \<Rightarrow> write_complete_cb k op attr err w'
                             | (False, _, w') \<Rightarrow> failed handle BT_ATT_ERROR_UNLIKELY (async_write_op_destroy w')))))"

section \<open>Read and Read Blob\<close>

definition get_read_rsp_opcode :: "u8 \<Rightarrow> u8" where
  "get_read_rsp_opcode opc = (if opc = BT_ATT_OP_READ_REQ then BT_ATT_OP_READ_RSP
     else if opc = BT_ATT_OP_READ_BLOB_REQ then BT_ATT_OP_READ_BLOB_RSP else 0)"

definition read_complete_cb ::
  "('c, 'v, 'z) gs_env_of \<Rightarrow> async_read_op \<Rightarrow> attr_ptr \<Rightarrow> int \<Rightarrow> bytes option \<Rightarrow>
   ('c, 'v, 'z) gatt_world_scheme \<Rightarrow> ('c, 'v, 'z) gatt_world_scheme" where
  "read_complete_cb k op attr err value w =
     (if gs_freed w then async_read_op_destroy w
      else
        (let mtu = bt_att_get_mtu w; handle = gatt_db_attribute_get_handle (gs_db w) (Some attr);
             v = value_bytes value
         in if err \<noteq> 0 then async_read_op_destroy (gs_error k (ro_opcode op) handle err w)
            else async_read_op_destroy
                   (gs_send k (get_read_rsp_opcode (ro_opcode op))
                      (if v = [] then None else Some (take (min (unat mtu - 1) (length v)) v)) w)))"

definition handle_read_req ::
  "('c, 'v, 'z) gs_env_of \<Rightarrow> u8 \<Rightarrow> u16 \<Rightarrow> u16 \<Rightarrow> ('c, 'v, 'z) gatt_world_scheme \<Rightarrow> ('c, 'v, 'z) gatt_world_scheme" where
  "handle_read_req k opc handle offset w =
     (case gatt_db_get_attribute (gs_db w) handle of
        None \<Rightarrow> gs_error k opc handle BT_ATT_ERROR_INVALID_HANDLE w
      | Some attr \<Rightarrow>
          (let ecode = check_permissions k attr read_mask w
           in if ecode \<noteq> 0 then gs_error k opc handle ecode w
              else if pending_read_op w then gs_error k opc handle BT_ATT_ERROR_UNLIKELY w
              else
                (let op = \<lparr>ro_opcode = opc, ro_done = False, ro_pdu = [], ro_value_len = 0, ro_db_data = []\<rparr>
                 in case gs_attribute_read k attr offset opc Read_Complete_Cb (Ud_Read op) (w\<lparr>pending_read_op := True\<rparr>) of
                      (True, None, w') \<Rightarrow> w'
                    | (True, Some (err, value), w') \<Rightarrow> read_complete_cb k op attr err value w'
                    | (False, _, w') \<Rightarrow> gs_error k opc handle BT_ATT_ERROR_UNLIKELY (async_read_op_destroy w'))))"

definition read_cb ::
  "('c, 'v, 'z) gs_env_of \<Rightarrow> u8 \<Rightarrow> bytes \<Rightarrow> ('c, 'v, 'z) gatt_world_scheme \<Rightarrow> ('c, 'v, 'z) gatt_world_scheme" where
  "read_cb k opc pdu w =
     (if length pdu \<noteq> 2 then gs_error k opc 0 BT_ATT_ERROR_INVALID_PDU w
      else handle_read_req k opc (get_le16 pdu 0) 0 w)"

definition read_blob_cb ::
  "('c, 'v, 'z) gs_env_of \<Rightarrow> u8 \<Rightarrow> bytes \<Rightarrow> ('c, 'v, 'z) gatt_world_scheme \<Rightarrow> ('c, 'v, 'z) gatt_world_scheme" where
  "read_blob_cb k opc pdu w =
     (if length pdu \<noteq> 4 then gs_error k opc 0 BT_ATT_ERROR_INVALID_PDU w
      else handle_read_req k opc (get_le16 pdu 0) (get_le16 pdu 2) w)"

section \<open>Read Multiple\<close>

text \<open>
  The first part of the completion function: an error that ends the request, or the response
  extended by the value. The permissions are checked when the value has been read.
\<close>

definition read_multiple_append ::
  "('c, 'v, 'z) gs_env_of \<Rightarrow> bytes \<Rightarrow> nat \<Rightarrow> attr_ptr \<Rightarrow> int \<Rightarrow> bytes option \<Rightarrow>
   ('c, 'v, 'z) gatt_world_scheme \<Rightarrow> int + bytes" where
  "read_multiple_append k rsp_data mtu attr err value w =
     (let v = value_bytes value; ecode = check_permissions k attr read_mask w
      in if err \<noteq> 0 then Inl err
         else if ecode \<noteq> 0 then Inl ecode
         else Inr (rsp_data @ take (min (length v) (mtu - length rsp_data - 1)) v))"

text \<open>The recursion goes over the handles that remain.\<close>

primrec read_multiple_complete_cb ::
  "('c, 'v, 'z) gs_env_of \<Rightarrow> u16 list \<Rightarrow> bytes \<Rightarrow> nat \<Rightarrow> attr_ptr \<Rightarrow> int \<Rightarrow> bytes option \<Rightarrow>
   ('c, 'v, 'z) gatt_world_scheme \<Rightarrow> ('c, 'v, 'z) gatt_world_scheme" where
  "read_multiple_complete_cb k [] rsp_data mtu attr err value w =
     (case read_multiple_append k rsp_data mtu attr err value w of
        Inl e \<Rightarrow> gs_error k BT_ATT_OP_READ_MULT_REQ (gatt_db_attribute_get_handle (gs_db w) (Some attr)) e w
      | Inr rsp \<Rightarrow> gs_send k BT_ATT_OP_READ_MULT_RSP (Some rsp) w)"
| "read_multiple_complete_cb k (next # rest) rsp_data mtu attr err value w =
     (case read_multiple_append k rsp_data mtu attr err value w of
        Inl e \<Rightarrow> gs_error k BT_ATT_OP_READ_MULT_REQ (gatt_db_attribute_get_handle (gs_db w) (Some attr)) e w
      | Inr rsp \<Rightarrow>
          if length rsp \<ge> mtu - 1 then gs_send k BT_ATT_OP_READ_MULT_RSP (Some rsp) w
          else (case gatt_db_get_attribute (gs_db w) next of
              None \<Rightarrow> gs_error k BT_ATT_OP_READ_MULT_REQ next BT_ATT_ERROR_INVALID_HANDLE w
            | Some next_attr \<Rightarrow>
                (case gs_attribute_read k next_attr 0 BT_ATT_OP_READ_MULT_REQ Read_Multiple_Complete_Cb
                        (Ud_Mult \<lparr>rm_rest = rest, rm_rsp_data = rsp, rm_mtu = mtu\<rparr>) w of
                   (ok, result, w') \<Rightarrow>
                     if \<not> ok then gs_error k BT_ATT_OP_READ_MULT_REQ next BT_ATT_ERROR_UNLIKELY w'
                     else (case result of None \<Rightarrow> w'
                       | Some (err', value') \<Rightarrow> read_multiple_complete_cb k rest rsp mtu next_attr err' value' w'))))"

text \<open>The handles of the request; an odd byte at the end is ignored.\<close>

fun le16_list :: "bytes \<Rightarrow> u16 list" where
  "le16_list (a # b # bs) = get_le16 [a, b] 0 # le16_list bs"
| "le16_list _ = []"

definition read_multiple_cb ::
  "('c, 'v, 'z) gs_env_of \<Rightarrow> u8 \<Rightarrow> bytes \<Rightarrow> ('c, 'v, 'z) gatt_world_scheme \<Rightarrow> ('c, 'v, 'z) gatt_world_scheme" where
  "read_multiple_cb k opc pdu w =
     (if length pdu < 4 then gs_error k opc 0 BT_ATT_ERROR_INVALID_PDU w
      else (case le16_list pdu of [] \<Rightarrow> w
        | handle # rest \<Rightarrow>
            (let mtu = unat (bt_att_get_mtu w)
             in case gatt_db_get_attribute (gs_db w) handle of
                  None \<Rightarrow> gs_error k opc 0 BT_ATT_ERROR_INVALID_HANDLE w
                | Some attr \<Rightarrow>
                    (case gs_attribute_read k attr 0 opc Read_Multiple_Complete_Cb
                            (Ud_Mult \<lparr>rm_rest = rest, rm_rsp_data = [], rm_mtu = mtu\<rparr>) w of
                       (True, None, w') \<Rightarrow> w'
                     | (True, Some (err, value), w') \<Rightarrow> read_multiple_complete_cb k rest [] mtu attr err value w'
                     | (False, _, w') \<Rightarrow> gs_error k opc 0 BT_ATT_ERROR_UNLIKELY w'))))"

section \<open>Prepare Write\<close>

text \<open>
  Whether it succeeds, the entry, and whether memory was damaged. The new length is kept in 16 bits: when it
  wraps, the block becomes smaller than what is copied; when it becomes 0, \<^verbatim>\<open>realloc\<close> frees the
  block and returns \<open>NULL\<close>, and the entry keeps its pointer.
\<close>

definition append_prep_data :: "prep_write_data \<Rightarrow> bytes \<Rightarrow> bool \<times> prep_write_data \<times> bool" where
  "append_prep_data prep_data value =
     (if value = [] then (True, prep_data, False)
      else
        (let len = pw_length prep_data + of_nat (length value);
             wraps = (unat (pw_length prep_data) + length value \<ge> 65536);
             bytes' = value_bytes (pw_value prep_data) @ value
         in if len = 0 then (False, prep_data, wraps)
            else (True, prep_data\<lparr>pw_value := Some (take (unat len) bytes'), pw_length := len\<rparr>, wraps)))"

definition read_for_ext_prop ::
  "('c, 'v, 'z) gs_env_of \<Rightarrow> attr_ptr \<Rightarrow> ('c, 'v, 'z) gatt_world_scheme \<Rightarrow>
   (int \<times> bytes) option \<times> ('c, 'v, 'z) gatt_world_scheme" where
  "read_for_ext_prop k p w =
     (case gs_attribute_read k p 0 BT_ATT_OP_READ_REQ Read_Ext_Prop_Value Ud_Iov w of
        (ok, r, w') \<Rightarrow> (map_option (\<lambda>(e, v). (e, value_bytes v)) r, w'))"

definition is_reliable_write_supported ::
  "('c, 'v, 'z) gs_env_of \<Rightarrow> u16 \<Rightarrow> ('c, 'v, 'z) gatt_world_scheme \<Rightarrow> bool \<times> ('c, 'v, 'z) gatt_world_scheme" where
  "is_reliable_write_supported k handle w =
     (case gatt_db_get_attribute (gs_db w) handle of
        None \<Rightarrow> (False, w)
      | Some attr \<Rightarrow>
          (case gatt_db_attribute_get_char_data (gs_db w) (Some attr) of
             None \<Rightarrow> (False, w)
           | Some _ \<Rightarrow>
               (case get_char_extended_prop (read_for_ext_prop k) (gs_db w) (Some attr) w of
                  (ext_prop, w') \<Rightarrow> (ucast ext_prop AND BT_GATT_CHRC_EXT_PROP_RELIABLE_WRITE \<noteq> 0, w'))))"

definition prep_data_new ::
  "('c, 'v, 'z) gs_env_of \<Rightarrow> u16 \<Rightarrow> u16 \<Rightarrow> bytes \<Rightarrow> ('c, 'v, 'z) gatt_world_scheme \<Rightarrow>
   bool \<times> ('c, 'v, 'z) gatt_world_scheme" where
  "prep_data_new k handle offset value w =
     (let fresh = \<lparr>pw_value = None, pw_handle = 0, pw_offset = 0, pw_length = 0, pw_reliable_supported = False\<rparr>
      in case append_prep_data fresh value of
           (False, _, fault) \<Rightarrow> (False, w\<lparr>gs_fault := gs_fault w \<or> fault\<rparr>)
         | (True, d, fault) \<Rightarrow>
             (case is_reliable_write_supported k (handle - 1) w of
                (rel, w') \<Rightarrow> (True, w'\<lparr>gs_fault := gs_fault w' \<or> fault,
                   prep_queue := lq_push_tail (d\<lparr>pw_handle := handle, pw_offset := offset, pw_reliable_supported := rel\<rparr>)
                     (prep_queue w')\<rparr>)))"

definition continues_prep_data :: "u16 \<Rightarrow> u16 \<Rightarrow> prep_write_data \<Rightarrow> bool" where
  "continues_prep_data handle offset d \<longleftrightarrow> pw_handle d = handle \<and> uint offset = uint (pw_length d) + uint (pw_offset d)"

definition store_prep_data ::
  "('c, 'v, 'z) gs_env_of \<Rightarrow> u16 \<Rightarrow> u16 \<Rightarrow> bytes \<Rightarrow> ('c, 'v, 'z) gatt_world_scheme \<Rightarrow>
   bool \<times> ('c, 'v, 'z) gatt_world_scheme" where
  "store_prep_data k handle offset value w =
     (case lq_peek_tail (prep_queue w) of
        None \<Rightarrow> prep_data_new k handle offset value w
      | Some d \<Rightarrow>
          if continues_prep_data handle offset d then
            (case append_prep_data d value of
               (ok, d', fault) \<Rightarrow> (ok, w\<lparr>gs_fault := gs_fault w \<or> fault, prep_queue := butlast (prep_queue w) @ [d']\<rparr>))
          else prep_data_new k handle offset value w)"

text \<open>When storing fails, an error response is sent, naming the response opcode, and then the response.\<close>

definition prep_write_complete_cb ::
  "('c, 'v, 'z) gs_env_of \<Rightarrow> prep_write_complete_data \<Rightarrow> attr_ptr \<Rightarrow> int \<Rightarrow>
   ('c, 'v, 'z) gatt_world_scheme \<Rightarrow> ('c, 'v, 'z) gatt_world_scheme" where
  "prep_write_complete_cb k pwcd attr err w =
     (let pdu = pc_pdu pwcd; handle = get_le16 pdu 0
      in if err \<noteq> 0 then gs_error k BT_ATT_OP_PREP_WRITE_REQ handle err w
         else (case store_prep_data k handle (get_le16 pdu 2) (drop 4 pdu) w of
             (ok, w') \<Rightarrow>
               gs_send k BT_ATT_OP_PREP_WRITE_RSP (Some pdu)
                 (if ok then w'
                  else gs_error k BT_ATT_OP_PREP_WRITE_RSP handle BT_ATT_ERROR_INSUFFICIENT_RESOURCES w')))"

definition prep_write_cb ::
  "('c, 'v, 'z) gs_env_of \<Rightarrow> u8 \<Rightarrow> bytes \<Rightarrow> ('c, 'v, 'z) gatt_world_scheme \<Rightarrow> ('c, 'v, 'z) gatt_world_scheme" where
  "prep_write_cb k opc pdu w =
     (if length pdu < 4 then gs_error k opc 0 BT_ATT_ERROR_INVALID_PDU w
      else if length (prep_queue w) \<ge> max_prep_queue_len w then gs_error k opc 0 BT_ATT_ERROR_PREPARE_QUEUE_FULL w
      else
        (let handle = get_le16 pdu 0; offset = get_le16 pdu 2
         in case gatt_db_get_attribute (gs_db w) handle of
              None \<Rightarrow> gs_error k opc handle BT_ATT_ERROR_INVALID_HANDLE w
            | Some attr \<Rightarrow>
                (let ecode = check_permissions k attr write_mask w; pwcd = \<lparr>pc_pdu = pdu\<rparr>
                 in if ecode \<noteq> 0 then gs_error k opc handle ecode w
                    else (case gs_attribute_write k attr offset None BT_ATT_OP_PREP_WRITE_REQ Prep_Write_Complete_Cb
                              (Ud_Prep pwcd) w of
                        (True, None, w') \<Rightarrow> w'
                      | (True, Some err, w') \<Rightarrow> prep_write_complete_cb k pwcd attr err w'
                      | (False, _, w') \<Rightarrow> gs_error k opc handle BT_ATT_ERROR_UNLIKELY w'))))"

section \<open>Execute Write\<close>

definition exec_write_fail ::
  "('c, 'v, 'z) gs_env_of \<Rightarrow> u16 \<Rightarrow> int \<Rightarrow> ('c, 'v, 'z) gatt_world_scheme \<Rightarrow> ('c, 'v, 'z) gatt_world_scheme" where
  "exec_write_fail k ehandle err w = gs_error k BT_ATT_OP_EXEC_WRITE_REQ ehandle err (w\<lparr>prep_queue := []\<rparr>)"

text \<open>
  The queue is also an argument, which the recursion through the completion function goes
  over; the client has no access to it.
\<close>

primrec exec_next_prep_write ::
  "('c, 'v, 'z) gs_env_of \<Rightarrow> prep_write_data list \<Rightarrow> u16 \<Rightarrow> int \<Rightarrow>
   ('c, 'v, 'z) gatt_world_scheme \<Rightarrow> ('c, 'v, 'z) gatt_world_scheme" where
  "exec_next_prep_write k [] ehandle err w =
     (if err \<noteq> 0 then exec_write_fail k ehandle err w else gs_send k BT_ATT_OP_EXEC_WRITE_RSP None w)"
| "exec_next_prep_write k (next # q) ehandle err w =
     (if err \<noteq> 0 then exec_write_fail k ehandle err w
      else
        (case gatt_db_get_attribute (gs_db w) (pw_handle next) of
           None \<Rightarrow> exec_write_fail k ehandle BT_ATT_ERROR_UNLIKELY (w\<lparr>prep_queue := q\<rparr>)
         | Some attr \<Rightarrow>
             (case gs_attribute_write k attr (pw_offset next) (pw_value next) BT_ATT_OP_EXEC_WRITE_REQ
                     Exec_Write_Complete_Cb Ud_Exec (w\<lparr>prep_queue := q\<rparr>) of
                (ok, result, w') \<Rightarrow>
                  if \<not> ok then exec_write_fail k ehandle BT_ATT_ERROR_UNLIKELY w'
                  else (case result of None \<Rightarrow> w'
                    | Some err' \<Rightarrow>
                        exec_next_prep_write k q (gatt_db_attribute_get_handle (gs_db w') (Some attr)) err' w'))))"

definition exec_write_complete_cb ::
  "('c, 'v, 'z) gs_env_of \<Rightarrow> attr_ptr \<Rightarrow> int \<Rightarrow> ('c, 'v, 'z) gatt_world_scheme \<Rightarrow> ('c, 'v, 'z) gatt_world_scheme" where
  "exec_write_complete_cb k attr err w =
     exec_next_prep_write k (prep_queue w) (gatt_db_attribute_get_handle (gs_db w) (Some attr)) err w"

definition find_no_reliable_characteristic :: "prep_write_data \<Rightarrow> bool" where
  "find_no_reliable_characteristic d \<longleftrightarrow> \<not> pw_reliable_supported d"

definition exec_write_cb ::
  "('c, 'v, 'z) gs_env_of \<Rightarrow> u8 \<Rightarrow> bytes \<Rightarrow> ('c, 'v, 'z) gatt_world_scheme \<Rightarrow> ('c, 'v, 'z) gatt_world_scheme" where
  "exec_write_cb k opc pdu w =
     (let failed = (\<lambda>ehandle ecode v. gs_error k opc ehandle ecode (v\<lparr>prep_queue := []\<rparr>))
      in if length pdu \<noteq> 1 then failed 0 BT_ATT_ERROR_INVALID_PDU w
         else if pdu ! 0 = 0x00 then gs_send k BT_ATT_OP_EXEC_WRITE_RSP None (w\<lparr>prep_queue := []\<rparr>)
         else if pdu ! 0 \<noteq> 0x01 then failed 0 BT_ATT_ERROR_INVALID_PDU w
         else (case (if length (prep_queue w) > 1 then find find_no_reliable_characteristic (prep_queue w) else None) of
             Some d \<Rightarrow> failed (pw_handle d) BT_ATT_ERROR_REQUEST_NOT_SUPPORTED w
           | None \<Rightarrow> exec_next_prep_write k (prep_queue w) 0 0 w))"

section \<open>Exchange MTU\<close>

definition exchange_mtu_cb ::
  "('c, 'v, 'z) gs_env_of \<Rightarrow> u8 \<Rightarrow> bytes \<Rightarrow> ('c, 'v, 'z) gatt_world_scheme \<Rightarrow> ('c, 'v, 'z) gatt_world_scheme" where
  "exchange_mtu_cb k opc pdu w =
     (if length pdu \<noteq> 2 then gs_error k opc 0 BT_ATT_ERROR_INVALID_PDU w
      else
        (let client_rx_mtu = get_le16 pdu 0;
             final_mtu = max (min client_rx_mtu (gs_mtu w)) BT_ATT_DEFAULT_LE_MTU;
             w1 = gs_send k BT_ATT_OP_MTU_RSP (Some (put_le16 (gs_mtu w))) w
         in snd (bt_att_set_mtu final_mtu (w1\<lparr>gs_mtu := final_mtu\<rparr>))))"

section \<open>Notifications and indications\<close>

definition gs_value_pdu :: "u16 \<Rightarrow> bytes \<Rightarrow> ('c, 'v, 'z) gatt_world_scheme \<Rightarrow> bytes" where
  "gs_value_pdu handle value w =
     (let pdu_len = min (unat (bt_att_get_mtu w) - 1) (length value + 2)
      in put_le16 handle @ take (pdu_len - 2) value)"

definition bt_gatt_server_send_notification ::
  "('c, 'v, 'z) gs_env_of \<Rightarrow> u16 \<Rightarrow> bytes \<Rightarrow> ('c, 'v, 'z) gatt_world_scheme \<Rightarrow>
   bool \<times> ('c, 'v, 'z) gatt_world_scheme" where
  "bt_gatt_server_send_notification k handle value w =
     (let pdu = gs_value_pdu handle value w
      in case bt_att_send (ge_att k) BT_ATT_OP_HANDLE_VAL_NOT (Some pdu) (of_nat (length pdu)) None None None w of
           (i, w') \<Rightarrow> (i \<noteq> 0, w'))"

definition destroy_ind_data ::
  "('c, 'v, 'z) gs_env_of \<Rightarrow> ('c, 'v) ind_data \<Rightarrow> ('c, 'v, 'z) gatt_world_scheme \<Rightarrow> ('c, 'v, 'z) gatt_world_scheme" where
  "destroy_ind_data k data w = (case id_destroy data of None \<Rightarrow> w | Some d \<Rightarrow> ge_destroy k d (id_user_data data) w)"

definition conf_cb ::
  "('c, 'v, 'z) gs_env_of \<Rightarrow> ('c, 'v) ind_data \<Rightarrow> ('c, 'v, 'z) gatt_world_scheme \<Rightarrow> ('c, 'v, 'z) gatt_world_scheme" where
  "conf_cb k data w = (case id_callback data of None \<Rightarrow> w | Some f \<Rightarrow> ge_conf k f (id_user_data data) w)"

definition bt_gatt_server_send_indication ::
  "('c, 'v, 'z) gs_env_of \<Rightarrow> u16 \<Rightarrow> bytes \<Rightarrow> 'c option \<Rightarrow> 'v option \<Rightarrow> 'c option \<Rightarrow>
   ('c, 'v, 'z) gatt_world_scheme \<Rightarrow> bool \<times> ('c, 'v, 'z) gatt_world_scheme" where
  "bt_gatt_server_send_indication k handle value callback ud destroy w =
     (let pdu = gs_value_pdu handle value w;
          data = \<lparr>id_callback = callback, id_destroy = destroy, id_user_data = ud\<rparr>
      in case bt_att_send (ge_att k) BT_ATT_OP_HANDLE_VAL_IND (Some pdu) (of_nat (length pdu)) (Some Conf_Cb)
                (Some (Ud_Ind data)) (Some Destroy_Ind_Data) w of
           (i, w') \<Rightarrow> if i = 0 then (False, destroy_ind_data k data w') else (True, w'))"

section \<open>What bearer and database call\<close>

definition gs_notify ::
  "('c, 'v, 'z) gs_env_of \<Rightarrow> 'c att_cb \<Rightarrow> u8 \<Rightarrow> bytes \<Rightarrow> ('c, 'v) att_ud option \<Rightarrow>
   ('c, 'v, 'z) gatt_world_scheme \<Rightarrow> ('c, 'v, 'z) gatt_world_scheme" where
  "gs_notify k f opc pdu ud w = (case f of
     Exchange_Mtu_Cb \<Rightarrow> exchange_mtu_cb k opc pdu w
   | Read_By_Grp_Type_Cb \<Rightarrow> read_by_grp_type_cb k opc pdu w
   | Read_By_Type_Cb \<Rightarrow> read_by_type_cb k opc pdu w
   | Find_Info_Cb \<Rightarrow> find_info_cb k opc pdu w
   | Find_By_Type_Val_Cb \<Rightarrow> find_by_type_val_cb k opc pdu w
   | Write_Cb \<Rightarrow> write_cb k opc pdu w
   | Read_Cb \<Rightarrow> read_cb k opc pdu w
   | Read_Blob_Cb \<Rightarrow> read_blob_cb k opc pdu w
   | Read_Multiple_Cb \<Rightarrow> read_multiple_cb k opc pdu w
   | Prep_Write_Cb \<Rightarrow> prep_write_cb k opc pdu w
   | Exec_Write_Cb \<Rightarrow> exec_write_cb k opc pdu w
   | Att_Client_Cb c \<Rightarrow> e_notify (ge_att k) f opc pdu ud w
   | _ \<Rightarrow> w)"

definition gs_response ::
  "('c, 'v, 'z) gs_env_of \<Rightarrow> 'c att_cb \<Rightarrow> u8 \<Rightarrow> bytes option \<Rightarrow> ('c, 'v) att_ud option \<Rightarrow>
   ('c, 'v, 'z) gatt_world_scheme \<Rightarrow> ('c, 'v, 'z) gatt_world_scheme" where
  "gs_response k f opc rsp ud w = (case (f, ud) of
     (Conf_Cb, Some (Ud_Ind data)) \<Rightarrow> conf_cb k data w
   | (Att_Client_Cb c, _) \<Rightarrow> e_response (ge_att k) f opc rsp ud w
   | _ \<Rightarrow> w)"

definition gs_destroy ::
  "('c, 'v, 'z) gs_env_of \<Rightarrow> 'c att_cb \<Rightarrow> ('c, 'v) att_ud option \<Rightarrow>
   ('c, 'v, 'z) gatt_world_scheme \<Rightarrow> ('c, 'v, 'z) gatt_world_scheme" where
  "gs_destroy k f ud w = (case (f, ud) of
     (Destroy_Ind_Data, Some (Ud_Ind data)) \<Rightarrow> destroy_ind_data k data w
   | (Att_Client_Cb c, _) \<Rightarrow> e_destroy (ge_att k) f ud w
   | _ \<Rightarrow> w)"

definition gs_att_env ::
  "('c, 'v, 'z) gs_env_of \<Rightarrow> ('c att_cb, ('c, 'v) att_ud, ('c, 'v, 'z) gatt_world_scheme) att_env" where
  "gs_att_env k = (ge_att k)\<lparr>e_response := gs_response k, e_notify := gs_notify k, e_destroy := gs_destroy k\<rparr>"

text \<open>The completion of a read or write whose result came later, or of one that was cancelled or timed out.\<close>

definition gs_db_event ::
  "('c, 'v, 'z) gs_env_of \<Rightarrow> ('c db_cb, 'v db_ud) db_event \<Rightarrow>
   ('c, 'v, 'z) gatt_world_scheme \<Rightarrow> ('c, 'v, 'z) gatt_world_scheme" where
  "gs_db_event k ev w = (case ev of
     Call_Read_Result Read_By_Type_Read_Complete_Cb p err v (Ud_Read op) \<Rightarrow> read_by_type_read_complete_cb k op p err v w
   | Call_Read_Result Read_Complete_Cb p err v (Ud_Read op) \<Rightarrow> read_complete_cb k op p err v w
   | Call_Read_Result Read_Multiple_Complete_Cb p err v (Ud_Mult d) \<Rightarrow>
       read_multiple_complete_cb k (rm_rest d) (rm_rsp_data d) (rm_mtu d) p err v w
   | Call_Write_Result Write_Complete_Cb p err (Ud_Write op) \<Rightarrow> write_complete_cb k op p err w
   | Call_Write_Result Prep_Write_Complete_Cb p err (Ud_Prep d) \<Rightarrow> prep_write_complete_cb k d p err w
   | Call_Write_Result Exec_Write_Complete_Cb p err Ud_Exec \<Rightarrow> exec_write_complete_cb k p err w
   | _ \<Rightarrow> w)"

definition gs_late_read_result ::
  "('c, 'v, 'z) gs_env_of \<Rightarrow> attr_ptr \<Rightarrow> u32 \<Rightarrow> int \<Rightarrow> bytes option \<Rightarrow>
   ('c, 'v, 'z) gatt_world_scheme \<Rightarrow> bool \<times> ('c, 'v, 'z) gatt_world_scheme" where
  "gs_late_read_result k p i err value w =
     (case gatt_db_attribute_read_result (gs_db w) (Some p) i err value of
        (ok, evs, db') \<Rightarrow> (ok, fold (gs_db_event k) evs (w\<lparr>gs_db := db'\<rparr>)))"

definition gs_late_write_result ::
  "('c, 'v, 'z) gs_env_of \<Rightarrow> attr_ptr \<Rightarrow> u32 \<Rightarrow> int \<Rightarrow>
   ('c, 'v, 'z) gatt_world_scheme \<Rightarrow> bool \<times> ('c, 'v, 'z) gatt_world_scheme" where
  "gs_late_write_result k p i err w =
     (case gatt_db_attribute_write_result (gs_db w) (Some p) i err of
        (ok, evs, db') \<Rightarrow> (ok, fold (gs_db_event k) evs (w\<lparr>gs_db := db'\<rparr>)))"

section \<open>Creation and references\<close>

definition gs_handler_table :: "(u8 \<times> 'c att_cb) list" where
  "gs_handler_table = [
     (BT_ATT_OP_MTU_REQ, Exchange_Mtu_Cb), (BT_ATT_OP_READ_BY_GRP_TYPE_REQ, Read_By_Grp_Type_Cb),
     (BT_ATT_OP_READ_BY_TYPE_REQ, Read_By_Type_Cb), (BT_ATT_OP_FIND_INFO_REQ, Find_Info_Cb),
     (BT_ATT_OP_FIND_BY_TYPE_REQ, Find_By_Type_Val_Cb), (BT_ATT_OP_WRITE_REQ, Write_Cb),
     (BT_ATT_OP_WRITE_CMD, Write_Cb), (BT_ATT_OP_READ_REQ, Read_Cb), (BT_ATT_OP_READ_BLOB_REQ, Read_Blob_Cb),
     (BT_ATT_OP_READ_MULT_REQ, Read_Multiple_Cb), (BT_ATT_OP_PREP_WRITE_REQ, Prep_Write_Cb),
     (BT_ATT_OP_EXEC_WRITE_REQ, Exec_Write_Cb)]"

fun register_from ::
  "(u8 \<times> 'c att_cb) list \<Rightarrow> ('c, 'v, 'z) gatt_world_scheme \<Rightarrow> bool \<times> ('c, 'v, 'z) gatt_world_scheme" where
  "register_from [] w = (True, w)"
| "register_from ((opc, f) # hs) w =
     (case bt_att_register opc (Some f) (Some Ud_Server) None w of
        (i, w') \<Rightarrow> if i = 0 then (False, w') else register_from hs (w'\<lparr>gs_ids := gs_ids w' @ [i]\<rparr>))"

definition gatt_server_register_att_handlers ::
  "('c, 'v, 'z) gatt_world_scheme \<Rightarrow> bool \<times> ('c, 'v, 'z) gatt_world_scheme" where
  "gatt_server_register_att_handlers w = register_from gs_handler_table w"

definition gs_db_unref ::
  "('c, 'v, 'z) gs_env_of \<Rightarrow> ('c, 'v, 'z) gatt_world_scheme \<Rightarrow> ('c, 'v, 'z) gatt_world_scheme" where
  "gs_db_unref k w =
     (case gatt_db_unref (gs_db w) of
        (_, Some db') \<Rightarrow> w\<lparr>gs_db := db'\<rparr>
      | (evs, None) \<Rightarrow> fold (gs_db_event k) evs (w\<lparr>gs_db := (gs_db w)\<lparr>db_ref_count := 0\<rparr>\<rparr>))"

definition bt_gatt_server_free ::
  "('c, 'v, 'z) gs_env_of \<Rightarrow> ('c, 'v, 'z) gatt_world_scheme \<Rightarrow> ('c, 'v, 'z) gatt_world_scheme" where
  "bt_gatt_server_free k w =
     (let w1 = (case gs_debug_destroy w of None \<Rightarrow> w | Some d \<Rightarrow> ge_destroy k d (gs_debug_data w) w);
          w2 = fold (\<lambda>i v. snd (bt_att_unregister (gs_att_env k) i v)) (gs_ids w1) w1;
          w3 = w2\<lparr>prep_queue := [], gs_freed := True\<rparr>
      in bt_att_unref (gs_att_env k) (gs_db_unref k w3))"

definition bt_gatt_server_ref :: "('c, 'v, 'z) gatt_world_scheme \<Rightarrow> ('c, 'v, 'z) gatt_world_scheme" where
  "bt_gatt_server_ref w = w\<lparr>gs_ref_count := gs_ref_count w + 1\<rparr>"

definition bt_gatt_server_unref ::
  "('c, 'v, 'z) gs_env_of \<Rightarrow> ('c, 'v, 'z) gatt_world_scheme \<Rightarrow> ('c, 'v, 'z) gatt_world_scheme" where
  "bt_gatt_server_unref k w =
     (let w1 = w\<lparr>gs_ref_count := gs_ref_count w - 1\<rparr>
      in if gs_ref_count w1 \<noteq> 0 then w1 else bt_gatt_server_free k w1)"

definition bt_gatt_server_new ::
  "('c, 'v, 'z) gs_env_of \<Rightarrow> u16 \<Rightarrow> u8 \<Rightarrow> ('c, 'v, 'z) gatt_world_scheme \<Rightarrow> bool \<times> ('c, 'v, 'z) gatt_world_scheme" where
  "bt_gatt_server_new k mtu min_enc w =
     (let w1 = (bt_att_ref w)\<lparr>gs_db := gatt_db_ref (gs_db w), gs_ref_count := 0, gs_freed := False,
                  gs_mtu := max mtu BT_ATT_DEFAULT_LE_MTU, gs_ids := [], gs_min_enc_size := min_enc,
                  prep_queue := [], max_prep_queue_len := DEFAULT_MAX_PREP_QUEUE_LEN,
                  pending_read_op := False, pending_write_op := False,
                  gs_debug_callback := None, gs_debug_destroy := None, gs_debug_data := None\<rparr>
      in case gatt_server_register_att_handlers w1 of
           (False, w2) \<Rightarrow> (False, bt_gatt_server_free k w2)
         | (True, w2) \<Rightarrow> (True, bt_gatt_server_ref w2))"

definition bt_gatt_server_get_mtu :: "('c, 'v, 'z) gatt_world_scheme \<Rightarrow> u16" where
  "bt_gatt_server_get_mtu w = bt_att_get_mtu w"

definition bt_gatt_server_set_debug ::
  "('c, 'v, 'z) gs_env_of \<Rightarrow> 'c option \<Rightarrow> 'v option \<Rightarrow> 'c option \<Rightarrow>
   ('c, 'v, 'z) gatt_world_scheme \<Rightarrow> bool \<times> ('c, 'v, 'z) gatt_world_scheme" where
  "bt_gatt_server_set_debug k callback ud destroy w =
     (True, (case gs_debug_destroy w of None \<Rightarrow> w | Some d \<Rightarrow> ge_destroy k d (gs_debug_data w) w)
        \<lparr>gs_debug_callback := callback, gs_debug_destroy := destroy, gs_debug_data := ud\<rparr>)"

end
