(* ===== verification/Commands.thy ===== *)
theory Commands
  imports Gatt_Server
begin

text \<open>
  \<^verbatim>\<open>src/commands.c\<close> and \<^verbatim>\<open>src/messages.h\<close>: the messages of the clock, the clock's status as the
  server knows it, and the command handler. \<^verbatim>\<open>struct server\<close> and the global variables extend the
  state of the GATT server. Messages are byte lists in the layout of the packed structures on a
  little-endian machine. The time functions of the C library are answers in a record of type
  \<open>clk_kernel\<close>, constant during one event.
\<close>

section \<open>Functions and state\<close>

text \<open>The functions of \<^verbatim>\<open>server.c\<close> that are passed to bearer and database; their user data is the server.\<close>

datatype clk_fn =
    Gatt_Service_Changed_Cb | Gatt_Svc_Chngd_Ccc_Read_Cb | Gatt_Svc_Chngd_Ccc_Write_Cb
  | Clock_Read_Data_Ccc_Read_Cb | Clock_Read_Data_Ccc_Write_Cb | Clock_Write_Data_Write_Cb
  | Confirm_Write | Att_Disconnect_Cb

type_synonym clk_db = "(clk_fn db_cb, unit db_ud) gatt_db"

record server = "(clk_fn, unit) gatt_world" +
  s_fd :: int
  s_device_name :: bytes
  s_name_len :: nat
  gatt_svc_chngd_handle :: u16
  svc_chngd_enabled :: bool
  clock_read_data_handle :: u16
  clock_write_data_handle :: u16
  clock_read_data_notify :: bool
  gLastPollTime :: int
  gPollInterval :: u16
  gDelta :: u64
  gVbat :: u16
  gMatch :: u16
  gPollCount :: u16
  gTimeouts :: u16
  gFaceTime :: u64
  lastActivity :: int
  exited :: bool  \<comment> \<open>\<^verbatim>\<open>exit\<close> was called: nothing later takes place\<close>
  quitting :: bool  \<comment> \<open>\<^verbatim>\<open>mainloop_quit\<close> was called\<close>

record clk_kernel =
  ck_time :: int  \<comment> \<open>\<^verbatim>\<open>time(NULL)\<close>\<close>
  ck_gmtoff :: int  \<comment> \<open>of the local time now\<close>
  ck_tv_sec :: int
  ck_tv_nsec :: int
  ck_mktime :: "u32 \<Rightarrow> u32 \<Rightarrow> u32 \<Rightarrow> int \<times> int"  \<comment> \<open>today at that time: the result and \<^verbatim>\<open>tm_gmtoff\<close>\<close>
  ck_stack :: bytes  \<comment> \<open>what an uninitialised \<^verbatim>\<open>msg_t\<close> holds\<close>
  ck_heap :: "nat \<Rightarrow> u8"
  ck_tid :: u32
  ck_security :: "int option"
  ck_set_security :: "int \<Rightarrow> bool"

text \<open>The environment the operations of the layers below take; the server registers no request of its own.\<close>

definition clk_att_base :: "clk_kernel \<Rightarrow> (clk_fn att_cb, (clk_fn, unit) att_ud, server) att_env" where
  "clk_att_base K = \<lparr>e_response = \<lambda>f opc rsp ud w. w, e_notify = \<lambda>f opc p ud w. w, e_destroy = \<lambda>f ud w. w,
     e_disconnect = (\<lambda>f err ud w. case f of Att_Client_Cb Att_Disconnect_Cb \<Rightarrow> w\<lparr>quitting := True\<rparr> | _ \<Rightarrow> w),
     e_timeout = \<lambda>f i opc ud w. w, e_counter = \<lambda>f old ud. None, e_sign = \<lambda>key m cnt. None, e_junk = [],
     e_get_security = ck_security K, e_set_security = ck_set_security K\<rparr>"

section \<open>Messages\<close>

definition CLK_REQ_FACE_TIME :: u8 where "CLK_REQ_FACE_TIME = 1"
definition CLK_REQ_TIME :: u8 where "CLK_REQ_TIME = 2"
definition CLK_ACCEPT_STATUS :: u8 where "CLK_ACCEPT_STATUS = 3"
definition SRVR_ACCEPT_FACE_TIME :: u8 where "SRVR_ACCEPT_FACE_TIME = 1"
definition SRVR_ACCEPT_TIME :: u8 where "SRVR_ACCEPT_TIME = 2"
definition SRVR_ACCEPT_DONE :: u8 where "SRVR_ACCEPT_DONE = 3"

lemmas clk_codes = CLK_REQ_FACE_TIME_def CLK_REQ_TIME_def CLK_ACCEPT_STATUS_def
  SRVR_ACCEPT_FACE_TIME_def SRVR_ACCEPT_TIME_def SRVR_ACCEPT_DONE_def

text \<open>\<^verbatim>\<open>sizeof(msg_t)\<close>: the largest member is the status, 14 bytes.\<close>

definition sizeof_msg :: nat where "sizeof_msg = 14"

record msg_sts =
  sts_cmd :: u8
  sts_timeouts :: u8
  sts_battery :: u16  \<comment> \<open>12 bits\<close>
  sts_interval :: u16  \<comment> \<open>4 bits\<close>
  sts_match :: u16
  sts_offset :: u64

definition msg_sts_of :: "bytes \<Rightarrow> msg_sts" where
  "msg_sts_of m = \<lparr>sts_cmd = m ! 0, sts_timeouts = m ! 1, sts_battery = get_le16 m 2 AND 0x0FFF,
     sts_interval = drop_bit 12 (get_le16 m 2), sts_match = get_le16 m 4, sts_offset = get_le64 m 6\<rparr>"

text \<open>What the clock sends for a status.\<close>

definition msg_sts_bytes :: "msg_sts \<Rightarrow> bytes" where
  "msg_sts_bytes s = [sts_cmd s, sts_timeouts s] @
     put_le16 ((sts_battery s AND 0x0FFF) OR push_bit 12 (sts_interval s)) @ put_le16 (sts_match s) @ put_le64 (sts_offset s)"

definition msg_u64_bytes :: "u8 \<Rightarrow> u64 \<Rightarrow> bytes" where
  "msg_u64_bytes cmd data = cmd # put_le64 data"

section \<open>Time\<close>

text \<open>Local time in 1/256 seconds.\<close>

definition get_time :: "clk_kernel \<Rightarrow> u64" where
  "get_time K = push_bit 8 (word_of_int (ck_tv_sec K)) +
     (push_bit 8 (word_of_int (ck_tv_nsec K)) div 1000000000) + word_of_int (ck_gmtoff K * 256)"

text \<open>
  \<^verbatim>\<open>sscanf\<close> with \<^verbatim>\<open>%u\<close>: white space, an optional sign, at least one digit; the value is that of \<^verbatim>\<open>strtoul\<close>
  with 64 bits, stored in 32. The rest of the string follows.
\<close>

definition is_space :: "char \<Rightarrow> bool" where
  "is_space c \<longleftrightarrow> c \<in> set [CHR '' '', CHR 0x09, CHR 0x0A, CHR 0x0B, CHR 0x0C, CHR 0x0D]"

definition digit_val :: "char \<Rightarrow> int" where
  "digit_val c = of_char c - 48"

definition is_dec :: "char \<Rightarrow> bool" where
  "is_dec c \<longleftrightarrow> 0 \<le> digit_val c \<and> digit_val c \<le> 9"

definition dec_val :: "string \<Rightarrow> int" where
  "dec_val ds = foldl (\<lambda>n c. n * 10 + digit_val c) 0 ds"

definition strtoul :: "bool \<Rightarrow> int \<Rightarrow> u32" where
  "strtoul neg n = (if n \<ge> 2 ^ 64 then word_of_int (2 ^ 64 - 1) else word_of_int (if neg then - n else n))"

definition scan_u :: "string \<Rightarrow> (u32 \<times> string) option" where
  "scan_u s =
     (let s1 = dropWhile is_space s;
          neg = (case s1 of c # _ \<Rightarrow> c = CHR ''-'' | [] \<Rightarrow> False);
          s2 = (case s1 of c # r \<Rightarrow> if c = CHR ''-'' \<or> c = CHR ''+'' then r else s1 | [] \<Rightarrow> []);
          ds = takeWhile is_dec s2
      in if ds = [] then None else Some (strtoul neg (dec_val ds), dropWhile is_dec s2))"

definition scan_colon :: "string \<Rightarrow> string option" where
  "scan_colon s = (case s of c # r \<Rightarrow> if c = CHR '':'' then Some r else None | [] \<Rightarrow> None)"

text \<open>\<^verbatim>\<open>sscanf(ts, "%u:%u:%u", \<dots>) == 3\<close>.\<close>

definition scan_hms :: "string \<Rightarrow> (u32 \<times> u32 \<times> u32) option" where
  "scan_hms ts =
     (case scan_u ts of None \<Rightarrow> None | Some (h, r1) \<Rightarrow>
       (case Option.bind (scan_colon r1) scan_u of None \<Rightarrow> None | Some (m, r2) \<Rightarrow>
         (case Option.bind (scan_colon r2) scan_u of None \<Rightarrow> None | Some (s, _) \<Rightarrow> Some (h, m, s))))"

definition get_clock_face_time :: "clk_kernel \<Rightarrow> string \<Rightarrow> u64 option" where
  "get_clock_face_time K ts =
     (case scan_hms ts of None \<Rightarrow> None
      | Some (h, m, s) \<Rightarrow>
          if h > 23 then None else if m > 59 then None else if s > 59 then None
          else (case ck_mktime K h m s of (t, gmtoff) \<Rightarrow> Some (push_bit 8 (word_of_int t) + word_of_int (gmtoff * 256))))"

section \<open>Commands\<close>

text \<open>The base environment is enough to send a notification.\<close>

definition clk_send_env :: "clk_kernel \<Rightarrow> (clk_fn, unit, server) gs_env" where
  "clk_send_env K = \<lparr>ge_att = clk_att_base K, ge_read = \<lambda>c p i off opc ud w. (None, w),
     ge_write = \<lambda>c p i off v opc ud w. (None, w), ge_conf = \<lambda>c ud w. w, ge_destroy = \<lambda>c ud w. w,
     ge_tid = \<lambda>w. ck_tid K, ge_junk = \<lambda>w. ck_heap K\<rparr>"

definition clock_read_data_cb :: "clk_kernel \<Rightarrow> bytes \<Rightarrow> server \<Rightarrow> server" where
  "clock_read_data_cb K buffer w =
     snd (bt_gatt_server_send_notification (clk_send_env K) (clock_read_data_handle w) buffer w)"

text \<open>\<open>cmd\<close> is not empty in the only call. What a short command leaves of the message is uninitialised.\<close>

definition clock_command :: "clk_kernel \<Rightarrow> bytes \<Rightarrow> server \<Rightarrow> server" where
  "clock_command K cmd w =
     (let len = min (length cmd) sizeof_msg;
          m = take len cmd @ drop len (ck_stack K);
          sts = msg_sts_of m
      in if m ! 0 = CLK_REQ_FACE_TIME then
           (if gFaceTime w \<noteq> 0 then
              (clock_read_data_cb K (msg_u64_bytes SRVR_ACCEPT_FACE_TIME (gFaceTime w)) w)\<lparr>lastActivity := ck_time K\<rparr>
            else w\<lparr>exited := True\<rparr>)
         else if m ! 0 = CLK_REQ_TIME then clock_read_data_cb K (msg_u64_bytes SRVR_ACCEPT_TIME (get_time K)) w
         else if m ! 0 = CLK_ACCEPT_STATUS then
           (let w1 = w\<lparr>gPollInterval := push_bit (unat (sts_interval sts)) 1, gDelta := sts_offset sts,
                       gVbat := sts_battery sts, gMatch := sts_match sts, gLastPollTime := ck_time K,
                       gPollCount := gPollCount w + 1, gTimeouts := ucast (sts_timeouts sts)\<rparr>;
                w2 = clock_read_data_cb K [SRVR_ACCEPT_DONE] w1;
                w3 = w2\<lparr>lastActivity := gLastPollTime w2\<rparr>
            in if gFaceTime w3 \<noteq> 0 then w3\<lparr>gFaceTime := 0\<rparr> else w3)
         else w)"

end
