(* ===== verification/Server.thy ===== *)
theory Server
  imports Commands
begin

text \<open>
  \<^verbatim>\<open>src/server.c\<close>: the attribute callbacks of the wall clock server, the database it offers, its
  creation and destruction, and the events of its main loop. A read or write callback reports its result as its last action; the
  value it returns here is that report. Advertising, listening and the server thread are in \<^verbatim>\<open>Service\<close>.
\<close>

section \<open>Attribute callbacks\<close>

definition UUID_GAP :: u16 where "UUID_GAP = 0x1800"
definition UUID_GATT :: u16 where "UUID_GATT = 0x1801"
definition UUID_I2C_READ :: string where "UUID_I2C_READ = ''000A0001-1000-8000-0080-5F9B34FB0000''"
definition UUID_I2C_READ_DATA :: string where "UUID_I2C_READ_DATA = ''000A0002-0010-0080-0000-805F9B34FB00''"
definition UUID_I2C_WRITE :: string where "UUID_I2C_WRITE = ''000A0003-0010-0080-0000-805F9B34FB00''"
definition UUID_I2C_WRITE_DATA :: string where "UUID_I2C_WRITE_DATA = ''000A0004-0010-0080-0000-805F9B34FB00''"

definition GATT_CHARAC_DEVICE_NAME :: u16 where "GATT_CHARAC_DEVICE_NAME = 0x2A00"
definition GATT_CHARAC_APPEARANCE :: u16 where "GATT_CHARAC_APPEARANCE = 0x2A01"
definition GATT_CHARAC_PERIPHERAL_PREF_CONN :: u16 where "GATT_CHARAC_PERIPHERAL_PREF_CONN = 0x2A04"
definition GATT_CHARAC_SERVICE_CHANGED :: u16 where "GATT_CHARAC_SERVICE_CHANGED = 0x2A05"
definition GATT_CLIENT_CHARAC_CFG_UUID :: u16 where "GATT_CLIENT_CHARAC_CFG_UUID = 0x2902"

definition device_name :: string where "device_name = ''WALLCLOCK''"

definition att_disconnect_cb :: "server \<Rightarrow> server" where
  "att_disconnect_cb w = w\<lparr>quitting := True\<rparr>"

definition gatt_service_changed_cb :: "int \<times> bytes option" where
  "gatt_service_changed_cb = (0, None)"

definition gatt_svc_chngd_ccc_read_cb :: "server \<Rightarrow> int \<times> bytes option" where
  "gatt_svc_chngd_ccc_read_cb w = (0, Some [if svc_chngd_enabled w then 0x02 else 0x00, 0x00])"

definition gatt_svc_chngd_ccc_write_cb :: "u16 \<Rightarrow> bytes option \<Rightarrow> server \<Rightarrow> int \<times> server" where
  "gatt_svc_chngd_ccc_write_cb offset value w = (case value of
     None \<Rightarrow> (BT_ATT_ERROR_INVALID_ATTRIBUTE_VALUE_LEN, w)
   | Some v \<Rightarrow>
       if length v \<noteq> 2 then (BT_ATT_ERROR_INVALID_ATTRIBUTE_VALUE_LEN, w)
       else if offset \<noteq> 0 then (BT_ATT_ERROR_INVALID_OFFSET, w)
       else if v ! 0 = 0x00 then (0, w\<lparr>svc_chngd_enabled := False\<rparr>)
       else if v ! 0 = 0x02 then (0, w\<lparr>svc_chngd_enabled := True\<rparr>)
       else (0x80, w))"

definition clock_read_data_ccc_read_cb :: "server \<Rightarrow> int \<times> bytes option" where
  "clock_read_data_ccc_read_cb w = (0, Some [if clock_read_data_notify w then 0x01 else 0x00, 0x00])"

definition clock_read_data_ccc_write_cb :: "u16 \<Rightarrow> bytes option \<Rightarrow> server \<Rightarrow> int \<times> server" where
  "clock_read_data_ccc_write_cb offset value w = (case value of
     None \<Rightarrow> (BT_ATT_ERROR_INVALID_ATTRIBUTE_VALUE_LEN, w)
   | Some v \<Rightarrow>
       if length v \<noteq> 2 then (BT_ATT_ERROR_INVALID_ATTRIBUTE_VALUE_LEN, w)
       else if offset \<noteq> 0 then (BT_ATT_ERROR_INVALID_OFFSET, w)
       else if v ! 0 = 0x00 then (0, w\<lparr>clock_read_data_notify := False\<rparr>)
       else if v ! 0 = 0x01 then (0, w\<lparr>clock_read_data_notify := True\<rparr>)
       else (0x80, w))"

definition clock_write_data_write_cb :: "clk_kernel \<Rightarrow> u16 \<Rightarrow> bytes option \<Rightarrow> server \<Rightarrow> int \<times> server" where
  "clock_write_data_write_cb K offset value w = (case value of
     None \<Rightarrow> (BT_ATT_ERROR_INVALID_ATTRIBUTE_VALUE_LEN, w)
   | Some v \<Rightarrow>
       if v = [] \<or> length v > 100 then (BT_ATT_ERROR_INVALID_ATTRIBUTE_VALUE_LEN, w)
       else if offset \<noteq> 0 then (BT_ATT_ERROR_INVALID_OFFSET, w)
       else (0, clock_command K v w))"

section \<open>The environment of the GATT server\<close>

definition clk_read ::
  "clk_fn \<Rightarrow> attr_ptr \<Rightarrow> u32 \<Rightarrow> u16 \<Rightarrow> u8 \<Rightarrow> unit db_ud option \<Rightarrow> server \<Rightarrow> (int \<times> bytes option) option \<times> server" where
  "clk_read f p i offset opc ud w = (case f of
     Gatt_Service_Changed_Cb \<Rightarrow> (Some gatt_service_changed_cb, w)
   | Gatt_Svc_Chngd_Ccc_Read_Cb \<Rightarrow> (Some (gatt_svc_chngd_ccc_read_cb w), w)
   | Clock_Read_Data_Ccc_Read_Cb \<Rightarrow> (Some (clock_read_data_ccc_read_cb w), w)
   | _ \<Rightarrow> (Some (0, None), w))"

definition clk_write ::
  "clk_kernel \<Rightarrow> clk_fn \<Rightarrow> attr_ptr \<Rightarrow> u32 \<Rightarrow> u16 \<Rightarrow> bytes option \<Rightarrow> u8 \<Rightarrow> unit db_ud option \<Rightarrow> server \<Rightarrow>
   int option \<times> server" where
  "clk_write K f p i offset value opc ud w = (case f of
     Gatt_Svc_Chngd_Ccc_Write_Cb \<Rightarrow> (case gatt_svc_chngd_ccc_write_cb offset value w of (e, w') \<Rightarrow> (Some e, w'))
   | Clock_Read_Data_Ccc_Write_Cb \<Rightarrow> (case clock_read_data_ccc_write_cb offset value w of (e, w') \<Rightarrow> (Some e, w'))
   | Clock_Write_Data_Write_Cb \<Rightarrow> (case clock_write_data_write_cb K offset value w of (e, w') \<Rightarrow> (Some e, w'))
   | _ \<Rightarrow> (Some 0, w))"

definition clk_env :: "clk_kernel \<Rightarrow> (clk_fn, unit, server) gs_env" where
  "clk_env K = (clk_send_env K)\<lparr>ge_read := clk_read, ge_write := clk_write K\<rparr>"

section \<open>The database\<close>

text \<open>\<^verbatim>\<open>confirm_write\<close> ends the program on an error.\<close>

definition confirm_write :: "int \<Rightarrow> server \<Rightarrow> server" where
  "confirm_write err w = (if err = 0 then w else w\<lparr>exited := True\<rparr>)"

definition confirm_events :: "(clk_fn db_cb, unit db_ud) db_event list \<Rightarrow> server \<Rightarrow> server" where
  "confirm_events evs w = fold (\<lambda>ev v. case ev of
     Call_Write_Result (Db_Client_Cb Confirm_Write) p err ud \<Rightarrow> confirm_write err v | _ \<Rightarrow> v) evs w"

text \<open>The steps of the population; a step that fails ends it.\<close>

definition add_service :: "bt_uuid \<Rightarrow> u16 \<Rightarrow> server \<Rightarrow> attr_ptr option \<times> server" where
  "add_service uuid n w = (case gatt_db_add_service (gs_db w) uuid True n of (p, db') \<Rightarrow> (p, w\<lparr>gs_db := db'\<rparr>))"

definition add_characteristic ::
  "attr_ptr \<Rightarrow> bt_uuid \<Rightarrow> u32 \<Rightarrow> u8 \<Rightarrow> clk_fn option \<Rightarrow> clk_fn option \<Rightarrow> unit option \<Rightarrow> server \<Rightarrow> attr_ptr option \<times> server" where
  "add_characteristic svc uuid perms properties rd wr ud w =
     (case gatt_db_service_add_characteristic (gs_db w) (Some svc) uuid perms properties
             (map_option Db_Client_Cb rd) (map_option Db_Client_Cb wr) (map_option Ud_Db_Client ud) of
        (p, db') \<Rightarrow> (p, w\<lparr>gs_db := db'\<rparr>))"

definition add_descriptor ::
  "attr_ptr \<Rightarrow> bt_uuid \<Rightarrow> u32 \<Rightarrow> clk_fn option \<Rightarrow> clk_fn option \<Rightarrow> server \<Rightarrow> attr_ptr option \<times> server" where
  "add_descriptor svc uuid perms rd wr w =
     (case gatt_db_service_add_descriptor (gs_db w) (Some svc) uuid perms
             (map_option Db_Client_Cb rd) (map_option Db_Client_Cb wr) (Some (Ud_Db_Client ())) of
        (p, db') \<Rightarrow> (p, w\<lparr>gs_db := db'\<rparr>))"

definition put_value :: "clk_kernel \<Rightarrow> attr_ptr \<Rightarrow> bytes \<Rightarrow> server \<Rightarrow> bool \<times> server" where
  "put_value K p value w =
     (case gatt_db_attribute_write (ck_heap K) (ck_tid K) (gs_db w) (Some p) 0 (Some value) BT_ATT_OP_WRITE_REQ
             (Some (Db_Client_Cb Confirm_Write)) (Ud_Db_Client ()) of
        (ok, evs, db') \<Rightarrow> (ok, confirm_events evs (w\<lparr>gs_db := db'\<rparr>)))"

definition set_active :: "attr_ptr \<Rightarrow> server \<Rightarrow> server" where
  "set_active p w = (case gatt_db_service_set_active (gs_db w) (Some p) True of (_, _, db') \<Rightarrow> w\<lparr>gs_db := db'\<rparr>)"

text \<open>A readable characteristic whose value is kept in the database.\<close>

definition add_value ::
  "clk_kernel \<Rightarrow> attr_ptr \<Rightarrow> u16 \<Rightarrow> bytes \<Rightarrow> server \<Rightarrow> bool \<times> server" where
  "add_value K svc uuid value w =
     (case add_characteristic svc (bt_uuid16_create uuid) BT_ATT_PERM_READ BT_GATT_CHRC_PROP_READ None None (Some ()) w of
        (None, w') \<Rightarrow> (False, w')
      | (Some p, w') \<Rightarrow> put_value K p value w')"

definition populate_gap_service :: "clk_kernel \<Rightarrow> server \<Rightarrow> bool \<times> server" where
  "populate_gap_service K w =
     (case add_service (bt_uuid16_create UUID_GAP) 7 w of
        (None, w1) \<Rightarrow> (False, w1)
      | (Some svc, w1) \<Rightarrow>
          (case add_value K svc GATT_CHARAC_DEVICE_NAME (take (s_name_len w1) (s_device_name w1)) w1 of
             (False, w2) \<Rightarrow> (False, w2)
           | (True, w2) \<Rightarrow>
               (case add_value K svc GATT_CHARAC_APPEARANCE (put_le16 0) w2 of
                  (False, w3) \<Rightarrow> (False, w3)
                | (True, w3) \<Rightarrow>
                    (case add_value K svc GATT_CHARAC_PERIPHERAL_PREF_CONN
                            (put_le16 6 @ put_le16 8 @ put_le16 0 @ put_le16 0xfa) w3 of
                       (False, w4) \<Rightarrow> (False, w4)
                     | (True, w4) \<Rightarrow> (True, set_active svc w4)))))"

definition populate_gatt_service :: "server \<Rightarrow> bool \<times> server" where
  "populate_gatt_service w =
     (case add_service (bt_uuid16_create UUID_GATT) 4 w of
        (None, w1) \<Rightarrow> (False, w1)
      | (Some svc, w1) \<Rightarrow>
          (case add_characteristic svc (bt_uuid16_create GATT_CHARAC_SERVICE_CHANGED) BT_ATT_PERM_READ
                  (BT_GATT_CHRC_PROP_READ OR BT_GATT_CHRC_PROP_INDICATE) (Some Gatt_Service_Changed_Cb) None (Some ()) w1 of
             (None, w2) \<Rightarrow> (False, w2)
           | (Some chngd, w2) \<Rightarrow>
               (let w3 = w2\<lparr>gatt_svc_chngd_handle := gatt_db_attribute_get_handle (gs_db w2) (Some chngd)\<rparr>
                in case add_descriptor svc (bt_uuid16_create GATT_CLIENT_CHARAC_CFG_UUID)
                          (BT_ATT_PERM_READ OR BT_ATT_PERM_WRITE)
                          (Some Gatt_Svc_Chngd_Ccc_Read_Cb) (Some Gatt_Svc_Chngd_Ccc_Write_Cb) w3 of
                     (None, w4) \<Rightarrow> (False, w4)
                   | (Some _, w4) \<Rightarrow> (True, set_active svc w4))))"

text \<open>\<^verbatim>\<open>bt_string_to_uuid\<close> leaves the variable as it was when it fails; these strings are UUIDs.\<close>

definition uuid_of_string :: "string \<Rightarrow> bt_uuid" where
  "uuid_of_string s = (case bt_string_to_uuid s of None \<Rightarrow> BT_UUID_UNSPEC | Some u \<Rightarrow> u)"

definition populate_clock_read_service :: "server \<Rightarrow> bool \<times> server" where
  "populate_clock_read_service w =
     (case add_service (uuid_of_string UUID_I2C_READ) 4 w of
        (None, w1) \<Rightarrow> (False, w1)
      | (Some svc, w1) \<Rightarrow>
          (case add_characteristic svc (uuid_of_string UUID_I2C_READ_DATA) (BT_ATT_PERM_READ OR BT_ATT_PERM_WRITE)
                  BT_GATT_CHRC_PROP_NOTIFY None None None w1 of
             (None, w2) \<Rightarrow> (False, w2)
           | (Some data, w2) \<Rightarrow>
               (let w3 = w2\<lparr>clock_read_data_handle := gatt_db_attribute_get_handle (gs_db w2) (Some data)\<rparr>
                in case add_descriptor svc (bt_uuid16_create GATT_CLIENT_CHARAC_CFG_UUID)
                          (BT_ATT_PERM_READ OR BT_ATT_PERM_WRITE)
                          (Some Clock_Read_Data_Ccc_Read_Cb) (Some Clock_Read_Data_Ccc_Write_Cb) w3 of
                     (None, w4) \<Rightarrow> (False, w4)
                   | (Some _, w4) \<Rightarrow> (True, set_active svc w4))))"

definition populate_clock_write_service :: "server \<Rightarrow> bool \<times> server" where
  "populate_clock_write_service w =
     (case add_service (uuid_of_string UUID_I2C_WRITE) 3 w of
        (None, w1) \<Rightarrow> (False, w1)
      | (Some svc, w1) \<Rightarrow>
          (case add_characteristic svc (uuid_of_string UUID_I2C_WRITE_DATA) BT_ATT_PERM_WRITE
                  BT_GATT_CHRC_PROP_WRITE_WITHOUT_RESP None (Some Clock_Write_Data_Write_Cb) (Some ()) w1 of
             (None, w2) \<Rightarrow> (False, w2)
           | (Some data, w2) \<Rightarrow>
               (True, set_active svc
                  (w2\<lparr>clock_write_data_handle := gatt_db_attribute_get_handle (gs_db w2) (Some data)\<rparr>))))"

definition populate_db :: "clk_kernel \<Rightarrow> server \<Rightarrow> bool \<times> server" where
  "populate_db K w =
     (case populate_gap_service K w of
        (False, w1) \<Rightarrow> (False, w1)
      | (True, w1) \<Rightarrow> (case populate_gatt_service w1 of
          (False, w2) \<Rightarrow> (False, w2)
        | (True, w2) \<Rightarrow> (case populate_clock_read_service w2 of
            (False, w3) \<Rightarrow> (False, w3)
          | (True, w3) \<Rightarrow> populate_clock_write_service w3)))"

section \<open>Creation\<close>

text \<open>The zeroed structure with its bearer, and the global variables of a fresh process.\<close>

definition server_blank :: "(clk_fn att_cb, (clk_fn, unit) att_ud) bt_att \<Rightarrow> server" where
  "server_blank att = gatt_world.extend
     (bt_att.extend att (gatt_world.fields gatt_db_new 0 False 0 [] 0 [] 0 False False None None None False))
     (server.fields 0 [] 0 0 False 0 0 False 0 0 0 0 0 0 0 0 0 False False)"

text \<open>The end of a failed creation; the name that is freed was not allocated.\<close>

definition server_create_fail :: "clk_kernel \<Rightarrow> bool \<Rightarrow> server \<Rightarrow> bool \<times> server option" where
  "server_create_fail K has_db w =
     (let w1 = (if has_db then gs_db_unref (clk_env K) w else w);
          w2 = w1\<lparr>gs_fault := gs_fault w1 \<or> s_device_name w1 \<noteq> []\<rparr>
      in (False, Some (bt_att_unref (gs_att_env (clk_env K)) w2)))"

text \<open>
  \<open>k\<close> and \<open>crypto\<close>: what the kernel says of the socket and whether crypto is available; \<open>face\<close>: the
  face time given on the command line.
\<close>

definition server_create ::
  "clk_kernel \<Rightarrow> sock_info \<Rightarrow> bool \<Rightarrow> u64 \<Rightarrow> int \<Rightarrow> u16 \<Rightarrow> bool \<times> server option" where
  "server_create K k crypto face fd mtu =
     (case bt_att_new k crypto fd False of
        None \<Rightarrow> (False, None)
      | Some att \<Rightarrow>
          (let w0 = (server_blank att)\<lparr>gFaceTime := face\<rparr>
           in case bt_att_set_close_on_unref True w0 of
                (False, w1) \<Rightarrow> server_create_fail K False w1
              | (True, w1) \<Rightarrow>
                  (case bt_att_register_disconnect (Some (Att_Client_Cb Att_Disconnect_Cb)) None None w1 of
                     (i, w2) \<Rightarrow>
                       if i = 0 then server_create_fail K False w2
                       else
                         (let w3 = w2\<lparr>s_name_len := length device_name + 1,
                                     s_device_name := map of_char device_name @ [0], s_fd := fd\<rparr>
                          in case bt_gatt_server_new (clk_env K) mtu 0 w3 of
                               (False, w4) \<Rightarrow> server_create_fail K True w4
                             | (True, w4) \<Rightarrow>
                                 (case populate_db K w4 of
                                    (False, w5) \<Rightarrow> server_create_fail K True w5
                                  | (True, w5) \<Rightarrow> (True, Some w5))))))"

definition server_destroy :: "clk_kernel \<Rightarrow> server \<Rightarrow> server" where
  "server_destroy K w = gs_db_unref (clk_env K) (bt_gatt_server_unref (clk_env K) w)"

text \<open>The main loop: the events of the bearer, each with the answers of the kernel at its time.\<close>

type_synonym clk_input = "clk_kernel \<times> (clk_fn att_cb, (clk_fn, unit) att_ud) att_input"

definition clk_do :: "clk_input \<Rightarrow> server \<Rightarrow> server" where
  "clk_do ev w = att_do (gs_att_env (clk_env (fst ev))) (snd ev) w"

end
