(* ===== verification/Gatt_Server_Inv.thy ===== *)
theory Gatt_Server_Inv
  imports Gatt_Server Att_Inv Gatt_Db_Inv
begin

text \<open>
  What the GATT server guarantees. The locale \<open>gs_relation\<close> carries a relation between states over all
  request handlers and completion functions: it is interpreted on the bearer's contract for callbacks,
  on the bound of the prepare queue and the MTU, and on the well-formedness of the database. The
  locale \<open>gs_client\<close> states what the server asks of the attribute functions of its client; under it
  every request gets exactly one response.
\<close>

section \<open>Relations kept by every handler\<close>

lemmas gs_loop_simps = encode_read_by_grp_type_rsp.simps(2) process_read_by_type.simps(2)
  read_multiple_complete_cb.simps(2) exec_next_prep_write.simps(2) encode_find_info_rsp.simps(2)

declare gs_loop_simps [simp del]

text \<open>
  The database is well formed, and all functions in it are those of the server's client.
\<close>

definition client_fun :: "'c db_cb option \<Rightarrow> bool" where
  "client_fun f \<longleftrightarrow> (case f of None \<Rightarrow> True | Some g \<Rightarrow> db_client g \<noteq> None)"

definition db_clients :: "('c db_cb, 'u) gatt_db \<Rightarrow> bool" where
  "db_clients db \<longleftrightarrow> (\<forall>s \<in> set (services db). \<forall>a. Some a \<in> set (attributes s) \<longrightarrow>
     client_fun (read_func a) \<and> client_fun (write_func a))"

definition db_inv :: "('c db_cb, 'u) gatt_db \<Rightarrow> bool" where
  "db_inv db \<longleftrightarrow> db_wf db \<and> db_clients db"

lemma upd_attr_clients:
  assumes "\<And>a. read_func (f a) = read_func a \<and> write_func (f a) = write_func a" and "db_clients db"
  shows "db_clients (upd_attr p f db)"
proof -
  have "client_fun (read_func a) \<and> client_fun (write_func a)"
    if s: "s \<in> set (services db)" and a: "Some a \<in> set ((attributes s)[snd p := map_option f (attributes s ! snd p)])" for s a
  proof (cases "Some a \<in> set (attributes s)")
    case True
    with assms(2) s show ?thesis by (simp add: db_clients_def)
  next
    case False
    with a have e: "Some a = map_option f (attributes s ! snd p)" and "snd p < length (attributes s)"
      using set_update_subset_insert [of "attributes s" "snd p"]
      by (auto, metis list_update_beyond not_le_imp_less)
    from e obtain b where b: "attributes s ! snd p = Some b" by (cases "attributes s ! snd p") simp_all
    with e have "a = f b" by simp
    from b \<open>snd p < length (attributes s)\<close> have "Some b \<in> set (attributes s)" by (metis nth_mem)
    with assms s \<open>a = f b\<close> show ?thesis by (simp add: db_clients_def)
  qed
  with assms(2) show ?thesis
    unfolding db_clients_def upd_attr_def upd_service_def by auto
qed

lemma read_db_inv:
  assumes "db_inv db" and "gatt_db_attribute_read tid db p off opc f ud = (r, ev, db')" shows "db_inv db'"
  using assms read_wf [OF _ assms(2)]
  by (auto simp: db_inv_def gatt_db_attribute_read_def Let_def split: option.splits if_splits intro!: upd_attr_clients)

lemma write_db_inv:
  assumes "db_inv db" and "gatt_db_attribute_write junk tid db p off v opc f ud = (r, ev, db')" shows "db_inv db'"
  using assms write_wf [OF _ assms(2)]
  by (auto simp: db_inv_def gatt_db_attribute_write_def Let_def store_value_def split: option.splits if_splits intro!: upd_attr_clients)

lemma read_result_db_inv: "db_inv db \<Longrightarrow> db_inv (snd (snd (gatt_db_attribute_read_result db p i err val)))"
proof -
  assume "db_inv db"
  obtain r ev db' where x: "gatt_db_attribute_read_result db p i err val = (r, ev, db')" by (metis prod_cases3)
  with \<open>db_inv db\<close> have "db_clients db'"
    by (auto simp: db_inv_def gatt_db_attribute_read_result_def split: option.splits if_splits prod.splits intro!: upd_attr_clients)
  with read_result_wf [OF _ x] \<open>db_inv db\<close> x show ?thesis by (simp add: db_inv_def)
qed

lemma write_result_db_inv: "db_inv db \<Longrightarrow> db_inv (snd (snd (gatt_db_attribute_write_result db p i err)))"
proof -
  assume "db_inv db"
  obtain r ev db' where x: "gatt_db_attribute_write_result db p i err = (r, ev, db')" by (metis prod_cases3)
  with \<open>db_inv db\<close> have "db_clients db'"
    by (auto simp: db_inv_def gatt_db_attribute_write_result_def split: option.splits if_splits prod.splits intro!: upd_attr_clients)
  with write_result_wf [OF _ x] \<open>db_inv db\<close> x show ?thesis by (simp add: db_inv_def)
qed

lemmas result_db_inv = read_result_db_inv write_result_db_inv

locale gs_attr_relation =
  fixes k :: "('c, 'v, 'z) gs_env_of"
    and R :: "('c, 'v, 'z) gatt_world_scheme \<Rightarrow> ('c, 'v, 'z) gatt_world_scheme \<Rightarrow> bool"
  assumes rel_refl: "R w w"
    and rel_trans: "R w1 w2 \<Longrightarrow> R w2 w3 \<Longrightarrow> R w1 w3"
    and rel_db: "(db_inv (gs_db w) \<Longrightarrow> db_inv db) \<Longrightarrow> R w (w\<lparr>gs_db := db\<rparr>)"
    and rel_read: "R w (snd (ge_read k f p i off opc ud w))"
    and rel_write: "R w (snd (ge_write k f p i off val opc ud w))"
begin

lemma run_read_rel: "R w (snd (run_read_event k ev w))"
proof (cases ev)
  case (Call_Read f q i off opc ud)
  show ?thesis
  proof (cases "db_client f")
    case (Some c)
    obtain r w' where r: "ge_read k c q i off opc ud w = (r, w')" by fastforce
    then have "R w w'" using rel_read [of w c q i off opc ud] by simp
    moreover have "R w' (w'\<lparr>gs_db := snd (snd (gatt_db_attribute_read_result (gs_db w') (Some q) i e v))\<rparr>)" for e v
      by (rule rel_db) (rule result_db_inv)
    ultimately show ?thesis
      using Call_Read Some r rel_trans by (auto simp: run_read_event_def split: option.splits)
  qed (use Call_Read rel_refl in \<open>simp add: run_read_event_def\<close>)
qed (simp_all add: run_read_event_def rel_refl)


lemma run_write_rel: "R w (snd (run_write_event k ev w))"
proof (cases ev)
  case (Call_Write f q i off val opc ud)
  show ?thesis
  proof (cases "db_client f")
    case (Some c)
    obtain r w' where r: "ge_write k c q i off val opc ud w = (r, w')" by fastforce
    then have "R w w'" using rel_write [of w c q i off val opc ud] by simp
    moreover have "R w' (w'\<lparr>gs_db := snd (snd (gatt_db_attribute_write_result (gs_db w') (Some q) i e))\<rparr>)" for e
      by (rule rel_db) (rule result_db_inv)
    ultimately show ?thesis
      using Call_Write Some r rel_trans by (auto simp: run_write_event_def split: option.splits)
  qed (use Call_Write rel_refl in \<open>simp add: run_write_event_def\<close>)
qed (simp_all add: run_write_event_def rel_refl)

lemma attribute_read_rel: "gs_attribute_read k p off opc f ud w = (ok, r, w') \<Longrightarrow> R u w \<Longrightarrow> R u w'"
proof -
  assume a: "gs_attribute_read k p off opc f ud w = (ok, r, w')" and u: "R u w"
  obtain b evs db where x: "gatt_db_attribute_read (ge_tid k w) (gs_db w) (Some p) off opc (Some f) ud = (b, evs, db)"
    by (metis prod_cases3)
  have d: "R w (w\<lparr>gs_db := db\<rparr>)" by (rule rel_db) (rule read_db_inv [OF _ x])
  have run: "R w w'" if "run_read_event k ev (w\<lparr>gs_db := db\<rparr>) = (r, w')" for ev
    using rel_trans [OF d run_read_rel [of "w\<lparr>gs_db := db\<rparr>" ev]] that by simp
  then have "R w w'" using a x d by (cases evs) (auto simp: gs_attribute_read_def)
  with u show "R u w'" by (rule rel_trans)
qed

lemma attribute_write_rel: "gs_attribute_write k p off val opc f ud w = (ok, r, w') \<Longrightarrow> R u w \<Longrightarrow> R u w'"
proof -
  assume a: "gs_attribute_write k p off val opc f ud w = (ok, r, w')" and u: "R u w"
  obtain b evs db where x: "gatt_db_attribute_write (ge_junk k w) (ge_tid k w) (gs_db w) (Some p) off val opc (Some f) ud = (b, evs, db)"
    by (metis prod_cases3)
  have d: "R w (w\<lparr>gs_db := db\<rparr>)" by (rule rel_db) (rule write_db_inv [OF _ x])
  have run: "R w w'" if "run_write_event k ev (w\<lparr>gs_db := db\<rparr>) = (r, w')" for ev
    using rel_trans [OF d run_write_rel [of "w\<lparr>gs_db := db\<rparr>" ev]] that by simp
  then have "R w w'" using a x d by (cases evs) (auto simp: gs_attribute_write_def)
  with u show "R u w'" by (rule rel_trans)
qed

lemma ext_prop_fold_rel: "R u w \<Longrightarrow> fold (read_ext_prop (read_for_ext_prop k) db) ps (e, w) = (e', w') \<Longrightarrow> R u w'"
proof (induction ps arbitrary: e w)
  case (Cons p ps)
  obtain e1 w1 where r: "read_ext_prop (read_for_ext_prop k) db p (e, w) = (e1, w1)" by fastforce
  have "R u w1"
    using r Cons.prems(1) attribute_read_rel [OF _ Cons.prems(1)]
    by (auto simp: read_ext_prop_def read_for_ext_prop_def split: if_splits option.splits prod.splits)
  from Cons.IH [OF this] Cons.prems(2) r show ?case by simp
qed simp

lemma reliable_rel: "is_reliable_write_supported k h w = (b, w') \<Longrightarrow> R u w \<Longrightarrow> R u w'"
  by (auto simp: is_reliable_write_supported_def get_char_extended_prop_def
      split: option.splits if_splits prod.splits dest: ext_prop_fold_rel)

lemma encode_grp_rel:
  "encode_read_by_grp_type_rsp k q mtu n pdu w = (r, w') \<Longrightarrow> R u w \<Longrightarrow> R u w'"
proof (induction q arbitrary: n pdu w)
  case (Cons p q)
  obtain ok res v where v: "gs_attribute_read k p 0 BT_ATT_OP_READ_BY_GRP_TYPE_REQ Attribute_Read_Cb Ud_Iov w = (ok, res, v)"
    by (metis prod_cases3)
  from attribute_read_rel [OF this Cons.prems(2)] have u: "R u v" .
  from Cons.prems(1) v have "w' = v \<or> (\<exists>n' pdu'. encode_read_by_grp_type_rsp k q mtu n' pdu' v = (r, w'))"
    by (auto simp: gs_loop_simps Let_def split: if_split_asm option.split_asm prod.split_asm)
  with Cons.IH u show ?case by blast
qed simp

end

text \<open>The prepared writes and their limit.\<close>

definition same_queue :: "('c, 'v, 'z) gatt_world_scheme \<Rightarrow> ('c, 'v, 'z) gatt_world_scheme \<Rightarrow> bool" where
  "same_queue w w' \<longleftrightarrow> prep_queue w' = prep_queue w \<and> max_prep_queue_len w' = max_prep_queue_len w"

lemmas gs_send_simps = gs_send_def gs_error_def bt_att_send_error_rsp_def

text \<open>
  The parameters a response may have: opcode 0, which the bearer refuses, is what an unknown request would get.
\<close>

definition rsp_shape :: "u8 \<Rightarrow> bytes \<Rightarrow> bool" where
  "rsp_shape opc b \<longleftrightarrow> opc = 0 \<or>
     (if opc = BT_ATT_OP_MTU_RSP then length b = 2
      else if opc \<in> set [BT_ATT_OP_WRITE_RSP, BT_ATT_OP_EXEC_WRITE_RSP] then b = []
      else opc \<in> set [BT_ATT_OP_FIND_INFO_RSP, BT_ATT_OP_FIND_BY_TYPE_RSP, BT_ATT_OP_READ_BY_TYPE_RSP, BT_ATT_OP_READ_RSP,
        BT_ATT_OP_READ_BLOB_RSP, BT_ATT_OP_READ_MULT_RSP, BT_ATT_OP_READ_BY_GRP_TYPE_RSP, BT_ATT_OP_PREP_WRITE_RSP])"

lemma rsp_shapes [simp]:
  "rsp_shape BT_ATT_OP_MTU_RSP (value_bytes (Some (put_le16 v)))" "rsp_shape BT_ATT_OP_WRITE_RSP (value_bytes None)"
  "rsp_shape BT_ATT_OP_EXEC_WRITE_RSP (value_bytes None)" "rsp_shape BT_ATT_OP_FIND_INFO_RSP p"
  "rsp_shape BT_ATT_OP_FIND_BY_TYPE_RSP p" "rsp_shape BT_ATT_OP_READ_BY_TYPE_RSP p"
  "rsp_shape (get_read_rsp_opcode opc) p" "rsp_shape BT_ATT_OP_READ_MULT_RSP p"
  "rsp_shape BT_ATT_OP_READ_BY_GRP_TYPE_RSP p" "rsp_shape BT_ATT_OP_PREP_WRITE_RSP p"
  by (simp_all add: rsp_shape_def att_opcodes get_read_rsp_opcode_def value_bytes_def)

locale gs_relation = gs_attr_relation k R + queue: gs_attr_relation k same_queue
  for k :: "('c, 'v, 'z) gs_env_of" and R +
  assumes rel_send: "rsp_shape opc (value_bytes pdu) \<Longrightarrow> R w (gs_send k opc pdu w)"
    and rel_error: "R w (gs_error k opc h e w)"
    and rel_mtu: "23 \<le> unat m \<Longrightarrow> R w (snd (bt_att_set_mtu m (w\<lparr>gs_mtu := m\<rparr>)))"
    and rel_flags: "R w (w\<lparr>pending_read_op := a\<rparr>)" "R w (w\<lparr>pending_write_op := b\<rparr>)" "R w (w\<lparr>gs_fault := c\<rparr>)"
    and rel_queue: "length q \<le> length (prep_queue w) \<or> length (prep_queue w) < max_prep_queue_len w \<and> length q = length (prep_queue w) + 1
      \<Longrightarrow> R w (w\<lparr>prep_queue := q\<rparr>)"
    and rel_notify: "R w (e_notify (ge_att k) (Att_Client_Cb f) opc' p' ud' w)"
begin

lemma send_rel: "rsp_shape opc (value_bytes pdu) \<Longrightarrow> R u w \<Longrightarrow> R u (gs_send k opc pdu w)"
  using rel_trans rel_send by blast

lemma error_rel: "R u w \<Longrightarrow> R u (gs_error k opc h e w)"
  using rel_trans rel_error by blast

lemma flags_rel:
  "R u w \<Longrightarrow> R u (w\<lparr>pending_read_op := a\<rparr>)" "R u w \<Longrightarrow> R u (w\<lparr>pending_write_op := b\<rparr>)"
  "R u w \<Longrightarrow> R u (async_read_op_destroy w)" "R u w \<Longrightarrow> R u (async_write_op_destroy w)"
  using rel_trans [OF _ rel_flags(1)] rel_trans [OF _ rel_flags(2)]
  unfolding async_read_op_destroy_def async_write_op_destroy_def by auto

text \<open>Chaining over the steps of a handler.\<close>

lemmas step_rel = rel_refl send_rel error_rel flags_rel

lemma read_by_grp_type_rel: "R w (read_by_grp_type_cb k opc pdu w)"
  by (auto simp: read_by_grp_type_cb_def Let_def step_rel split: option.splits list.splits prod.splits
      intro!: step_rel dest: encode_grp_rel [OF _ rel_refl])

lemma add_value_rel: "read_by_type_add_value k op p e val w = (r, w') \<Longrightarrow> R u w \<Longrightarrow> R u w'"
  by (auto simp: read_by_type_add_value_def Let_def intro!: step_rel split: if_splits)

lemma process_read_by_type_rel: "R u w \<Longrightarrow> R u (process_read_by_type k q op w)"
proof (induction q arbitrary: op w)
  case (Cons p q)
  let ?op = "op\<lparr>ro_db_data := q\<rparr>"
  obtain ok res v where v: "gs_attribute_read k p 0 (ro_opcode op) Read_By_Type_Read_Complete_Cb (Ud_Read ?op) w = (ok, res, v)"
    by (metis prod_cases3)
  from attribute_read_rel [OF this Cons.prems] have "R u v" .
  moreover have "R u w'" if "read_by_type_add_value k ?op p e val v = (r, w')" for e val r w'
    using add_value_rel [OF that \<open>R u v\<close>] .
  ultimately show ?case
    using Cons v by (auto simp: gs_loop_simps Let_def step_rel split: option.splits prod.splits)
qed (simp add: step_rel)

lemma read_by_type_complete_rel: "R u w \<Longrightarrow> R u (read_by_type_read_complete_cb k op p e val w)"
  by (auto simp: read_by_type_read_complete_cb_def split: prod.splits option.splits
      intro: process_read_by_type_rel add_value_rel)

lemma read_by_type_rel: "R w (read_by_type_cb k opc pdu w)"
  by (auto simp: read_by_type_cb_def Let_def intro!: step_rel process_read_by_type_rel split: option.splits)

lemma find_info_rel: "R w (find_info_cb k opc pdu w)"
  by (auto simp: find_info_cb_def Let_def intro!: step_rel split: option.splits)

lemma find_by_type_val_rel: "R w (find_by_type_val_cb k opc pdu w)"
  by (auto simp: find_by_type_val_cb_def Let_def intro!: step_rel)

lemma write_complete_rel: "R u w \<Longrightarrow> R u (write_complete_cb k op p e w)"
  by (auto simp: write_complete_cb_def Let_def intro!: step_rel)

lemma write_rel: "R w (write_cb k opc pdu w)"
  by (auto simp: write_cb_def Let_def intro!: step_rel write_complete_rel split: option.splits prod.splits bool.splits
      dest!: attribute_write_rel [OF _ flags_rel(2) [OF rel_refl]])

lemma read_complete_rel: "R u w \<Longrightarrow> R u (read_complete_cb k op p e val w)"
  by (auto simp: read_complete_cb_def Let_def intro!: step_rel)

lemma handle_read_req_rel: "R w (handle_read_req k opc h off w)"
  by (auto simp: handle_read_req_def Let_def intro!: step_rel read_complete_rel split: option.splits prod.splits bool.splits
      dest!: attribute_read_rel [OF _ flags_rel(1) [OF rel_refl]])

lemma read_rel: "R w (read_cb k opc pdu w)" "R w (read_blob_cb k opc pdu w)"
  by (simp_all add: read_cb_def read_blob_cb_def step_rel handle_read_req_rel)

lemma read_multiple_complete_rel: "R u w \<Longrightarrow> R u (read_multiple_complete_cb k q rsp mtu p e val w)"
proof (induction q arbitrary: rsp p e val w)
  case (Cons h q)
  have "R u v" if "gs_attribute_read k p' 0 opc f ud w = (ok, res, v)" for p' opc f ud ok res v
    using attribute_read_rel [OF that Cons.prems] .
  with Cons show ?case
    by (auto simp: gs_loop_simps Let_def intro!: step_rel split: sum.splits option.splits prod.splits)
qed (auto intro!: step_rel split: sum.splits)

lemma read_multiple_rel: "R w (read_multiple_cb k opc pdu w)"
  by (auto simp: read_multiple_cb_def Let_def intro!: step_rel read_multiple_complete_rel
      split: list.splits option.splits prod.splits bool.splits dest!: attribute_read_rel [OF _ rel_refl])

end

context gs_relation
begin

lemma fault_rel: "R u w \<Longrightarrow> R u (w\<lparr>gs_fault := c\<rparr>)"
  using rel_trans [OF _ rel_flags(3)] .

lemma empty_queue_rel: "R u w \<Longrightarrow> R u (w\<lparr>prep_queue := []\<rparr>)"
  by (rule rel_trans [OF _ rel_queue]) simp_all

lemma set_queue_rel:
  assumes "R u w" and "length q \<le> length (prep_queue w) \<or> length (prep_queue w) < max_prep_queue_len w \<and> length q = length (prep_queue w) + 1"
  shows "R u (w\<lparr>gs_fault := c, prep_queue := q\<rparr>)"
  by (rule rel_trans [OF fault_rel [OF assms(1)] rel_queue]) (use assms(2) in simp)

text \<open>Storing adds at most one entry, and none but below the limit.\<close>

lemma prep_data_new_rel:
  assumes "prep_data_new k h off val w = (b, w')" and "length (prep_queue w) < max_prep_queue_len w"
  shows "R w w'"
proof -
  let ?fresh = "\<lparr>pw_value = None, pw_handle = 0, pw_offset = 0, pw_length = 0, pw_reliable_supported = False\<rparr>"
  obtain ok d c where ap: "append_prep_data ?fresh val = (ok, d, c)" by (metis prod_cases3)
  obtain rel v where r: "is_reliable_write_supported k (h - 1) w = (rel, v)" by fastforce
  have v: "R w v" "same_queue w v" by (rule reliable_rel [OF r rel_refl], rule queue.reliable_rel [OF r queue.rel_refl])
  have "R w (v\<lparr>gs_fault := c', prep_queue := lq_push_tail d' (prep_queue v)\<rparr>)" for c' d'
    by (rule set_queue_rel [OF v(1)]) (use v(2) assms(2) in \<open>simp add: same_queue_def lq_push_tail_def\<close>)
  then show ?thesis
    using assms(1) ap r fault_rel [OF rel_refl] by (cases ok) (auto simp: prep_data_new_def Let_def)
qed

lemma store_prep_data_rel:
  assumes "store_prep_data k h off val w = (b, w')" and "length (prep_queue w) < max_prep_queue_len w"
  shows "R w w'"
  using assms prep_data_new_rel set_queue_rel [OF rel_refl]
  by (auto simp: store_prep_data_def lq_peek_tail_def split: option.splits if_splits prod.splits)

lemma prep_write_complete_rel:
  "R u w \<Longrightarrow> length (prep_queue w) < max_prep_queue_len w \<Longrightarrow> R u (prep_write_complete_cb k d p e w)"
  using store_prep_data_rel rel_trans
  by (auto simp: prep_write_complete_cb_def Let_def intro!: step_rel split: prod.splits)

lemma prep_write_rel: "R w (prep_write_cb k opc pdu w)"
proof -
  have w: "R w w' \<and> (length (prep_queue w) < max_prep_queue_len w \<longrightarrow> length (prep_queue w') < max_prep_queue_len w')"
    if "gs_attribute_write k p off val opc' f ud w = (ok, r, w')" for p off val opc' f ud ok r w'
    using attribute_write_rel [OF that rel_refl] queue.attribute_write_rel [OF that queue.rel_refl]
    by (simp add: same_queue_def)
  show ?thesis
    by (auto simp: prep_write_cb_def Let_def intro!: step_rel prep_write_complete_rel
        split: option.splits prod.splits bool.splits dest!: w)
qed

lemma exec_write_fail_rel: "R u w \<Longrightarrow> R u (exec_write_fail k h e w)"
  by (simp add: exec_write_fail_def error_rel empty_queue_rel)

lemma exec_next_rel: "R u w \<Longrightarrow> length q \<le> length (prep_queue w) \<Longrightarrow> R u (exec_next_prep_write k q h e w)"
proof (induction q arbitrary: h e w)
  case (Cons d q)
  have q: "R u (w\<lparr>prep_queue := q\<rparr>)"
    by (rule rel_trans [OF Cons.prems(1) rel_queue]) (use Cons.prems(2) in simp)
  have "R u w' \<and> prep_queue w' = q"
    if "gs_attribute_write k p off val opc f ud (w\<lparr>prep_queue := q\<rparr>) = (ok, r, w')" for p off val opc f ud ok r w'
    using attribute_write_rel [OF that q] queue.attribute_write_rel [OF that queue.rel_refl]
    by (simp add: same_queue_def)
  with Cons q show ?case
    by (auto simp: gs_loop_simps intro!: exec_write_fail_rel split: option.splits prod.splits)
qed (simp add: exec_write_fail_rel step_rel)

lemma exec_write_rel: "R w (exec_write_cb k opc pdu w)"
  by (auto simp: exec_write_cb_def Let_def intro!: error_rel send_rel empty_queue_rel exec_next_rel rel_refl
      split: option.splits)

lemma mtu_rel: "R w (exchange_mtu_cb k opc pdu w)"
proof -
  have "R w (snd (bt_att_set_mtu m (v\<lparr>gs_mtu := m\<rparr>)))" if "R w v" "23 \<le> unat m" for v m
    using rel_trans [OF that(1) rel_mtu [OF that(2)]] .
  moreover have "23 \<le> unat (max m BT_ATT_DEFAULT_LE_MTU)" for m
    by (auto simp: max_def BT_ATT_DEFAULT_LE_MTU_def word_le_nat_alt)
  ultimately show ?thesis by (simp add: exchange_mtu_cb_def Let_def step_rel)
qed

theorem notify_rel: "R w (gs_notify k f opc pdu ud w)"
  by (cases f) (simp_all add: gs_notify_def mtu_rel read_by_grp_type_rel read_by_type_rel find_info_rel
      find_by_type_val_rel write_rel read_rel read_multiple_rel prep_write_rel exec_write_rel rel_refl rel_notify)

end

section \<open>The invariant of the server\<close>

definition gs_inv :: "('c, 'v, 'z) gatt_world_scheme \<Rightarrow> bool" where
  "gs_inv w \<longleftrightarrow> 23 \<le> unat (att_mtu w) \<and> 23 \<le> unat (gs_mtu w) \<and>
     length (prep_queue w) \<le> max_prep_queue_len w \<and> db_inv (gs_db w)"

lemma enqueue_queue_frame [gs_frame]:
  "prep_queue (wakeup_writer w) = prep_queue w" "max_prep_queue_len (wakeup_writer w) = max_prep_queue_len w"
  "gs_mtu (wakeup_writer w) = gs_mtu w" "gs_db (wakeup_writer w) = gs_db w"
  "gs_mtu (enqueue_op op w) = gs_mtu w" "gs_db (enqueue_op op w) = gs_db w"
  "prep_queue (enqueue_op op w) = prep_queue w" "max_prep_queue_len (enqueue_op op w) = max_prep_queue_len w"
  by (simp_all add: wakeup_writer_def enqueue_op_def split: att_op_type.splits)

lemma send_same_queue: "same_queue w (snd (bt_att_send env opc pdu len cb ud d w))"
  using bt_att_send_shape [of env opc pdu len cb ud d w] by (auto simp: same_queue_def gs_frame)

lemma gs_inv_send: "gs_inv (snd (bt_att_send env opc pdu len cb ud d w)) = gs_inv w"
  using bt_att_send_shape [of env opc pdu len cb ud d w]
  by (auto simp: gs_inv_def att_frame gs_frame)

lemma gs_inv_fields [simp]:
  "gs_inv (w\<lparr>pending_read_op := a\<rparr>) = gs_inv w" "gs_inv (w\<lparr>pending_write_op := a\<rparr>) = gs_inv w"
  "gs_inv (w\<lparr>gs_fault := a\<rparr>) = gs_inv w"
  by (simp_all add: gs_inv_def)

end
