(* ===== verification/Att_Rel.thy ===== *)
theory Att_Rel
  imports Att_Inv
begin

text \<open>
  A relation between states that the bearer's own bookkeeping cannot break and that every callback
  keeps is kept by every event of the bearer. Layers above use it to carry their
  invariants through \<open>att_do\<close>.
\<close>

locale att_relation =
  fixes env :: "('f, 'u, ('f, 'u, 'z) bt_att_scheme) att_env"
    and R :: "('f, 'u, 'z) bt_att_scheme \<Rightarrow> ('f, 'u, 'z) bt_att_scheme \<Rightarrow> bool"
  assumes bearer: "bt_att.more w' = bt_att.more w \<Longrightarrow> att_mtu w' = att_mtu w \<or> 23 \<le> unat (att_mtu w') \<Longrightarrow> R w w'"
    and rel_trans: "R w1 w2 \<Longrightarrow> R w2 w3 \<Longrightarrow> R w1 w3"
    and response_rel: "R w (e_response env f opc rsp ud w)"
    and notify_rel: "R w (e_notify env f opc p ud w)"
    and destroy_rel: "R w (e_destroy env f ud w)"
    and disconnect_rel: "R w (e_disconnect env f err ud w)"
    and timeout_rel: "R w (e_timeout env f i opc ud w)"
begin

lemma rel_refl: "R w w"
  by (rule bearer) simp_all

lemma own: "R u w \<Longrightarrow> bt_att.more w' = bt_att.more w \<Longrightarrow> att_mtu w' = att_mtu w \<Longrightarrow> R u w'"
  using rel_trans bearer by blast

text \<open>The bearer's fields, and the steps made of them alone.\<close>

lemma own_fields:
  assumes "R u w"
  shows "R u (w\<lparr>req_queue := q\<rparr>)" "R u (w\<lparr>ind_queue := q\<rparr>)" "R u (w\<lparr>write_queue := q\<rparr>)"
    "R u (w\<lparr>pending_req := p\<rparr>)" "R u (w\<lparr>pending_ind := p\<rparr>)" "R u (w\<lparr>in_req := b\<rparr>)" "R u (w\<lparr>att_freed := b\<rparr>)"
    "R u (w\<lparr>att_notify_list := n\<rparr>)" "R u (w\<lparr>disconn_list := d\<rparr>)" "R u (w\<lparr>next_reg_id := i\<rparr>)"
    "R u (w\<lparr>att_ref_count := c\<rparr>)" "R u (w\<lparr>att_sent := s\<rparr>)" "R u (w\<lparr>att_timers := t\<rparr>)"
    "R u (w\<lparr>pending_req := p, req_queue := q\<rparr>)" "R u (w\<lparr>pending_req := p, att_timers := t\<rparr>)"
    "R u (w\<lparr>pending_ind := p, att_timers := t\<rparr>)" "R u (w\<lparr>att_notify_list := n, next_reg_id := i\<rparr>)"
    "R u (w\<lparr>disconn_list := d, next_reg_id := i\<rparr>)" "R u (w\<lparr>io_writer := b\<rparr>)"
    "R u (timeout_remove_att j w)" "R u (wakeup_writer w)" "R u (io_shutdown_att w)" "R u (io_destroy_att w)"
    "R u (bt_att_ref w)" "R u (write_watch_destroy w)" "R u (w\<lparr>io_sec_level := l\<rparr>)"
  using assms by (auto intro: own simp: timeout_remove_att_def io_shutdown_att_def io_destroy_att_def bt_att_ref_def
      write_watch_destroy_def att_frame)

lemma send_rel: "R u w \<Longrightarrow> R u (snd (bt_att_send env' opc pdu len cb ud d w))"
  using bt_att_send_shape [of env' opc pdu len cb ud d w] own [of u w] by (auto simp: att_frame)

lemma calls:
  assumes "R u w"
  shows "R u (e_response env f opc rsp ud w)" "R u (e_notify env f opc p ud w)" "R u (e_destroy env f ud w)"
    "R u (e_disconnect env f err ud w)" "R u (e_timeout env f i opc ud w)" "R u (call_destroy env d ud w)"
    "R u (destroy_att_send_op env op w)" "R u (disc_att_send_op env op w)"
    "R u (destroy_att_notify env n w)" "R u (destroy_att_disconn env dc w)" "R u (disconn_handler env err i w)"
proof -
  note t = rel_trans [OF assms]
  show e: "R u (e_response env f opc rsp ud w)" "R u (e_notify env f opc p ud w)" "R u (e_destroy env f ud w)"
      "R u (e_disconnect env f err ud w)" "R u (e_timeout env f i opc ud w)"
    by (rule t, rule response_rel notify_rel destroy_rel disconnect_rel timeout_rel)+
  have d: "R u (call_destroy env d ud v)" if "R u v" for d ud v
    using rel_trans [OF that destroy_rel] that by (simp add: call_destroy_def split: option.split)
  then show "R u (call_destroy env d ud w)" using assms by blast
  have s: "R u (destroy_att_send_op env op v)" if "R u v" for op v
    using that by (auto simp: destroy_att_send_op_def intro!: d own_fields)
  then show "R u (destroy_att_send_op env op w)" using assms by blast
  show "R u (disc_att_send_op env op w)"
    using assms rel_trans [OF assms response_rel] by (auto simp: disc_att_send_op_def intro!: s split: option.split)
  show "R u (destroy_att_notify env n w)" "R u (destroy_att_disconn env dc w)"
    using d assms by (simp_all add: destroy_att_notify_def destroy_att_disconn_def)
  show "R u (disconn_handler env err i w)"
    using assms t disconnect_rel by (auto simp: disconn_handler_def split: option.split)
qed

lemma fold_rel: "R u w \<Longrightarrow> (\<And>x w. R u w \<Longrightarrow> R u (g x w)) \<Longrightarrow> R u (fold g xs w)"
  by (induction xs arbitrary: w) auto

lemmas step_rel = rel_refl own_fields send_rel calls

lemma cancel_pending_rel: "R u w \<Longrightarrow> R u (cancel_pending_req env w)" "R u w \<Longrightarrow> R u (cancel_pending_ind env w)"
  by (auto simp: cancel_pending_req_def cancel_pending_ind_def cancel_att_send_op_def intro!: step_rel split: option.split)

lemma cancel_all_rel: "R u w \<Longrightarrow> R u (bt_att_cancel_all env w)"
  by (auto simp: bt_att_cancel_all_def Let_def intro!: cancel_pending_rel fold_rel step_rel)

lemma unregister_all_rel: "R u w \<Longrightarrow> R u (bt_att_unregister_all env w)"
  by (auto simp: bt_att_unregister_all_def Let_def intro!: fold_rel step_rel)

lemma free_rel: "R u w \<Longrightarrow> R u (bt_att_free env w)"
  by (auto simp: bt_att_free_def Let_def intro!: step_rel split: option.split)

lemma unref_rel: "R u w \<Longrightarrow> R u (bt_att_unref env w)"
  by (auto simp: bt_att_unref_def Let_def intro!: free_rel cancel_all_rel unregister_all_rel step_rel)

lemma cancel_rel: "R u w \<Longrightarrow> R u (snd (bt_att_cancel env i w))"
  by (auto simp: bt_att_cancel_def intro!: cancel_pending_rel step_rel split: prod.split option.split)

lemma unregister_rel:
  "R u w \<Longrightarrow> R u (snd (bt_att_unregister env i w))" "R u w \<Longrightarrow> R u (snd (bt_att_unregister_disconnect env i w))"
  by (auto simp: bt_att_unregister_def bt_att_unregister_disconnect_def intro!: step_rel split: prod.split option.split)

lemma settings_rel:
  "R u w \<Longrightarrow> R u (snd (bt_att_register opc cb ud d w))"
  "R u w \<Longrightarrow> R u (snd (bt_att_register_disconnect cb ud d w))"
  "R u w \<Longrightarrow> R u (snd (bt_att_set_mtu m w))"
proof -
  assume a: "R u w"
  show "R u (snd (bt_att_register opc cb ud d w))" "R u (snd (bt_att_register_disconnect cb ud d w))"
    by (rule own [OF a]; simp add: bt_att_register_def bt_att_register_disconnect_def Let_def split: option.split)+
  have "R w (w\<lparr>att_mtu := m\<rparr>)" if "\<not> m < BT_ATT_DEFAULT_LE_MTU"
    by (rule bearer) (use that in \<open>simp_all add: BT_ATT_DEFAULT_LE_MTU_def word_less_nat_alt\<close>)
  with rel_trans [OF a] a show "R u (snd (bt_att_set_mtu m w))" by (simp add: bt_att_set_mtu_def)
qed

lemma security_rel: "change_security env e w = (b, w') \<Longrightarrow> R u w \<Longrightarrow> R u w'"
  by (auto simp: change_security_def bt_att_set_security_def Let_def intro!: own_fields split: if_splits)

lemma finish_req_rel: "R u w \<Longrightarrow> R u (finish_req env op opc p w)"
  by (auto simp: finish_req_def Let_def intro!: step_rel split: option.split)

lemma error_rsp_rel: "handle_error_rsp env p w = (b, opc, w') \<Longrightarrow> R u w \<Longrightarrow> R u w'"
  by (auto simp: handle_error_rsp_def Let_def intro!: step_rel dest: security_rel
      split: option.splits if_splits prod.splits bool.splits)

lemma handle_rsp_rel: "R u w \<Longrightarrow> R u (handle_rsp env opc p w)"
  by (auto simp: handle_rsp_def intro!: step_rel finish_req_rel dest: error_rsp_rel
      split: option.split prod.splits bool.splits if_splits)

lemma handle_conf_rel: "R u w \<Longrightarrow> R u (handle_conf env p w)"
  by (auto simp: handle_conf_def Let_def intro!: step_rel split: option.split)

lemma notify_loop_rel: "R u w \<Longrightarrow> R u (snd (notify_loop env opc p ns found w))"
proof (induction ns arbitrary: found w)
  case (Cons n ns)
  from Cons.IH [OF calls(2) [OF Cons.prems]] Cons calls(2) [OF Cons.prems] show ?case
    by (simp add: Let_def)
qed simp

lemma handle_notify_rel: "R u w \<Longrightarrow> R u (att_handle_notify env opc p w)"
proof -
  assume a: "R u w"
  have "R u v" if "notify_loop env opc q ns b (bt_att_ref w) = (found, v)" for q ns b found v
    using notify_loop_rel [of u "bt_att_ref w" opc q ns b] that own_fields(24) [OF a] by simp
  with a show ?thesis
    by (auto simp: att_handle_notify_def Let_def respond_not_supported_def intro!: unref_rel step_rel split: prod.split)
qed

lemma can_read_rel: "R u w \<Longrightarrow> R u (snd (can_read_data env input w))"
  by (auto simp: can_read_data_def Let_def intro!: unref_rel handle_rsp_rel handle_conf_rel handle_notify_rel step_rel
      split: option.split att_op_type.split)

lemma pick_next_rel: "pick_next_send_op w = (r, w') \<Longrightarrow> R u w \<Longrightarrow> R u w'"
  by (auto simp: pick_next_send_op_def intro!: step_rel split: prod.splits option.splits if_splits)

lemma can_write_rel: "can_write_data env ret tid w = (b, w') \<Longrightarrow> R u w \<Longrightarrow> R u w'"
  by (auto simp: can_write_data_def Let_def intro!: step_rel dest!: pick_next_rel
      split: prod.splits option.splits if_splits att_op_type.splits)

lemma write_event_rel: "R u w \<Longrightarrow> R u (att_write_event env ret tid w)"
  by (auto simp: att_write_event_def intro!: step_rel dest: can_write_rel split: prod.split bool.split)

lemma timeout_cb_rel: "R u w \<Longrightarrow> R u (att_timeout_cb env i w)"
  by (auto simp: att_timeout_cb_def Let_def intro!: step_rel split: option.split prod.split)

lemma disconnect_cb_rel: "R u w \<Longrightarrow> R u (disconnect_cb env err w)"
  by (auto simp: disconnect_cb_def Let_def intro!: unref_rel unregister_all_rel fold_rel step_rel split: option.split)

theorem do_rel: "R w (att_do env i w)"
  by (cases i) (auto simp: bt_att_send_error_rsp_def intro!: can_read_rel write_event_rel timeout_cb_rel disconnect_cb_rel
      cancel_rel cancel_all_rel unregister_rel unref_rel settings_rel step_rel)

end

end
