(* ===== verification/Server_Inv.thy ===== *)
theory Server_Inv
  imports Server Gatt_Server_Inv Att_Rel
begin

text \<open>
  The wall clock server as a client of the layers below: the interfaces of the bearer and of the GATT
  server are interpreted on its callbacks, and the whole program keeps its invariants over every
  run of the main loop.
\<close>

section \<open>Frames of the callbacks\<close>

lemma att_ok_more:
  "bt_att.truncate w' = bt_att.truncate w \<Longrightarrow> att_ok w' = att_ok w"
  by (simp add: bt_att.defs att_ok_def att_queues_ok_def att_timers_ok_def att_writer_ok_def has_work_def)

lemma callback_ok_same:
  "bt_att.truncate w' = bt_att.truncate w \<Longrightarrow> callback_ok w w'"
  by (simp add: bt_att.defs callback_ok_def att_core_ok_def att_ok_def att_queues_ok_def att_timers_ok_def
      att_writer_ok_def has_work_def)

lemma set_mtu_callback_ok: "callback_ok w (w\<lparr>gs_mtu := m, att_mtu := m\<rparr>)"
  by (simp add: callback_ok_def att_core_ok_def att_ok_def att_queues_ok_def att_timers_ok_def
      att_writer_ok_def has_work_def)

lemma clk_read_state [simp]: "snd (clk_read f p i off opc ud w) = w"
  by (cases f) (simp_all add: clk_read_def)

lemma clock_read_data_cb_ok: "callback_ok w (clock_read_data_cb K buf w)"
  by (simp add: clock_read_data_cb_def bt_gatt_server_send_notification_def Let_def bt_att_send_callback_ok split: prod.split)
     (metis bt_att_send_callback_ok snd_conv)

lemma fields_ok:
  "callback_ok w (w\<lparr>gPollInterval := a, gDelta := b, gVbat := c, gMatch := d, gLastPollTime := e, gPollCount := f, gTimeouts := g\<rparr>)"
  "callback_ok w (w\<lparr>lastActivity := h\<rparr>)" "callback_ok w (w\<lparr>gFaceTime := i\<rparr>)" "callback_ok w (w\<lparr>exited := x\<rparr>)"
  by (simp_all add: callback_ok_same bt_att.defs)

lemma clock_command_ok: "callback_ok w (clock_command K cmd w)"
proof -
  note t = callback_ok_trans [OF callback_ok_trans [OF fields_ok(1) clock_read_data_cb_ok] fields_ok(2)]
  show ?thesis
    unfolding clock_command_def Let_def
    by (auto intro!: fields_ok(4) callback_ok_refl clock_read_data_cb_ok callback_ok_trans [OF clock_read_data_cb_ok fields_ok(2)]
        t callback_ok_trans [OF t fields_ok(3)])
qed

lemma clk_write_ok: "callback_ok w (snd (clk_write K f p i off v opc ud w))"
  by (cases f) (auto simp: clk_write_def gatt_svc_chngd_ccc_write_cb_def clock_read_data_ccc_write_cb_def
      clock_write_data_write_cb_def clock_command_ok callback_ok_refl callback_ok_same bt_att.defs split: option.splits)

text \<open>Prepared writes are not the client's.\<close>

lemma clock_read_data_cb_queue: "same_queue w (clock_read_data_cb K buf w)"
  using send_same_queue unfolding clock_read_data_cb_def bt_gatt_server_send_notification_def Let_def
  by (metis (no_types, lifting) case_prod_unfold snd_conv)

lemma clk_write_queue: "same_queue w (snd (clk_write K f p i off v opc ud w))"
proof -
  have "same_queue w (clock_command K cmd w)" for cmd
    using clock_read_data_cb_queue [of _ K] unfolding clock_command_def Let_def same_queue_def
    by simp
  then show ?thesis
    by (cases f) (auto simp: clk_write_def gatt_svc_chngd_ccc_write_cb_def clock_read_data_ccc_write_cb_def
        clock_write_data_write_cb_def same_queue_def split: option.splits)
qed

section \<open>Interpretations\<close>

lemma clk_env_simps [simp]:
  "ge_att (clk_env K) = clk_att_base K" "ge_read (clk_env K) = clk_read" "ge_write (clk_env K) = clk_write K"
  "ge_conf (clk_env K) c ud w = w" "ge_destroy (clk_env K) c ud w = w"
  by (simp_all add: clk_env_def clk_send_env_def)

interpretation clk_queue: gs_attr_relation "clk_env K" same_queue for K
  by unfold_locales (simp_all add: clk_write_queue, simp_all add: same_queue_def)

interpretation clk_cb: gs_relation "clk_env K" callback_ok for K
  by unfold_locales
    (auto simp: clk_write_ok callback_ok_refl callback_ok_same bt_att.defs bt_att_send_callback_ok
      gs_send_simps clk_att_base_def bt_att_set_mtu_def set_mtu_callback_ok intro: callback_ok_trans)


interpretation clk_att: att_client "gs_att_env (clk_env K)" for K
proof
  fix w :: server and f opc rsp ud p err i
  show "callback_ok w (e_response (gs_att_env (clk_env K)) f opc rsp ud w)"
    by (simp add: gs_att_env_def gs_response_def conf_cb_def clk_att_base_def callback_ok_refl
        split: att_cb.split option.split att_ud.split)
  show "callback_ok w (e_notify (gs_att_env (clk_env K)) f opc p ud w)"
    by (simp add: gs_att_env_def clk_cb.notify_rel)
  show "callback_ok w (e_destroy (gs_att_env (clk_env K)) f ud w)"
    by (simp add: gs_att_env_def gs_destroy_def destroy_ind_data_def clk_att_base_def callback_ok_refl
        split: att_cb.split option.split att_ud.split)
  show "callback_ok w (e_disconnect (gs_att_env (clk_env K)) f err ud w)"
    by (simp add: gs_att_env_def clk_att_base_def callback_ok_refl callback_ok_same bt_att.defs
        split: att_cb.split clk_fn.split)
  show "callback_ok w (e_timeout (gs_att_env (clk_env K)) f i opc ud w)"
    by (simp add: gs_att_env_def clk_att_base_def callback_ok_refl)
qed

section \<open>Runs of the program\<close>

text \<open>Identifiers of armed timeouts are not given out again.\<close>

fun clk_fresh :: "clk_input list \<Rightarrow> server \<Rightarrow> bool" where
  "clk_fresh [] w = True"
| "clk_fresh (ev # evs) w = (fresh_timeout (snd ev) w \<and> clk_fresh evs (clk_do ev w))"

lemma clk_run_att_ok: "att_ok w \<Longrightarrow> clk_fresh evs w \<Longrightarrow> att_ok (fold clk_do evs w)"
  by (induction evs arbitrary: w) (simp_all add: clk_do_def clk_att.do_ok)

section \<open>The invariant of the program\<close>

text \<open>
  With the server's invariant: at most thirty prepared writes, the battery voltage within its 12
  bits, and the poll interval a power of two below \<open>2 ^ 16\<close> once the clock has reported.
\<close>

definition clk_inv :: "server \<Rightarrow> bool" where
  "clk_inv w \<longleftrightarrow> gs_inv w \<and> max_prep_queue_len w = DEFAULT_MAX_PREP_QUEUE_LEN \<and> unat (gVbat w) < 4096 \<and>
     (gPollInterval w = 0 \<or> (\<exists>i < 16. gPollInterval w = 2 ^ i))"

lemma sts_ranges: "unat (sts_battery (msg_sts_of m)) < 4096" "unat (sts_interval (msg_sts_of m)) < 16"
proof -
  have "(get_le16 m 2 AND 0x0FFF) \<le> 0x0FFF" by (rule word_and_le1)
  then show "unat (sts_battery (msg_sts_of m)) < 4096"
    by (simp add: msg_sts_of_def word_le_nat_alt)
  have "unat (drop_bit 12 (get_le16 m 2)) = drop_bit 12 (unat (get_le16 m 2))"
    using take_bit_nat_eq_self [of "unat (get_le16 m 2)" 16] unat16_lt [of "get_le16 m 2"]
    by (simp add: unsigned_drop_bit_eq)
  also have "\<dots> = unat (get_le16 m 2) div 2 ^ 12" by (rule drop_bit_eq_div)
  also have "\<dots> < 16" using unat16_lt [of "get_le16 m 2"] by (simp add: less_mult_imp_div_less)
  finally show "unat (sts_interval (msg_sts_of m)) < 16" by (simp add: msg_sts_of_def)
qed

lemma clk_inv_fields [simp]:
  "clk_inv (w\<lparr>pending_read_op := a\<rparr>) = clk_inv w" "clk_inv (w\<lparr>pending_write_op := a\<rparr>) = clk_inv w"
  "clk_inv (w\<lparr>gs_fault := a\<rparr>) = clk_inv w" "clk_inv (w\<lparr>lastActivity := h\<rparr>) = clk_inv w"
  "clk_inv (w\<lparr>gFaceTime := x\<rparr>) = clk_inv w" "clk_inv (w\<lparr>exited := a\<rparr>) = clk_inv w"
  "clk_inv (w\<lparr>svc_chngd_enabled := a\<rparr>) = clk_inv w" "clk_inv (w\<lparr>clock_read_data_notify := a\<rparr>) = clk_inv w"
  "clk_inv (w\<lparr>quitting := a\<rparr>) = clk_inv w"
  by (simp_all add: clk_inv_def gs_inv_def)

lemma clk_inv_send: "clk_inv (snd (bt_att_send env opc pdu len cb ud d w)) = clk_inv w"
proof -
  have "gVbat (wakeup_writer v) = gVbat v" "gPollInterval (wakeup_writer v) = gPollInterval v"
      "gVbat (enqueue_op op v) = gVbat v" "gPollInterval (enqueue_op op v) = gPollInterval v" for v :: server and op
    by (simp_all add: wakeup_writer_def enqueue_op_def split: att_op_type.splits)
  then show ?thesis
    using bt_att_send_shape [of env opc pdu len cb ud d w] gs_inv_send [of env opc pdu len cb ud d w]
    by (auto simp: clk_inv_def gs_frame)
qed

lemma clk_inv_data_cb: "clk_inv (clock_read_data_cb K buf w) = clk_inv w"
  unfolding clock_read_data_cb_def bt_gatt_server_send_notification_def Let_def
  by (metis (no_types, lifting) case_prod_unfold snd_conv clk_inv_send)

lemma clock_command_inv: "clk_inv w \<Longrightarrow> clk_inv (clock_command K cmd w)"
proof -
  assume "clk_inv w"
  then have "clk_inv (w\<lparr>gPollInterval := push_bit (unat (sts_interval (msg_sts_of m))) 1, gDelta := b,
      gVbat := sts_battery (msg_sts_of m), gMatch := d, gLastPollTime := e, gPollCount := f, gTimeouts := g\<rparr>)" for m b d e f g
    using sts_ranges [of m] by (auto simp: clk_inv_def gs_inv_def push_bit_of_1)
  with \<open>clk_inv w\<close> show ?thesis
    by (simp add: clock_command_def Let_def clk_inv_data_cb)
qed

lemma clk_write_inv: "clk_inv w \<Longrightarrow> clk_inv (snd (clk_write K f p i off v opc ud w))"
  by (cases f) (auto simp: clk_write_def gatt_svc_chngd_ccc_write_cb_def clock_read_data_ccc_write_cb_def
      clock_write_data_write_cb_def clock_command_inv split: option.split)

interpretation clk_inv_gs: gs_relation "clk_env K" "\<lambda>w w'. clk_inv w \<longrightarrow> clk_inv w'" for K
  by unfold_locales
    (auto simp: clk_write_inv clk_inv_send gs_send_simps clk_att_base_def bt_att_set_mtu_def,
     auto simp: clk_inv_def gs_inv_def)

lemma more_eq_fields:
  "bt_att.more w' = bt_att.more w \<Longrightarrow> gs_db w' = gs_db w \<and> gs_mtu w' = gs_mtu w \<and> prep_queue w' = prep_queue w \<and>
     max_prep_queue_len w' = max_prep_queue_len w"
  by (cases w; cases w') simp

lemma more_eq_clk_inv:
  fixes w w' :: server
  assumes "bt_att.more w' = bt_att.more w" and "att_mtu w' = att_mtu w \<or> 23 \<le> unat (att_mtu w')"
  shows "clk_inv w \<longrightarrow> clk_inv w'"
proof -
  have "gVbat w' = gVbat w \<and> gPollInterval w' = gPollInterval w" using assms(1) by (cases w; cases w') simp
  with more_eq_fields [OF assms(1)] assms(2) show ?thesis by (auto simp: clk_inv_def gs_inv_def)
qed

interpretation clk_inv_att: att_relation "gs_att_env (clk_env K)" "\<lambda>w w'. clk_inv w \<longrightarrow> clk_inv w'" for K
proof
  fix w w' w1 w2 w3 :: server and f opc rsp ud p err i
  show "bt_att.more w' = bt_att.more w \<Longrightarrow> att_mtu w' = att_mtu w \<or> 23 \<le> unat (att_mtu w') \<Longrightarrow> clk_inv w \<longrightarrow> clk_inv w'"
    by (rule more_eq_clk_inv)
  show "clk_inv w1 \<longrightarrow> clk_inv w2 \<Longrightarrow> clk_inv w2 \<longrightarrow> clk_inv w3 \<Longrightarrow> clk_inv w1 \<longrightarrow> clk_inv w3" by blast
  show "clk_inv w \<longrightarrow> clk_inv (e_notify (gs_att_env (clk_env K)) f opc p ud w)"
    using clk_inv_gs.notify_rel [of w K f opc p ud] by (simp add: gs_att_env_def)
qed (simp_all add: gs_att_env_def gs_response_def gs_destroy_def conf_cb_def destroy_ind_data_def clk_att_base_def
    split: att_cb.split option.split att_ud.split clk_fn.split)

lemma clk_run_inv: "clk_inv w \<Longrightarrow> clk_inv (fold clk_do evs w)"
  using clk_inv_att.do_rel by (induction evs arbitrary: w) (auto simp: clk_do_def)

end
