(* ===== verification/Gatt_Server_Rsp.thy ===== *)
theory Gatt_Server_Rsp
  imports Gatt_Server_Inv
begin

text \<open>
  Responses of the GATT server. The locale \<open>gs_client\<close> states what the server asks of the attribute
  functions of its client: they report their result, and send no response, change no MTU and free no
  server. Under it every request handler queues exactly one response, which fits the MTU and is the
  response or the error response of its request, and no operation is left pending.
\<close>

section \<open>Responses in the write queue\<close>

definition rsps :: "('f, 'u, 'z) bt_att_scheme \<Rightarrow> bytes list" where
  "rsps w = map op_pdu (filter (\<lambda>op. op_type op = ATT_OP_TYPE_RSP) (write_queue w))"

definition answer_for :: "u8 \<Rightarrow> bytes \<Rightarrow> bool" where
  "answer_for opc r \<longleftrightarrow>
     (\<exists>h e. e \<noteq> 0 \<and> r = BT_ATT_OP_ERROR_RSP # opc # put_le16 h @ [e]) \<or>
     (\<exists>rsp p. r = rsp # p \<and> opc \<noteq> 0 \<and> get_req_opcode rsp = opc)"

text \<open>What a step that is not the response keeps.\<close>

definition silent :: "('c, 'v, 'z) gatt_world_scheme \<Rightarrow> ('c, 'v, 'z) gatt_world_scheme \<Rightarrow> bool" where
  "silent w w' \<longleftrightarrow> rsps w' = rsps w \<and> att_io w' = att_io w \<and> att_mtu w' = att_mtu w \<and> gs_freed w' = gs_freed w \<and>
     pending_read_op w' = pending_read_op w \<and> pending_write_op w' = pending_write_op w \<and>
     (db_inv (gs_db w) \<longrightarrow> db_inv (gs_db w'))"

definition answered :: "u8 \<Rightarrow> ('c, 'v, 'z) gatt_world_scheme \<Rightarrow> ('c, 'v, 'z) gatt_world_scheme \<Rightarrow> bool" where
  "answered opc w w' \<longleftrightarrow> (\<exists>r. rsps w' = rsps w @ [r] \<and> length r \<le> unat (att_mtu w) \<and> answer_for opc r) \<and>
     att_io w' = att_io w \<and> gs_freed w' = gs_freed w \<and>
     pending_read_op w' = pending_read_op w \<and> pending_write_op w' = pending_write_op w \<and>
     (db_inv (gs_db w) \<longrightarrow> db_inv (gs_db w'))"

text \<open>A server that can answer.\<close>

definition can_answer :: "('c, 'v, 'z) gatt_world_scheme \<Rightarrow> bool" where
  "can_answer w \<longleftrightarrow> att_io w \<and> \<not> gs_freed w \<and> 23 \<le> unat (att_mtu w) \<and> db_inv (gs_db w)"

lemma silent_refl [simp]: "silent w w"
  by (simp add: silent_def)

lemma silent_trans: "silent u v \<Longrightarrow> silent v w \<Longrightarrow> silent u w"
  by (simp add: silent_def)

lemma silent_can_answer: "silent w w' \<Longrightarrow> can_answer w \<Longrightarrow> can_answer w'"
  by (simp add: silent_def can_answer_def)

lemma silent_answered: "silent u v \<Longrightarrow> answered opc v w \<Longrightarrow> answered opc u w"
  by (auto simp: silent_def answered_def)

lemma silent_mtu: "silent u v \<Longrightarrow> bt_att_get_mtu v = bt_att_get_mtu u"
  by (simp add: silent_def bt_att_get_mtu_def)

lemma rsp_opcodes [simp]:
  "get_req_opcode BT_ATT_OP_MTU_RSP = BT_ATT_OP_MTU_REQ"
  "get_req_opcode BT_ATT_OP_FIND_INFO_RSP = BT_ATT_OP_FIND_INFO_REQ"
  "get_req_opcode BT_ATT_OP_FIND_BY_TYPE_RSP = BT_ATT_OP_FIND_BY_TYPE_REQ"
  "get_req_opcode BT_ATT_OP_READ_BY_TYPE_RSP = BT_ATT_OP_READ_BY_TYPE_REQ"
  "get_req_opcode BT_ATT_OP_READ_RSP = BT_ATT_OP_READ_REQ"
  "get_req_opcode BT_ATT_OP_READ_BLOB_RSP = BT_ATT_OP_READ_BLOB_REQ"
  "get_req_opcode BT_ATT_OP_READ_MULT_RSP = BT_ATT_OP_READ_MULT_REQ"
  "get_req_opcode BT_ATT_OP_READ_BY_GRP_TYPE_RSP = BT_ATT_OP_READ_BY_GRP_TYPE_REQ"
  "get_req_opcode BT_ATT_OP_WRITE_RSP = BT_ATT_OP_WRITE_REQ"
  "get_req_opcode BT_ATT_OP_PREP_WRITE_RSP = BT_ATT_OP_PREP_WRITE_REQ"
  "get_req_opcode BT_ATT_OP_EXEC_WRITE_RSP = BT_ATT_OP_EXEC_WRITE_REQ"
  by (simp_all add: get_req_opcode_def att_req_rsp_mapping_table_def att_opcodes)

lemma req_not_0 [simp]:
  "BT_ATT_OP_MTU_REQ \<noteq> 0" "BT_ATT_OP_FIND_INFO_REQ \<noteq> 0" "BT_ATT_OP_FIND_BY_TYPE_REQ \<noteq> 0"
  "BT_ATT_OP_READ_BY_TYPE_REQ \<noteq> 0" "BT_ATT_OP_READ_REQ \<noteq> 0" "BT_ATT_OP_READ_BLOB_REQ \<noteq> 0"
  "BT_ATT_OP_READ_MULT_REQ \<noteq> 0" "BT_ATT_OP_READ_BY_GRP_TYPE_REQ \<noteq> 0" "BT_ATT_OP_WRITE_REQ \<noteq> 0"
  "BT_ATT_OP_PREP_WRITE_REQ \<noteq> 0" "BT_ATT_OP_EXEC_WRITE_REQ \<noteq> 0"
  by (simp_all add: att_opcodes)

section \<open>Sending a response\<close>

lemma more_eq_server:
  "bt_att.more w' = bt_att.more w \<Longrightarrow> gs_db w' = gs_db w \<and> gs_freed w' = gs_freed w \<and> gs_mtu w' = gs_mtu w \<and>
     pending_read_op w' = pending_read_op w \<and> pending_write_op w' = pending_write_op w \<and>
     prep_queue w' = prep_queue w \<and> max_prep_queue_len w' = max_prep_queue_len w \<and> gs_fault w' = gs_fault w"
  by (cases w; cases w') simp

lemma send_more: "bt_att.more (snd (bt_att_send env opc pdu len cb ud d w)) = bt_att.more w"
  using bt_att_send_shape [of env opc pdu len cb ud d w] by (auto simp: att_frame)

lemma send_fault [simp]: "gs_fault (gs_send k opc pdu w) = gs_fault w" "gs_fault (gs_error k opc h e w) = gs_fault w"
proof -
  have "gs_fault (snd (bt_att_send env opc pdu len cb ud d w)) = gs_fault w" for env opc pdu len cb ud d
    using more_eq_server [OF send_more, of env opc pdu len cb ud d w] by simp
  then show "gs_fault (gs_send k opc pdu w) = gs_fault w" "gs_fault (gs_error k opc h e w) = gs_fault w"
    by (simp_all add: gs_send_def gs_error_def bt_att_send_error_rsp_def)
qed

text \<open>A message without callback: sent in full, when it fits.\<close>

lemma send_rsp:
  fixes w :: "('c, 'v, 'z) gatt_world_scheme"
  assumes "att_io w" and "opc AND ATT_OP_SIGNED_MASK = 0" and "get_op_type opc = ATT_OP_TYPE_RSP"
    and "length (value_bytes pdu) + 1 \<le> unat (att_mtu w)"
    and "w' = snd (bt_att_send env opc pdu (case pdu of None \<Rightarrow> 0 | Some p \<Rightarrow> of_nat (length p)) None None None w)"
  shows "rsps w' = rsps w @ [opc # value_bytes pdu] \<and> att_io w' = att_io w \<and> att_mtu w' = att_mtu w \<and>
    bt_att.more w' = bt_att.more w"
proof -
  define len :: u16 where "len = (case pdu of None \<Rightarrow> 0 | Some p \<Rightarrow> of_nat (length p))"
  have n: "unat len = length (value_bytes pdu)"
    using assms(4) unsigned_less [of "att_mtu w", where 'a = nat]
    by (auto simp: len_def value_bytes_def unsigned_of_nat take_bit_eq_mod split: option.splits)
  then have "unat (1 + len) = 1 + unat len"
    using assms(4) unsigned_less [of "att_mtu w", where 'a = nat] by (subst unat_add_lem [THEN iffD1]) auto
  then have fits: "\<not> 1 + len > att_mtu w" "\<not> 1 > att_mtu w" using assms(4) n by (simp_all add: word_less_nat_alt)
  have len0: "len = 0 \<Longrightarrow> value_bytes pdu = []" using n by simp
  have "create_att_send_op env opc pdu len None None None w =
    Some \<lparr>op_id = 0, op_timeout_id = 0, op_type = ATT_OP_TYPE_RSP, op_opcode = opc, op_pdu = opc # value_bytes pdu,
      op_callback = None, op_destroy = None, op_user_data = None\<rparr>"
    using assms(2,3) fits n len0
    by (cases pdu) (auto simp: create_att_send_op_def encode_pdu_def Let_def value_bytes_def len_def)
  then show ?thesis
    using assms(1,5) unfolding len_def [symmetric] bt_att_send_def Let_def
    by (simp add: att_frame rsps_def enqueue_op_def lq_push_tail_def)
qed

lemma gs_send_answered:
  assumes "can_answer w" and "opc AND ATT_OP_SIGNED_MASK = 0" and "get_op_type opc = ATT_OP_TYPE_RSP"
    and "length (value_bytes pdu) + 1 \<le> unat (att_mtu w)" and "req \<noteq> 0" and "get_req_opcode opc = req"
  shows "answered req w (gs_send k opc pdu w)" and "att_mtu (gs_send k opc pdu w) = att_mtu w"
proof -
  note s = send_rsp [OF _ assms(2-4), of "gs_send k opc pdu w" "ge_att k"]
  have "answer_for req (opc # value_bytes pdu)" using assms(5,6) by (auto simp: answer_for_def)
  with s more_eq_server [of "gs_send k opc pdu w" w] assms(1,4)
  show "answered req w (gs_send k opc pdu w)" "att_mtu (gs_send k opc pdu w) = att_mtu w"
    by (auto simp: answered_def can_answer_def gs_send_def)
qed

lemma unsigned_rsps [simp]:
  "BT_ATT_OP_ERROR_RSP AND ATT_OP_SIGNED_MASK = 0" "BT_ATT_OP_MTU_RSP AND ATT_OP_SIGNED_MASK = 0"
  "BT_ATT_OP_FIND_INFO_RSP AND ATT_OP_SIGNED_MASK = 0" "BT_ATT_OP_FIND_BY_TYPE_RSP AND ATT_OP_SIGNED_MASK = 0"
  "BT_ATT_OP_READ_BY_TYPE_RSP AND ATT_OP_SIGNED_MASK = 0" "BT_ATT_OP_READ_RSP AND ATT_OP_SIGNED_MASK = 0"
  "BT_ATT_OP_READ_BLOB_RSP AND ATT_OP_SIGNED_MASK = 0" "BT_ATT_OP_READ_MULT_RSP AND ATT_OP_SIGNED_MASK = 0"
  "BT_ATT_OP_READ_BY_GRP_TYPE_RSP AND ATT_OP_SIGNED_MASK = 0" "BT_ATT_OP_WRITE_RSP AND ATT_OP_SIGNED_MASK = 0"
  "BT_ATT_OP_PREP_WRITE_RSP AND ATT_OP_SIGNED_MASK = 0" "BT_ATT_OP_EXEC_WRITE_RSP AND ATT_OP_SIGNED_MASK = 0"
  "BT_ATT_OP_HANDLE_VAL_NOT AND ATT_OP_SIGNED_MASK = 0"
  by (simp_all add: att_opcodes ATT_OP_SIGNED_MASK_def)

lemma att_ecode_not_0: "att_ecode_from_error err \<noteq> 0"
proof -
  have "(word_of_int err :: u8) \<noteq> 0" if "0 < err" "err < 255"
  proof
    assume "(word_of_int err :: u8) = 0"
    then have "uint (word_of_int err :: u8) = 0" by simp
    with that show False by (simp add: uint_word_of_int take_bit_eq_mod)
  qed
  then show ?thesis by (auto simp: att_ecode_from_error_def att_errors)
qed

lemma gs_error_answered:
  assumes "can_answer w" and "opc \<noteq> 0"
  shows "answered opc w (gs_error k opc h err w)"
proof -
  let ?p = "opc # put_le16 h @ [att_ecode_from_error err]"
  have n: "length ?p = 4" by (simp add: put_le16_def)
  let ?w = "snd (bt_att_send (ge_att k) BT_ATT_OP_ERROR_RSP (Some ?p)
      (case Some ?p of None \<Rightarrow> 0 | Some p \<Rightarrow> of_nat (length p)) None None None w)"
  have "?w = gs_error k opc h err w"
    using assms(2) n by (simp add: gs_error_def bt_att_send_error_rsp_def)
  moreover have "rsps ?w = rsps w @ [BT_ATT_OP_ERROR_RSP # ?p] \<and> att_io ?w = att_io w \<and> att_mtu ?w = att_mtu w \<and>
      bt_att.more ?w = bt_att.more w"
    using send_rsp [of w BT_ATT_OP_ERROR_RSP "Some ?p" ?w "ge_att k"] assms(1) n
    by (simp add: can_answer_def value_bytes_def)
  moreover have "answer_for opc (BT_ATT_OP_ERROR_RSP # ?p)" using att_ecode_not_0 by (auto simp: answer_for_def)
  moreover have "length (BT_ATT_OP_ERROR_RSP # ?p) \<le> unat (att_mtu w)" using n assms(1) by (simp add: can_answer_def)
  ultimately show ?thesis using more_eq_server [of ?w w] unfolding answered_def by auto
qed

section \<open>Requests\<close>

lemma rsps_fields [simp]:
  "rsps (w\<lparr>pending_read_op := a\<rparr>) = rsps w" "rsps (w\<lparr>pending_write_op := a\<rparr>) = rsps w"
  "rsps (w\<lparr>prep_queue := q\<rparr>) = rsps w" "rsps (w\<lparr>gs_fault := a\<rparr>) = rsps w" "rsps (w\<lparr>gs_db := db\<rparr>) = rsps w"
  "rsps (w\<lparr>gs_mtu := m\<rparr>) = rsps w" "rsps (w\<lparr>att_mtu := m\<rparr>) = rsps w"
  by (simp_all add: rsps_def)

lemma can_answer_fields [simp]:
  "can_answer (w\<lparr>pending_read_op := a\<rparr>) = can_answer w" "can_answer (w\<lparr>pending_write_op := a\<rparr>) = can_answer w"
  "can_answer (w\<lparr>prep_queue := q\<rparr>) = can_answer w" "can_answer (w\<lparr>gs_fault := a\<rparr>) = can_answer w"
  by (simp_all add: can_answer_def)

lemma silent_queue: "silent w (w\<lparr>prep_queue := q\<rparr>)" "silent w (w\<lparr>gs_fault := c\<rparr>)"
  by (simp_all add: silent_def)

lemma finish_op:
  "answered opc (w\<lparr>pending_read_op := True\<rparr>) v \<Longrightarrow> \<not> pending_read_op w \<Longrightarrow> \<not> gs_freed w \<Longrightarrow>
     answered opc w (async_read_op_destroy v)"
  "answered opc (w\<lparr>pending_write_op := True\<rparr>) v \<Longrightarrow> \<not> pending_write_op w \<Longrightarrow> \<not> gs_freed w \<Longrightarrow>
     answered opc w (async_write_op_destroy v)"
  by (simp_all add: answered_def async_read_op_destroy_def async_write_op_destroy_def)

lemma length_put_le16 [simp]: "length (put_le16 x) = 2"
  by (simp add: put_le16_def)

lemma encode_grp_length:
  "encode_read_by_grp_type_rsp k q mtu n pdu w = (Some r, w') \<Longrightarrow> 2 \<le> unat mtu \<Longrightarrow> length pdu + 1 \<le> unat mtu \<Longrightarrow>
     length r + 1 \<le> unat mtu"
proof (induction q arbitrary: n pdu w)
  case (Cons p q)
  obtain ok res v where v: "gs_attribute_read k p 0 BT_ATT_OP_READ_BY_GRP_TYPE_REQ Attribute_Read_Cb Ud_Iov w = (ok, res, v)"
    by (metis prod_cases3)
  obtain dvl pdu' stop where u: "grp_unit mtu n pdu (attribute_read_cb res) = (dvl, pdu', stop)" by (metis prod_cases3)
  then have p: "length pdu' + 1 \<le> unat mtu" and f: "\<not> stop \<Longrightarrow> length pdu' + dvl + 5 \<le> unat mtu"
    using Cons.prems(2,3) by (auto simp: grp_unit_def Let_def uint_unat16 simp del: of_nat_unat)
  from Cons.prems(1) v u consider "stop" "r = pdu'" | a b where "\<not> stop"
      "encode_read_by_grp_type_rsp k q mtu dvl (pdu' @ put_le16 a @ put_le16 b @ take dvl (attribute_read_cb res)) v = (Some r, w')"
    by (auto simp: gs_loop_simps Let_def split: if_split_asm option.split_asm prod.split_asm)
  then show ?case
  proof cases
    case 2
    from f [OF 2(1)] show ?thesis by (intro Cons.IH [OF 2(2) Cons.prems(2)]) simp
  qed (use p in simp)
qed simp

lemma uuid_le_length: "length (snd (bt_uuid_to_le t)) \<le> (if bt_uuid_len t = 2 then 2 else 16)"
  by (cases t) (simp_all add: bt_uuid_len_def bt_uuid_to_le_def bswap_128_def)

text \<open>One attribute: the UUID length, the bytes before the unit, and whether the list ends here.\<close>

lemma find_info_step:
  fixes n :: nat
  defines "m t pdu \<equiv> if pdu = [] then if bt_uuid_len t = 2 then 2 else 16 else n"
    and "b t pdu \<equiv> if pdu = [] then [if bt_uuid_len t = 2 then 0x01 else 0x02] else pdu"
  assumes "gatt_db_attribute_get_type db (Some p) = Some t" and "encode_find_info_rsp db (p # q) mtu n pdu = Some r"
  shows "r = b t pdu \<or> (length (b t pdu) + m t pdu + 3 \<le> unat mtu \<and> (pdu \<noteq> [] \<longrightarrow> bt_uuid_len t = n) \<and>
    encode_find_info_rsp db q mtu (m t pdu)
      (b t pdu @ put_le16 (gatt_db_attribute_get_handle db (Some p)) @ snd (bt_uuid_to_le t)) = Some r)"
proof (cases "pdu = []")
  case True
  show ?thesis
    using assms(3,4) unfolding gs_loop_simps Let_def m_def b_def True uint_unat16
    by (cases "bt_uuid_len t = 2") (simp_all del: of_nat_unat split: if_split_asm)
next
  case False
  then show ?thesis
    using assms(3,4) unfolding gs_loop_simps Let_def m_def b_def uint_unat16
    by (simp del: of_nat_unat split: if_split_asm)
qed

lemma encode_find_info_length:
  "encode_find_info_rsp db q mtu n pdu = Some r \<Longrightarrow> pdu \<noteq> [] \<longrightarrow> n \<in> {2, 16} \<Longrightarrow> 2 \<le> unat mtu \<Longrightarrow>
     length pdu + 1 \<le> unat mtu \<Longrightarrow> length r + 1 \<le> unat mtu"
proof (induction q arbitrary: n pdu)
  case (Cons p q)
  obtain t where t: "gatt_db_attribute_get_type db (Some p) = Some t"
    using Cons.prems(1) by (auto simp: gs_loop_simps Let_def split: option.split_asm)
  let ?m = "if pdu = [] then if bt_uuid_len t = 2 then 2 else 16 else n"
  let ?u = "snd (bt_uuid_to_le t)" and ?h = "put_le16 (gatt_db_attribute_get_handle db (Some p))"
  let ?pdu = "if pdu = [] then [if bt_uuid_len t = 2 then 0x01 else 0x02] else pdu"
  have p: "length ?pdu + 1 \<le> unat mtu" using Cons.prems(3,4) by simp
  from find_info_step [OF t Cons.prems(1)] consider "r = ?pdu"
    | "encode_find_info_rsp db q mtu ?m (?pdu @ ?h @ ?u) = Some r" "length ?pdu + ?m + 3 \<le> unat mtu"
        "pdu \<noteq> [] \<longrightarrow> bt_uuid_len t = n"
    by blast
  then show ?case
  proof cases
    case 2
    have "length ?u \<le> ?m" using uuid_le_length [of t] Cons.prems(2) 2(3) by (cases "pdu = []") (auto split: if_split_asm)
    with 2(2) show ?thesis
      by (intro Cons.IH [OF 2(1) _ Cons.prems(3)]) (use Cons.prems(2) in auto)
  qed (use p in simp)
qed simp

lemma find_by_type_length:
  "2 \<le> unat (fd_mtu d) \<Longrightarrow> length (fd_pdu d) + 1 \<le> unat (fd_mtu d) \<Longrightarrow>
    fd_mtu (fold (find_by_type_val_att_cb db) ps d) = fd_mtu d \<and>
    length (fd_pdu (fold (find_by_type_val_att_cb db) ps d)) + 1 \<le> unat (fd_mtu d)"
proof (induction ps arbitrary: d)
  case (Cons p ps)
  have "fd_mtu (find_by_type_val_att_cb db p d) = fd_mtu d \<and> length (fd_pdu (find_by_type_val_att_cb db p d)) + 1 \<le> unat (fd_mtu d)"
    using Cons.prems by (auto simp: find_by_type_val_att_cb_def Let_def uint_unat16 simp del: of_nat_unat split: prod.splits)
  then show ?case using Cons.IH [of "find_by_type_val_att_cb db p d"] Cons.prems by simp
qed simp

section \<open>Handlers\<close>

lemma client_functions:
  assumes "db_inv db" and "attr_at db p = Some a"
  shows "client_fun (read_func a)" and "client_fun (write_func a)"
proof -
  obtain s where "find_service db (fst p) = Some s" "snd p < length (attributes s)" "attributes s ! snd p = Some a"
    using assms(2) by (cases p) (auto simp: attr_at_iff)
  then have "s \<in> set (services db)" "Some a \<in> set (attributes s)" using find_service_in by (blast, metis nth_mem)
  with assms(1) show "client_fun (read_func a)" "client_fun (write_func a)" by (simp_all add: db_inv_def db_clients_def)
qed

locale gs_client = gs_attr_relation k silent
  for k :: "('c, 'v, 'z) gs_env_of" +
  assumes read_answers: "fst (ge_read k f p i off opc ud w) \<noteq> None"
    and write_answers: "fst (ge_write k f p i off val opc ud w) \<noteq> None"
begin

lemma attribute_read_result:
  assumes "gs_attribute_read k p off opc f ud w = (True, r, w')" and "db_inv (gs_db w)"
  shows "r \<noteq> None"
proof -
  obtain a where a: "attr_at (gs_db w) p = Some a"
    using assms(1) by (cases "attr_at (gs_db w) p") (auto simp: gs_attribute_read_def gatt_db_attribute_read_def)
  have "client_fun (read_func a)" by (rule client_functions [OF assms(2) a])
  moreover have "fst (run_read_event k (Call_Read g p i off opc cud) v) \<noteq> None" if "db_client g \<noteq> None" for g i cud v
  proof -
    from that obtain c where c: "db_client g = Some c" by auto
    obtain r v' where "ge_read k c p i off opc cud v = (r, v')" by fastforce
    with c read_answers [of c p i off opc cud v] show ?thesis by (auto simp: run_read_event_def split: option.split prod.split)
  qed
  ultimately have client: "fst (run_read_event k (Call_Read g p i off opc cud) v) \<noteq> None" if "read_func a = Some g" for g i cud v
    using that by (simp add: client_fun_def)
  show ?thesis
  proof (cases "read_func a")
    case None
    with assms(1) a show ?thesis
      by (auto simp: gs_attribute_read_def gatt_db_attribute_read_def run_read_event_def Let_def split: if_split_asm)
  next
    case (Some g)
    with assms(1) a obtain v where "run_read_event k (Call_Read g p (read_id a + 1) off opc (attr_user_data a)) v = (r, w')"
      by (auto simp: gs_attribute_read_def gatt_db_attribute_read_def Let_def)
    with client [OF Some, of "read_id a + 1" "attr_user_data a" v] show ?thesis by simp
  qed
qed

lemma attribute_write_result:
  assumes "gs_attribute_write k p off val opc f ud w = (True, r, w')" and "db_inv (gs_db w)"
  shows "r \<noteq> None"
proof -
  obtain a where a: "attr_at (gs_db w) p = Some a"
    using assms(1) by (cases "attr_at (gs_db w) p") (auto simp: gs_attribute_write_def gatt_db_attribute_write_def)
  have "client_fun (write_func a)" by (rule client_functions [OF assms(2) a])
  moreover have "fst (run_write_event k (Call_Write g p i off val opc cud) v) \<noteq> None" if "db_client g \<noteq> None" for g i cud v
  proof -
    from that obtain c where c: "db_client g = Some c" by auto
    obtain r v' where "ge_write k c p i off val opc cud v = (r, v')" by fastforce
    with c write_answers [of c p i off val opc cud v] show ?thesis by (auto simp: run_write_event_def split: option.split prod.split)
  qed
  ultimately have client: "fst (run_write_event k (Call_Write g p i off val opc cud) v) \<noteq> None" if "write_func a = Some g" for g i cud v
    using that by (simp add: client_fun_def)
  show ?thesis
  proof (cases "write_func a")
    case None
    with assms(1) a show ?thesis
      by (auto simp: gs_attribute_write_def gatt_db_attribute_write_def run_write_event_def Let_def split: if_split_asm)
  next
    case (Some g)
    with assms(1) a obtain v where "run_write_event k (Call_Write g p (write_id a + 1) off val opc (attr_user_data a)) v = (r, w')"
      by (auto simp: gs_attribute_write_def gatt_db_attribute_write_def Let_def)
    with client [OF Some, of "write_id a + 1" "attr_user_data a" v] show ?thesis by simp
  qed
qed

text \<open>Reading or writing: silent, the server can still answer, and there is a result.\<close>

lemma read_step:
  assumes "gs_attribute_read k p off opc f ud w = (ok, r, w')" and "can_answer w"
  shows "silent w w'" and "can_answer w'" and "ok \<Longrightarrow> r \<noteq> None"
proof -
  show "silent w w'" using attribute_read_rel [OF assms(1)] by simp
  then show "can_answer w'" using assms(2) by (rule silent_can_answer)
  show "ok \<Longrightarrow> r \<noteq> None" using attribute_read_result assms by (cases ok) (auto simp: can_answer_def)
qed

lemma write_step:
  assumes "gs_attribute_write k p off val opc f ud w = (ok, r, w')" and "can_answer w"
  shows "silent w w'" and "can_answer w'" and "ok \<Longrightarrow> r \<noteq> None"
proof -
  show "silent w w'" using attribute_write_rel [OF assms(1)] by simp
  then show "can_answer w'" using assms(2) by (rule silent_can_answer)
  show "ok \<Longrightarrow> r \<noteq> None" using attribute_write_result assms by (cases ok) (auto simp: can_answer_def)
qed

lemma error_after: "silent u w \<Longrightarrow> can_answer w \<Longrightarrow> opc \<noteq> 0 \<Longrightarrow> answered opc u (gs_error k opc h e w)"
  by (rule silent_answered [OF _ gs_error_answered])

lemma send_after:
  assumes "silent u w" and "can_answer w" and "length (value_bytes pdu) + 1 \<le> unat (att_mtu w)" and "req \<noteq> 0"
    and "opc AND ATT_OP_SIGNED_MASK = 0" and "get_op_type opc = ATT_OP_TYPE_RSP" and "get_req_opcode opc = req"
  shows "answered req u (gs_send k opc pdu w)"
  by (rule silent_answered [OF assms(1) gs_send_answered(1)]) (use assms in simp_all)

lemma can_answer_mtu: "can_answer w \<Longrightarrow> 23 \<le> unat (bt_att_get_mtu w)"
  by (simp add: can_answer_def bt_att_get_mtu_def)

lemma value_bytes_simps [simp]: "value_bytes None = []" "value_bytes (Some p) = p"
  by (simp_all add: value_bytes_def)

lemma read_by_grp_type_answered:
  assumes "can_answer w"
  shows "answered BT_ATT_OP_READ_BY_GRP_TYPE_REQ w (read_by_grp_type_cb k BT_ATT_OP_READ_BY_GRP_TYPE_REQ pdu w)"
proof -
  note err = gs_error_answered [OF assms req_not_0(8)]
  have enc: "answered BT_ATT_OP_READ_BY_GRP_TYPE_REQ w (case encode_read_by_grp_type_rsp k q (bt_att_get_mtu w) 0 [] w of
        (None, w') \<Rightarrow> gs_error k BT_ATT_OP_READ_BY_GRP_TYPE_REQ h e w'
      | (Some rsp, w') \<Rightarrow> gs_send k BT_ATT_OP_READ_BY_GRP_TYPE_RSP (Some rsp) w')" for q h e
  proof -
    obtain r w' where r: "encode_read_by_grp_type_rsp k q (bt_att_get_mtu w) 0 [] w = (r, w')" by fastforce
    have s: "silent w w'" using encode_grp_rel [OF r] by simp
    have c: "can_answer w'" by (rule silent_can_answer [OF s assms])
    have "length rsp + 1 \<le> unat (att_mtu w')" if "r = Some rsp" for rsp
      using encode_grp_length [OF r [unfolded that]] can_answer_mtu [OF assms] silent_mtu [OF s] by (simp add: bt_att_get_mtu_def)
    then show ?thesis unfolding r by (cases r) (simp_all add: error_after [OF s c] send_after [OF s c])
  qed
  have "get_uuid_le (drop 4 pdu) \<noteq> None" if "length pdu = 6 \<or> length pdu = 20"
    using that by (auto simp: get_uuid_le_def)
  then show ?thesis
    unfolding read_by_grp_type_cb_def Let_def
    by (auto simp only: err enc if_True if_False option.case list.case split: if_split option.split list.split)
qed

lemma find_info_answered:
  assumes "can_answer w"
  shows "answered BT_ATT_OP_FIND_INFO_REQ w (find_info_cb k BT_ATT_OP_FIND_INFO_REQ pdu w)"
proof -
  note err = gs_error_answered [OF assms req_not_0(2)]
  have "length r + 1 \<le> unat (att_mtu w)"
    if "encode_find_info_rsp (gs_db w) q (bt_att_get_mtu w) 0 [] = Some r" for q r
    using encode_find_info_length [OF that] can_answer_mtu [OF assms] by (simp add: bt_att_get_mtu_def)
  then show ?thesis
    unfolding find_info_cb_def Let_def
    by (auto intro!: err send_after [OF silent_refl assms] split: option.split)
qed

lemma find_by_type_answered:
  assumes "can_answer w"
  shows "answered BT_ATT_OP_FIND_BY_TYPE_REQ w (find_by_type_val_cb k BT_ATT_OP_FIND_BY_TYPE_REQ pdu w)"
proof -
  note err = gs_error_answered [OF assms req_not_0(3)]
  have "length (fd_pdu (fold (find_by_type_val_att_cb (gs_db w)) ps \<lparr>fd_pdu = [], fd_mtu = bt_att_get_mtu w, fd_ecode = 0\<rparr>)) + 1
      \<le> unat (att_mtu w)" for ps
    using find_by_type_length [of "\<lparr>fd_pdu = [], fd_mtu = bt_att_get_mtu w, fd_ecode = 0\<rparr>" "gs_db w" ps] can_answer_mtu [OF assms]
    by (simp add: bt_att_get_mtu_def)
  then show ?thesis
    unfolding find_by_type_val_cb_def Let_def by (auto simp: att_errors intro!: err send_after [OF silent_refl assms])
qed

lemma write_complete_answered:
  assumes "can_answer v"
  shows "\<exists>x. answered BT_ATT_OP_WRITE_REQ v x \<and>
    write_complete_cb k \<lparr>wo_opcode = BT_ATT_OP_WRITE_REQ\<rparr> attr e v = async_write_op_destroy x"
proof -
  have "BT_ATT_OP_WRITE_REQ \<noteq> BT_ATT_OP_WRITE_CMD" by (simp add: att_opcodes)
  with assms show ?thesis
    using gs_error_answered [OF assms req_not_0(9)] gs_send_answered(1) [OF assms, of BT_ATT_OP_WRITE_RSP None]
    by (fastforce simp: write_complete_cb_def Let_def can_answer_def)
qed

lemma write_answered:
  assumes "can_answer w"
  shows "answered BT_ATT_OP_WRITE_REQ w (write_cb k BT_ATT_OP_WRITE_REQ pdu w)"
proof -
  note err = gs_error_answered [OF assms req_not_0(9)]
  have c: "can_answer (w\<lparr>pending_write_op := True\<rparr>)" "\<not> gs_freed w" using assms by (simp_all add: can_answer_def)
  let ?op = "\<lparr>wo_opcode = BT_ATT_OP_WRITE_REQ\<rparr>"
  have go: "answered BT_ATT_OP_WRITE_REQ w (case gs_attribute_write k a 0 val BT_ATT_OP_WRITE_REQ Write_Complete_Cb (Ud_Write ?op)
                                    (w\<lparr>pending_write_op := True\<rparr>) of
                               (True, None, w') \<Rightarrow> w'
                             | (True, Some err, w') \<Rightarrow> write_complete_cb k ?op a err w'
                             | (False, _, w') \<Rightarrow> gs_error k BT_ATT_OP_WRITE_REQ h BT_ATT_ERROR_UNLIKELY (async_write_op_destroy w'))"
    if p: "\<not> pending_write_op w" for a val h
  proof -
    obtain ok r v where v: "gs_attribute_write k a 0 val BT_ATT_OP_WRITE_REQ Write_Complete_Cb (Ud_Write ?op)
        (w\<lparr>pending_write_op := True\<rparr>) = (ok, r, v)" by (metis prod_cases3)
    note s = write_step [OF v c(1)]
    show ?thesis
    proof (cases "ok")
      case True
      then obtain e where r: "r = Some e" using s(3) by blast
      obtain x where x: "answered BT_ATT_OP_WRITE_REQ v x" "write_complete_cb k ?op a e v = async_write_op_destroy x"
        using write_complete_answered [OF s(2)] by blast
      with finish_op(2) [OF silent_answered [OF s(1) x(1)] p c(2)] show ?thesis unfolding v by (simp add: True r x(2))
    next
      case False
      have "silent w (async_write_op_destroy v)"
        using s(1) p c(2) by (simp add: silent_def async_write_op_destroy_def)
      from error_after [OF this silent_can_answer [OF this assms] req_not_0(9)] show ?thesis unfolding v using False by simp
    qed
  qed
  have "BT_ATT_OP_WRITE_REQ \<noteq> BT_ATT_OP_WRITE_CMD" by (simp add: att_opcodes)
  then show ?thesis
    unfolding write_cb_def Let_def
    by (auto simp only: err go if_True if_False simp_thms option.case split: if_split option.split)
qed

lemma read_complete_answered:
  assumes "can_answer v" and "opc \<in> {BT_ATT_OP_READ_REQ, BT_ATT_OP_READ_BLOB_REQ}" and "ro_opcode op = opc"
  shows "\<exists>x. answered opc v x \<and> read_complete_cb k op attr e val v = async_read_op_destroy x"
proof -
  have rsp: "get_req_opcode (get_read_rsp_opcode opc) = opc" "get_read_rsp_opcode opc AND ATT_OP_SIGNED_MASK = 0"
      "get_op_type (get_read_rsp_opcode opc) = ATT_OP_TYPE_RSP" "opc \<noteq> 0"
    using assms(2) by (auto simp: get_read_rsp_opcode_def)
  let ?pdu = "if value_bytes val = [] then None
     else Some (take (min (unat (bt_att_get_mtu v) - 1) (length (value_bytes val))) (value_bytes val))"
  have "length (value_bytes ?pdu) + 1 \<le> unat (att_mtu v)"
    using assms(1) by (auto simp: can_answer_def bt_att_get_mtu_def)
  from send_after [OF silent_refl assms(1) this rsp(4,2,3,1)] gs_error_answered [OF assms(1) rsp(4)] show ?thesis
    using assms(1,3) unfolding read_complete_cb_def Let_def can_answer_def by (cases "e = 0") auto
qed

lemma handle_read_req_answered:
  assumes "can_answer w" and "opc \<in> {BT_ATT_OP_READ_REQ, BT_ATT_OP_READ_BLOB_REQ}"
  shows "answered opc w (handle_read_req k opc h off w)"
proof -
  have o: "opc \<noteq> 0" using assms(2) by auto
  note err = gs_error_answered [OF assms(1) o]
  have c: "can_answer (w\<lparr>pending_read_op := True\<rparr>)" "\<not> gs_freed w" using assms by (simp_all add: can_answer_def)
  let ?op = "\<lparr>ro_opcode = opc, ro_done = False, ro_pdu = [], ro_value_len = 0, ro_db_data = []\<rparr>"
  have go: "answered opc w (case gs_attribute_read k a off opc Read_Complete_Cb (Ud_Read ?op) (w\<lparr>pending_read_op := True\<rparr>) of
                      (True, None, w') \<Rightarrow> w'
                    | (True, Some (err, value), w') \<Rightarrow> read_complete_cb k ?op a err value w'
                    | (False, _, w') \<Rightarrow> gs_error k opc h BT_ATT_ERROR_UNLIKELY (async_read_op_destroy w'))"
    if p: "\<not> pending_read_op w" for a
  proof -
    obtain ok r v where v: "gs_attribute_read k a off opc Read_Complete_Cb (Ud_Read ?op) (w\<lparr>pending_read_op := True\<rparr>) = (ok, r, v)"
      by (metis prod_cases3)
    note s = read_step [OF v c(1)]
    show ?thesis
    proof (cases "ok")
      case True
      then obtain e val where r: "r = Some (e, val)" using s(3) by fastforce
      obtain x where x: "answered opc v x" "read_complete_cb k ?op a e val v = async_read_op_destroy x"
        using read_complete_answered [OF s(2) assms(2), of ?op] by fastforce
      with finish_op(1) [OF silent_answered [OF s(1) x(1)] p c(2)] show ?thesis unfolding v by (simp add: True r x(2))
    next
      case False
      have "silent w (async_read_op_destroy v)"
        using s(1) p c(2) by (simp add: silent_def async_read_op_destroy_def)
      from error_after [OF this silent_can_answer [OF this assms(1)] o] show ?thesis unfolding v using False by simp
    qed
  qed
  show ?thesis
    unfolding handle_read_req_def Let_def
    by (auto simp only: err go if_True if_False simp_thms option.case split: if_split option.split)
qed

lemma read_answered:
  assumes "can_answer w"
  shows "answered BT_ATT_OP_READ_REQ w (read_cb k BT_ATT_OP_READ_REQ pdu w)"
    and "answered BT_ATT_OP_READ_BLOB_REQ w (read_blob_cb k BT_ATT_OP_READ_BLOB_REQ pdu w)"
  using assms by (simp_all add: read_cb_def read_blob_cb_def handle_read_req_answered gs_error_answered)

text \<open>Read By Type: the response, and then the operation is destroyed.\<close>

lemma add_value_cases:
  assumes "read_by_type_add_value k op attr err val w = (r, w')" and "can_answer w"
    and "length (ro_pdu op) + 1 \<le> unat (att_mtu w)"
  shows "case r of None \<Rightarrow> \<exists>x. answered BT_ATT_OP_READ_BY_TYPE_REQ w x \<and> w' = async_read_op_destroy x
    | Some op' \<Rightarrow> w' = w \<and> length (ro_pdu op') + 1 \<le> unat (att_mtu w)"
proof (cases "err = 0")
  case True
  have "23 \<le> unat (att_mtu w)" "\<not> gs_freed w" using assms(2) by (simp_all add: can_answer_def)
  with assms(1,3) True show ?thesis
    by (cases "ro_pdu op = []")
       (auto simp: read_by_type_add_value_def Let_def bt_att_get_mtu_def uint_unat16 simp del: of_nat_unat split: if_split_asm)
next
  case False
  with assms show ?thesis
    using gs_error_answered [OF assms(2) req_not_0(4)]
    by (auto simp: read_by_type_add_value_def Let_def can_answer_def)
qed

lemma process_read_by_type_answered:
  "can_answer w \<Longrightarrow> length (ro_pdu op) + 1 \<le> unat (att_mtu w) \<Longrightarrow>
    \<exists>x. answered BT_ATT_OP_READ_BY_TYPE_REQ w x \<and> process_read_by_type k q op w = async_read_op_destroy x"
proof (induction q arbitrary: op w)
  case Nil
  then show ?case using send_after [OF silent_refl Nil(1), of "Some (ro_pdu op)" BT_ATT_OP_READ_BY_TYPE_REQ BT_ATT_OP_READ_BY_TYPE_RSP]
    by auto
next
  case (Cons p q)
  let ?opc = "BT_ATT_OP_READ_BY_TYPE_REQ" and ?op = "op\<lparr>ro_db_data := q\<rparr>"
  have fin: "answered ?opc w (gs_send k BT_ATT_OP_READ_BY_TYPE_RSP (Some (ro_pdu op)) w)"
    using send_after [OF silent_refl Cons.prems(1), of "Some (ro_pdu op)" ?opc] Cons.prems(2) by simp
  note err = gs_error_answered [OF Cons.prems(1) req_not_0(4)]
  obtain ok r v where v: "gs_attribute_read k p 0 (ro_opcode op) Read_By_Type_Read_Complete_Cb (Ud_Read ?op) w = (ok, r, v)"
    by (metis prod_cases3)
  note s = read_step [OF v Cons.prems(1)]
  have m: "length (ro_pdu ?op) + 1 \<le> unat (att_mtu v)" using s(1) Cons.prems(2) by (simp add: silent_def)
  show ?case
  proof (cases "ro_done op \<or> check_permissions k p read_mask w \<noteq> 0 \<or> \<not> ok")
    case True
    have "ro_done op \<or> \<not> ro_done op \<and> check_permissions k p read_mask w \<noteq> 0 \<or>
        \<not> ro_done op \<and> check_permissions k p read_mask w = 0 \<and> \<not> ok" using True by blast
    then show ?thesis
      using v fin err error_after [OF s(1,2) req_not_0(4)]
      by (elim disjE) (simp_all add: gs_loop_simps Let_def, blast+)
  next
    case False
    then obtain e val where r: "r = Some (e, val)" using s(3) by fastforce
    obtain r' u where u: "read_by_type_add_value k ?op p e val v = (r', u)" by fastforce
    note a = add_value_cases [OF u s(2) m]
    have eq: "process_read_by_type k (p # q) op w = (case r' of None \<Rightarrow> u | Some op'' \<Rightarrow> process_read_by_type k q op'' u)"
      using False v r u by (simp add: gs_loop_simps Let_def split: option.split)
    show ?thesis
    proof (cases r')
      case None
      with a eq silent_answered [OF s(1)] show ?thesis by auto
    next
      case (Some op')
      with a have "u = v" "length (ro_pdu op') + 1 \<le> unat (att_mtu v)" by simp_all
      with Cons.IH [OF s(2), of op'] eq Some silent_answered [OF s(1)] show ?thesis by auto
    qed
  qed
qed

lemma read_by_type_answered:
  assumes "can_answer w"
  shows "answered BT_ATT_OP_READ_BY_TYPE_REQ w (read_by_type_cb k BT_ATT_OP_READ_BY_TYPE_REQ pdu w)"
proof -
  note err = gs_error_answered [OF assms req_not_0(4)]
  have c: "can_answer (w\<lparr>pending_read_op := True\<rparr>)" "\<not> gs_freed w" "1 \<le> unat (att_mtu (w\<lparr>pending_read_op := True\<rparr>))"
    using assms by (simp_all add: can_answer_def)
  have go: "answered BT_ATT_OP_READ_BY_TYPE_REQ w (process_read_by_type k q op (w\<lparr>pending_read_op := True\<rparr>))"
    if "\<not> pending_read_op w" "ro_pdu op = []" for q op
    using process_read_by_type_answered [OF c(1), of op q] that c finish_op(1) by auto
  have "get_uuid_le (drop 4 pdu) \<noteq> None" if "length pdu = 6 \<or> length pdu = 20"
    using that by (auto simp: get_uuid_le_def)
  then show ?thesis
    unfolding read_by_type_cb_def Let_def
    by (auto simp only: err go async_read_op.simps if_True if_False simp_thms option.case split: if_split option.split)
qed

text \<open>Read Multiple.\<close>

lemma multiple_append_length:
  "read_multiple_append k rsp mtu p e val w = Inr r \<Longrightarrow> length rsp + 1 \<le> mtu \<Longrightarrow> length r + 1 \<le> mtu"
  by (auto simp: read_multiple_append_def Let_def split: if_split_asm)

lemma read_multiple_complete_answered:
  "can_answer w \<Longrightarrow> mtu = unat (att_mtu w) \<Longrightarrow> length rsp + 1 \<le> mtu \<Longrightarrow>
    answered BT_ATT_OP_READ_MULT_REQ w (read_multiple_complete_cb k q rsp mtu p e val w)"
proof (induction q arbitrary: rsp p e val w)
  case Nil
  then show ?case
    by (auto intro!: gs_error_answered send_after [OF silent_refl] dest: multiple_append_length split: sum.split)
next
  case (Cons h q)
  let ?opc = "BT_ATT_OP_READ_MULT_REQ"
  note err = gs_error_answered [OF Cons.prems(1) req_not_0(7)]
  show ?case
  proof (cases "read_multiple_append k rsp mtu p e val w")
    case (Inr r)
    then have l: "length r + 1 \<le> mtu" using Cons.prems(3) by (rule multiple_append_length)
    have snd: "answered ?opc w (gs_send k BT_ATT_OP_READ_MULT_RSP (Some r) w)"
      by (rule send_after [OF silent_refl Cons.prems(1)]) (use l Cons.prems(2) in simp_all)
    show ?thesis
    proof (cases "length r \<ge> mtu - 1 \<or> gatt_db_get_attribute (gs_db w) h = None")
      case True
      with Inr snd err show ?thesis by (auto simp: gs_loop_simps)
    next
      case False
      then obtain a where a: "gatt_db_get_attribute (gs_db w) h = Some a" by blast
      obtain ok x v where v: "gs_attribute_read k a 0 ?opc Read_Multiple_Complete_Cb
          (Ud_Mult \<lparr>rm_rest = q, rm_rsp_data = r, rm_mtu = mtu\<rparr>) w = (ok, x, v)" by (metis prod_cases3)
      note s = read_step [OF v Cons.prems(1)]
      show ?thesis
      proof (cases ok)
        case True
        then obtain e' val' where x: "x = Some (e', val')" using s(3) by fastforce
        have "answered ?opc v (read_multiple_complete_cb k q r mtu a e' val' v)"
          by (rule Cons.IH [OF s(2) _ l]) (use s(1) Cons.prems(2) in \<open>simp add: silent_def\<close>)
        from silent_answered [OF s(1) this] False Inr a v x True show ?thesis by (simp add: gs_loop_simps)
      qed (use False Inr a v error_after [OF s(1,2) req_not_0(7)] in \<open>simp add: gs_loop_simps\<close>)
    qed
  qed (use err in \<open>simp add: gs_loop_simps\<close>)
qed

lemma read_multiple_answered:
  assumes "can_answer w"
  shows "answered BT_ATT_OP_READ_MULT_REQ w (read_multiple_cb k BT_ATT_OP_READ_MULT_REQ pdu w)"
proof -
  let ?opc = "BT_ATT_OP_READ_MULT_REQ"
  note err = gs_error_answered [OF assms req_not_0(7)]
  have go: "answered ?opc w (case gs_attribute_read k a 0 ?opc Read_Multiple_Complete_Cb ud w of
                       (True, None, w') \<Rightarrow> w'
                     | (True, Some (err, value), w') \<Rightarrow>
                         read_multiple_complete_cb k rest [] (unat (bt_att_get_mtu w)) a err value w'
                     | (False, _, w') \<Rightarrow> gs_error k ?opc 0 BT_ATT_ERROR_UNLIKELY w')" for a ud rest
  proof -
    obtain ok r v where v: "gs_attribute_read k a 0 ?opc Read_Multiple_Complete_Cb ud w = (ok, r, v)"
      by (metis prod_cases3)
    note s = read_step [OF v assms]
    show ?thesis
    proof (cases ok)
      case True
      then obtain e val where r: "r = Some (e, val)" using s(3) by fastforce
      have "answered ?opc v (read_multiple_complete_cb k rest [] (unat (bt_att_get_mtu w)) a e val v)"
        by (rule read_multiple_complete_answered [OF s(2)])
           (use s(1) can_answer_mtu [OF assms] in \<open>simp_all add: silent_def bt_att_get_mtu_def\<close>)
      from silent_answered [OF s(1) this] show ?thesis unfolding v by (simp add: r True)
    qed (use v error_after [OF s(1,2) req_not_0(7)] in simp)
  qed
  have "le16_list pdu \<noteq> []" if "\<not> length pdu < 4"
    using that by (cases pdu rule: le16_list.cases) auto
  then show ?thesis
    unfolding read_multiple_cb_def Let_def
    by (auto simp only: err go if_True if_False list.case option.case split: if_split list.split option.split)
qed

text \<open>Exchange MTU.\<close>

lemma exchange_mtu_answered:
  assumes "can_answer w"
  shows "answered BT_ATT_OP_MTU_REQ w (exchange_mtu_cb k BT_ATT_OP_MTU_REQ pdu w)"
proof -
  have "answered BT_ATT_OP_MTU_REQ w (gs_send k BT_ATT_OP_MTU_RSP (Some (put_le16 (gs_mtu w))) w)"
    by (rule send_after [OF silent_refl assms]) (use assms in \<open>simp_all add: can_answer_def\<close>)
  then show ?thesis
    using gs_error_answered [OF assms req_not_0(1)]
    by (auto simp: exchange_mtu_cb_def Let_def bt_att_set_mtu_def answered_def)
qed

text \<open>Prepare Write: storing fails only where memory is damaged.\<close>

lemma append_prep_data_fails: "append_prep_data d val = (False, d', c) \<Longrightarrow> c"
proof -
  assume a: "append_prep_data d val = (False, d', c)"
  let ?len = "pw_length d + of_nat (length val) :: u16"
  have v: "val \<noteq> []" "?len = 0" "c = (unat (pw_length d) + length val \<ge> 65536)"
    using a by (auto simp: append_prep_data_def Let_def split: if_split_asm)
  then have "unat (of_nat (unat (pw_length d) + length val) :: u16) = 0" by simp
  then have "(unat (pw_length d) + length val) mod 65536 = 0" by (simp only: unsigned_of_nat take_bit_eq_mod) simp
  then show c using v(1,3) by (metis length_0_conv add_is_0 mod_less not_le_imp_less)
qed

lemma prep_data_new_silent:
  assumes "prep_data_new k h off val w = (ok, w')"
  shows "silent w w' \<and> (ok \<or> gs_fault w')"
proof -
  let ?fresh = "\<lparr>pw_value = None, pw_handle = 0, pw_offset = 0, pw_length = 0, pw_reliable_supported = False\<rparr>"
  obtain b d c where ap: "append_prep_data ?fresh val = (b, d, c)" by (metis prod_cases3)
  obtain rel v where r: "is_reliable_write_supported k (h - 1) w = (rel, v)" by fastforce
  have v: "silent w v" by (rule reliable_rel [OF r]) simp
  have q: "silent w (v\<lparr>gs_fault := f, prep_queue := q\<rparr>)" for f q
    by (rule silent_trans [OF silent_trans [OF v silent_queue(2)] silent_queue(1)])
  show ?thesis
  proof (cases b)
    case True
    with assms ap r have "ok \<and> (\<exists>f q. w' = v\<lparr>gs_fault := f, prep_queue := q\<rparr>)" unfolding prep_data_new_def Let_def by auto
    with q show ?thesis by blast
  next
    case False
    with assms ap have "w' = w\<lparr>gs_fault := gs_fault w \<or> c\<rparr>" unfolding prep_data_new_def Let_def by simp
    with False ap append_prep_data_fails [of ?fresh val d c] silent_queue(2) show ?thesis by simp
  qed
qed

lemma store_prep_data_silent:
  assumes "store_prep_data k h off val w = (ok, w')"
  shows "silent w w' \<and> (ok \<or> gs_fault w')"
proof (cases "\<exists>d. lq_peek_tail (prep_queue w) = Some d \<and> continues_prep_data h off d")
  case True
  then obtain d where d: "lq_peek_tail (prep_queue w) = Some d" "continues_prep_data h off d" by blast
  obtain b d' c where ap: "append_prep_data d val = (b, d', c)" by (metis prod_cases3)
  have "b \<or> c" using append_prep_data_fails [of d val d' c] ap by (cases b) auto
  with assms d ap show ?thesis by (auto simp: store_prep_data_def silent_def)
next
  case False
  with assms have "prep_data_new k h off val w = (ok, w')" by (auto simp: store_prep_data_def split: option.splits)
  then show ?thesis by (rule prep_data_new_silent)
qed

lemma prep_write_complete_answered:
  assumes "can_answer w" and "length pdu + 1 \<le> unat (att_mtu w)"
  shows "answered BT_ATT_OP_PREP_WRITE_REQ w (prep_write_complete_cb k \<lparr>pc_pdu = pdu\<rparr> p e w) \<or>
    gs_fault (prep_write_complete_cb k \<lparr>pc_pdu = pdu\<rparr> p e w)"
proof -
  obtain ok v where v: "store_prep_data k (get_le16 pdu 0) (get_le16 pdu 2) (drop 4 pdu) w = (ok, v)" by fastforce
  note s = store_prep_data_silent [OF v]
  have "answered BT_ATT_OP_PREP_WRITE_REQ w (gs_send k BT_ATT_OP_PREP_WRITE_RSP (Some pdu) v)"
    using s assms silent_can_answer [OF _ assms(1)]
    by (intro send_after) (auto simp: silent_def)
  then show ?thesis
    using v s gs_error_answered [OF assms(1) req_not_0(10)]
    by (auto simp: prep_write_complete_cb_def Let_def)
qed

lemma prep_write_answered:
  assumes "can_answer w" and "length pdu + 1 \<le> unat (att_mtu w)"
  shows "answered BT_ATT_OP_PREP_WRITE_REQ w (prep_write_cb k BT_ATT_OP_PREP_WRITE_REQ pdu w) \<or>
    gs_fault (prep_write_cb k BT_ATT_OP_PREP_WRITE_REQ pdu w)"
proof -
  let ?opc = "BT_ATT_OP_PREP_WRITE_REQ"
  note err = gs_error_answered [OF assms(1) req_not_0(10)]
  define go where "go = (\<lambda>a h. case gs_attribute_write k a (get_le16 pdu 2) None ?opc Prep_Write_Complete_Cb
          (Ud_Prep \<lparr>pc_pdu = pdu\<rparr>) w of
                        (True, None, w') \<Rightarrow> w'
                      | (True, Some err, w') \<Rightarrow> prep_write_complete_cb k \<lparr>pc_pdu = pdu\<rparr> a err w'
                      | (False, _, w') \<Rightarrow> gs_error k ?opc h BT_ATT_ERROR_UNLIKELY w')"
  have go: "answered ?opc w (go a h) \<or> gs_fault (go a h)" for a h
  proof -
    obtain ok r v where v: "gs_attribute_write k a (get_le16 pdu 2) None ?opc Prep_Write_Complete_Cb
        (Ud_Prep \<lparr>pc_pdu = pdu\<rparr>) w = (ok, r, v)" by (metis prod_cases3)
    note s = write_step [OF v assms(1)]
    show ?thesis
    proof (cases ok)
      case True
      then obtain e where r: "r = Some e" using s(3) by blast
      have "length pdu + 1 \<le> unat (att_mtu v)" using s(1) assms(2) by (simp add: silent_def)
      from prep_write_complete_answered [OF s(2) this, of a e] silent_answered [OF s(1)] show ?thesis
        by (auto simp: go_def v r True)
    qed (use v error_after [OF s(1,2) req_not_0(10)] in \<open>simp add: go_def\<close>)
  qed
  have err: "answered ?opc w (gs_error k ?opc h e w) \<or> gs_fault (gs_error k ?opc h e w)" for h e
    using err by blast
  show ?thesis
    using go unfolding prep_write_cb_def Let_def go_def
    by (auto simp only: err simp_thms if_True if_False option.case split: if_split option.split)
qed

text \<open>Execute Write.\<close>

lemma exec_write_fail_answered:
  assumes "can_answer w" shows "answered BT_ATT_OP_EXEC_WRITE_REQ w (exec_write_fail k h e w)"
  unfolding exec_write_fail_def
  by (rule error_after [OF silent_queue(1)]) (use assms in simp_all)

lemma exec_next_answered:
  "can_answer w \<Longrightarrow> answered BT_ATT_OP_EXEC_WRITE_REQ w (exec_next_prep_write k q h e w)"
proof (induction q arbitrary: h e w)
  case Nil
  then have "answered BT_ATT_OP_EXEC_WRITE_REQ w (gs_send k BT_ATT_OP_EXEC_WRITE_RSP None w)"
    by (intro send_after) (simp_all add: can_answer_def)
  with exec_write_fail_answered [OF Nil] show ?case by simp
next
  case (Cons d q)
  let ?opc = "BT_ATT_OP_EXEC_WRITE_REQ"
  have c: "can_answer (w\<lparr>prep_queue := q\<rparr>)" using Cons.prems by simp
  note fail = exec_write_fail_answered [OF Cons.prems] silent_answered [OF silent_queue(1) exec_write_fail_answered [OF c]]
  show ?case
  proof (cases "e \<noteq> 0 \<or> gatt_db_get_attribute (gs_db w) (pw_handle d) = None")
    case True
    with fail show ?thesis by (auto simp: gs_loop_simps)
  next
    case False
    then obtain a where a: "gatt_db_get_attribute (gs_db w) (pw_handle d) = Some a" by blast
    obtain ok r v where v: "gs_attribute_write k a (pw_offset d) (pw_value d) ?opc Exec_Write_Complete_Cb Ud_Exec
        (w\<lparr>prep_queue := q\<rparr>) = (ok, r, v)" by (metis prod_cases3)
    note s = write_step [OF v c]
    have sw: "silent w v" by (rule silent_trans [OF silent_queue(1) s(1)])
    show ?thesis
    proof (cases ok)
      case True
      then obtain e' where "r = Some e'" using s(3) by blast
      with silent_answered [OF sw Cons.IH [OF s(2)]] False a v True show ?thesis by (simp add: gs_loop_simps)
    qed (use False a v silent_answered [OF sw exec_write_fail_answered [OF s(2)]] in \<open>simp add: gs_loop_simps\<close>)
  qed
qed

lemma exec_write_answered:
  assumes "can_answer w"
  shows "answered BT_ATT_OP_EXEC_WRITE_REQ w (exec_write_cb k BT_ATT_OP_EXEC_WRITE_REQ pdu w)"
proof -
  have err: "answered BT_ATT_OP_EXEC_WRITE_REQ w (gs_error k BT_ATT_OP_EXEC_WRITE_REQ h e (w\<lparr>prep_queue := []\<rparr>))" for h e
    by (rule error_after [OF silent_queue(1)]) (use assms in simp_all)
  have "answered BT_ATT_OP_EXEC_WRITE_REQ w (gs_send k BT_ATT_OP_EXEC_WRITE_RSP None (w\<lparr>prep_queue := []\<rparr>))"
    by (rule send_after [OF silent_queue(1)]) (use assms in \<open>simp_all add: can_answer_def\<close>)
  with err exec_next_answered [OF assms] show ?thesis
    by (auto simp: exec_write_cb_def Let_def split: option.split)
qed

text \<open>Every request; and a command, which gets no response.\<close>

theorem request_answered:
  assumes "can_answer w" and "(opc, f) \<in> set gs_handler_table" and "opc \<noteq> BT_ATT_OP_WRITE_CMD"
    and "length pdu + 1 \<le> unat (att_mtu w)"
  shows "answered opc w (gs_notify k f opc pdu ud w) \<or>
    opc = BT_ATT_OP_PREP_WRITE_REQ \<and> gs_fault (gs_notify k f opc pdu ud w)"
  using assms(2,3) exchange_mtu_answered [OF assms(1)] read_by_grp_type_answered [OF assms(1)]
    read_by_type_answered [OF assms(1)] find_info_answered [OF assms(1)] find_by_type_answered [OF assms(1)]
    write_answered [OF assms(1)] read_answered [OF assms(1)] read_multiple_answered [OF assms(1)]
    prep_write_answered [OF assms(1,4)] exec_write_answered [OF assms(1)]
  by (auto simp: gs_handler_table_def gs_notify_def)

lemma write_command_silent:
  assumes "can_answer w"
  shows "silent w (gs_notify k Write_Cb BT_ATT_OP_WRITE_CMD pdu ud w)"
proof -
  have c: "can_answer (w\<lparr>pending_write_op := True\<rparr>)" "\<not> gs_freed w" using assms by (simp_all add: can_answer_def)
  let ?op = "\<lparr>wo_opcode = BT_ATT_OP_WRITE_CMD\<rparr>"
  have go: "silent w (case gs_attribute_write k a 0 val BT_ATT_OP_WRITE_CMD Write_Complete_Cb (Ud_Write ?op)
                                    (w\<lparr>pending_write_op := True\<rparr>) of
                               (True, None, w') \<Rightarrow> w'
                             | (True, Some err, w') \<Rightarrow> write_complete_cb k ?op a err w'
                             | (False, _, w') \<Rightarrow> async_write_op_destroy w')"
    if p: "\<not> pending_write_op w" for a val
  proof -
    obtain ok r v where v: "gs_attribute_write k a 0 val BT_ATT_OP_WRITE_CMD Write_Complete_Cb (Ud_Write ?op)
        (w\<lparr>pending_write_op := True\<rparr>) = (ok, r, v)" by (metis prod_cases3)
    note s = write_step [OF v c(1)]
    have "silent w (async_write_op_destroy v)"
      using s(1) p c(2) by (simp add: silent_def async_write_op_destroy_def)
    then show ?thesis unfolding v using s(3) by (cases ok) (auto simp: write_complete_cb_def)
  qed
  show ?thesis
    unfolding gs_notify_def att_cb.case write_cb_def Let_def
    by (auto simp only: silent_refl go if_True if_False simp_thms option.case split: if_split option.split)
qed

end

end
