(* ===== verification/Server_Db.thy ===== *)
theory Server_Db
  imports Server_Inv Gatt_Server_Rsp
begin

text \<open>
  The database the wall clock server offers, and the server after its creation: what
  \<^verbatim>\<open>populate_db\<close> builds is evaluated and compared with a table of the attributes.
\<close>

section \<open>The invariant as a computation\<close>

lemma svc_dense_code [code]:
  "svc_dense s \<longleftrightarrow>
     (\<forall>j \<in> set [0..<length (attributes s)]. \<forall>i \<in> set [0..<j]. attributes s ! j \<noteq> None \<longrightarrow> attributes s ! i \<noteq> None) \<and>
     (\<forall>i \<in> set [0..<length (attributes s)]. case attributes s ! i of None \<Rightarrow> True | Some a \<Rightarrow>
        unat (attr_handle a) = svc_start s + i \<and> attr_service a = svc_addr s \<and> attr_ok a)"
  unfolding svc_dense_def by (auto split: option.split)

lemma svc_wf_code [code]:
  "svc_wf s \<longleftrightarrow> 1 \<le> unat (num_handles s) \<and> length (attributes s) = unat (num_handles s) \<and>
     attributes s ! 0 \<noteq> None \<and> 1 \<le> svc_start s \<and>
     uint (attr_handle (svc_decl s)) + uint (num_handles s) - 1 \<le> 0xFFFF \<and> svc_dense s"
  unfolding svc_wf_def svc_end_def svc_start_def uint_unat16 by (auto simp del: of_nat_unat)

lemma db_clients_code [code]:
  "db_clients db \<longleftrightarrow> (\<forall>s \<in> set (services db). \<forall>x \<in> set (attributes s).
     case x of None \<Rightarrow> True | Some a \<Rightarrow> client_fun (read_func a) \<and> client_fun (write_func a))"
  unfolding db_clients_def by (fastforce split: option.split)

section \<open>The table of attributes\<close>

text \<open>Handle, type, permissions, value in the database, functions.\<close>

type_synonym clk_row = "u16 \<times> bt_uuid \<times> u32 \<times> bytes option \<times> clk_fn option \<times> clk_fn option"

definition db_rows :: "clk_db \<Rightarrow> clk_row list" where
  "db_rows db = map (\<lambda>(p, a). (attr_handle a, attr_uuid a, permissions a, attr_value a,
     Option.bind (read_func a) db_client, Option.bind (write_func a) db_client)) (active_attrs db)"

definition service_row :: "u16 \<Rightarrow> bt_uuid \<Rightarrow> clk_row" where
  "service_row h u = (h, BT_UUID16 GATT_PRIM_SVC_UUID, BT_ATT_PERM_READ, Some (snd (bt_uuid_to_le u)), None, None)"

definition chrc_row :: "u16 \<Rightarrow> u8 \<Rightarrow> bt_uuid \<Rightarrow> clk_row" where
  "chrc_row h props u = (h, BT_UUID16 GATT_CHARAC_UUID, BT_ATT_PERM_READ,
     Some (props # put_le16 (h + 1) @ snd (bt_uuid_to_le u)), None, None)"

definition ccc_row :: "u16 \<Rightarrow> clk_fn \<Rightarrow> clk_fn \<Rightarrow> clk_row" where
  "ccc_row h rd wr = (h, BT_UUID16 GATT_CLIENT_CHARAC_CFG_UUID, BT_ATT_PERM_READ OR BT_ATT_PERM_WRITE, None, Some rd, Some wr)"

definition clock_table :: "clk_row list" where
  "clock_table = [
     service_row 1 (BT_UUID16 UUID_GAP),
     chrc_row 2 BT_GATT_CHRC_PROP_READ (BT_UUID16 GATT_CHARAC_DEVICE_NAME),
       (3, BT_UUID16 GATT_CHARAC_DEVICE_NAME, BT_ATT_PERM_READ, Some (map of_char ''WALLCLOCK'' @ [0]), None, None),
     chrc_row 4 BT_GATT_CHRC_PROP_READ (BT_UUID16 GATT_CHARAC_APPEARANCE),
       (5, BT_UUID16 GATT_CHARAC_APPEARANCE, BT_ATT_PERM_READ, Some [0, 0], None, None),
     chrc_row 6 BT_GATT_CHRC_PROP_READ (BT_UUID16 GATT_CHARAC_PERIPHERAL_PREF_CONN),
       (7, BT_UUID16 GATT_CHARAC_PERIPHERAL_PREF_CONN, BT_ATT_PERM_READ, Some [6, 0, 8, 0, 0, 0, 0xfa, 0], None, None),
     service_row 8 (BT_UUID16 UUID_GATT),
     chrc_row 9 (BT_GATT_CHRC_PROP_READ OR BT_GATT_CHRC_PROP_INDICATE) (BT_UUID16 GATT_CHARAC_SERVICE_CHANGED),
       (10, BT_UUID16 GATT_CHARAC_SERVICE_CHANGED, BT_ATT_PERM_READ, None, Some Gatt_Service_Changed_Cb, None),
       ccc_row 11 Gatt_Svc_Chngd_Ccc_Read_Cb Gatt_Svc_Chngd_Ccc_Write_Cb,
     service_row 12 (uuid_of_string UUID_I2C_READ),
     chrc_row 13 BT_GATT_CHRC_PROP_NOTIFY (uuid_of_string UUID_I2C_READ_DATA),
       (14, uuid_of_string UUID_I2C_READ_DATA, BT_ATT_PERM_READ OR BT_ATT_PERM_WRITE, None, None, None),
       ccc_row 15 Clock_Read_Data_Ccc_Read_Cb Clock_Read_Data_Ccc_Write_Cb,
     service_row 16 (uuid_of_string UUID_I2C_WRITE),
     chrc_row 17 BT_GATT_CHRC_PROP_WRITE_WITHOUT_RESP (uuid_of_string UUID_I2C_WRITE_DATA),
       (18, uuid_of_string UUID_I2C_WRITE_DATA, BT_ATT_PERM_WRITE, None, None, Some Clock_Write_Data_Write_Cb)]"

section \<open>Populating\<close>

text \<open>Only the database and the handles change.\<close>

definition populated :: "server \<Rightarrow> server \<Rightarrow> bool" where
  "populated u w \<longleftrightarrow> w = u\<lparr>gs_db := gs_db w, gatt_svc_chngd_handle := gatt_svc_chngd_handle w,
     clock_read_data_handle := clock_read_data_handle w, clock_write_data_handle := clock_write_data_handle w,
     exited := exited w\<rparr>"

lemma populated_refl: "populated w w"
  by (simp add: populated_def)

lemma populated_trans: "populated u v \<Longrightarrow> populated v w \<Longrightarrow> populated u w"
  by (cases u; cases v; cases w) (simp add: populated_def)

lemma populated_fields:
  "populated u w \<Longrightarrow> populated u (w\<lparr>gs_db := db\<rparr>)" "populated u w \<Longrightarrow> populated u (w\<lparr>gatt_svc_chngd_handle := h\<rparr>)"
  "populated u w \<Longrightarrow> populated u (w\<lparr>clock_read_data_handle := h\<rparr>)"
  "populated u w \<Longrightarrow> populated u (w\<lparr>clock_write_data_handle := h\<rparr>)" "populated u w \<Longrightarrow> populated u (w\<lparr>exited := x\<rparr>)"
  by (cases u; cases w; simp add: populated_def)+

lemma populated_events: "populated u w \<Longrightarrow> populated u (confirm_events evs w)"
  unfolding confirm_events_def
  by (induction evs arbitrary: w)
     (auto simp: confirm_write_def populated_fields split: db_event.split db_cb.split clk_fn.split)

lemma populated_steps:
  "add_service uu n w = (p, w') \<Longrightarrow> populated u w \<Longrightarrow> populated u w'"
  "add_characteristic svc uu pm props rd wr ud w = (p, w') \<Longrightarrow> populated u w \<Longrightarrow> populated u w'"
  "add_descriptor svc uu pm rd wr w = (p, w') \<Longrightarrow> populated u w \<Longrightarrow> populated u w'"
  "put_value K q v w = (b, w') \<Longrightarrow> populated u w \<Longrightarrow> populated u w'"
  "populated u w \<Longrightarrow> populated u (set_active q w)"
  by (auto simp: add_service_def add_characteristic_def add_descriptor_def put_value_def set_active_def
      intro: populated_fields populated_events split: prod.splits)

lemma populated_value: "add_value K svc uu v w = (b, w') \<Longrightarrow> populated u w \<Longrightarrow> populated u w'"
  by (auto simp: add_value_def intro: populated_steps split: prod.splits option.splits)

lemma populate_db_populated: "populate_db K w = (b, w') \<Longrightarrow> populated w w'"
proof -
  have gap: "populated u w2" if "populate_gap_service K w1 = (b, w2)" "populated u w1" for u w1 w2 b
    using that by (auto simp: populate_gap_service_def split: prod.splits option.splits bool.splits
        dest!: populated_steps(1) populated_value intro!: populated_steps(5))
  have gatt: "populated u w2" if "populate_gatt_service w1 = (b, w2)" "populated u w1" for u w1 w2 b
    using that by (auto simp: populate_gatt_service_def Let_def split: prod.splits option.splits
        dest!: populated_steps(1-3) intro!: populated_fields populated_steps(5))
  have rd: "populated u w2" if "populate_clock_read_service w1 = (b, w2)" "populated u w1" for u w1 w2 b
    using that by (auto simp: populate_clock_read_service_def Let_def split: prod.splits option.splits
        dest!: populated_steps(1-3) intro!: populated_fields populated_steps(5))
  have wr: "populated u w2" if "populate_clock_write_service w1 = (b, w2)" "populated u w1" for u w1 w2 b
    using that by (auto simp: populate_clock_write_service_def Let_def split: prod.splits option.splits
        dest!: populated_steps(1-3) intro!: populated_fields populated_steps(5))
  assume "populate_db K w = (b, w')"
  then show ?thesis
    using populated_refl [of w] by (auto simp: populate_db_def split: prod.splits bool.splits dest!: gap gatt rd wr)
qed

text \<open>The state before: a fresh database and the name set.\<close>

definition fresh_server :: "server \<Rightarrow> server" where
  "fresh_server w = w\<lparr>gs_db := gatt_db_ref gatt_db_new, s_name_len := length device_name + 1,
     s_device_name := map of_char device_name @ [0]\<rparr>"

lemma populate_fresh:
  shows populate_succeeds: "fst (populate_db K (fresh_server w))"
    and populate_table: "db_rows (gs_db (snd (populate_db K (fresh_server w)))) = clock_table"
    and populate_handles: "gatt_svc_chngd_handle (snd (populate_db K (fresh_server w))) = 10"
      "clock_read_data_handle (snd (populate_db K (fresh_server w))) = 14"
      "clock_write_data_handle (snd (populate_db K (fresh_server w))) = 18"
      "exited (snd (populate_db K (fresh_server w))) = exited w"
  unfolding fresh_server_def by (cases w, simp only: gatt_world.update_convs server.update_convs, code_simp)+

lemma populate_inv: "db_inv (gs_db (snd (populate_db K (fresh_server w))))"
  unfolding fresh_server_def db_inv_def
  by (cases w, simp only: gatt_world.update_convs server.update_convs, code_simp)

section \<open>Creation\<close>

lemma bt_att_new_shape:
  "bt_att_new k crypto fd False = Some att \<Longrightarrow>
    \<exists>l c m. att = bt_att_ref ((att_blank fd)\<lparr>att_crypto := crypto, io_on_l2cap := l, io_sec_level := c, att_mtu := m\<rparr>) \<and>
      23 \<le> unat m \<and> 0 \<le> fd"
  by (auto simp: bt_att_new_def Let_def BT_ATT_DEFAULT_LE_MTU_def word_less_nat_alt att_blank_def bt_att_ref_def split: if_splits)

definition handler_entries :: "(clk_fn att_cb, (clk_fn, unit) att_ud) att_notify list" where
  "handler_entries = map (\<lambda>(i, h). \<lparr>an_id = i, an_opcode = fst h, an_callback = snd h, an_destroy = None,
     an_user_data = Some Ud_Server\<rparr>) (zip (map of_nat [2..<14]) gs_handler_table)"

lemma register_all:
  fixes w :: server
  assumes "att_io w" "next_reg_id w = 2" "gs_ids w = []" "att_notify_list w = []"
  shows "gatt_server_register_att_handlers w = (True, w\<lparr>next_reg_id := 14, gs_ids := map of_nat [2..<14],
    att_notify_list := handler_entries\<rparr>)"
  using assms
  by (simp add: gatt_server_register_att_handlers_def gs_handler_table_def handler_entries_def bt_att_register_def
      lq_push_tail_def upt_rec)

text \<open>The server before its database is populated.\<close>

definition bare_server :: "(clk_fn att_cb, (clk_fn, unit) att_ud) bt_att \<Rightarrow> u64 \<Rightarrow> int \<Rightarrow> u16 \<Rightarrow> server" where
  "bare_server att face fd mtu = fresh_server ((server_blank att)\<lparr>gFaceTime := face, s_fd := fd, io_close := True,
     att_ref_count := 2, next_reg_id := 14, gs_ids := map of_nat [2..<14], att_notify_list := handler_entries,
     disconn_list := [\<lparr>ad_id = 1, ad_removed = False, ad_callback = Some (Att_Client_Cb Att_Disconnect_Cb),
       ad_destroy = None, ad_user_data = None\<rparr>],
     gs_mtu := max mtu BT_ATT_DEFAULT_LE_MTU, max_prep_queue_len := DEFAULT_MAX_PREP_QUEUE_LEN, gs_ref_count := 1\<rparr>)"

lemma server_create_populates:
  assumes "bt_att_new k crypto fd False = Some att"
  shows "server_create K k crypto face fd mtu = (case populate_db K (bare_server att face fd mtu) of
      (False, w) \<Rightarrow> server_create_fail K True w | (True, w) \<Rightarrow> (True, Some w))"
proof -
  obtain l c m where att: "att = bt_att_ref ((att_blank fd)\<lparr>att_crypto := crypto, io_on_l2cap := l, io_sec_level := c, att_mtu := m\<rparr>)"
    using bt_att_new_shape [OF assms] by blast
  define w3 where "w3 = (server_blank att)\<lparr>gFaceTime := face, io_close := True, next_reg_id := 2,
     disconn_list := [\<lparr>ad_id = 1, ad_removed = False, ad_callback = Some (Att_Client_Cb Att_Disconnect_Cb),
       ad_destroy = None, ad_user_data = None\<rparr>], s_name_len := length device_name + 1,
     s_device_name := map of_char device_name @ [0], s_fd := fd\<rparr>"
  have "bt_gatt_server_new (clk_env K) mtu 0 w3 = (True, bare_server att face fd mtu)"
    by (simp add: bt_gatt_server_new_def w3_def bare_server_def fresh_server_def register_all server_blank_def att
        att_blank_def bt_att_ref_def bt_gatt_server_ref_def bt_att.defs gatt_world.defs server.defs Let_def)
  moreover have "server_create K k crypto face fd mtu = (case bt_gatt_server_new (clk_env K) mtu 0 w3 of
       (False, w4) \<Rightarrow> server_create_fail K True w4
     | (True, w4) \<Rightarrow> (case populate_db K w4 of
         (False, w5) \<Rightarrow> server_create_fail K True w5 | (True, w5) \<Rightarrow> (True, Some w5)))"
    unfolding server_create_def assms option.case Let_def
    by (simp add: w3_def server_blank_def att att_blank_def bt_att_ref_def bt_att.defs gatt_world.defs server.defs
        bt_att_set_close_on_unref_def bt_att_register_disconnect_def lq_push_tail_def)
  ultimately show ?thesis by simp
qed

text \<open>The handlers of the GATT server are registered, in the order of its table.\<close>

definition registered :: "server \<Rightarrow> bool" where
  "registered w \<longleftrightarrow> map (\<lambda>n. (an_opcode n, an_callback n)) (att_notify_list w) = gs_handler_table"

definition clk_ready :: "server \<Rightarrow> bool" where
  "clk_ready w \<longleftrightarrow> att_ok w \<and> clk_inv w \<and> can_answer w \<and> registered w \<and> 0 < att_ref_count w"

lemma bare_server_facts:
  assumes "bt_att_new k crypto fd False = Some att"
  shows "bt_att.truncate (bare_server att face fd mtu) = att\<lparr>io_close := True, att_ref_count := 2, next_reg_id := 14,
      att_notify_list := handler_entries, disconn_list := [\<lparr>ad_id = 1, ad_removed = False,
        ad_callback = Some (Att_Client_Cb Att_Disconnect_Cb), ad_destroy = None, ad_user_data = None\<rparr>]\<rparr>"
    and "gs_freed (bare_server att face fd mtu) = False" "prep_queue (bare_server att face fd mtu) = []"
      "max_prep_queue_len (bare_server att face fd mtu) = DEFAULT_MAX_PREP_QUEUE_LEN"
      "gs_mtu (bare_server att face fd mtu) = max mtu BT_ATT_DEFAULT_LE_MTU"
      "gVbat (bare_server att face fd mtu) = 0" "gPollInterval (bare_server att face fd mtu) = 0"
      "gFaceTime (bare_server att face fd mtu) = face" "exited (bare_server att face fd mtu) = False"
      "pending_read_op (bare_server att face fd mtu) = False" "pending_write_op (bare_server att face fd mtu) = False"
      "gs_fault (bare_server att face fd mtu) = False"
  using bt_att_new_shape [OF assms]
  by (auto simp: bare_server_def fresh_server_def server_blank_def bt_att.defs gatt_world.defs server.defs
      att_blank_def bt_att_ref_def)

lemma registered_entries: "map (\<lambda>n. (an_opcode n, an_callback n)) handler_entries = gs_handler_table"
  by (simp add: handler_entries_def gs_handler_table_def upt_rec)

lemma populated_bearer: "populated u w \<Longrightarrow> bt_att.truncate w = bt_att.truncate u"
  by (cases u; cases w) (simp add: populated_def bt_att.defs)

lemma created_ready:
  fixes att :: "(clk_fn att_cb, (clk_fn, unit) att_ud) bt_att"
  assumes "bt_att_new k crypto fd False = Some att" and "server_create K k crypto face fd mtu = (ok, r)"
  shows "\<exists>w. ok \<and> r = Some w \<and> clk_ready w \<and> db_rows (gs_db w) = clock_table \<and> rsps w = [] \<and> \<not> in_req w \<and>
    gatt_svc_chngd_handle w = 10 \<and> clock_read_data_handle w = 14 \<and> clock_write_data_handle w = 18 \<and>
    gFaceTime w = face \<and> \<not> exited w \<and> \<not> gs_fault w \<and> \<not> pending_read_op w \<and> \<not> pending_write_op w"
proof -
  let ?u = "bare_server att face fd mtu"
  obtain w where p: "populate_db K ?u = (True, w)"
    using populate_succeeds [of K ?u] by (cases "populate_db K ?u") (simp add: bare_server_def fresh_server_def)
  have u: "fresh_server ?u = ?u" by (simp add: bare_server_def fresh_server_def)
  have w: "populated ?u w" by (rule populate_db_populated [OF p])
  note f = bare_server_facts [OF assms(1), of face mtu]
  have same: "gs_freed w = gs_freed ?u" "prep_queue w = prep_queue ?u" "max_prep_queue_len w = max_prep_queue_len ?u"
      "gs_mtu w = gs_mtu ?u" "gVbat w = gVbat ?u" "gPollInterval w = gPollInterval ?u" "gFaceTime w = gFaceTime ?u"
      "pending_read_op w = pending_read_op ?u" "pending_write_op w = pending_write_op ?u" "gs_fault w = gs_fault ?u"
    using w by (cases ?u; cases w; simp add: populated_def)+
  obtain l c m where att: "att = bt_att_ref ((att_blank fd)\<lparr>att_crypto := crypto, io_on_l2cap := l, io_sec_level := c, att_mtu := m\<rparr>)"
    and m: "23 \<le> unat m"
    using bt_att_new_shape [OF assms(1)] by blast
  have b: "att_io w \<and> att_mtu w = m \<and> \<not> in_req w \<and> att_ref_count w = 2 \<and> att_notify_list w = handler_entries \<and>
      write_queue w = [] \<and> req_queue w = [] \<and> ind_queue w = [] \<and> pending_req w = None \<and> pending_ind w = None \<and>
      att_timers w = [] \<and> \<not> writer_active w \<and> \<not> io_writer w"
    using trans [OF populated_bearer [OF w] f(1)] unfolding att
    by (cases w) (simp add: bt_att.defs bt_att_ref_def att_blank_def)
  have inv: "db_inv (gs_db w)" using populate_inv [of K ?u] by (simp add: u p)
  have "23 \<le> unat (max mtu BT_ATT_DEFAULT_LE_MTU)"
    by (auto simp: max_def BT_ATT_DEFAULT_LE_MTU_def word_le_nat_alt)
  then have "clk_inv w" using same f b m inv by (simp add: clk_inv_def gs_inv_def)
  moreover have "att_ok w"
    using b by (simp add: att_ok_def att_queues_ok_def att_timers_ok_def att_writer_ok_def has_work_def)
  ultimately have "clk_ready w"
    using b same f m inv by (simp add: clk_ready_def can_answer_def registered_def registered_entries)
  moreover have "rsps w = []" using b by (simp add: rsps_def)
  moreover have "ok \<and> r = Some w" using assms(2) p by (simp add: server_create_populates [OF assms(1)])
  moreover have "db_rows (gs_db w) = clock_table \<and> gatt_svc_chngd_handle w = 10 \<and> clock_read_data_handle w = 14 \<and>
      clock_write_data_handle w = 18 \<and> \<not> exited w"
    using populate_table [of K ?u] populate_handles [of K ?u] f by (simp add: u p)
  ultimately show ?thesis using b same f by (intro exI [of _ w]) simp
qed

text \<open>
  Claim C1. Creating the server on a socket that the bearer accepts succeeds: the database has
  exactly the eighteen attributes of the table, at handles 1 to 18 with their types, permissions, values
  and functions; the server knows the handles of the values it notifies; the twelve request
  handlers are registered; bearer, GATT server and database satisfy their invariants and nothing
  is pending.
\<close>

theorem server_create_correct:
  fixes att :: "(clk_fn att_cb, (clk_fn, unit) att_ud) bt_att"
  assumes "bt_att_new k crypto fd False = Some att" and "server_create K k crypto face fd mtu = (ok, r)"
  shows "\<exists>w. ok \<and> r = Some w \<and> clk_ready w \<and> db_rows (gs_db w) = clock_table \<and> rsps w = [] \<and> \<not> in_req w \<and>
    gatt_svc_chngd_handle w = 10 \<and> clock_read_data_handle w = 14 \<and> clock_write_data_handle w = 18 \<and>
    gFaceTime w = face \<and> \<not> exited w \<and> \<not> gs_fault w \<and> \<not> pending_read_op w \<and> \<not> pending_write_op w"
  by (rule created_ready [OF assms])

definition sample_kernel :: clk_kernel where
  "sample_kernel = \<lparr>ck_time = 1000, ck_gmtoff = 3600, ck_tv_sec = 1000, ck_tv_nsec = 500000000,
     ck_mktime = (\<lambda>h m s. (uint (3600 * h + 60 * m + s), 3600)), ck_stack = replicate 14 0xAA,
     ck_heap = (\<lambda>i. 0xCC), ck_tid = 1, ck_security = Some 1, ck_set_security = (\<lambda>l. True)\<rparr>"

definition local_att :: "(clk_fn att_cb, (clk_fn, unit) att_ud) bt_att" where
  "local_att = bt_att_ref ((att_blank 3)\<lparr>att_mtu := 23, io_sec_level := 1\<rparr>)"

lemma local_att_new: "bt_att_new local_socket False 3 False = Some local_att"
  by code_simp

theorem server_create_correct_witness:
  "\<exists>w. server_create sample_kernel local_socket False 77 3 0 = (True, Some w) \<and> clk_ready w \<and> gFaceTime w = 77"
proof -
  obtain ok r where r: "server_create sample_kernel local_socket False 77 3 0 = (ok, r)" by fastforce
  from server_create_correct [OF local_att_new r] r show ?thesis by auto
qed

section \<open>A server to evaluate\<close>

definition sample_server :: server where
  "sample_server = the (snd (server_create sample_kernel local_socket False 77 3 0))"

lemma sample_server: "server_create sample_kernel local_socket False 77 3 0 = (True, Some sample_server)"
  and sample_ready: "clk_ready sample_server"
proof -
  obtain ok r where r: "server_create sample_kernel local_socket False 77 3 0 = (ok, r)" by fastforce
  from created_ready [OF local_att_new r] r
  show "server_create sample_kernel local_socket False 77 3 0 = (True, Some sample_server)" "clk_ready sample_server"
    by (auto simp: sample_server_def)
qed

end
