(* ===== verification/Server_Props.thy ===== *)
theory Server_Props
  imports Server_Db
begin

text \<open>
  What the wall clock server guarantees to its peer and its owner: the interface of the GATT server is
  interpreted on the attribute functions of \<^verbatim>\<open>server.c\<close>, and the properties follow for the whole
  program, from the socket to the clock commands.
\<close>

section \<open>The attribute functions answer\<close>

lemma silent_fields [simp]:
  "silent w (w'\<lparr>exited := x\<rparr>) = silent w w'" "silent w (w'\<lparr>lastActivity := t\<rparr>) = silent w w'"
  "silent w (w'\<lparr>gFaceTime := y\<rparr>) = silent w w'" "silent w (w'\<lparr>svc_chngd_enabled := x\<rparr>) = silent w w'"
  "silent w (w'\<lparr>clock_read_data_notify := x\<rparr>) = silent w w'"
  by (simp_all add: silent_def rsps_def)

lemma send_not_rsp_silent:
  assumes "get_op_type opc \<noteq> ATT_OP_TYPE_RSP"
  shows "silent w (snd (bt_att_send env opc pdu len cb ud d w))"
proof -
  have "rsps (snd (bt_att_send env opc pdu len cb ud d w)) = rsps w \<and>
      att_io (snd (bt_att_send env opc pdu len cb ud d w)) = att_io w \<and>
      att_mtu (snd (bt_att_send env opc pdu len cb ud d w)) = att_mtu w"
    using bt_att_send_shape [of env opc pdu len cb ud d w] assms
    by (auto simp: att_frame rsps_def enqueue_op_def lq_push_tail_def dest!: create_op_ok split: att_op_type.split)
  with more_eq_server [OF send_more, of env opc pdu len cb ud d w] show ?thesis by (simp add: silent_def)
qed

lemma data_cb_silent: "silent w (clock_read_data_cb K buf w)"
  unfolding clock_read_data_cb_def bt_gatt_server_send_notification_def Let_def case_prod_unfold snd_conv
  by (rule send_not_rsp_silent) simp

lemma clock_command_silent: "silent w (clock_command K cmd w)"
proof -
  have "silent w (w\<lparr>gPollInterval := a, gDelta := b, gVbat := c, gMatch := d, gLastPollTime := e, gPollCount := f, gTimeouts := g\<rparr>)"
    for a b c d e f g by (simp add: silent_def rsps_def)
  from silent_trans [OF this data_cb_silent] data_cb_silent show ?thesis
    by (simp add: clock_command_def Let_def)
qed

interpretation clk_rsp: gs_client "clk_env K" for K
proof
  fix w w1 w2 w3 :: server and db f p i off opc ud val
  show "silent w w" by simp
  show "silent w1 w2 \<Longrightarrow> silent w2 w3 \<Longrightarrow> silent w1 w3" by (rule silent_trans)
  show "(db_inv (gs_db w) \<Longrightarrow> db_inv db) \<Longrightarrow> silent w (w\<lparr>gs_db := db\<rparr>)" by (simp add: silent_def)
  show "silent w (snd (ge_read (clk_env K) f p i off opc ud w))" by simp
  show "silent w (snd (ge_write (clk_env K) f p i off val opc ud w))"
    by (cases f) (auto simp: clk_write_def gatt_svc_chngd_ccc_write_cb_def clock_read_data_ccc_write_cb_def
        clock_write_data_write_cb_def clock_command_silent split: option.split)
  show "fst (ge_read (clk_env K) f p i off opc ud w) \<noteq> None" by (cases f) (simp_all add: clk_read_def)
  show "fst (ge_write (clk_env K) f p i off val opc ud w) \<noteq> None"
    by (cases f) (simp_all add: clk_write_def split: prod.split)
qed

section \<open>Frames of the handlers\<close>

text \<open>The handlers leave the registrations, the reference count and the request flag alone.\<close>

definition same_bearer :: "server \<Rightarrow> server \<Rightarrow> bool" where
  "same_bearer w w' \<longleftrightarrow> att_notify_list w' = att_notify_list w \<and> att_ref_count w' = att_ref_count w \<and> in_req w' = in_req w"

lemma send_same_bearer: "same_bearer w (snd (bt_att_send env opc pdu len cb ud d w))"
  using bt_att_send_shape [of env opc pdu len cb ud d w] by (auto simp: same_bearer_def att_frame)

lemma same_bearer_trans: "same_bearer u v \<Longrightarrow> same_bearer v w \<Longrightarrow> same_bearer u w"
  by (simp add: same_bearer_def)

lemma clock_command_bearer: "same_bearer w (clock_command K cmd w)"
proof -
  have n: "same_bearer v (clock_read_data_cb K buf v)" for buf v
    unfolding clock_read_data_cb_def bt_gatt_server_send_notification_def Let_def case_prod_unfold snd_conv
    by (rule send_same_bearer)
  show ?thesis using n [of w] n [of "w\<lparr>gPollInterval := a, gDelta := b, gVbat := c, gMatch := d, gLastPollTime := e,
        gPollCount := f, gTimeouts := g\<rparr>" for a b c d e f g]
    by (simp add: clock_command_def Let_def same_bearer_def)
qed

interpretation clk_bearer: gs_relation "clk_env K" same_bearer for K
proof
  fix w :: server and f p i off opc ud val
  show "same_bearer w (snd (ge_write (clk_env K) f p i off val opc ud w))"
    using clock_command_bearer [of w K] 
    by (cases f) (auto simp: clk_write_def gatt_svc_chngd_ccc_write_cb_def clock_read_data_ccc_write_cb_def
        clock_write_data_write_cb_def same_bearer_def split: option.split)
qed (auto simp: same_bearer_trans send_same_bearer gs_send_simps clk_att_base_def bt_att_set_mtu_def, auto simp: same_bearer_def)

section \<open>A request from the socket\<close>

lemma request_opcodes:
  assumes "get_op_type opc = ATT_OP_TYPE_REQ"
  shows "opc AND ATT_OP_SIGNED_MASK = 0 \<and> opc \<noteq> BT_ATT_OP_WRITE_CMD \<and> opc \<noteq> 0 \<and>
    (\<exists>f. (opc, f) \<in> set (gs_handler_table :: (u8 \<times> clk_fn att_cb) list))"
proof -
  have "opc \<in> {BT_ATT_OP_MTU_REQ, BT_ATT_OP_FIND_INFO_REQ, BT_ATT_OP_FIND_BY_TYPE_REQ, BT_ATT_OP_READ_BY_TYPE_REQ,
      BT_ATT_OP_READ_REQ, BT_ATT_OP_READ_BLOB_REQ, BT_ATT_OP_READ_MULT_REQ, BT_ATT_OP_READ_BY_GRP_TYPE_REQ,
      BT_ATT_OP_WRITE_REQ, BT_ATT_OP_PREP_WRITE_REQ, BT_ATT_OP_EXEC_WRITE_REQ}"
    using assms by (auto simp: get_op_type_def att_opcode_type_table_def split: if_split_asm)
  then show ?thesis
    by (auto simp: gs_handler_table_def att_opcodes ATT_OP_SIGNED_MASK_def)
qed

lemma handler_table_distinct: "distinct (map fst gs_handler_table)" "BT_ATT_ALL_REQUESTS \<notin> fst ` set gs_handler_table"
  by (simp_all add: gs_handler_table_def att_opcodes BT_ATT_ALL_REQUESTS_def)

lemma notify_loop_table:
  fixes w :: server
  assumes "distinct (map an_opcode ns)" and "BT_ATT_ALL_REQUESTS \<notin> an_opcode ` set ns"
    and "\<And>n. n \<in> set ns \<Longrightarrow> att_notify_list (e_notify env (an_callback n) opc p (an_user_data n) w) \<noteq> []"
  shows "notify_loop env opc p ns b w = (case find (\<lambda>n. an_opcode n = opc) ns of
      None \<Rightarrow> (b, w) | Some n \<Rightarrow> (True, e_notify env (an_callback n) opc p (an_user_data n) w))"
  using assms
proof (induction ns arbitrary: b)
  case (Cons n ns)
  have no: "notify_loop env opc p ns b' v = (b', v)" if "opc \<notin> an_opcode ` set ns" for b' v
    using that Cons.prems(2)
  proof (induction ns)
    case (Cons m ns)
    then show ?case by (auto simp: opcode_match_def)
  qed simp
  show ?case
  proof (cases "an_opcode n = opc")
    case True
    with Cons.prems(1) have "opc \<notin> an_opcode ` set ns" by auto
    with True Cons.prems(3) [of n] no show ?thesis by (simp add: opcode_match_def Let_def)
  next
    case False
    then have "\<not> opcode_match (an_opcode n) opc" using Cons.prems(2) by (auto simp: opcode_match_def)
    with False Cons show ?thesis by simp
  qed
qed simp

lemma notify_is_handler: "e_notify (gs_att_env (clk_env K)) f opc p ud w = gs_notify (clk_env K) f opc p ud w"
  by (simp add: gs_att_env_def)

lemma registered_find:
  assumes "registered w"
  shows "distinct (map an_opcode (att_notify_list w))" "BT_ATT_ALL_REQUESTS \<notin> an_opcode ` set (att_notify_list w)"
    and "opc \<in> fst ` set (gs_handler_table :: (u8 \<times> clk_fn att_cb) list) \<Longrightarrow>
      \<exists>n. find (\<lambda>n. an_opcode n = opc) (att_notify_list w) = Some n \<and> (opc, an_callback n) \<in> set gs_handler_table"
proof -
  let ?e = "\<lambda>n. (an_opcode n, an_callback n)"
  have r: "map ?e (att_notify_list w) = gs_handler_table" using assms by (simp add: registered_def)
  have o: "map an_opcode (att_notify_list w) = map fst (map ?e (att_notify_list w))" by simp
  show "distinct (map an_opcode (att_notify_list w))" unfolding o r by (rule handler_table_distinct)
  have "an_opcode ` set (att_notify_list w) = fst ` set (map ?e (att_notify_list w))" by force
  then show "BT_ATT_ALL_REQUESTS \<notin> an_opcode ` set (att_notify_list w)" unfolding r using handler_table_distinct(2) by simp
  have "fst ` set (map ?e (att_notify_list w)) = an_opcode ` set (att_notify_list w)" by force
  then have i: "opc \<in> an_opcode ` set (att_notify_list w)" if "opc \<in> fst ` set (gs_handler_table :: (u8 \<times> clk_fn att_cb) list)"
    using that unfolding r by simp
  show "\<exists>n. find (\<lambda>n. an_opcode n = opc) (att_notify_list w) = Some n \<and> (opc, an_callback n) \<in> set gs_handler_table"
    if opc: "opc \<in> fst ` set (gs_handler_table :: (u8 \<times> clk_fn att_cb) list)"
  proof -
    obtain n where n: "find (\<lambda>n. an_opcode n = opc) (att_notify_list w) = Some n"
      using i [OF opc] by (cases "find (\<lambda>n. an_opcode n = opc) (att_notify_list w)") (auto simp: find_None_iff)
    then have "n \<in> set (att_notify_list w)" "an_opcode n = opc" by (auto simp: find_Some_iff)
    then have "?e n \<in> set gs_handler_table" unfolding r [symmetric] by auto
    with n \<open>an_opcode n = opc\<close> show ?thesis by auto
  qed
qed

lemma can_answer_bearer_fields [simp]:
  "can_answer (w\<lparr>in_req := a\<rparr>) = can_answer w" "can_answer (w\<lparr>att_ref_count := c\<rparr>) = can_answer w"
  "rsps (w\<lparr>in_req := a\<rparr>) = rsps w" "rsps (w\<lparr>att_ref_count := c\<rparr>) = rsps w"
  by (simp_all add: can_answer_def rsps_def)

text \<open>A PDU whose opcode is registered is given to its handler; the reference count is as before.\<close>

lemma handle_notify_runs:
  assumes "registered u" and "0 < att_ref_count u" and "opc AND ATT_OP_SIGNED_MASK = 0"
    and "opc \<in> fst ` set (gs_handler_table :: (u8 \<times> clk_fn att_cb) list)"
  shows "\<exists>f ud v. (opc, f) \<in> set gs_handler_table \<and>
    v = gs_notify (clk_env K) f opc p ud (u\<lparr>att_ref_count := att_ref_count u + 1\<rparr>) \<and>
    att_handle_notify (gs_att_env (clk_env K)) opc p u = v\<lparr>att_ref_count := att_ref_count u\<rparr> \<and> same_bearer u (v\<lparr>att_ref_count := att_ref_count u\<rparr>)"
proof -
  let ?env = "gs_att_env (clk_env K)"
  let ?u = "u\<lparr>att_ref_count := att_ref_count u + 1\<rparr>"
  obtain n where n: "find (\<lambda>n. an_opcode n = opc) (att_notify_list u) = Some n" "(opc, an_callback n) \<in> set gs_handler_table"
    using registered_find(3) [OF assms(1,4)] by blast
  define v where "v = gs_notify (clk_env K) (an_callback n) opc p (an_user_data n) ?u"
  have same: "same_bearer ?u (gs_notify (clk_env K) f opc p ud ?u)" for f ud by (rule clk_bearer.notify_rel)
  have "att_notify_list u \<noteq> []" using n(1) by auto
  then have "notify_loop ?env opc p (att_notify_list u) False (bt_att_ref u) = (True, v)"
    using notify_loop_table [OF registered_find(1,2) [OF assms(1)], of ?env opc p ?u False] same n(1)
    by (simp add: notify_is_handler v_def same_bearer_def bt_att_ref_def)
  moreover have v: "att_ref_count v = att_ref_count u + 1" "same_bearer ?u v"
    using same [of "an_callback n" "an_user_data n"] by (simp_all add: same_bearer_def v_def)
  ultimately have "att_handle_notify ?env opc p u = v\<lparr>att_ref_count := att_ref_count u\<rparr>"
    using assms(2,3) by (simp add: att_handle_notify_def bt_att_unref_def)
  with n(2) v v_def show ?thesis by (auto simp: same_bearer_def)
qed

text \<open>The state after a request, up to the reference counts.\<close>

lemma request_runs_handler:
  assumes "clk_ready w" and "\<not> in_req w" and "get_op_type opc = ATT_OP_TYPE_REQ"
    and "can_read_data (gs_att_env (clk_env K)) (Some (opc # p)) w = (b, w')"
  shows "\<exists>f ud v. (opc, f) \<in> set gs_handler_table \<and> b \<and>
    v = gs_notify (clk_env K) f opc p ud (w\<lparr>att_ref_count := att_ref_count w + 2, in_req := True\<rparr>) \<and>
    w' = v\<lparr>att_ref_count := att_ref_count w\<rparr> \<and> same_bearer (w\<lparr>in_req := True\<rparr>) w'"
proof -
  let ?u = "w\<lparr>att_ref_count := att_ref_count w + 1, in_req := True\<rparr>"
  have r: "registered ?u" "0 < att_ref_count ?u" using assms(1) by (simp_all add: clk_ready_def registered_def)
  have o: "opc AND ATT_OP_SIGNED_MASK = 0" "opc \<in> fst ` set (gs_handler_table :: (u8 \<times> clk_fn att_cb) list)"
    using request_opcodes [OF assms(3)] by (auto intro: image_eqI [rotated])
  have e: "att_ref_count ?u = att_ref_count w + 1"
      "?u\<lparr>att_ref_count := att_ref_count w + 1 + 1\<rparr> = w\<lparr>att_ref_count := att_ref_count w + 2, in_req := True\<rparr>"
    by (cases w; simp)+
  from handle_notify_runs [OF r o, of K p, unfolded e(1), unfolded e(2)] obtain f ud v where h: "(opc, f) \<in> set gs_handler_table"
      "v = gs_notify (clk_env K) f opc p ud (w\<lparr>att_ref_count := att_ref_count w + 2, in_req := True\<rparr>)"
      "att_handle_notify (gs_att_env (clk_env K)) opc p ?u = v\<lparr>att_ref_count := att_ref_count w + 1\<rparr>"
      "same_bearer ?u (v\<lparr>att_ref_count := att_ref_count w + 1\<rparr>)"
    by blast
  have "b \<and> w' = v\<lparr>att_ref_count := att_ref_count w\<rparr>"
    using assms h(3)
    by (simp add: clk_ready_def can_read_data_def ATT_MIN_PDU_LEN_def bt_att_ref_def bt_att_unref_def Let_def split: if_split_asm)
  with h show ?thesis by (auto simp: same_bearer_def)
qed



end
