(* ===== verification/Gatt_Server_Props.thy ===== *)
theory Gatt_Server_Props
  imports Server_Db
begin

text \<open>
  What single requests of the GATT server do: permissions, reading and writing values, the MTU, the list
  responses, prepared writes.
\<close>

section \<open>What the properties speak of\<close>

text \<open>The readable bytes of a value.\<close>

definition stored :: "('f, 'u) gatt_db_attribute \<Rightarrow> bytes" where
  "stored a = take (unat (value_len a)) (value_bytes (attr_value a))"

text \<open>The characteristic before the value has no extended properties.\<close>

definition no_ext_prop :: "('f, 'u) gatt_db \<Rightarrow> u16 \<Rightarrow> bool" where
  "no_ext_prop db h \<longleftrightarrow> (case gatt_db_get_attribute db h of None \<Rightarrow> True
     | Some p \<Rightarrow> (case gatt_db_attribute_get_char_data db (Some p) of None \<Rightarrow> True
         | Some (_, _, props, _) \<Rightarrow> props AND BT_GATT_CHRC_PROP_EXT_PROP = 0))"

section \<open>The sample server, evaluated\<close>

lemma sample_view:
  "(let w = sample_server; k = clk_env sample_kernel; db = gs_db w;
        view = \<lambda>h. map_option (\<lambda>p. (p, map_option (\<lambda>a. (read_func a, write_func a, attr_value a, value_len a)) (attr_at db p)))
          (gatt_db_get_attribute db h)
    in (view 3, view 14, check_permissions k (0, 2) read_mask w, check_permissions k (2, 2) read_mask w,
        check_permissions k (2, 2) write_mask w, pending_read_op w, pending_write_op w, rsps w, gs_mtu w, prep_queue w,
        max_prep_queue_len w, att_mtu w, no_ext_prop db 13)) =
   (Some ((0, 2), Some (None, None, Some (map of_char ''WALLCLOCK'' @ [0]), 10)),
    Some ((2, 2), Some (None, None, None, 0)), 0, 0, 0, False, False, [], 23, [], 30, 23, True)"
  by code_simp

lemma sample_name:
  "\<exists>a. gatt_db_get_attribute (gs_db sample_server) 3 = Some (0, 2) \<and> attr_at (gs_db sample_server) (0, 2) = Some a \<and>
     read_func a = None \<and> stored a = map of_char ''WALLCLOCK'' @ [0]"
  "check_permissions (clk_env sample_kernel) (0, 2) read_mask sample_server = 0"
  using sample_view by (auto simp: Let_def stored_def value_bytes_def)

lemma sample_data:
  "\<exists>a. gatt_db_get_attribute (gs_db sample_server) 14 = Some (2, 2) \<and> attr_at (gs_db sample_server) (2, 2) = Some a \<and>
     read_func a = None \<and> write_func a = None \<and> stored a = []"
  "check_permissions (clk_env sample_kernel) (2, 2) read_mask sample_server = 0"
  "check_permissions (clk_env sample_kernel) (2, 2) write_mask sample_server = 0"
  "no_ext_prop (gs_db sample_server) 13"
  using sample_view by (auto simp: Let_def stored_def value_bytes_def)

lemma sample_state:
  "pending_read_op sample_server = False" "pending_write_op sample_server = False" "rsps sample_server = []"
  "gs_mtu sample_server = 23" "prep_queue sample_server = []" "max_prep_queue_len sample_server = 30"
  "att_mtu sample_server = 23"
  using sample_view by (simp_all add: Let_def)

section \<open>Permissions\<close>

text \<open>The bits that matter for an access: permitted, authenticated, encrypted.\<close>

definition access_error :: "bool \<Rightarrow> bool \<Rightarrow> bool \<Rightarrow> bool \<Rightarrow> int \<Rightarrow> bool \<Rightarrow> int \<Rightarrow> int" where
  "access_error unrestricted permitted authen encrypt security key_ok not_permitted =
     (if \<not> unrestricted \<and> \<not> permitted then not_permitted
      else if \<not> permitted \<and> \<not> authen \<and> \<not> encrypt then 0
      else if security < 0 then BT_ATT_ERROR_UNLIKELY
      else if authen \<and> security < BT_ATT_SECURITY_HIGH then BT_ATT_ERROR_AUTHENTICATION
      else if encrypt \<and> \<not> authen \<and> security < BT_ATT_SECURITY_MEDIUM then BT_ATT_ERROR_INSUFFICIENT_ENCRYPTION
      else if (authen \<or> encrypt) \<and> \<not> key_ok then BT_ATT_ERROR_INSUFFICIENT_ENCRYPTION_KEY_SIZE
      else 0)"

lemma mask_bits:
  fixes perm :: u32
  shows "perm AND read_mask = 0 \<longleftrightarrow>
      perm AND BT_ATT_PERM_READ = 0 \<and> perm AND BT_ATT_PERM_READ_AUTHEN = 0 \<and> perm AND BT_ATT_PERM_READ_ENCRYPT = 0"
    and "perm AND write_mask = 0 \<longleftrightarrow>
      perm AND BT_ATT_PERM_WRITE = 0 \<and> perm AND BT_ATT_PERM_WRITE_AUTHEN = 0 \<and> perm AND BT_ATT_PERM_WRITE_ENCRYPT = 0"
  unfolding read_mask_def write_mask_def bit.conj_disj_distrib or_eq_0_iff by auto

lemma mask_parts:
  "read_mask AND BT_ATT_PERM_SECURE = 0" "read_mask AND BT_ATT_PERM_AUTHEN = BT_ATT_PERM_READ_AUTHEN"
  "read_mask AND BT_ATT_PERM_ENCRYPT = BT_ATT_PERM_READ_ENCRYPT" "read_mask AND BT_ATT_PERM_READ \<noteq> 0"
  "read_mask AND BT_ATT_PERM_WRITE = 0"
  "write_mask AND BT_ATT_PERM_SECURE = 0" "write_mask AND BT_ATT_PERM_AUTHEN = BT_ATT_PERM_WRITE_AUTHEN"
  "write_mask AND BT_ATT_PERM_ENCRYPT = BT_ATT_PERM_WRITE_ENCRYPT" "write_mask AND BT_ATT_PERM_WRITE \<noteq> 0"
  "write_mask AND BT_ATT_PERM_READ = 0"
  by (simp_all add: read_mask_def write_mask_def att_permissions)

text \<open>
  Claim C6. Access control, bit by bit: an attribute without permission bits is open; otherwise
  the bit of the access must be set; authentication wants the high security level, encryption the
  medium one, both a long enough key. The \<open>SECURE\<close> bits take no part: the handlers' masks leave them
  out, so an attribute that asks for secure connections is readable and writable without them.
\<close>

theorem check_permissions_bits:
  "check_permissions k p read_mask w =
     (let perm = gatt_db_attribute_get_permissions (gs_db w) (Some p)
      in access_error (perm = 0) (perm AND BT_ATT_PERM_READ \<noteq> 0) (perm AND BT_ATT_PERM_READ_AUTHEN \<noteq> 0)
           (perm AND BT_ATT_PERM_READ_ENCRYPT \<noteq> 0) (fst (bt_att_get_security (ge_att k) w))
           (check_min_key_size (gs_min_enc_size w) (snd (bt_att_get_security (ge_att k) w))) BT_ATT_ERROR_READ_NOT_PERMITTED) \<and>
   check_permissions k p write_mask w =
     (let perm = gatt_db_attribute_get_permissions (gs_db w) (Some p)
      in access_error (perm = 0) (perm AND BT_ATT_PERM_WRITE \<noteq> 0) (perm AND BT_ATT_PERM_WRITE_AUTHEN \<noteq> 0)
           (perm AND BT_ATT_PERM_WRITE_ENCRYPT \<noteq> 0) (fst (bt_att_get_security (ge_att k) w))
           (check_min_key_size (gs_min_enc_size w) (snd (bt_att_get_security (ge_att k) w))) BT_ATT_ERROR_WRITE_NOT_PERMITTED)"
proof -
  let ?perm = "gatt_db_attribute_get_permissions (gs_db w) (Some p)"
  have levels: "\<not> s < BT_ATT_SECURITY_HIGH \<Longrightarrow> \<not> s < BT_ATT_SECURITY_MEDIUM" for s
    by (simp add: BT_ATT_SECURITY_HIGH_def BT_ATT_SECURITY_MEDIUM_def)
  show ?thesis
    unfolding check_permissions_def Let_def case_prod_unfold and.assoc mask_parts mask_bits access_error_def
    apply (rule conjI)
    subgoal
      using levels [of "fst (bt_att_get_security (ge_att k) w)"]
      by (cases "?perm = 0"; cases "?perm AND BT_ATT_PERM_READ = 0"; cases "?perm AND BT_ATT_PERM_READ_AUTHEN = 0";
          cases "?perm AND BT_ATT_PERM_READ_ENCRYPT = 0"; simp add: mask_parts)
    subgoal
      using levels [of "fst (bt_att_get_security (ge_att k) w)"]
      by (cases "?perm = 0"; cases "?perm AND BT_ATT_PERM_WRITE = 0"; cases "?perm AND BT_ATT_PERM_WRITE_AUTHEN = 0";
          cases "?perm AND BT_ATT_PERM_WRITE_ENCRYPT = 0"; simp add: mask_parts)
    done
qed

section \<open>Values kept in the database\<close>

text \<open>An attribute in the database that may be read and has its value there.\<close>

definition plain_readable ::
  "('c, 'v, 'z) gs_env_of \<Rightarrow> u16 \<Rightarrow> ('c db_cb, 'v db_ud) gatt_db_attribute \<Rightarrow> ('c, 'v, 'z) gatt_world_scheme \<Rightarrow> bool" where
  "plain_readable k h a w \<longleftrightarrow> (\<exists>p. gatt_db_get_attribute (gs_db w) h = Some p \<and> attr_at (gs_db w) p = Some a \<and>
     check_permissions k p read_mask w = 0 \<and> read_func a = None)"

lemma stored_length: "attr_ok a \<Longrightarrow> length (stored a) = unat (value_len a)"
  by (auto simp: stored_def attr_ok_def value_bytes_def split: option.splits)

lemma attribute_read_plain:
  assumes "attr_at (gs_db w) p = Some a" and "read_func a = None" and "attr_ok a"
  shows "gs_attribute_read k p off opc f ud w = (True,
    if unat off > length (stored a) then Some (BT_ATT_ERROR_INVALID_OFFSET, None)
    else Some (0, if off = value_len a then None else map_option (\<lambda>_. drop (unat off) (stored a)) (attr_value a)), w)"
proof -
  have "take (unat (value_len a - off)) (drop (unat off) v) = drop (unat off) (take (unat (value_len a)) v)"
    if "\<not> value_len a < off" for v :: bytes
  proof -
    have "off \<le> value_len a" using that by simp
    then have "unat (value_len a - off) = unat (value_len a) - unat off" by (rule unat_sub)
    then show ?thesis by (simp add: drop_take)
  qed
  then show ?thesis
    using assms stored_length [OF assms(3)]
    by (auto simp: gs_attribute_read_def gatt_db_attribute_read_def run_read_event_def stored_def value_bytes_def
        word_less_nat_alt split: option.split)
qed

text \<open>What permissions depend on, beside the database.\<close>

definition sec_view :: "('c, 'v, 'z) gatt_world_scheme \<Rightarrow> bool \<times> int \<times> u8 \<times> u8" where
  "sec_view w = (io_on_l2cap w, io_sec_level w, enc_size w, gs_min_enc_size w)"

lemma sec_view_steps: "sec_view (wakeup_writer w) = sec_view w" "sec_view (enqueue_op op w) = sec_view w"
    "sec_view (w\<lparr>next_send_id := i\<rparr>) = sec_view w"
  by (simp_all add: sec_view_def wakeup_writer_def enqueue_op_def split: att_op_type.split)

lemma send_sec_view: "sec_view (snd (bt_att_send env opc pdu len cb ud d w)) = sec_view w"
  using bt_att_send_shape [of env opc pdu len cb ud d w] by (auto simp: sec_view_steps)

lemma check_permissions_same:
  assumes "gatt_db_attribute_get_permissions (gs_db w') (Some p) = gatt_db_attribute_get_permissions (gs_db w) (Some p)"
    and "sec_view w' = sec_view w"
  shows "check_permissions k p msk w' = check_permissions k p msk w"
proof -
  have "bt_att_get_security (ge_att k) w' = bt_att_get_security (ge_att k) w"
    using assms(2) by (simp add: bt_att_get_security_def sec_view_def cong: option.case_cong)
  moreover have "gs_min_enc_size w' = gs_min_enc_size w" using assms(2) by (simp add: sec_view_def)
  ultimately show ?thesis using assms(1) by (simp only: check_permissions_def)
qed

lemma plain_readable_same:
  "gs_db w' = gs_db w \<Longrightarrow> sec_view w' = sec_view w \<Longrightarrow> plain_readable k h a w' = plain_readable k h a w"
  unfolding plain_readable_def using check_permissions_same [of w' _ w k] by simp

text \<open>The world after a handler that only sends: the response, and the rest.\<close>

lemma gs_send_rsps:
  assumes "can_answer w" and "opc AND ATT_OP_SIGNED_MASK = 0" and "get_op_type opc = ATT_OP_TYPE_RSP"
    and "length (value_bytes pdu) + 1 \<le> unat (att_mtu w)"
  shows "rsps (gs_send k opc pdu w) = rsps w @ [opc # value_bytes pdu]"
    and "gs_db (gs_send k opc pdu w) = gs_db w" "att_mtu (gs_send k opc pdu w) = att_mtu w"
    and "can_answer (gs_send k opc pdu w)" "gs_freed (gs_send k opc pdu w) = gs_freed w"
      "sec_view (gs_send k opc pdu w) = sec_view w"
proof -
  note s = send_rsp [OF _ assms(2-4), of "gs_send k opc pdu w" "ge_att k"]
  show "rsps (gs_send k opc pdu w) = rsps w @ [opc # value_bytes pdu]" "gs_db (gs_send k opc pdu w) = gs_db w"
      "att_mtu (gs_send k opc pdu w) = att_mtu w" "can_answer (gs_send k opc pdu w)"
      "gs_freed (gs_send k opc pdu w) = gs_freed w"
      "sec_view (gs_send k opc pdu w) = sec_view w"
    using s more_eq_server [of "gs_send k opc pdu w" w] assms(1) send_sec_view by (auto simp: can_answer_def gs_send_def)
qed

definition error_pdu :: "u8 \<Rightarrow> u16 \<Rightarrow> int \<Rightarrow> bytes" where
  "error_pdu opc h err = BT_ATT_OP_ERROR_RSP # opc # put_le16 h @ [att_ecode_from_error err]"

lemma gs_error_rsps:
  assumes "can_answer w" and "opc \<noteq> 0"
  shows "rsps (gs_error k opc h err w) = rsps w @ [error_pdu opc h err]"
    and "gs_db (gs_error k opc h err w) = gs_db w" "att_mtu (gs_error k opc h err w) = att_mtu w"
    and "can_answer (gs_error k opc h err w)" "gs_freed (gs_error k opc h err w) = gs_freed w"
      "sec_view (gs_error k opc h err w) = sec_view w"
proof -
  let ?p = "opc # put_le16 h @ [att_ecode_from_error err]"
  have "gs_error k opc h err w = gs_send k BT_ATT_OP_ERROR_RSP (Some ?p) w"
    using assms(2) by (simp add: gs_error_def gs_send_def bt_att_send_error_rsp_def)
  then show "rsps (gs_error k opc h err w) = rsps w @ [error_pdu opc h err]" "gs_db (gs_error k opc h err w) = gs_db w"
      "att_mtu (gs_error k opc h err w) = att_mtu w" "can_answer (gs_error k opc h err w)"
      "gs_freed (gs_error k opc h err w) = gs_freed w"
      "sec_view (gs_error k opc h err w) = sec_view w"
    using gs_send_rsps [OF assms(1), of BT_ATT_OP_ERROR_RSP "Some ?p" k] assms(1)
    by (simp_all add: error_pdu_def value_bytes_def can_answer_def)
qed

lemma can_answer_attr_ok: "can_answer w \<Longrightarrow> attr_at (gs_db w) p = Some a \<Longrightarrow> attr_ok a"
  by (cases p) (auto simp: can_answer_def db_inv_def db_wf_def svc_wf_def svc_dense_def attr_at_iff dest: find_service_in)

text \<open>
  Reading with an offset, as \<^verbatim>\<open>read_cb\<close> (offset 0) and \<^verbatim>\<open>read_blob_cb\<close> do it.
\<close>

lemma handle_read_plain:
  fixes w w' :: "('c, 'v, 'z) gatt_world_scheme"
  assumes "can_answer w" and "\<not> pending_read_op w" and "plain_readable k h a w"
    and "opc \<in> {BT_ATT_OP_READ_REQ, BT_ATT_OP_READ_BLOB_REQ}" and "w' = handle_read_req k opc h off w"
  shows "rsps w' = rsps w @ [if unat off \<le> length (stored a)
        then get_read_rsp_opcode opc # take (unat (att_mtu w) - 1) (drop (unat off) (stored a))
        else error_pdu opc h BT_ATT_ERROR_INVALID_OFFSET]"
    and "gs_db w' = gs_db w" "att_mtu w' = att_mtu w" "can_answer w'" "\<not> pending_read_op w'" "sec_view w' = sec_view w"
proof -
  obtain p where p: "gatt_db_get_attribute (gs_db w) h = Some p" "attr_at (gs_db w) p = Some a"
      "check_permissions k p read_mask w = 0" "read_func a = None"
    using assms(3) by (auto simp: plain_readable_def)
  let ?w = "w\<lparr>pending_read_op := True\<rparr>"
  have c: "can_answer ?w" using assms(1) by simp
  have a: "attr_ok a" by (rule can_answer_attr_ok [OF assms(1) p(2)])
  have wf: "db_wf (gs_db w)" using assms(1) by (simp add: can_answer_def db_inv_def)
  have h: "gatt_db_attribute_get_handle (gs_db w) (Some p) = h"
    using p(1,2) get_attribute_iff [OF wf] by (auto simp: gatt_db_attribute_get_handle_def)
  note r = attribute_read_plain [of ?w p a k off opc Read_Complete_Cb
      "Ud_Read \<lparr>ro_opcode = opc, ro_done = False, ro_pdu = [], ro_value_len = 0, ro_db_data = []\<rparr>", simplified, OF p(2,4) a]
  let ?v = "drop (unat off) (stored a)"
  have o: "opc \<noteq> 0" "get_read_rsp_opcode opc AND ATT_OP_SIGNED_MASK = 0" "get_op_type (get_read_rsp_opcode opc) = ATT_OP_TYPE_RSP"
    using assms(4) by (auto simp: get_read_rsp_opcode_def)
  have run: "w' = read_complete_cb k \<lparr>ro_opcode = opc, ro_done = False, ro_pdu = [], ro_value_len = 0, ro_db_data = []\<rparr> p e val ?w"
    if "r = Some (e, val)" "r = (if unat off > length (stored a) then Some (BT_ATT_ERROR_INVALID_OFFSET, None)
      else Some (0, if off = value_len a then None else map_option (\<lambda>_. ?v) (attr_value a)))" for r e val
    using assms(2,5) p(1,3) r that by (simp add: handle_read_req_def Let_def)
  have sv: "sec_view ?w = sec_view w" by (simp add: sec_view_def)
  have free: "\<not> gs_freed w" using assms(1) by (simp add: can_answer_def)
  have fin: "rsps (async_read_op_destroy x) = rsps x" "gs_db (async_read_op_destroy x) = gs_db x"
      "att_mtu (async_read_op_destroy x) = att_mtu x" "can_answer (async_read_op_destroy x) = can_answer x"
      "gs_freed x = gs_freed w \<Longrightarrow> \<not> pending_read_op (async_read_op_destroy x)"
      "sec_view (async_read_op_destroy x) = sec_view x" for x :: "('c, 'v, 'z) gatt_world_scheme"
    using free by (simp_all add: async_read_op_destroy_def sec_view_def)
  have "rsps w' = rsps w @ [if unat off \<le> length (stored a)
        then get_read_rsp_opcode opc # take (unat (att_mtu w) - 1) (drop (unat off) (stored a))
        else error_pdu opc h BT_ATT_ERROR_INVALID_OFFSET] \<and>
      gs_db w' = gs_db w \<and> att_mtu w' = att_mtu w \<and> can_answer w' \<and> \<not> pending_read_op w' \<and> sec_view w' = sec_view w"
  proof (cases "unat off \<le> length (stored a)")
    case False
    then have "w' = async_read_op_destroy (gs_error k opc h BT_ATT_ERROR_INVALID_OFFSET ?w)"
      using run [of "Some (BT_ATT_ERROR_INVALID_OFFSET, None)"] free h
      by (simp add: read_complete_cb_def Let_def att_errors)
    then show ?thesis
      using False gs_error_rsps [OF c o(1), of k h BT_ATT_ERROR_INVALID_OFFSET] fin sv by simp
  next
    case True
    define val where "val = (if off = value_len a then None else map_option (\<lambda>_. ?v) (attr_value a))"
    have vb: "value_bytes val = ?v"
      using stored_length [OF a] by (auto simp: val_def value_bytes_def stored_def split: option.split)
    let ?pdu = "if ?v = [] then None else Some (take (min (unat (att_mtu w) - 1) (length ?v)) ?v)"
    have pdu: "value_bytes ?pdu = take (unat (att_mtu w) - 1) ?v" by (auto simp: value_bytes_def min_def)
    have "w' = async_read_op_destroy (gs_send k (get_read_rsp_opcode opc) ?pdu ?w)"
      using run [of "Some (0, val)"] True free vb by (simp add: val_def read_complete_cb_def Let_def bt_att_get_mtu_def)
    moreover have "length (value_bytes ?pdu) + 1 \<le> unat (att_mtu ?w)"
      using assms(1) unfolding pdu by (auto simp: can_answer_def)
    ultimately show ?thesis
      using True gs_send_rsps [OF c o(2,3), of ?pdu k] fin pdu sv by simp
  qed
  then show "rsps w' = rsps w @ [if unat off \<le> length (stored a)
        then get_read_rsp_opcode opc # take (unat (att_mtu w) - 1) (drop (unat off) (stored a))
        else error_pdu opc h BT_ATT_ERROR_INVALID_OFFSET]"
      "gs_db w' = gs_db w" "att_mtu w' = att_mtu w" "can_answer w'" "\<not> pending_read_op w'" "sec_view w' = sec_view w"
    by simp_all
qed

text \<open>
  A client that reads a long value: blob requests at growing offsets until a response is not full.
  \<open>n\<close> bounds the number of requests.
\<close>

definition blob_request :: "u16 \<Rightarrow> nat \<Rightarrow> bytes" where
  "blob_request h off = put_le16 h @ put_le16 (of_nat off)"

primrec read_long ::
  "('c, 'v, 'z) gs_env_of \<Rightarrow> u16 \<Rightarrow> nat \<Rightarrow> nat \<Rightarrow> ('c, 'v, 'z) gatt_world_scheme \<Rightarrow> bytes option" where
  "read_long k h 0 off w = None"
| "read_long k h (Suc n) off w =
     (let w' = read_blob_cb k BT_ATT_OP_READ_BLOB_REQ (blob_request h off) w;
          r = last (rsps w'); part = tl r
      in if hd r \<noteq> BT_ATT_OP_READ_BLOB_RSP then None
         else if length part < unat (att_mtu w) - 1 then Some part
         else map_option (\<lambda>rest. part @ rest) (read_long k h n (off + length part) w'))"

lemma read_blob_plain:
  assumes "can_answer w" and "\<not> pending_read_op w" and "plain_readable k h a w" and "off < 65536"
    and "w' = read_blob_cb k BT_ATT_OP_READ_BLOB_REQ (blob_request h off) w"
  shows "rsps w' = rsps w @ [if off \<le> length (stored a)
        then BT_ATT_OP_READ_BLOB_RSP # take (unat (att_mtu w) - 1) (drop off (stored a))
        else error_pdu BT_ATT_OP_READ_BLOB_REQ h BT_ATT_ERROR_INVALID_OFFSET]"
    and "gs_db w' = gs_db w" "att_mtu w' = att_mtu w" "can_answer w'" "\<not> pending_read_op w'" "sec_view w' = sec_view w"
proof -
  have "get_le16 (blob_request h off) 0 = h" unfolding blob_request_def by (rule get_put_le16_0)
  moreover have "get_le16 (blob_request h off) 2 = of_nat off"
    unfolding blob_request_def using get_put_le16 [of "put_le16 h" "of_nat off" "[]"] by simp
  ultimately have w': "w' = handle_read_req k BT_ATT_OP_READ_BLOB_REQ h (of_nat off) w"
    using assms(5) by (simp add: read_blob_cb_def blob_request_def)
  have "unat (of_nat off :: u16) = off" using assms(4) by (simp add: unat_of_nat)
  moreover have "get_read_rsp_opcode BT_ATT_OP_READ_BLOB_REQ = BT_ATT_OP_READ_BLOB_RSP"
    by (simp add: get_read_rsp_opcode_def att_opcodes)
  ultimately show "rsps w' = rsps w @ [if off \<le> length (stored a)
        then BT_ATT_OP_READ_BLOB_RSP # take (unat (att_mtu w) - 1) (drop off (stored a))
        else error_pdu BT_ATT_OP_READ_BLOB_REQ h BT_ATT_ERROR_INVALID_OFFSET]"
      "gs_db w' = gs_db w" "att_mtu w' = att_mtu w" "can_answer w'" "\<not> pending_read_op w'" "sec_view w' = sec_view w"
    using handle_read_plain [OF assms(1-3) _ w'] by simp_all
qed

lemma read_long_from:
  "can_answer w \<Longrightarrow> \<not> pending_read_op w \<Longrightarrow> plain_readable k h a w \<Longrightarrow> off \<le> length (stored a) \<Longrightarrow>
     length (stored a) < n * (unat (att_mtu w) - 1) + off \<Longrightarrow> read_long k h n off w = Some (drop off (stored a))"
proof (induction n arbitrary: off w)
  case (Suc n)
  let ?m = "unat (att_mtu w) - 1"
  define w' where "w' = read_blob_cb k BT_ATT_OP_READ_BLOB_REQ (blob_request h off) w"
  have "length (stored a) \<le> unat (value_len a)" by (simp add: stored_def)
  then have off: "off < 65536" using Suc.prems(4) unsigned_less [of "value_len a", where 'a = nat] by simp
  note b = read_blob_plain [OF Suc.prems(1-3) off w'_def]
  have r: "last (rsps w') = BT_ATT_OP_READ_BLOB_RSP # take ?m (drop off (stored a))"
    unfolding b(1) using Suc.prems(4) by simp
  show ?case
  proof (cases "length (take ?m (drop off (stored a))) < ?m")
    case True
    then have "take ?m (drop off (stored a)) = drop off (stored a)" by simp
    moreover have "length (stored a) - off < ?m" using True by (simp add: min_less_iff_disj)
    ultimately show ?thesis using r by (simp add: w'_def [symmetric] Let_def)
  next
    case False
    then have l: "length (take ?m (drop off (stored a))) = ?m" "off + ?m \<le> length (stored a)"
      using Suc.prems(4) by auto
    have "read_long k h n (off + ?m) w' = Some (drop (off + ?m) (stored a))"
    proof (rule Suc.IH [OF b(4,5)])
      show "plain_readable k h a w'" using plain_readable_same [OF b(2,6)] Suc.prems(3) by simp
      show "length (stored a) < n * (unat (att_mtu w') - 1) + (off + ?m)" using Suc.prems(5) b(3) by simp
    qed (rule l(2))
    then have "read_long k h (Suc n) off w = Some (take ?m (drop off (stored a)) @ drop (off + ?m) (stored a))"
      using False r l(1) by (simp add: w'_def [symmetric] Let_def)
    also have "take ?m (drop off (stored a)) @ drop (off + ?m) (stored a) = drop off (stored a)"
      by (metis append_take_drop_id drop_drop add.commute)
    finally show ?thesis .
  qed
qed simp

text \<open>
  Claim C7. Long reads: a client that sends blob requests at growing offsets, until a response is
  shorter than the MTU allows, gets the value of the attribute, whatever its length, and the loop
  ends after at most \<open>length / (MTU - 1) + 1\<close> requests.
\<close>

theorem read_long_complete:
  assumes "can_answer w" and "\<not> pending_read_op w" and "plain_readable k h a w"
    and "n = length (stored a) div (unat (att_mtu w) - 1) + 1"
  shows "read_long k h n 0 w = Some (stored a)"
proof -
  have "0 < unat (att_mtu w) - 1" using assms(1) by (auto simp: can_answer_def)
  then have "length (stored a) < n * (unat (att_mtu w) - 1)"
    unfolding assms(4) by (metis Suc_eq_plus1 dividend_less_div_times mult.commute mult_Suc)
  then show ?thesis using read_long_from [OF assms(1-3), of 0 n] by simp
qed

theorem read_long_complete_witness:
  "read_long (clk_env sample_kernel) 3 1 0 sample_server = Some (map of_char ''WALLCLOCK'' @ [0])"
proof -
  obtain a where a: "gatt_db_get_attribute (gs_db sample_server) 3 = Some (0, 2)"
      "attr_at (gs_db sample_server) (0, 2) = Some a" "read_func a = None" "stored a = map of_char ''WALLCLOCK'' @ [0]"
    using sample_name(1) by blast
  have c: "can_answer sample_server" using sample_ready by (simp add: clk_ready_def)
  have "23 \<le> unat (att_mtu sample_server)" using c by (simp add: can_answer_def)
  then have "1 = length (stored a) div (unat (att_mtu sample_server) - 1) + 1" by (simp add: a(4))
  moreover have "plain_readable (clk_env sample_kernel) 3 a sample_server"
    using a sample_name(2) by (auto simp: plain_readable_def)
  ultimately show ?thesis using read_long_complete [OF c _ _, of "clk_env sample_kernel" 3 a 1] sample_state(1) a(4) by simp
qed

section \<open>Writing\<close>

lemma stored_store_value:
  assumes "attr_ok a" and "v \<noteq> []" and "length v \<le> 0xFFFF"
  shows "stored (store_value junk 0 v a) = v @ drop (length v) (stored a)"
proof (cases "grows 0 v a")
  case True
  then have "length (stored a) \<le> length v"
    using stored_length [OF assms(1)] assms(1) by (auto simp: grows_def attr_ok_def)
  moreover obtain b where "attr_value (store_value junk 0 v a) = Some b" "b = v"
      "value_len (store_value junk 0 v a) = of_nat (length v)"
    using store_value_grow [OF True, of junk] by auto
  moreover have "unat (of_nat (length v) :: u16) = length v" using assms(3) by (simp add: unat_of_nat)
  ultimately show ?thesis by (simp add: stored_def value_bytes_def)
next
  case False
  from store_value_keep [OF this assms(1), of junk] obtain b where
    b: "attr_value a = Some b" "length v \<le> unat (value_len a)" "unat (value_len a) \<le> length b"
      "store_value junk 0 v a = a\<lparr>attr_value := Some (memcpy_at b 0 v)\<rparr>" by auto
  then show ?thesis by (simp add: stored_def value_bytes_def memcpy_at_def drop_take)
qed

definition plain_writable ::
  "('c, 'v, 'z) gs_env_of \<Rightarrow> u16 \<Rightarrow> attr_ptr \<Rightarrow> ('c db_cb, 'v db_ud) gatt_db_attribute \<Rightarrow> ('c, 'v, 'z) gatt_world_scheme \<Rightarrow> bool" where
  "plain_writable k h p a w \<longleftrightarrow> gatt_db_get_attribute (gs_db w) h = Some p \<and> attr_at (gs_db w) p = Some a \<and>
     check_permissions k p write_mask w = 0 \<and> write_func a = None"

lemma write_plain:
  fixes w w' :: "('c, 'v, 'z) gatt_world_scheme"
  assumes "can_answer w" and "\<not> pending_write_op w" and "plain_writable k h p a w" and "v \<noteq> []"
    and "w' = write_cb k BT_ATT_OP_WRITE_REQ (put_le16 h @ v) w"
  shows "rsps w' = rsps w @ [[BT_ATT_OP_WRITE_RSP]]"
    and "gs_db w' = upd_attr p (store_value (ge_junk k (w\<lparr>pending_write_op := True\<rparr>)) 0 v) (gs_db w)"
    and "att_mtu w' = att_mtu w" "can_answer w'" "\<not> pending_write_op w'" "sec_view w' = sec_view w"
      "pending_read_op w' = pending_read_op w"
proof -
  let ?w = "w\<lparr>pending_write_op := True\<rparr>"
  let ?db = "upd_attr p (store_value (ge_junk k ?w) 0 v) (gs_db w)"
  have p: "gatt_db_get_attribute (gs_db w) h = Some p" "attr_at (gs_db w) p = Some a"
      "check_permissions k p write_mask w = 0" "write_func a = None"
    using assms(3) by (simp_all add: plain_writable_def)
  have "get_le16 (put_le16 h @ v) 0 = h" by (rule get_put_le16_0)
  then have w': "w' = async_write_op_destroy (gs_send k BT_ATT_OP_WRITE_RSP None (?w\<lparr>gs_db := ?db\<rparr>))"
    using assms(1,2,4,5) p
    by (simp add: write_cb_def Let_def gs_attribute_write_def gatt_db_attribute_write_def run_write_event_def
        write_complete_cb_def can_answer_def att_opcodes)
  have "gatt_db_attribute_write (ge_junk k ?w) 0 (gs_db w) (Some p) 0 (Some v) 0 (Some Write_Complete_Cb) Ud_Exec =
      (True, [Call_Write_Result Write_Complete_Cb p 0 Ud_Exec], ?db)"
    using p(2,4) assms(4) by (simp add: gatt_db_attribute_write_def)
  from write_db_inv [OF _ this] have "db_inv ?db" using assms(1) by (simp add: can_answer_def)
  then have c: "can_answer (?w\<lparr>gs_db := ?db\<rparr>)" using assms(1) by (simp add: can_answer_def)
  have "length (value_bytes None) + 1 \<le> unat (att_mtu (?w\<lparr>gs_db := ?db\<rparr>))"
    using assms(1) by (simp add: can_answer_def value_bytes_def)
  note r = gs_send_rsps [OF c _ _ this, of BT_ATT_OP_WRITE_RSP k, simplified]
  have "gs_freed (gs_send k BT_ATT_OP_WRITE_RSP None (?w\<lparr>gs_db := ?db\<rparr>)) = False"
    using r(5) assms(1) by (simp add: can_answer_def)
  moreover have "pending_read_op (gs_send k BT_ATT_OP_WRITE_RSP None (?w\<lparr>gs_db := ?db\<rparr>)) = pending_read_op w"
    using more_eq_server [OF send_more, of "ge_att k" BT_ATT_OP_WRITE_RSP None 0 None None None "?w\<lparr>gs_db := ?db\<rparr>"]
    by (simp add: gs_send_def)
  ultimately show "rsps w' = rsps w @ [[BT_ATT_OP_WRITE_RSP]]" "gs_db w' = ?db" "att_mtu w' = att_mtu w" "can_answer w'"
      "\<not> pending_write_op w'" "sec_view w' = sec_view w" "pending_read_op w' = pending_read_op w"
    using r unfolding w' async_write_op_destroy_def by (simp_all add: value_bytes_def sec_view_def)
qed

text \<open>
  Claim C8. Write, then read: a write request of non-empty bytes to a writable value in the database is
  confirmed, and the read request that follows returns those bytes; the tail of an earlier, longer
  value stays behind them, since a write never shortens a value.
\<close>

theorem write_request_then_read:
  assumes "can_answer w" and "\<not> pending_write_op w" and "\<not> pending_read_op w"
    and "plain_writable k h p a w" and "plain_readable k h a w" and "v \<noteq> []" and "length v \<le> 0xFFFF"
    and "w1 = write_cb k BT_ATT_OP_WRITE_REQ (put_le16 h @ v) w" and "w2 = read_cb k BT_ATT_OP_READ_REQ (put_le16 h) w1"
  shows "rsps w2 = rsps w @ [[BT_ATT_OP_WRITE_RSP],
    BT_ATT_OP_READ_RSP # take (unat (att_mtu w) - 1) (v @ drop (length v) (stored a))]"
proof -
  note r = write_plain [OF assms(1,2,4,6,8)]
  define a' where "a' = store_value (ge_junk k (w\<lparr>pending_write_op := True\<rparr>)) 0 v a"
  have a: "attr_at (gs_db w) p = Some a" "gatt_db_get_attribute (gs_db w) h = Some p" "check_permissions k p read_mask w = 0"
      "read_func a = None"
    using assms(4,5) by (auto simp: plain_writable_def plain_readable_def)
  have ok: "attr_ok a" by (rule can_answer_attr_ok [OF assms(1) a(1)])
  have at': "attr_at (gs_db w1) p = Some a'" using a(1) by (simp add: r(2) attr_at_upd_attr a'_def)
  have wf: "db_wf (gs_db w)" "db_wf (gs_db w1)" using assms(1) r(4) by (simp_all add: can_answer_def db_inv_def)
  have "attr_handle a = h" using a(1,2) get_attribute_iff [OF wf(1)] by auto
  then have "gatt_db_get_attribute (gs_db w1) h = Some p"
    using at' get_attribute_iff [OF wf(2)] by (auto simp: a'_def)
  moreover have "check_permissions k p read_mask w1 = check_permissions k p read_mask w"
    by (rule check_permissions_same [OF _ r(6)]) (use at' a(1) in \<open>simp add: gatt_db_attribute_get_permissions_def a'_def\<close>)
  ultimately have readable: "plain_readable k h a' w1"
    using at' a(3,4) unfolding plain_readable_def by (intro exI [of _ p]) (simp add: a'_def)
  have "w2 = handle_read_req k BT_ATT_OP_READ_REQ h 0 w1"
    using assms(9) get_put_le16_0 [of h "[]"] by (simp add: read_cb_def)
  from handle_read_plain(1) [OF r(4) _ readable _ this] r(7) assms(3)
  have "rsps w2 = rsps w1 @ [BT_ATT_OP_READ_RSP # take (unat (att_mtu w1) - 1) (stored a')]"
    by (simp add: get_read_rsp_opcode_def)
  also have "stored a' = v @ drop (length v) (stored a)"
    unfolding a'_def by (rule stored_store_value [OF ok assms(6,7)])
  finally show ?thesis by (simp add: r(1,3))
qed

theorem write_request_then_read_witness:
  "rsps (read_cb (clk_env sample_kernel) BT_ATT_OP_READ_REQ (put_le16 14)
      (write_cb (clk_env sample_kernel) BT_ATT_OP_WRITE_REQ (put_le16 14 @ [0xAB, 0xCD]) sample_server)) =
    [[BT_ATT_OP_WRITE_RSP], [BT_ATT_OP_READ_RSP, 0xAB, 0xCD]]"
proof -
  obtain a where a: "gatt_db_get_attribute (gs_db sample_server) 14 = Some (2, 2)"
      "attr_at (gs_db sample_server) (2, 2) = Some a" "read_func a = None" "write_func a = None" "stored a = []"
    using sample_data(1) by blast
  have c: "can_answer sample_server" using sample_ready by (simp add: clk_ready_def)
  have "plain_readable (clk_env sample_kernel) 14 a sample_server"
      "plain_writable (clk_env sample_kernel) 14 (2, 2) a sample_server"
    using a sample_data(2,3) by (auto simp: plain_readable_def plain_writable_def)
  moreover have "23 \<le> unat (att_mtu sample_server)" using c by (simp add: can_answer_def)
  ultimately show ?thesis
    using write_request_then_read [OF c _ _ _ _ _ _ refl refl, of "clk_env sample_kernel" 14 "(2, 2)" a "[0xAB, 0xCD]"]
      sample_state a(5) by simp
qed

section \<open>The MTU\<close>

text \<open>
  Claim C10. Exchange MTU: the response carries the server's MTU, and from then on both sides of the
  server use the smaller of the two, but at least 23; an exchange never raises the MTU above what the server
  offered.
\<close>

theorem exchange_mtu_result:
  assumes "can_answer w" and "w' = exchange_mtu_cb k BT_ATT_OP_MTU_REQ (put_le16 m) w"
  shows "rsps w' = rsps w @ [BT_ATT_OP_MTU_RSP # put_le16 (gs_mtu w)] \<and> gs_mtu w' = att_mtu w' \<and>
    unat (att_mtu w') = max (min (unat m) (unat (gs_mtu w))) 23 \<and> gs_db w' = gs_db w"
proof -
  have "get_le16 (put_le16 m) 0 = m" using get_put_le16_0 [of m "[]"] by simp
  moreover have "\<not> max x BT_ATT_DEFAULT_LE_MTU < BT_ATT_DEFAULT_LE_MTU" for x by (auto simp: max_def)
  ultimately have w': "w' = (gs_send k BT_ATT_OP_MTU_RSP (Some (put_le16 (gs_mtu w))) w)
      \<lparr>gs_mtu := max (min m (gs_mtu w)) BT_ATT_DEFAULT_LE_MTU, att_mtu := max (min m (gs_mtu w)) BT_ATT_DEFAULT_LE_MTU\<rparr>"
    using assms(2) by (simp add: exchange_mtu_cb_def Let_def bt_att_set_mtu_def)
  have "length (value_bytes (Some (put_le16 (gs_mtu w)))) + 1 \<le> unat (att_mtu w)"
    using assms(1) by (simp add: can_answer_def value_bytes_def)
  note r = gs_send_rsps [OF assms(1) _ _ this, of BT_ATT_OP_MTU_RSP k, simplified]
  have "unat (max (min m (gs_mtu w)) BT_ATT_DEFAULT_LE_MTU) = max (min (unat m) (unat (gs_mtu w))) 23"
    by (simp add: max_def min_def word_le_nat_alt BT_ATT_DEFAULT_LE_MTU_def)
  then show ?thesis using r unfolding w' by (simp add: value_bytes_def)
qed

theorem exchange_mtu_result_witness:
  "rsps (exchange_mtu_cb (clk_env sample_kernel) BT_ATT_OP_MTU_REQ (put_le16 185) sample_server) =
    [[BT_ATT_OP_MTU_RSP, 23, 0]]"
proof -
  note sample_state
  moreover have "put_le16 23 = [23, 0]" by code_simp
  moreover have "can_answer sample_server" using sample_ready by (simp add: clk_ready_def)
  ultimately show ?thesis
    using exchange_mtu_result [of sample_server _ "clk_env sample_kernel" 185, OF _ refl] by simp
qed

section \<open>Prepared writes\<close>

lemma gs_send_more [simp]: "bt_att.more (gs_send k opc pdu w) = bt_att.more w"
  by (simp add: gs_send_def send_more)

lemma no_ext_prop_reliable: "no_ext_prop (gs_db w) h \<Longrightarrow> is_reliable_write_supported k h w = (False, w)"
  by (auto simp: no_ext_prop_def is_reliable_write_supported_def gatt_db_attribute_get_char_data_def
      get_char_extended_prop_def split: option.splits if_splits)

definition prep_entry :: "u16 \<Rightarrow> u16 \<Rightarrow> bytes \<Rightarrow> prep_write_data" where
  "prep_entry h off bs = \<lparr>pw_value = Some bs, pw_handle = h, pw_offset = off, pw_length = of_nat (length bs),
     pw_reliable_supported = False\<rparr>"

lemma append_prep_data_ok:
  assumes "v \<noteq> []" and "unat (pw_length d) = length (value_bytes (pw_value d))"
    and "length (value_bytes (pw_value d)) + length v < 65536"
  shows "append_prep_data d v = (True, d\<lparr>pw_value := Some (value_bytes (pw_value d) @ v),
    pw_length := of_nat (length (value_bytes (pw_value d) @ v))\<rparr>, False)"
proof -
  let ?n = "length (value_bytes (pw_value d)) + length v"
  have l: "pw_length d + of_nat (length v) = (of_nat ?n :: u16)"
    unfolding of_nat_add assms(2) [symmetric] by simp
  have n: "unat (of_nat ?n :: u16) = ?n" using assms(3) by (simp add: unat_of_nat del: of_nat_add)
  then have "(of_nat ?n :: u16) \<noteq> 0" using assms(1) by (metis add_is_0 length_0_conv unat_0)
  then show ?thesis
    using assms n unfolding append_prep_data_def Let_def l by simp
qed

text \<open>The queue after the chunks \<open>bs\<close> of a long write at offset 0.\<close>

definition prep_chunks :: "u16 \<Rightarrow> bytes \<Rightarrow> prep_write_data list" where
  "prep_chunks h bs = (if bs = [] then [] else [prep_entry h 0 bs])"

lemma store_prep_data_chunk:
  assumes "prep_queue w = prep_chunks h bs" and "v \<noteq> []" and "length bs + length v < 65536"
    and "no_ext_prop (gs_db w) (h - 1)"
  shows "store_prep_data k h (of_nat (length bs)) v w = (True, w\<lparr>prep_queue := prep_chunks h (bs @ v)\<rparr>)"
proof (cases "bs = []")
  case True
  with assms append_prep_data_ok [of v "\<lparr>pw_value = None, pw_handle = 0, pw_offset = 0, pw_length = 0, pw_reliable_supported = False\<rparr>"]
  show ?thesis
    by (simp add: store_prep_data_def prep_chunks_def lq_peek_tail_def lq_push_tail_def prep_data_new_def value_bytes_def
        no_ext_prop_reliable prep_entry_def)
next
  case False
  have n: "unat (of_nat (length bs) :: u16) = length bs" using assms(3) by (simp add: unat_of_nat)
  have "continues_prep_data h (of_nat (length bs)) (prep_entry h 0 bs)"
    by (simp add: continues_prep_data_def prep_entry_def)
  moreover have "append_prep_data (prep_entry h 0 bs) v = (True, prep_entry h 0 (bs @ v), False)"
    using append_prep_data_ok [of v "prep_entry h 0 bs"] assms(2,3) n by (simp add: prep_entry_def value_bytes_def)
  ultimately show ?thesis
    using False assms(1) by (simp add: store_prep_data_def prep_chunks_def lq_peek_tail_def)
qed

definition prep_request :: "u16 \<Rightarrow> nat \<Rightarrow> bytes \<Rightarrow> bytes" where
  "prep_request h off v = put_le16 h @ put_le16 (of_nat off) @ v"

lemma prep_write_chunk:
  fixes w w' :: "('c, 'v, 'z) gatt_world_scheme"
  assumes "can_answer w" and "plain_writable k h p a w" and "no_ext_prop (gs_db w) (h - 1)"
    and "prep_queue w = prep_chunks h bs" and "1 < max_prep_queue_len w"
    and "v \<noteq> []" and "length bs + length v < 65536" and "length v + 5 \<le> unat (att_mtu w)"
    and "w' = prep_write_cb k BT_ATT_OP_PREP_WRITE_REQ (prep_request h (length bs) v) w"
  shows "rsps w' = rsps w @ [BT_ATT_OP_PREP_WRITE_RSP # prep_request h (length bs) v]"
    and "gs_db w' = gs_db w" "att_mtu w' = att_mtu w" "can_answer w'" "sec_view w' = sec_view w"
      "prep_queue w' = prep_chunks h (bs @ v)" "max_prep_queue_len w' = max_prep_queue_len w"
proof -
  let ?pdu = "prep_request h (length bs) v"
  have p: "gatt_db_get_attribute (gs_db w) h = Some p" "attr_at (gs_db w) p = Some a"
      "check_permissions k p write_mask w = 0" "write_func a = None"
    using assms(2) by (simp_all add: plain_writable_def)
  have g: "get_le16 ?pdu 0 = h" "get_le16 ?pdu 2 = of_nat (length bs)" "drop 4 ?pdu = v" "\<not> length ?pdu < 4"
    using get_put_le16 [of "put_le16 h" "of_nat (length bs)" v] get_put_le16_0 [of h]
    by (simp_all add: prep_request_def)
  let ?v = "w\<lparr>prep_queue := prep_chunks h (bs @ v)\<rparr>"
  have "\<not> length (prep_queue w) \<ge> max_prep_queue_len w" using assms(4,5) by (simp add: prep_chunks_def)
  then have w': "w' = gs_send k BT_ATT_OP_PREP_WRITE_RSP (Some ?pdu) ?v"
    using assms(9) g p store_prep_data_chunk [OF assms(4,6,7,3), of k]
    by (simp add: prep_write_cb_def Let_def gs_attribute_write_def gatt_db_attribute_write_def run_write_event_def
        prep_write_complete_cb_def)
  have c: "can_answer ?v" using assms(1) by simp
  have "length (value_bytes (Some ?pdu)) + 1 \<le> unat (att_mtu ?v)"
    using assms(8) by (simp add: prep_request_def value_bytes_def)
  note r = gs_send_rsps [OF c _ _ this, of BT_ATT_OP_PREP_WRITE_RSP k, simplified]
  have m: "prep_queue w' = prep_queue ?v \<and> max_prep_queue_len w' = max_prep_queue_len ?v"
    using more_eq_server [of w' ?v] by (simp add: w')
  show "rsps w' = rsps w @ [BT_ATT_OP_PREP_WRITE_RSP # ?pdu]" "gs_db w' = gs_db w" "att_mtu w' = att_mtu w" "can_answer w'"
      "sec_view w' = sec_view w" "prep_queue w' = prep_chunks h (bs @ v)" "max_prep_queue_len w' = max_prep_queue_len w"
    using r m by (simp_all add: w' value_bytes_def sec_view_def)
qed

lemma plain_writable_same:
  "gs_db w' = gs_db w \<Longrightarrow> sec_view w' = sec_view w \<Longrightarrow> plain_writable k h p a w' = plain_writable k h p a w"
  unfolding plain_writable_def using check_permissions_same [of w' p w k] by simp

text \<open>A client that writes a long value: its chunks prepared in order, then executed.\<close>

fun prep_long :: "('c, 'v, 'z) gs_env_of \<Rightarrow> u16 \<Rightarrow> nat \<Rightarrow> bytes list \<Rightarrow> ('c, 'v, 'z) gatt_world_scheme \<Rightarrow> ('c, 'v, 'z) gatt_world_scheme" where
  "prep_long k h off [] w = w"
| "prep_long k h off (v # vs) w =
     prep_long k h (off + length v) vs (prep_write_cb k BT_ATT_OP_PREP_WRITE_REQ (prep_request h off v) w)"

fun prep_responses :: "u16 \<Rightarrow> nat \<Rightarrow> bytes list \<Rightarrow> bytes list" where
  "prep_responses h off [] = []"
| "prep_responses h off (v # vs) = (BT_ATT_OP_PREP_WRITE_RSP # prep_request h off v) # prep_responses h (off + length v) vs"

definition write_long :: "('c, 'v, 'z) gs_env_of \<Rightarrow> u16 \<Rightarrow> bytes list \<Rightarrow> ('c, 'v, 'z) gatt_world_scheme \<Rightarrow> ('c, 'v, 'z) gatt_world_scheme" where
  "write_long k h vs w = exec_write_cb k BT_ATT_OP_EXEC_WRITE_REQ [0x01] (prep_long k h 0 vs w)"

lemma prep_long_chunks:
  fixes w :: "('c, 'v, 'z) gatt_world_scheme"
  assumes "can_answer w" and "plain_writable k h p a w" and "no_ext_prop (gs_db w) (h - 1)"
    and "prep_queue w = prep_chunks h bs" and "1 < max_prep_queue_len w"
    and "\<forall>v \<in> set vs. v \<noteq> [] \<and> length v + 5 \<le> unat (att_mtu w)" and "length bs + length (concat vs) < 65536"
    and "w' = prep_long k h (length bs) vs w"
  shows "rsps w' = rsps w @ prep_responses h (length bs) vs \<and> gs_db w' = gs_db w \<and> att_mtu w' = att_mtu w \<and>
    can_answer w' \<and> sec_view w' = sec_view w \<and> prep_queue w' = prep_chunks h (bs @ concat vs)"
  using assms
proof (induction vs arbitrary: bs w)
  case (Cons v vs)
  define w1 where "w1 = prep_write_cb k BT_ATT_OP_PREP_WRITE_REQ (prep_request h (length bs) v) w"
  have v: "v \<noteq> []" "length v + 5 \<le> unat (att_mtu w)" "length bs + length v < 65536"
    using Cons.prems(6,7) by simp_all
  note s = prep_write_chunk [OF Cons.prems(1-5) v(1,3,2) w1_def]
  have "w' = prep_long k h (length (bs @ v)) vs w1" using Cons.prems(8) by (simp add: w1_def)
  from Cons.IH [OF s(4) _ _ s(6) _ _ _ this] Cons.prems s plain_writable_same [OF s(2,5), of k h p a]
  show ?case by simp
qed simp

lemma exec_write_chunks:
  fixes w w' :: "('c, 'v, 'z) gatt_world_scheme"
  assumes "can_answer w" and "plain_writable k h p a w" and "prep_queue w = prep_chunks h bs" and "bs \<noteq> []"
    and "w' = exec_write_cb k BT_ATT_OP_EXEC_WRITE_REQ [0x01] w"
  shows "rsps w' = rsps w @ [[BT_ATT_OP_EXEC_WRITE_RSP]]" and "prep_queue w' = []"
    and "gs_db w' = upd_attr p (store_value (ge_junk k (w\<lparr>prep_queue := []\<rparr>)) 0 bs) (gs_db w)"
proof -
  let ?w = "w\<lparr>prep_queue := []\<rparr>"
  let ?db = "upd_attr p (store_value (ge_junk k ?w) 0 bs) (gs_db w)"
  have p: "gatt_db_get_attribute (gs_db w) h = Some p" "attr_at (gs_db w) p = Some a" "write_func a = None"
    using assms(2) by (simp_all add: plain_writable_def)
  have "gatt_db_attribute_write (ge_junk k ?w) 0 (gs_db w) (Some p) 0 (Some bs) 0 (Some Write_Complete_Cb) Ud_Exec =
      (True, [Call_Write_Result Write_Complete_Cb p 0 Ud_Exec], ?db)"
    using p(2,3) assms(4) by (simp add: gatt_db_attribute_write_def)
  from write_db_inv [OF _ this] have "db_inv ?db" using assms(1) by (simp add: can_answer_def)
  then have c: "can_answer (?w\<lparr>gs_db := ?db\<rparr>)" using assms(1) by (simp add: can_answer_def)
  have w': "w' = gs_send k BT_ATT_OP_EXEC_WRITE_RSP None (?w\<lparr>gs_db := ?db\<rparr>)"
    using assms(3-5) p
    by (simp add: exec_write_cb_def Let_def prep_chunks_def gs_loop_simps gs_attribute_write_def
        gatt_db_attribute_write_def run_write_event_def prep_entry_def)
  have "length (value_bytes None) + 1 \<le> unat (att_mtu (?w\<lparr>gs_db := ?db\<rparr>))"
    using assms(1) by (simp add: can_answer_def value_bytes_def)
  note r = gs_send_rsps [OF c _ _ this, of BT_ATT_OP_EXEC_WRITE_RSP k, simplified]
  show "rsps w' = rsps w @ [[BT_ATT_OP_EXEC_WRITE_RSP]]" "gs_db w' = ?db" "prep_queue w' = []"
    using r more_eq_server [of w' "?w\<lparr>gs_db := ?db\<rparr>"] by (simp_all add: w' value_bytes_def)
qed

text \<open>
  Claim C9. Long writes: chunks prepared one after the other at growing offsets are each echoed, are
  kept as one entry of the queue, whatever their number, and are written as one value when executed; the
  queue is empty afterwards.
\<close>

theorem write_long_correct:
  assumes "can_answer w" and "plain_writable k h p a w" and "no_ext_prop (gs_db w) (h - 1)"
    and "prep_queue w = []" and "1 < max_prep_queue_len w" and "vs \<noteq> []"
    and "\<forall>v \<in> set vs. v \<noteq> [] \<and> length v + 5 \<le> unat (att_mtu w)" and "length (concat vs) \<le> 0xFFFF"
    and "w' = write_long k h vs w"
  shows "rsps w' = rsps w @ prep_responses h 0 vs @ [[BT_ATT_OP_EXEC_WRITE_RSP]] \<and> prep_queue w' = [] \<and>
    (\<exists>a'. attr_at (gs_db w') p = Some a' \<and> stored a' = concat vs @ drop (length (concat vs)) (stored a))"
proof -
  define w1 where "w1 = prep_long k h 0 vs w"
  have q: "prep_queue w = prep_chunks h []" using assms(4) by (simp add: prep_chunks_def)
  have ne: "concat vs \<noteq> []" using assms(6,7) by (cases vs) auto
  have s: "rsps w1 = rsps w @ prep_responses h 0 vs" "gs_db w1 = gs_db w" "can_answer w1" "sec_view w1 = sec_view w"
      "prep_queue w1 = prep_chunks h (concat vs)"
    using prep_long_chunks [OF assms(1-3) q assms(5,7), of w1] assms(8) by (simp_all add: w1_def)
  have "plain_writable k h p a w1" using plain_writable_same [OF s(2,4), of k h p a] assms(2) by simp
  note e = exec_write_chunks [OF s(3) this s(5) ne assms(9) [unfolded write_long_def w1_def [symmetric]]]
  have a: "attr_at (gs_db w) p = Some a" using assms(2) by (simp add: plain_writable_def)
  then have "attr_at (gs_db w') p = Some (store_value (ge_junk k (w1\<lparr>prep_queue := []\<rparr>)) 0 (concat vs) a)"
    by (simp add: e(3) s(2) attr_at_upd_attr)
  moreover have "stored (store_value (ge_junk k (w1\<lparr>prep_queue := []\<rparr>)) 0 (concat vs) a) =
      concat vs @ drop (length (concat vs)) (stored a)"
    by (rule stored_store_value [OF can_answer_attr_ok [OF assms(1) a] ne assms(8)])
  ultimately show ?thesis using e(1,2) s(1) by simp
qed

theorem write_long_correct_witness:
  "\<exists>a'. attr_at (gs_db (write_long (clk_env sample_kernel) 14 [[1, 2, 3], [4, 5]] sample_server)) (2, 2) = Some a' \<and>
     stored a' = [1, 2, 3, 4, 5]"
proof -
  obtain a where a: "gatt_db_get_attribute (gs_db sample_server) 14 = Some (2, 2)"
      "attr_at (gs_db sample_server) (2, 2) = Some a" "write_func a = None" "stored a = []"
    using sample_data(1) by blast
  have c: "can_answer sample_server" using sample_ready by (simp add: clk_ready_def)
  have "plain_writable (clk_env sample_kernel) 14 (2, 2) a sample_server"
    using a sample_data(3) by (simp add: plain_writable_def)
  from write_long_correct [OF c this _ _ _ _ _ _ refl, of "[[1, 2, 3], [4, 5]]"] sample_state sample_data(4) a(4) show ?thesis by simp
qed

end
