(* ===== verification/Gatt_Server_Lists.thy ===== *)
theory Gatt_Server_Lists
  imports Gatt_Server_Props
begin

text \<open>
  The list responses of the GATT server: the loops that fill a response are compared with
  references that say which attributes it holds.
\<close>

section \<open>Find Information\<close>

definition type_len :: "('f, 'u) gatt_db \<Rightarrow> attr_ptr \<Rightarrow> nat" where
  "type_len db p = (case gatt_db_attribute_get_type db (Some p) of None \<Rightarrow> 0 | Some t \<Rightarrow> bt_uuid_len t)"

definition info_unit :: "('f, 'u) gatt_db \<Rightarrow> attr_ptr \<Rightarrow> bytes" where
  "info_unit db p = put_le16 (gatt_db_attribute_get_handle db (Some p)) @
     (case gatt_db_attribute_get_type db (Some p) of None \<Rightarrow> [] | Some t \<Rightarrow> snd (bt_uuid_to_le t))"

text \<open>
  The reference: the format byte, then units for the first attribute and those after it with the same
  length of UUID, as many as fit.
\<close>

definition find_info_reference :: "('f, 'u) gatt_db \<Rightarrow> u16 \<Rightarrow> attr_ptr list \<Rightarrow> bytes" where
  "find_info_reference db mtu q = (case q of [] \<Rightarrow> []
     | p # ps \<Rightarrow>
         (let u = (if type_len db p = 2 then 2 else 16)
          in (if u = 2 then 0x01 else 0x02) #
             concat (map (info_unit db) (take ((unat mtu - 2) div (u + 2)) (p # takeWhile (\<lambda>p. type_len db p = u) ps)))))"

text \<open>Attributes with a handle and a type of 16, 32 or 128 bits.\<close>

definition typed_attr :: "('f, 'u) gatt_db \<Rightarrow> attr_ptr \<Rightarrow> bool" where
  "typed_attr db p \<longleftrightarrow> (\<exists>t. gatt_db_attribute_get_type db (Some p) = Some t \<and> bt_uuid_len t \<in> {2, 4, 16} \<and>
     length (snd (bt_uuid_to_le t)) = (if bt_uuid_len t = 2 then 2 else 16) \<and> gatt_db_attribute_get_handle db (Some p) \<noteq> 0)"

lemma mult_le_div: "0 < d \<Longrightarrow> (c + 1) * d \<le> x \<longleftrightarrow> c < x div d" for c d x :: nat
  using less_eq_div_iff_mult_less_eq [of d "c + 1" x] by (simp add: Suc_le_eq)

lemma fits_iff:
  fixes u c :: nat and mtu :: u16
  assumes "2 \<le> unat mtu"
  shows "int (1 + c * (u + 2)) + int u + 2 > uint mtu - 1 \<longleftrightarrow> \<not> c < (unat mtu - 2) div (u + 2)"
proof -
  have gen: "int (1 + x) + int u + 2 > int m - 1 \<longleftrightarrow> \<not> x + (u + 2) \<le> m - 2" if "2 \<le> m" for x m :: nat
    using that by linarith
  have "int (1 + c * (u + 2)) + int u + 2 > uint mtu - 1 \<longleftrightarrow> \<not> (c + 1) * (u + 2) \<le> unat mtu - 2"
    using gen [OF assms, of "c * (u + 2)"] unfolding uint_unat16 by (simp del: of_nat_unat add: algebra_simps)
  also have "(c + 1) * (u + 2) \<le> unat mtu - 2 \<longleftrightarrow> c < (unat mtu - 2) div (u + 2)"
    by (rule mult_le_div) simp
  finally show ?thesis by simp
qed

lemma encode_find_info_rest:
  assumes "2 \<le> unat mtu" and "u \<in> {2, 16}"
  shows "pdu \<noteq> [] \<Longrightarrow> length pdu = 1 + c * (u + 2) \<Longrightarrow> \<forall>p \<in> set q. typed_attr db p \<Longrightarrow>
    encode_find_info_rsp db q mtu u pdu = Some (pdu @ concat (map (info_unit db)
      (take ((unat mtu - 2) div (u + 2) - c) (takeWhile (\<lambda>p. type_len db p = u) q))))"
proof (induction q arbitrary: pdu c)
  case (Cons p q)
  obtain t where t: "gatt_db_attribute_get_type db (Some p) = Some t" "bt_uuid_len t \<in> {2, 4, 16}"
      "length (snd (bt_uuid_to_le t)) = (if bt_uuid_len t = 2 then 2 else 16)" "gatt_db_attribute_get_handle db (Some p) \<noteq> 0"
    using Cons.prems(3) by (auto simp: typed_attr_def)
  let ?N = "(unat mtu - 2) div (u + 2)"
  have step: "encode_find_info_rsp db (p # q) mtu u pdu = (if bt_uuid_len t \<noteq> u \<or> \<not> c < ?N then Some pdu
      else encode_find_info_rsp db q mtu u (pdu @ info_unit db p))"
    using t Cons.prems(1) fits_iff [OF assms(1), of c u] unfolding Cons.prems(2) [symmetric]
    by (simp add: gs_loop_simps Let_def info_unit_def)
  show ?case
  proof (cases "bt_uuid_len t \<noteq> u \<or> \<not> c < ?N")
    case True
    then show ?thesis unfolding step by (auto simp: type_len_def t)
  next
    case False
    have "length (pdu @ info_unit db p) = 1 + (c + 1) * (u + 2)"
      using Cons.prems(2) False t(3) assms(2) by (auto simp: info_unit_def t(1))
    from Cons.IH [OF _ this] Cons.prems False show ?thesis
      unfolding step by (simp add: type_len_def t take_Cons' Suc_diff_Suc)
  qed
qed simp

text \<open>
  Claim C11. The response to Find Information holds exactly what the reference says: the handle and type of
  the first attribute found and of those after it, up to the first with another UUID length, as many as
  the MTU has room for, in order.
\<close>

theorem encode_find_info_equals_reference:
  assumes "23 \<le> unat mtu" and "q \<noteq> []" and "\<forall>p \<in> set q. typed_attr db p"
  shows "encode_find_info_rsp db q mtu 0 [] = Some (find_info_reference db mtu q)"
proof -
  obtain p ps where q: "q = p # ps" using assms(2) by (cases q) auto
  obtain t where t: "gatt_db_attribute_get_type db (Some p) = Some t" "bt_uuid_len t \<in> {2, 4, 16}"
      "length (snd (bt_uuid_to_le t)) = (if bt_uuid_len t = 2 then 2 else 16)" "gatt_db_attribute_get_handle db (Some p) \<noteq> 0"
    using assms(3) q by (auto simp: typed_attr_def)
  define u where "u = (if bt_uuid_len t = 2 then 2 else 16 :: nat)"
  define f :: u8 where "f = (if bt_uuid_len t = 2 then 0x01 else 0x02)"
  have u: "u \<in> {2, 16}" by (simp add: u_def)
  have N: "1 \<le> (unat mtu - 2) div (u + 2)" using assms(1) u by (auto simp: less_eq_div_iff_mult_less_eq)
  have fit: "\<not> int (1 + 0 * (u + 2)) + int u + 2 > uint mtu - 1" using fits_iff [of mtu 0 u] N assms(1) by auto
  have "encode_find_info_rsp db q mtu 0 [] = encode_find_info_rsp db ps mtu u ([f] @ info_unit db p)"
    using t fit unfolding q by (auto simp: gs_loop_simps Let_def u_def f_def info_unit_def)
  also have "\<dots> = Some (([f] @ info_unit db p) @ concat (map (info_unit db)
      (take ((unat mtu - 2) div (u + 2) - 1) (takeWhile (\<lambda>p. type_len db p = u) ps))))"
    by (rule encode_find_info_rest [OF _ u]) (use assms(1,3) q t(3) in \<open>auto simp: info_unit_def t(1) u_def\<close>)
  also have "\<dots> = Some (find_info_reference db mtu q)"
    using N by (auto simp: find_info_reference_def q Let_def type_len_def t(1) u_def f_def take_Cons')
  finally show ?thesis .
qed

lemma typed_attr_code [code]:
  "typed_attr db p \<longleftrightarrow> (case gatt_db_attribute_get_type db (Some p) of None \<Rightarrow> False
     | Some t \<Rightarrow> bt_uuid_len t \<in> {2, 4, 16} \<and> length (snd (bt_uuid_to_le t)) = (if bt_uuid_len t = 2 then 2 else 16) \<and>
         gatt_db_attribute_get_handle db (Some p) \<noteq> 0)"
  by (auto simp: typed_attr_def split: option.split)

lemma sample_info:
  "(let db = gs_db sample_server; q = gatt_db_find_information db 12 18
    in (length q, \<forall>p \<in> set q. typed_attr db p, find_info_reference db 23 q)) =
   (7, True, [0x01, 12, 0, 0x00, 0x28, 13, 0, 0x03, 0x28])"
  by code_simp

theorem encode_find_info_equals_reference_witness:
  "encode_find_info_rsp (gs_db sample_server) (gatt_db_find_information (gs_db sample_server) 12 18) 23 0 [] =
    Some [0x01, 12, 0, 0x00, 0x28, 13, 0, 0x03, 0x28]"
proof -
  let ?q = "gatt_db_find_information (gs_db sample_server) 12 18"
  have "?q \<noteq> []" "\<forall>p \<in> set ?q. typed_attr (gs_db sample_server) p"
      "find_info_reference (gs_db sample_server) 23 ?q = [0x01, 12, 0, 0x00, 0x28, 13, 0, 0x03, 0x28]"
    using sample_info by (auto simp: Let_def)
  then show ?thesis using encode_find_info_equals_reference [of 23 ?q "gs_db sample_server"] by simp
qed

section \<open>Read By Group Type\<close>

text \<open>A declaration whose value is in the database.\<close>

definition grp_attr :: "('f, 'u) gatt_db \<Rightarrow> attr_ptr \<Rightarrow> bool" where
  "grp_attr db p \<longleftrightarrow> (\<exists>a. attr_at db p = Some a \<and> read_func a = None \<and> stored a \<noteq> []) \<and>
     gatt_db_attribute_get_service_handles db (Some p) \<noteq> None"

definition grp_value :: "('f, 'u) gatt_db \<Rightarrow> attr_ptr \<Rightarrow> bytes" where
  "grp_value db p = (case attr_at db p of None \<Rightarrow> [] | Some a \<Rightarrow> stored a)"

definition grp_bytes :: "('f, 'u) gatt_db \<Rightarrow> nat \<Rightarrow> attr_ptr \<Rightarrow> bytes" where
  "grp_bytes db n p = (case gatt_db_attribute_get_service_handles db (Some p) of None \<Rightarrow> []
     | Some (start, stop) \<Rightarrow> put_le16 start @ put_le16 stop @ take n (grp_value db p))"

definition grp_reference :: "('f, 'u) gatt_db \<Rightarrow> u16 \<Rightarrow> attr_ptr list \<Rightarrow> bytes" where
  "grp_reference db mtu q = (case q of [] \<Rightarrow> []
     | p # ps \<Rightarrow>
         (let n = min (min (unat mtu - 6) 251) (length (grp_value db p))
          in of_nat (n + 4) # concat (map (grp_bytes db n)
               (take ((unat mtu - 2) div (n + 4)) (p # takeWhile (\<lambda>p. length (grp_value db p) = n) ps)))))"

lemma grp_read:
  assumes "can_answer w" and "grp_attr (gs_db w) p"
  shows "\<exists>r. gs_attribute_read k p 0 opc f ud w = (True, r, w) \<and> attribute_read_cb r = grp_value (gs_db w) p \<and>
    grp_value (gs_db w) p \<noteq> []"
proof -
  obtain a where a: "attr_at (gs_db w) p = Some a" "read_func a = None" "stored a \<noteq> []"
    using assms(2) by (auto simp: grp_attr_def)
  note ok = can_answer_attr_ok [OF assms(1) a(1)]
  have "value_len a \<noteq> 0" "attr_value a \<noteq> None" using a(3) by (auto simp: stored_def value_bytes_def split: option.splits)
  then show ?thesis
    using attribute_read_plain [OF a(1,2) ok, of k 0 opc f ud] a(1,3)
    by (auto simp: attribute_read_cb_def value_bytes_def grp_value_def)
qed

lemma grp_fits_iff:
  fixes n c :: nat and mtu :: u16
  assumes "2 \<le> unat mtu"
  shows "int (1 + c * (n + 4)) + int n + 4 > uint mtu - 1 \<longleftrightarrow> \<not> c < (unat mtu - 2) div (n + 4)"
proof -
  have gen: "int (1 + x) + int n + 4 > int m - 1 \<longleftrightarrow> \<not> x + (n + 4) \<le> m - 2" if "2 \<le> m" for x m :: nat
    using that by linarith
  have "int (1 + c * (n + 4)) + int n + 4 > uint mtu - 1 \<longleftrightarrow> \<not> (c + 1) * (n + 4) \<le> unat mtu - 2"
    using gen [OF assms, of "c * (n + 4)"] unfolding uint_unat16 by (simp del: of_nat_unat add: algebra_simps)
  also have "(c + 1) * (n + 4) \<le> unat mtu - 2 \<longleftrightarrow> c < (unat mtu - 2) div (n + 4)"
    by (rule mult_le_div) simp
  finally show ?thesis by simp
qed

lemma encode_grp_rest:
  assumes "can_answer w" and "mtu = att_mtu w"
  shows "pdu \<noteq> [] \<Longrightarrow> length pdu = 1 + c * (n + 4) \<Longrightarrow> \<forall>p \<in> set q. grp_attr (gs_db w) p \<Longrightarrow>
    encode_read_by_grp_type_rsp k q mtu n pdu w = (Some (pdu @ concat (map (grp_bytes (gs_db w) n)
      (take ((unat mtu - 2) div (n + 4) - c) (takeWhile (\<lambda>p. length (grp_value (gs_db w) p) = n) q)))), w)"
proof (induction q arbitrary: pdu c)
  case (Cons p q)
  let ?N = "(unat mtu - 2) div (n + 4)" and ?v = "grp_value (gs_db w) p"
  obtain r where r: "gs_attribute_read k p 0 BT_ATT_OP_READ_BY_GRP_TYPE_REQ Attribute_Read_Cb Ud_Iov w = (True, r, w)"
      "attribute_read_cb r = ?v" "?v \<noteq> []"
    using grp_read [OF assms(1), of p k BT_ATT_OP_READ_BY_GRP_TYPE_REQ Attribute_Read_Cb Ud_Iov] Cons.prems(3) by auto
  obtain start stop where h: "gatt_db_attribute_get_service_handles (gs_db w) (Some p) = Some (start, stop)"
    using Cons.prems(3) by (auto simp: grp_attr_def)
  have "2 \<le> unat mtu" using assms by (simp add: can_answer_def)
  note fit = grp_fits_iff [OF this, of c n]
  have u: "grp_unit mtu n pdu ?v = (n, pdu, length ?v \<noteq> n \<or> \<not> c < ?N)"
    using Cons.prems(1) fit unfolding Cons.prems(2) [symmetric] by (simp add: grp_unit_def Let_def)
  have step: "encode_read_by_grp_type_rsp k (p # q) mtu n pdu w = (if length ?v \<noteq> n \<or> \<not> c < ?N then (Some pdu, w)
      else encode_read_by_grp_type_rsp k q mtu n (pdu @ grp_bytes (gs_db w) n p) w)"
    by (simp add: gs_loop_simps Let_def r u h grp_bytes_def)
  show ?case
  proof (cases "length ?v \<noteq> n \<or> \<not> c < ?N")
    case True
    then show ?thesis unfolding step by auto
  next
    case False
    have "length (pdu @ grp_bytes (gs_db w) n p) = 1 + (c + 1) * (n + 4)"
      using Cons.prems(2) False h by (simp add: grp_bytes_def)
    from Cons.IH [OF _ this] Cons.prems False show ?thesis
      unfolding step by (simp add: take_Cons' Suc_diff_Suc)
  qed
qed simp

text \<open>
  Claim C12. Primary service discovery: the response to Read By Group Type holds what the reference says: the
  length of the units, then start handle, end handle and value of the first service found and of
  those after it, up to the first whose value has another length, as many as the MTU has room for; reading
  the declarations changes nothing.
\<close>

theorem encode_grp_equals_reference:
  assumes "can_answer w" and "q \<noteq> []" and "\<forall>p \<in> set q. grp_attr (gs_db w) p"
  shows "encode_read_by_grp_type_rsp k q (bt_att_get_mtu w) 0 [] w = (Some (grp_reference (gs_db w) (bt_att_get_mtu w) q), w)"
proof -
  obtain p ps where q: "q = p # ps" using assms(2) by (cases q) auto
  let ?v = "grp_value (gs_db w) p" and ?m = "bt_att_get_mtu w"
  define n where "n = min (min (unat ?m - 6) 251) (length ?v)"
  obtain r where r: "gs_attribute_read k p 0 BT_ATT_OP_READ_BY_GRP_TYPE_REQ Attribute_Read_Cb Ud_Iov w = (True, r, w)"
      "attribute_read_cb r = ?v" "?v \<noteq> []"
    using grp_read [OF assms(1), of p k BT_ATT_OP_READ_BY_GRP_TYPE_REQ Attribute_Read_Cb Ud_Iov] assms(3) q by auto
  obtain start stop where h: "gatt_db_attribute_get_service_handles (gs_db w) (Some p) = Some (start, stop)"
    using assms(3) q by (auto simp: grp_attr_def)
  have m: "23 \<le> unat ?m" using assms(1) by (simp add: can_answer_def bt_att_get_mtu_def)
  have "n \<le> unat ?m - 6" by (simp add: n_def)
  then have N: "1 \<le> (unat ?m - 2) div (n + 4)" using m by (simp add: less_eq_div_iff_mult_less_eq)
  have "\<not> int (1 + 0 * (n + 4)) + int n + 4 > uint ?m - 1" using grp_fits_iff [of ?m 0 n] N m by auto
  then have u: "grp_unit ?m 0 [] ?v = (n, [of_nat (n + 4)], False)" by (simp add: grp_unit_def Let_def n_def)
  have "encode_read_by_grp_type_rsp k q ?m 0 [] w = encode_read_by_grp_type_rsp k ps ?m n ([of_nat (n + 4)] @ grp_bytes (gs_db w) n p) w"
    using r h unfolding q by (simp add: gs_loop_simps Let_def u grp_bytes_def)
  also have "\<dots> = (Some (([of_nat (n + 4)] @ grp_bytes (gs_db w) n p) @ concat (map (grp_bytes (gs_db w) n)
      (take ((unat ?m - 2) div (n + 4) - 1) (takeWhile (\<lambda>p. length (grp_value (gs_db w) p) = n) ps)))), w)"
    by (rule encode_grp_rest [OF assms(1)]) (use assms(3) q h in \<open>auto simp: bt_att_get_mtu_def grp_bytes_def n_def\<close>)
  also have "\<dots> = (Some (grp_reference (gs_db w) ?m q), w)"
    using N by (auto simp: grp_reference_def q Let_def n_def [symmetric] take_Cons')
  finally show ?thesis .
qed

lemma grp_attr_code [code]:
  "grp_attr db p \<longleftrightarrow> (case attr_at db p of None \<Rightarrow> False | Some a \<Rightarrow> read_func a = None \<and> stored a \<noteq> []) \<and>
     gatt_db_attribute_get_service_handles db (Some p) \<noteq> None"
  by (auto simp: grp_attr_def split: option.split)

lemma sample_group:
  "(let db = gs_db sample_server; q = gatt_db_read_by_group_type db 1 0xFFFF (bt_uuid16_create GATT_PRIM_SVC_UUID)
    in (length q, \<forall>p \<in> set q. grp_attr db p, grp_reference db 23 q)) =
   (2, True, [6, 1, 0, 7, 0, 0x00, 0x18, 8, 0, 11, 0, 0x01, 0x18])"
  by code_simp

theorem encode_grp_equals_reference_witness:
  "fst (encode_read_by_grp_type_rsp (clk_env sample_kernel)
     (gatt_db_read_by_group_type (gs_db sample_server) 1 0xFFFF (bt_uuid16_create GATT_PRIM_SVC_UUID)) 23 0 [] sample_server) =
    Some [6, 1, 0, 7, 0, 0x00, 0x18, 8, 0, 11, 0, 0x01, 0x18]"
proof -
  let ?q = "gatt_db_read_by_group_type (gs_db sample_server) 1 0xFFFF (bt_uuid16_create GATT_PRIM_SVC_UUID)"
  have "?q \<noteq> []" "\<forall>p \<in> set ?q. grp_attr (gs_db sample_server) p"
      "grp_reference (gs_db sample_server) 23 ?q = [6, 1, 0, 7, 0, 0x00, 0x18, 8, 0, 11, 0, 0x01, 0x18]"
    using sample_group by (auto simp: Let_def)
  moreover have "can_answer sample_server" using sample_ready by (simp add: clk_ready_def)
  ultimately show ?thesis
    using encode_grp_equals_reference [of sample_server ?q "clk_env sample_kernel"] sample_state by (simp add: bt_att_get_mtu_def)
qed

end
