(* ===== verification/Clock_Props.thy ===== *)
theory Clock_Props
  imports Server_Db
begin

text \<open>
  The clock's side of the protocol: its messages, what the server does with them, the notifications it
  answers with, and the time values.
\<close>

section \<open>Messages\<close>

lemma get_put_le16_2: "get_le16 (a # b # put_le16 v @ post) 2 = v"
  using get_put_le16 [of "[a, b]" v post] by (simp add: eval_nat_numeral)

lemma get_put_le16_4: "get_le16 (a # b # put_le16 u @ put_le16 v @ post) 4 = v"
  using get_put_le16 [of "a # b # put_le16 u" v post] by (simp add: put_le16_def eval_nat_numeral)

lemma get_put_le64_6: "get_le64 (a # b # put_le16 u @ put_le16 v @ put_le64 x) 6 = x"
  using get_put_le64 [of "a # b # put_le16 u @ put_le16 v" x "[]"] by (simp add: put_le16_def eval_nat_numeral)

lemma bit_field_split:
  fixes b i :: u16
  assumes "unat b < 4096" and "unat i < 16"
  shows "((b AND 0x0FFF) OR push_bit 12 i) AND 0x0FFF = b" and "drop_bit 12 ((b AND 0x0FFF) OR push_bit 12 i) = i"
proof -
  have m: "(0x0FFF :: u16) = mask 12" by (simp add: mask_eq_exp_minus_1)
  have "take_bit 12 b = b"
    using assms(1) take_bit_nat_eq_self [of "unat b" 12] by (simp add: word_unat_eq_iff unsigned_take_bit_eq)
  then have b: "b AND 0x0FFF = b" by (simp add: m take_bit_eq_mask)
  have hi: "drop_bit 12 b = 0"
  proof -
    have "unat (drop_bit 12 b) = unat b div 2 ^ 12"
      using take_bit_nat_eq_self [of "unat b" 16] unat16_lt [of b]
      by (simp add: unsigned_drop_bit_eq drop_bit_eq_div unat_div)
    then show ?thesis using assms(1) by (simp add: unat_eq_0 [symmetric])
  qed
  have i: "drop_bit 12 (push_bit 12 i) = i"
  proof -
    have "unat (push_bit 12 i) = unat i * 4096"
      using assms(2) by (simp add: unsigned_push_bit_eq push_bit_nat_def take_bit_nat_eq_self del: push_bit_of_1)
    moreover have "unat (drop_bit 12 (push_bit 12 i)) = unat (push_bit 12 i) div 2 ^ 12"
      using take_bit_nat_eq_self [of "unat (push_bit 12 i)" 16] unat16_lt [of "push_bit 12 i"]
      by (simp add: unsigned_drop_bit_eq drop_bit_eq_div unat_div)
    ultimately show ?thesis by (simp add: word_unat_eq_iff)
  qed
  have lo: "push_bit 12 i AND 0x0FFF = 0" by (simp add: m take_bit_eq_mask [symmetric] take_bit_push_bit)
  show "((b AND 0x0FFF) OR push_bit 12 i) AND 0x0FFF = b"
    using b lo by (simp add: bit.conj_disj_distrib2)
  show "drop_bit 12 ((b AND 0x0FFF) OR push_bit 12 i) = i" using b hi i by (simp add: drop_bit_or)
qed

text \<open>
  The status message of the clock is decoded as it was encoded: twelve bits of battery
  voltage and four of the interval share a word, and no field touches another.
\<close>

lemma msg_sts_roundtrip:
  assumes "unat (sts_battery s) < 4096" and "unat (sts_interval s) < 16"
  shows "length (msg_sts_bytes s) = sizeof_msg \<and> msg_sts_of (msg_sts_bytes s) = s"
proof -
  have "msg_sts_of (msg_sts_bytes s) = s"
    using bit_field_split [OF assms]
    by (cases s) (simp add: msg_sts_of_def msg_sts_bytes_def get_put_le16_2 get_put_le16_4 get_put_le64_6)
  moreover have "length (msg_sts_bytes s) = sizeof_msg" by (simp add: msg_sts_bytes_def sizeof_msg_def)
  ultimately show ?thesis by simp
qed

lemma msg_sts_roundtrip_witness:
  "msg_sts_of (msg_sts_bytes \<lparr>sts_cmd = 3, sts_timeouts = 2, sts_battery = 0xABC, sts_interval = 7, sts_match = 5, sts_offset = 99\<rparr>) =
    \<lparr>sts_cmd = 3, sts_timeouts = 2, sts_battery = 0xABC, sts_interval = 7, sts_match = 5, sts_offset = 99\<rparr>"
  using msg_sts_roundtrip [of "\<lparr>sts_cmd = 3, sts_timeouts = 2, sts_battery = 0xABC, sts_interval = 7, sts_match = 5, sts_offset = 99\<rparr>"]
  by simp

section \<open>Commands\<close>

text \<open>The PDUs that wait to be written.\<close>

definition outbox :: "('f, 'u, 'z) bt_att_scheme \<Rightarrow> bytes list" where
  "outbox w = map op_pdu (write_queue w)"

lemma send_notification_outbox:
  assumes "att_io w" and "length p + 1 \<le> unat (att_mtu w)"
    and "w' = snd (bt_att_send env BT_ATT_OP_HANDLE_VAL_NOT (Some p) (of_nat (length p)) None None None w)"
  shows "outbox w' = outbox w @ [BT_ATT_OP_HANDLE_VAL_NOT # p] \<and> bt_att.more w' = bt_att.more w"
proof -
  have n: "unat (of_nat (length p) :: u16) = length p"
    using assms(2) unsigned_less [of "att_mtu w", where 'a = nat]
    by (simp add: unsigned_of_nat take_bit_eq_mod)
  have "create_att_send_op env BT_ATT_OP_HANDLE_VAL_NOT (Some p) (of_nat (length p)) None None None w =
    Some \<lparr>op_id = 0, op_timeout_id = 0, op_type = get_op_type BT_ATT_OP_HANDLE_VAL_NOT, op_opcode = BT_ATT_OP_HANDLE_VAL_NOT,
      op_pdu = BT_ATT_OP_HANDLE_VAL_NOT # p, op_callback = None, op_destroy = None, op_user_data = None\<rparr>"
    by (rule create_op_plain) (use assms(2) n in simp_all)
  then show ?thesis
    using assms(1,3) unfolding bt_att_send_def Let_def
    by (simp add: att_frame outbox_def enqueue_op_def lq_push_tail_def)
qed

text \<open>A message of the server to the clock: a notification of the value, complete when it is short.\<close>

lemma data_cb_outbox:
  assumes "can_answer w" and "length buf \<le> 20"
  shows "outbox (clock_read_data_cb K buf w) =
      outbox w @ [BT_ATT_OP_HANDLE_VAL_NOT # put_le16 (clock_read_data_handle w) @ buf]"
    and "bt_att.more (clock_read_data_cb K buf w) = bt_att.more w"
proof -
  have "gs_value_pdu (clock_read_data_handle w) buf w = put_le16 (clock_read_data_handle w) @ buf"
    using assms by (auto simp: gs_value_pdu_def Let_def can_answer_def bt_att_get_mtu_def)
  moreover have "length (put_le16 (clock_read_data_handle w) @ buf) + 1 \<le> unat (att_mtu w)" "att_io w"
    using assms by (simp_all add: can_answer_def)
  ultimately show "outbox (clock_read_data_cb K buf w) =
      outbox w @ [BT_ATT_OP_HANDLE_VAL_NOT # put_le16 (clock_read_data_handle w) @ buf]"
      "bt_att.more (clock_read_data_cb K buf w) = bt_att.more w"
    using send_notification_outbox [of w "put_le16 (clock_read_data_handle w) @ buf"]
    by (simp_all add: clock_read_data_cb_def bt_gatt_server_send_notification_def Let_def case_prod_unfold)
qed

lemma more_eq_clock:
  fixes w w' :: server
  assumes "bt_att.more w' = bt_att.more w"
  shows "gPollInterval w' = gPollInterval w" "gDelta w' = gDelta w" "gVbat w' = gVbat w" "gMatch w' = gMatch w"
    "gLastPollTime w' = gLastPollTime w" "gPollCount w' = gPollCount w" "gTimeouts w' = gTimeouts w"
    "gFaceTime w' = gFaceTime w" "lastActivity w' = lastActivity w" "exited w' = exited w"
    "clock_read_data_handle w' = clock_read_data_handle w"
  using assms by (cases w; cases w'; simp)+

lemma outbox_fields [simp]:
  "outbox (w\<lparr>lastActivity := t\<rparr>) = outbox w" "outbox (w\<lparr>gFaceTime := x\<rparr>) = outbox w" "outbox (w\<lparr>exited := b\<rparr>) = outbox w"
  "outbox (w\<lparr>gPollInterval := a1, gDelta := a2, gVbat := a3, gMatch := a4, gLastPollTime := a5, gPollCount := a6, gTimeouts := a7\<rparr>) = outbox w"
  "can_answer (w\<lparr>gPollInterval := a1, gDelta := a2, gVbat := a3, gMatch := a4, gLastPollTime := a5, gPollCount := a6, gTimeouts := a7\<rparr>) = can_answer w"
  by (simp_all add: outbox_def can_answer_def)

lemma command_bytes:
  assumes "length cmd = sizeof_msg"
  shows "take (min (length cmd) sizeof_msg) cmd @ drop (min (length cmd) sizeof_msg) (ck_stack K) = cmd @ drop sizeof_msg (ck_stack K)"
  using assms by simp

text \<open>
  Claim C13. A status message updates what the server knows of the clock: interval \<open>2 ^ i\<close>, battery,
  offset, matches and timeouts as sent, the time of the poll and the count of polls; a pending face
  time is done; and exactly one notification of the read data value, with the acknowledgement, goes out.
\<close>

theorem status_command_effect:
  assumes "can_answer w" and "sts_cmd s = CLK_ACCEPT_STATUS" and "unat (sts_battery s) < 4096" and "unat (sts_interval s) < 16"
    and "length (ck_stack K) = sizeof_msg" and "w' = clock_command K (msg_sts_bytes s) w"
  shows "gPollInterval w' = 2 ^ unat (sts_interval s) \<and> gVbat w' = sts_battery s \<and> gDelta w' = sts_offset s \<and>
    gMatch w' = sts_match s \<and> gTimeouts w' = ucast (sts_timeouts s) \<and> gPollCount w' = gPollCount w + 1 \<and>
    gLastPollTime w' = ck_time K \<and> lastActivity w' = ck_time K \<and> gFaceTime w' = 0 \<and> exited w' = exited w \<and>
    outbox w' = outbox w @ [BT_ATT_OP_HANDLE_VAL_NOT # put_le16 (clock_read_data_handle w) @ [SRVR_ACCEPT_DONE]]"
proof -
  let ?m = "msg_sts_bytes s"
  have n: "length ?m = sizeof_msg" by (simp add: msg_sts_bytes_def sizeof_msg_def)
  have s: "msg_sts_of ?m = s"
    using bit_field_split [OF assms(3,4)]
    by (cases s) (simp add: msg_sts_of_def msg_sts_bytes_def get_put_le16_2 get_put_le16_4 get_put_le64_6)
  have c: "?m ! 0 = CLK_ACCEPT_STATUS" using assms(2) by (simp add: msg_sts_bytes_def)
  let ?w = "w\<lparr>gPollInterval := push_bit (unat (sts_interval s)) 1, gDelta := sts_offset s, gVbat := sts_battery s,
      gMatch := sts_match s, gLastPollTime := ck_time K, gPollCount := gPollCount w + 1, gTimeouts := ucast (sts_timeouts s)\<rparr>"
  let ?v = "clock_read_data_cb K [SRVR_ACCEPT_DONE] ?w"
  have w': "w' = ?v\<lparr>lastActivity := gLastPollTime ?v, gFaceTime := 0\<rparr>"
    using assms(5,6) n s c unfolding clock_command_def Let_def by (simp add: clk_codes)
  have "can_answer ?w" using assms(1) by simp
  note d = data_cb_outbox [OF this, of "[SRVR_ACCEPT_DONE]" K]
  show ?thesis
    unfolding w' using d more_eq_clock [OF d(2)] by (simp add: push_bit_of_1)
qed

theorem status_command_effect_witness:
  "\<exists>w'. w' = clock_command sample_kernel (msg_sts_bytes \<lparr>sts_cmd = 3, sts_timeouts = 2, sts_battery = 0xABC, sts_interval = 7,
       sts_match = 5, sts_offset = 99\<rparr>) sample_server \<and> gPollInterval w' = 128 \<and> gVbat w' = 0xABC \<and> gLastPollTime w' = 1000 \<and> gFaceTime w' = 0"
proof -
  let ?s = "\<lparr>sts_cmd = 3, sts_timeouts = 2, sts_battery = 0xABC, sts_interval = 7, sts_match = 5, sts_offset = 99\<rparr>"
  have "can_answer sample_server" using sample_ready by (simp add: clk_ready_def)
  from status_command_effect [OF this _ _ _ _ refl, of ?s sample_kernel] show ?thesis
    by (simp add: sample_kernel_def sizeof_msg_def clk_codes)
qed

lemma length_msg_u64 [simp]: "length (msg_u64_bytes c x) = 9"
  by (simp add: msg_u64_bytes_def)

text \<open>
  Claim C14. Time requests: the clock that asks for the time gets the local time in one notification and
  nothing else changes; the clock that asks for the face time gets the one that is set; and if none is
  set, the request ends the whole program.
\<close>

theorem time_requests:
  assumes "can_answer w" and "length (ck_stack K) = sizeof_msg"
  shows "outbox (clock_command K [CLK_REQ_TIME] w) =
      outbox w @ [BT_ATT_OP_HANDLE_VAL_NOT # put_le16 (clock_read_data_handle w) @ SRVR_ACCEPT_TIME # put_le64 (get_time K)] \<and>
    bt_att.more (clock_command K [CLK_REQ_TIME] w) = bt_att.more w \<and>
    (gFaceTime w \<noteq> 0 \<longrightarrow> outbox (clock_command K [CLK_REQ_FACE_TIME] w) =
      outbox w @ [BT_ATT_OP_HANDLE_VAL_NOT # put_le16 (clock_read_data_handle w) @ SRVR_ACCEPT_FACE_TIME # put_le64 (gFaceTime w)] \<and>
      exited (clock_command K [CLK_REQ_FACE_TIME] w) = exited w) \<and>
    (gFaceTime w = 0 \<longrightarrow> exited (clock_command K [CLK_REQ_FACE_TIME] w))"
proof -
  have c: "clock_command K [CLK_REQ_TIME] w = clock_read_data_cb K (msg_u64_bytes SRVR_ACCEPT_TIME (get_time K)) w"
    by (simp add: clock_command_def Let_def sizeof_msg_def clk_codes)
  have f: "clock_command K [CLK_REQ_FACE_TIME] w = (if gFaceTime w \<noteq> 0 then
      (clock_read_data_cb K (msg_u64_bytes SRVR_ACCEPT_FACE_TIME (gFaceTime w)) w)\<lparr>lastActivity := ck_time K\<rparr>
      else w\<lparr>exited := True\<rparr>)"
    by (simp add: clock_command_def Let_def sizeof_msg_def clk_codes)
  note d = data_cb_outbox [OF assms(1), of "msg_u64_bytes SRVR_ACCEPT_TIME (get_time K)" K]
    data_cb_outbox [OF assms(1), of "msg_u64_bytes SRVR_ACCEPT_FACE_TIME (gFaceTime w)" K]
  show ?thesis unfolding c f using d more_eq_clock(10) [OF d(4)] by (simp add: msg_u64_bytes_def)
qed

theorem time_requests_witness:
  "outbox (clock_command sample_kernel [CLK_REQ_TIME] sample_server) = outbox sample_server @
     [BT_ATT_OP_HANDLE_VAL_NOT # put_le16 (clock_read_data_handle sample_server) @ SRVR_ACCEPT_TIME # put_le64 (get_time sample_kernel)] \<and>
   exited (clock_command sample_kernel [CLK_REQ_FACE_TIME] (sample_server\<lparr>gFaceTime := 0\<rparr>))"
proof -
  have "can_answer sample_server" using sample_ready by (simp add: clk_ready_def)
  moreover have "can_answer (sample_server\<lparr>gFaceTime := 0\<rparr>)" using calculation by (simp add: can_answer_def)
  moreover have "length (ck_stack sample_kernel) = sizeof_msg" by (simp add: sample_kernel_def sizeof_msg_def)
  ultimately show ?thesis
    using time_requests [of sample_server sample_kernel] time_requests [of "sample_server\<lparr>gFaceTime := 0\<rparr>" sample_kernel] by simp
qed

text \<open>
  Claim C28. A status command of one byte is accepted: everything it should say is read from the
  uninitialised message on the stack, so that any battery voltage, interval and offset may result.
\<close>

theorem short_status_reads_stack:
  assumes "can_answer w" and "unat (sts_battery s) < 4096" and "unat (sts_interval s) < 16"
    and "ck_stack K = 0 # drop 1 (msg_sts_bytes s)"
  shows "gVbat (clock_command K [CLK_ACCEPT_STATUS] w) = sts_battery s \<and>
    gPollInterval (clock_command K [CLK_ACCEPT_STATUS] w) = 2 ^ unat (sts_interval s) \<and>
    gDelta (clock_command K [CLK_ACCEPT_STATUS] w) = sts_offset s"
proof -
  let ?t = "s\<lparr>sts_cmd := CLK_ACCEPT_STATUS\<rparr>"
  let ?w = "w\<lparr>gPollInterval := push_bit (unat (sts_interval s)) 1, gDelta := sts_offset s, gVbat := sts_battery s,
      gMatch := sts_match s, gLastPollTime := ck_time K, gPollCount := gPollCount w + 1, gTimeouts := ucast (sts_timeouts s)\<rparr>"
  let ?v = "clock_read_data_cb K [SRVR_ACCEPT_DONE] ?w"
  have m: "[CLK_ACCEPT_STATUS] @ drop 1 (ck_stack K) = msg_sts_bytes ?t"
    unfolding assms(4) by (simp add: msg_sts_bytes_def)
  have t: "msg_sts_of (msg_sts_bytes ?t) = ?t"
    using bit_field_split [OF assms(2,3)]
    by (cases s) (simp add: msg_sts_of_def msg_sts_bytes_def get_put_le16_2 get_put_le16_4 get_put_le64_6)
  have c: "msg_sts_bytes ?t ! 0 = CLK_ACCEPT_STATUS" by (simp add: msg_sts_bytes_def)
  have l: "min (length [CLK_ACCEPT_STATUS]) sizeof_msg = 1" "take 1 [CLK_ACCEPT_STATUS] = [CLK_ACCEPT_STATUS]"
    by (simp_all add: sizeof_msg_def)
  have r: "clock_command K [CLK_ACCEPT_STATUS] w =
      (if gFaceTime (?v\<lparr>lastActivity := gLastPollTime ?v\<rparr>) \<noteq> 0 then ?v\<lparr>lastActivity := gLastPollTime ?v, gFaceTime := 0\<rparr>
       else ?v\<lparr>lastActivity := gLastPollTime ?v\<rparr>)"
    unfolding clock_command_def Let_def l m t c by (simp add: clk_codes)
  have "can_answer ?w" using assms(1) by simp
  note d = data_cb_outbox [OF this, of "[SRVR_ACCEPT_DONE]" K]
  show ?thesis unfolding r using more_eq_clock [OF d(2)] by (simp add: push_bit_of_1)
qed

theorem short_status_reads_stack_witness:
  "gVbat (clock_command (sample_kernel\<lparr>ck_stack := 0 # drop 1 (msg_sts_bytes \<lparr>sts_cmd = 9, sts_timeouts = 2, sts_battery = 0xABC,
      sts_interval = 7, sts_match = 5, sts_offset = 99\<rparr>)\<rparr>) [CLK_ACCEPT_STATUS] sample_server) = 0xABC"
proof -
  have "can_answer sample_server" using sample_ready by (simp add: clk_ready_def)
  from short_status_reads_stack [OF this, of "\<lparr>sts_cmd = 9, sts_timeouts = 2, sts_battery = 0xABC,
      sts_interval = 7, sts_match = 5, sts_offset = 99\<rparr>"] show ?thesis by simp
qed

section \<open>Client characteristic configuration\<close>

text \<open>
  Claim C15. The configuration of the notifications: a write of two bytes at offset 0 whose first is 0 or 1
  is accepted, whatever the second, and is what is read back from then on; every other write is
  refused and changes nothing. For the indications of the service changed value the bytes are 0 and 2.
\<close>

theorem ccc_write_then_read:
  assumes "clock_read_data_ccc_write_cb off v w = (e, w')" and "gatt_svc_chngd_ccc_write_cb off v w = (e2, w2)"
  shows "(e = 0 \<longleftrightarrow> off = 0 \<and> (\<exists>b x. v = Some [b, x] \<and> b \<in> {0, 1})) \<and> (e \<noteq> 0 \<longrightarrow> w' = w) \<and>
    (\<forall>b x. v = Some [b, x] \<longrightarrow> e = 0 \<longrightarrow> clock_read_data_ccc_read_cb w' = (0, Some [b, 0])) \<and>
    (e2 = 0 \<longleftrightarrow> off = 0 \<and> (\<exists>b x. v = Some [b, x] \<and> b \<in> {0, 2})) \<and> (e2 \<noteq> 0 \<longrightarrow> w2 = w) \<and>
    (\<forall>b x. v = Some [b, x] \<longrightarrow> e2 = 0 \<longrightarrow> gatt_svc_chngd_ccc_read_cb w2 = (0, Some [b, 0]))"
proof (cases "\<exists>b x. v = Some [b, x]")
  case True
  then obtain b x where v: "v = Some [b, x]" by blast
  then show ?thesis
    using assms unfolding clock_read_data_ccc_write_cb_def gatt_svc_chngd_ccc_write_cb_def
    by (auto simp: clock_read_data_ccc_read_cb_def gatt_svc_chngd_ccc_read_cb_def att_errors split: if_split_asm)
next
  case False
  have "length l \<noteq> 2" if "v = Some l" for l
  proof
    assume "length l = 2"
    then obtain b x where "l = [b, x]" by (auto simp: length_Suc_conv eval_nat_numeral)
    with False that show False by blast
  qed
  then have "e = BT_ATT_ERROR_INVALID_ATTRIBUTE_VALUE_LEN \<and> w' = w \<and> e2 = BT_ATT_ERROR_INVALID_ATTRIBUTE_VALUE_LEN \<and> w2 = w"
    using assms by (auto simp: clock_read_data_ccc_write_cb_def gatt_svc_chngd_ccc_write_cb_def split: option.splits)
  with False show ?thesis by (auto simp: att_errors)
qed

theorem ccc_write_then_read_witness:
  "clock_read_data_ccc_read_cb (snd (clock_read_data_ccc_write_cb 0 (Some [1, 0]) sample_server)) = (0, Some [1, 0])"
proof -
  obtain e w' e2 w2 where r: "clock_read_data_ccc_write_cb 0 (Some [1, 0]) sample_server = (e, w')"
      "gatt_svc_chngd_ccc_write_cb 0 (Some [1, 0]) sample_server = (e2, w2)"
    by (meson surj_pair)
  from ccc_write_then_read [OF this] r(1) show ?thesis by auto
qed

text \<open>Sending does not look at the configuration.\<close>

lemma send_ccc:
  fixes w :: server
  shows "bt_att_send env opc pdu len None None None (w\<lparr>clock_read_data_notify := b\<rparr>) =
    (case bt_att_send env opc pdu len None None None w of (i, w') \<Rightarrow> (i, w'\<lparr>clock_read_data_notify := b\<rparr>))"
proof -
  have c: "create_att_send_op env opc pdu len None None None (w\<lparr>clock_read_data_notify := b\<rparr>) =
      create_att_send_op env opc pdu len None None None w"
    by (simp add: create_att_send_op_def encode_pdu_def Let_def cong: if_cong)
  have e: "enqueue_op op (v\<lparr>clock_read_data_notify := b\<rparr>) = (enqueue_op op v)\<lparr>clock_read_data_notify := b\<rparr>" for op and v :: server
    by (cases "op_type op") (simp_all add: enqueue_op_def)
  have k: "wakeup_writer (v\<lparr>clock_read_data_notify := b\<rparr>) = (wakeup_writer v)\<lparr>clock_read_data_notify := b\<rparr>" for v :: server
    by (auto simp: wakeup_writer_def)
  have n: "w\<lparr>clock_read_data_notify := b, next_send_id := i\<rparr> = (w\<lparr>next_send_id := i\<rparr>)\<lparr>clock_read_data_notify := b\<rparr>" for i
    by (cases w) simp
  show ?thesis
    unfolding bt_att_send_def c Let_def
    by (simp add: n e k del: server.update_convs split: option.split)
qed

text \<open>
  Claim C29. The server answers a clock that has not enabled notifications as one that has: the
  configuration of the read data value has no influence on what a command does or sends.
\<close>

theorem notifications_ignore_ccc:
  "clock_command K cmd (w\<lparr>clock_read_data_notify := b\<rparr>) = (clock_command K cmd w)\<lparr>clock_read_data_notify := b\<rparr>"
proof -
  have d: "clock_read_data_cb K buf (v\<lparr>clock_read_data_notify := b\<rparr>) = (clock_read_data_cb K buf v)\<lparr>clock_read_data_notify := b\<rparr>"
    for buf and v :: server
    by (simp add: clock_read_data_cb_def bt_gatt_server_send_notification_def Let_def send_ccc gs_value_pdu_def
        bt_att_get_mtu_def split: prod.split)
  have status: "clock_read_data_cb K buf (v\<lparr>clock_read_data_notify := b, gPollInterval := a1, gDelta := a2, gVbat := a3,
        gMatch := a4, gLastPollTime := a5, gPollCount := a6, gTimeouts := a7\<rparr>) =
      (clock_read_data_cb K buf (v\<lparr>gPollInterval := a1, gDelta := a2, gVbat := a3, gMatch := a4, gLastPollTime := a5,
        gPollCount := a6, gTimeouts := a7\<rparr>))\<lparr>clock_read_data_notify := b\<rparr>"
    for buf and v :: server and a1 a2 a3 a4 a5 a6 a7
  proof -
    have "v\<lparr>clock_read_data_notify := b, gPollInterval := a1, gDelta := a2, gVbat := a3, gMatch := a4, gLastPollTime := a5,
        gPollCount := a6, gTimeouts := a7\<rparr> = (v\<lparr>gPollInterval := a1, gDelta := a2, gVbat := a3, gMatch := a4,
        gLastPollTime := a5, gPollCount := a6, gTimeouts := a7\<rparr>)\<lparr>clock_read_data_notify := b\<rparr>"
      by (cases v) simp
    then show ?thesis by (simp only: d)
  qed
  have swap: "v\<lparr>clock_read_data_notify := b, lastActivity := t\<rparr> = v\<lparr>lastActivity := t, clock_read_data_notify := b\<rparr>"
      "v\<lparr>clock_read_data_notify := b, gFaceTime := y\<rparr> = v\<lparr>gFaceTime := y, clock_read_data_notify := b\<rparr>"
      "v\<lparr>clock_read_data_notify := b, exited := x\<rparr> = v\<lparr>exited := x, clock_read_data_notify := b\<rparr>" for v :: server and t x y
    by (cases v; simp)+
  have same: "gFaceTime (v\<lparr>clock_read_data_notify := b\<rparr>) = gFaceTime v" "gPollCount (v\<lparr>clock_read_data_notify := b\<rparr>) = gPollCount v"
      "gLastPollTime (v\<lparr>clock_read_data_notify := b\<rparr>) = gLastPollTime v" for v :: server
    by simp_all
  show ?thesis
    unfolding clock_command_def Let_def same d status swap if_distrib [of "\<lambda>v. v\<lparr>clock_read_data_notify := b\<rparr>"] ..
qed

end
