(* ===== verification/Mainloop.thy ===== *)
theory Mainloop
  imports Prelude
begin

text \<open>
  The event loop: \<^verbatim>\<open>src/shared/mainloop.c\<close>, the IO objects of \<^verbatim>\<open>src/shared/io-mainloop.c\<close> and the
  timeouts of \<^verbatim>\<open>src/shared/timeout-mainloop.c\<close>. The static variables of \<^verbatim>\<open>mainloop.c\<close> and the
  structures the three files allocate are one state; a structure is an entry of a map from
  addresses, so that a use after \<^verbatim>\<open>free\<close> is an access to an absent entry, which sets
  \<open>ml_fault\<close>. The kernel is a function from the calls made so far and the next call to the
  result, and the functions of the clients are arguments that act on the whole state, in which
  the clients keep their own as further record fields.
\<close>

unbundle bit_operations_syntax

section \<open>Calls to the kernel\<close>

definition EPOLLIN :: u32 where "EPOLLIN = 0x001"
definition EPOLLOUT :: u32 where "EPOLLOUT = 0x004"
definition EPOLLERR :: u32 where "EPOLLERR = 0x008"
definition EPOLLHUP :: u32 where "EPOLLHUP = 0x010"
definition EPOLLRDHUP :: u32 where "EPOLLRDHUP = 0x2000"
definition EPOLLONESHOT :: u32 where "EPOLLONESHOT = 0x40000000"

datatype ctl_op = Ctl_Add | Ctl_Mod | Ctl_Del

text \<open>\<^verbatim>\<open>malloc\<close> is one of the calls, with the answer 0 for a null pointer.\<close>

datatype sys_call =
    Sys_Epoll_Create | Sys_Epoll_Ctl ctl_op int u32 "nat option" | Sys_Epoll_Wait | Sys_Close int
  | Sys_Timerfd_Create | Sys_Timerfd_Settime int u32 u32 | Sys_Read int | Sys_Sigprocmask | Sys_Signalfd
  | Sys_Writev int bytes | Sys_Shutdown int | Sys_Malloc

section \<open>State\<close>

text \<open>The functions the files hand to one another, and those of clients.\<close>

datatype 'f event_fn = Signal_Callback | Ml_Timeout_Callback | Io_Callback | Event_Client 'f
datatype 'f destroy_fn = Ml_Timeout_Destroy | Io_Cleanup | Destroy_Client 'f
datatype 'f timeout_fn = Timeout_Callback | Timeout_Client 'f
datatype 'f timeout_destroy_fn = Timeout_Destroy | Timeout_Destroy_Client 'f
datatype 'u loop_ptr = Ptr_Signal | Ptr_Timeout nat | Ptr_Io nat | Ptr_Client "'u option"
datatype 'u timeout_ptr = Ptr_Timeout_Data nat | Ptr_Timeout_Client "'u option"

record ('f, 'u) mainloop_data =
  md_fd :: int
  md_events :: u32
  md_callback :: "'f event_fn"
  md_destroy :: "'f destroy_fn option"
  md_user_data :: "'u loop_ptr"

text \<open>\<^verbatim>\<open>struct timeout_data\<close> of \<^verbatim>\<open>mainloop.c\<close>.\<close>

record ('f, 'u) ml_timeout =
  mt_fd :: int
  mt_callback :: "'f timeout_fn"
  mt_destroy :: "'f timeout_destroy_fn option"
  mt_user_data :: "'u timeout_ptr"

record ('f, 'u) signal_data =
  sd_fd :: int
  sd_callback :: "'f option"
  sd_destroy :: "'f option"
  sd_user_data :: "'u option"

text \<open>\<^verbatim>\<open>struct timeout_data\<close> of \<^verbatim>\<open>timeout-mainloop.c\<close>.\<close>

record ('f, 'u) timeout_data =
  td_id :: int
  td_func :: 'f
  td_destroy :: "'f option"
  td_timeout :: u32
  td_user_data :: "'u option"

record ('f, 'u) io =
  io_ref_count :: int
  io_fd :: int
  io_events :: u32
  io_close_on_destroy :: bool
  io_read_callback :: "'f option"
  io_read_destroy :: "'f option"
  io_read_data :: "'u option"
  io_write_callback :: "'f option"
  io_write_destroy :: "'f option"
  io_write_data :: "'u option"
  io_disconnect_callback :: "'f option"
  io_disconnect_destroy :: "'f option"
  io_disconnect_data :: "'u option"

definition MAX_EPOLL_EVENTS :: nat where "MAX_EPOLL_EVENTS = 10"
definition MAX_MAINLOOP_ENTRIES :: nat where "MAX_MAINLOOP_ENTRIES = 128"

record ('f, 'u) loop_world =
  epoll_fd :: int
  epoll_terminate :: bool
  exit_status :: int
  mainloop_list :: "nat option list"
  loop_signal :: "('f, 'u) signal_data option"
  ml_datas :: "nat \<rightharpoonup> ('f, 'u) mainloop_data"
  ml_timeouts :: "nat \<rightharpoonup> ('f, 'u) ml_timeout"
  timeout_datas :: "nat \<rightharpoonup> ('f, 'u) timeout_data"
  ios :: "nat \<rightharpoonup> ('f, 'u) io"
  ml_next :: nat
  ml_fault :: bool
  sys_trace :: "sys_call list"

text \<open>The kernel, with the answers of \<^verbatim>\<open>epoll_wait\<close> and \<^verbatim>\<open>signalfd\<close> apart, and the client functions.\<close>

record ('f, 'u, 'w) loop_env =
  k_answer :: "sys_call list \<Rightarrow> sys_call \<Rightarrow> int"
  k_wait :: "sys_call list \<Rightarrow> (nat \<times> u32) list option"
  k_signo :: "sys_call list \<Rightarrow> int"
  c_event :: "'f \<Rightarrow> int \<Rightarrow> u32 \<Rightarrow> 'u option \<Rightarrow> 'w \<Rightarrow> 'w"
  c_signal :: "'f \<Rightarrow> int \<Rightarrow> 'u option \<Rightarrow> 'w \<Rightarrow> 'w"
  c_timeout :: "'f \<Rightarrow> int \<Rightarrow> 'u option \<Rightarrow> 'w \<Rightarrow> 'w"
  c_destroy :: "'f \<Rightarrow> 'u option \<Rightarrow> 'w \<Rightarrow> 'w"
  c_func :: "'f \<Rightarrow> 'u option \<Rightarrow> 'w \<Rightarrow> bool \<times> 'w"
  c_io :: "'f \<Rightarrow> nat \<Rightarrow> 'u option \<Rightarrow> 'w \<Rightarrow> bool \<times> 'w"

type_synonym ('f, 'u, 'z) loop_kernel = "('f, 'u, ('f, 'u, 'z) loop_world_scheme) loop_env"

definition fault :: "('f, 'u, 'z) loop_world_scheme \<Rightarrow> ('f, 'u, 'z) loop_world_scheme" where
  "fault w = w\<lparr>ml_fault := True\<rparr>"

definition syscall ::
  "('f, 'u, 'z) loop_kernel \<Rightarrow> sys_call \<Rightarrow> ('f, 'u, 'z) loop_world_scheme \<Rightarrow> int \<times> ('f, 'u, 'z) loop_world_scheme" where
  "syscall k c w = (k_answer k (sys_trace w) c, w\<lparr>sys_trace := sys_trace w @ [c]\<rparr>)"

definition sys_close ::
  "('f, 'u, 'z) loop_kernel \<Rightarrow> int \<Rightarrow> ('f, 'u, 'z) loop_world_scheme \<Rightarrow> ('f, 'u, 'z) loop_world_scheme" where
  "sys_close k fd w = snd (syscall k (Sys_Close fd) w)"

section \<open>Starting and ending\<close>

definition mainloop_init ::
  "('f, 'u, 'z) loop_kernel \<Rightarrow> ('f, 'u, 'z) loop_world_scheme \<Rightarrow> ('f, 'u, 'z) loop_world_scheme" where
  "mainloop_init k w =
     (case syscall k Sys_Epoll_Create w of
        (fd, w1) \<Rightarrow> w1\<lparr>epoll_fd := fd, mainloop_list := replicate MAX_MAINLOOP_ENTRIES None, epoll_terminate := False\<rparr>)"

definition EXIT_SUCCESS :: int where "EXIT_SUCCESS = 0"
definition EXIT_FAILURE :: int where "EXIT_FAILURE = 1"

definition mainloop_quit :: "('f, 'u, 'z) loop_world_scheme \<Rightarrow> ('f, 'u, 'z) loop_world_scheme" where
  "mainloop_quit w = w\<lparr>epoll_terminate := True\<rparr>"

definition mainloop_exit_success :: "('f, 'u, 'z) loop_world_scheme \<Rightarrow> ('f, 'u, 'z) loop_world_scheme" where
  "mainloop_exit_success w = w\<lparr>exit_status := EXIT_SUCCESS, epoll_terminate := True\<rparr>"

definition mainloop_exit_failure :: "('f, 'u, 'z) loop_world_scheme \<Rightarrow> ('f, 'u, 'z) loop_world_scheme" where
  "mainloop_exit_failure w = w\<lparr>exit_status := EXIT_FAILURE, epoll_terminate := True\<rparr>"

section \<open>What is called when an entry goes\<close>

text \<open>The end of a structure; freeing what is not allocated is a fault.\<close>

definition free_timeout_data :: "nat \<Rightarrow> ('f, 'u, 'z) loop_world_scheme \<Rightarrow> ('f, 'u, 'z) loop_world_scheme" where
  "free_timeout_data p w = (if timeout_datas w p = None then fault w else w\<lparr>timeout_datas := (timeout_datas w)(p := None)\<rparr>)"

definition free_ml_timeout :: "nat \<Rightarrow> ('f, 'u, 'z) loop_world_scheme \<Rightarrow> ('f, 'u, 'z) loop_world_scheme" where
  "free_ml_timeout p w = (if ml_timeouts w p = None then fault w else w\<lparr>ml_timeouts := (ml_timeouts w)(p := None)\<rparr>)"

definition free_ml_data :: "nat \<Rightarrow> ('f, 'u, 'z) loop_world_scheme \<Rightarrow> ('f, 'u, 'z) loop_world_scheme" where
  "free_ml_data p w = (if ml_datas w p = None then fault w else w\<lparr>ml_datas := (ml_datas w)(p := None)\<rparr>)"

definition free_io :: "nat \<Rightarrow> ('f, 'u, 'z) loop_world_scheme \<Rightarrow> ('f, 'u, 'z) loop_world_scheme" where
  "free_io p w = (if ios w p = None then fault w else w\<lparr>ios := (ios w)(p := None)\<rparr>)"

text \<open>\<^verbatim>\<open>timeout_destroy\<close> of \<^verbatim>\<open>timeout-mainloop.c\<close>.\<close>

definition timeout_destroy ::
  "('f, 'u, 'z) loop_kernel \<Rightarrow> nat \<Rightarrow> ('f, 'u, 'z) loop_world_scheme \<Rightarrow> ('f, 'u, 'z) loop_world_scheme" where
  "timeout_destroy k p w =
     (case timeout_datas w p of None \<Rightarrow> fault w
      | Some data \<Rightarrow> free_timeout_data p
          (case td_destroy data of None \<Rightarrow> w | Some f \<Rightarrow> c_destroy k f (td_user_data data) w))"

definition call_timeout_destroy ::
  "('f, 'u, 'z) loop_kernel \<Rightarrow> 'f timeout_destroy_fn \<Rightarrow> 'u timeout_ptr \<Rightarrow>
   ('f, 'u, 'z) loop_world_scheme \<Rightarrow> ('f, 'u, 'z) loop_world_scheme" where
  "call_timeout_destroy k f ud w =
     (case (f, ud) of
        (Timeout_Destroy, Ptr_Timeout_Data p) \<Rightarrow> timeout_destroy k p w
      | (Timeout_Destroy_Client g, Ptr_Timeout_Client u) \<Rightarrow> c_destroy k g u w
      | _ \<Rightarrow> fault w)"

text \<open>\<^verbatim>\<open>timeout_destroy\<close> of \<^verbatim>\<open>mainloop.c\<close>.\<close>

definition ml_timeout_destroy ::
  "('f, 'u, 'z) loop_kernel \<Rightarrow> nat \<Rightarrow> ('f, 'u, 'z) loop_world_scheme \<Rightarrow> ('f, 'u, 'z) loop_world_scheme" where
  "ml_timeout_destroy k p w =
     (case ml_timeouts w p of None \<Rightarrow> fault w
      | Some data \<Rightarrow>
          (let w1 = (sys_close k (mt_fd data) w)\<lparr>ml_timeouts := (ml_timeouts w)(p \<mapsto> data\<lparr>mt_fd := - 1\<rparr>)\<rparr>
           in free_ml_timeout p
                (case mt_destroy data of None \<Rightarrow> w1 | Some f \<Rightarrow> call_timeout_destroy k f (mt_user_data data) w1)))"

definition upd_io :: "nat \<Rightarrow> (('f, 'u) io \<Rightarrow> ('f, 'u) io) \<Rightarrow> ('f, 'u, 'z) loop_world_scheme \<Rightarrow> ('f, 'u, 'z) loop_world_scheme" where
  "upd_io p g w = (case ios w p of None \<Rightarrow> fault w | Some io \<Rightarrow> w\<lparr>ios := (ios w)(p \<mapsto> g io)\<rparr>)"

text \<open>Calling one of the destroy functions of an IO object, where it is set.\<close>

definition io_run_destroy ::
  "('f, 'u, 'z) loop_kernel \<Rightarrow> (('f, 'u) io \<Rightarrow> 'f option) \<Rightarrow> (('f, 'u) io \<Rightarrow> 'u option) \<Rightarrow> nat \<Rightarrow>
   ('f, 'u, 'z) loop_world_scheme \<Rightarrow> ('f, 'u, 'z) loop_world_scheme" where
  "io_run_destroy k fn ud p w = (case ios w p of None \<Rightarrow> fault w
     | Some io \<Rightarrow> (case fn io of None \<Rightarrow> w | Some f \<Rightarrow> c_destroy k f (ud io) w))"

definition io_cleanup ::
  "('f, 'u, 'z) loop_kernel \<Rightarrow> nat \<Rightarrow> ('f, 'u, 'z) loop_world_scheme \<Rightarrow> ('f, 'u, 'z) loop_world_scheme" where
  "io_cleanup k p w =
     (let w1 = io_run_destroy k io_write_destroy io_write_data p w;
          w2 = io_run_destroy k io_read_destroy io_read_data p w1;
          w3 = io_run_destroy k io_disconnect_destroy io_disconnect_data p w2;
          w4 = (case ios w3 p of None \<Rightarrow> fault w3
                | Some io \<Rightarrow> if io_close_on_destroy io then sys_close k (io_fd io) w3 else w3)
      in upd_io p (\<lambda>io. io\<lparr>io_fd := - 1\<rparr>) w4)"

definition call_destroy ::
  "('f, 'u, 'z) loop_kernel \<Rightarrow> 'f destroy_fn option \<Rightarrow> 'u loop_ptr \<Rightarrow>
   ('f, 'u, 'z) loop_world_scheme \<Rightarrow> ('f, 'u, 'z) loop_world_scheme" where
  "call_destroy k fn ud w =
     (case fn of None \<Rightarrow> w
      | Some f \<Rightarrow> (case (f, ud) of
          (Ml_Timeout_Destroy, Ptr_Timeout p) \<Rightarrow> ml_timeout_destroy k p w
        | (Io_Cleanup, Ptr_Io p) \<Rightarrow> io_cleanup k p w
        | (Destroy_Client g, Ptr_Client u) \<Rightarrow> c_destroy k g u w
        | _ \<Rightarrow> fault w))"

section \<open>The table of descriptors\<close>

definition valid_fd :: "int \<Rightarrow> bool" where
  "valid_fd fd \<longleftrightarrow> \<not> (fd < 0 \<or> fd > int MAX_MAINLOOP_ENTRIES - 1)"

definition mainloop_add_fd ::
  "('f, 'u, 'z) loop_kernel \<Rightarrow> int \<Rightarrow> u32 \<Rightarrow> 'f event_fn option \<Rightarrow> 'u loop_ptr \<Rightarrow> 'f destroy_fn option \<Rightarrow>
   ('f, 'u, 'z) loop_world_scheme \<Rightarrow> int \<times> ('f, 'u, 'z) loop_world_scheme" where
  "mainloop_add_fd k fd events callback ud destroy w =
     (case callback of None \<Rightarrow> (- EINVAL, w)
      | Some cb \<Rightarrow>
        if \<not> valid_fd fd then (- EINVAL, w)
        else (case syscall k Sys_Malloc w of (mem, w1) \<Rightarrow>
          if mem = 0 then (- ENOMEM, w1)
          else (let p = ml_next w1;
                    data = \<lparr>md_fd = fd, md_events = events, md_callback = cb, md_destroy = destroy, md_user_data = ud\<rparr>
                in case syscall k (Sys_Epoll_Ctl Ctl_Add fd events (Some p)) (w1\<lparr>ml_next := p + 1\<rparr>) of (err, w2) \<Rightarrow>
                     if err < 0 then (err, w2)
                     else (0, w2\<lparr>ml_datas := (ml_datas w2)(p \<mapsto> data),
                                mainloop_list := (mainloop_list w2)[nat fd := Some p]\<rparr>))))"

definition mainloop_modify_fd ::
  "('f, 'u, 'z) loop_kernel \<Rightarrow> int \<Rightarrow> u32 \<Rightarrow> ('f, 'u, 'z) loop_world_scheme \<Rightarrow> int \<times> ('f, 'u, 'z) loop_world_scheme" where
  "mainloop_modify_fd k fd events w =
     (if \<not> valid_fd fd then (- EINVAL, w)
      else (case mainloop_list w ! nat fd of None \<Rightarrow> (- ENXIO, w)
        | Some p \<Rightarrow> (case ml_datas w p of None \<Rightarrow> (0, fault w)
          | Some data \<Rightarrow> (case syscall k (Sys_Epoll_Ctl Ctl_Mod (md_fd data) events (Some p)) w of (err, w1) \<Rightarrow>
              if err < 0 then (err, w1)
              else (0, w1\<lparr>ml_datas := (ml_datas w1)(p \<mapsto> data\<lparr>md_events := events\<rparr>)\<rparr>)))))"

definition mainloop_remove_fd ::
  "('f, 'u, 'z) loop_kernel \<Rightarrow> int \<Rightarrow> ('f, 'u, 'z) loop_world_scheme \<Rightarrow> int \<times> ('f, 'u, 'z) loop_world_scheme" where
  "mainloop_remove_fd k fd w =
     (if \<not> valid_fd fd then (- EINVAL, w)
      else (case mainloop_list w ! nat fd of None \<Rightarrow> (- ENXIO, w)
        | Some p \<Rightarrow> (let w1 = w\<lparr>mainloop_list := (mainloop_list w)[nat fd := None]\<rparr>
            in case ml_datas w1 p of None \<Rightarrow> (0, fault w1)
             | Some data \<Rightarrow> (case syscall k (Sys_Epoll_Ctl Ctl_Del (md_fd data) 0 None) w1 of (err, w2) \<Rightarrow>
                 (err, free_ml_data p (call_destroy k (md_destroy data) (md_user_data data) w2))))))"

section \<open>Timeouts of the loop\<close>

text \<open>The fields \<^verbatim>\<open>tv_sec\<close> and \<^verbatim>\<open>tv_nsec\<close> of the expiry, computed in \<^verbatim>\<open>unsigned int\<close>.\<close>

definition timeout_spec :: "u32 \<Rightarrow> u32 \<times> u32" where
  "timeout_spec msec = (let sec = msec div 1000 in (sec, (msec - (sec * 1000)) * 1000 * 1000))"

definition timeout_set ::
  "('f, 'u, 'z) loop_kernel \<Rightarrow> int \<Rightarrow> u32 \<Rightarrow> ('f, 'u, 'z) loop_world_scheme \<Rightarrow> int \<times> ('f, 'u, 'z) loop_world_scheme" where
  "timeout_set k fd msec w = (case timeout_spec msec of (sec, nsec) \<Rightarrow> syscall k (Sys_Timerfd_Settime fd sec nsec) w)"

text \<open>The failures after \<^verbatim>\<open>timerfd_create\<close>: the descriptor is closed and the structure freed.\<close>

definition add_timeout_fail ::
  "('f, 'u, 'z) loop_kernel \<Rightarrow> nat \<Rightarrow> int \<Rightarrow> ('f, 'u, 'z) loop_world_scheme \<Rightarrow> int \<times> ('f, 'u, 'z) loop_world_scheme" where
  "add_timeout_fail k p fd w = (- EIO, free_ml_timeout p (sys_close k fd w))"

definition mainloop_add_timeout ::
  "('f, 'u, 'z) loop_kernel \<Rightarrow> u32 \<Rightarrow> 'f timeout_fn option \<Rightarrow> 'u timeout_ptr \<Rightarrow> 'f timeout_destroy_fn option \<Rightarrow>
   ('f, 'u, 'z) loop_world_scheme \<Rightarrow> int \<times> ('f, 'u, 'z) loop_world_scheme" where
  "mainloop_add_timeout k msec callback ud destroy w =
     (case callback of None \<Rightarrow> (- EINVAL, w)
      | Some cb \<Rightarrow> (case syscall k Sys_Malloc w of (mem, w1) \<Rightarrow>
        if mem = 0 then (- ENOMEM, w1)
        else (case syscall k Sys_Timerfd_Create w1 of (fd, w2) \<Rightarrow>
          if fd < 0 then (- EIO, w2)
          else
            (let p = ml_next w2;
                 data = \<lparr>mt_fd = fd, mt_callback = cb, mt_destroy = destroy, mt_user_data = ud\<rparr>;
                 w3 = w2\<lparr>ml_next := p + 1, ml_timeouts := (ml_timeouts w2)(p \<mapsto> data)\<rparr>;
                 (armed, w4) = (if msec > 0 then timeout_set k fd msec w3 else (0, w3))
             in if armed < 0 then add_timeout_fail k p fd w4
                else (case mainloop_add_fd k fd (EPOLLIN OR EPOLLONESHOT) (Some Ml_Timeout_Callback) (Ptr_Timeout p)
                          (Some Ml_Timeout_Destroy) w4 of (added, w5) \<Rightarrow>
                  if added < 0 then add_timeout_fail k p fd w5 else (fd, w5))))))"

definition mainloop_modify_timeout ::
  "('f, 'u, 'z) loop_kernel \<Rightarrow> int \<Rightarrow> u32 \<Rightarrow> ('f, 'u, 'z) loop_world_scheme \<Rightarrow> int \<times> ('f, 'u, 'z) loop_world_scheme" where
  "mainloop_modify_timeout k i msec w =
     (let (armed, w1) = (if msec > 0 then timeout_set k i msec w else (0, w))
      in if armed < 0 then (- EIO, w1)
         else (case mainloop_modify_fd k i (EPOLLIN OR EPOLLONESHOT) w1 of (err, w2) \<Rightarrow>
           if err < 0 then (- EIO, w2) else (0, w2)))"

definition mainloop_remove_timeout ::
  "('f, 'u, 'z) loop_kernel \<Rightarrow> int \<Rightarrow> ('f, 'u, 'z) loop_world_scheme \<Rightarrow> int \<times> ('f, 'u, 'z) loop_world_scheme" where
  "mainloop_remove_timeout k i w = mainloop_remove_fd k i w"

text \<open>\<^verbatim>\<open>mask\<close> is only compared with null here; the old structure is freed without its destroy function.\<close>

definition mainloop_set_signal ::
  "('f, 'u, 'z) loop_kernel \<Rightarrow> bool \<Rightarrow> 'f option \<Rightarrow> 'u option \<Rightarrow> 'f option \<Rightarrow>
   ('f, 'u, 'z) loop_world_scheme \<Rightarrow> int \<times> ('f, 'u, 'z) loop_world_scheme" where
  "mainloop_set_signal k have_mask callback ud destroy w =
     (if \<not> have_mask \<or> callback = None then (- EINVAL, w)
      else (case syscall k Sys_Malloc w of (mem, w1) \<Rightarrow>
        if mem = 0 then (- ENOMEM, w1)
        else (0, w1\<lparr>loop_signal := Some \<lparr>sd_fd = - 1, sd_callback = callback, sd_destroy = destroy, sd_user_data = ud\<rparr>\<rparr>)))"

section \<open>Timeouts of the clients\<close>

text \<open>\<^verbatim>\<open>new0\<close> does not return without memory.\<close>

definition timeout_add ::
  "('f, 'u, 'z) loop_kernel \<Rightarrow> u32 \<Rightarrow> 'f \<Rightarrow> 'u option \<Rightarrow> 'f option \<Rightarrow>
   ('f, 'u, 'z) loop_world_scheme \<Rightarrow> u32 \<times> ('f, 'u, 'z) loop_world_scheme" where
  "timeout_add k timeout func ud destroy w =
     (let p = ml_next w;
          data = \<lparr>td_id = 0, td_func = func, td_destroy = destroy, td_timeout = timeout, td_user_data = ud\<rparr>;
          w1 = w\<lparr>ml_next := p + 1, timeout_datas := (timeout_datas w)(p \<mapsto> data)\<rparr>
      in case mainloop_add_timeout k timeout (Some Timeout_Callback) (Ptr_Timeout_Data p) (Some Timeout_Destroy) w1 of
           (i, w2) \<Rightarrow>
             if i < 0 then (0, free_timeout_data p w2)
             else (word_of_int i, w2\<lparr>timeout_datas := (timeout_datas w2)(p \<mapsto> data\<lparr>td_id := i\<rparr>)\<rparr>))"

definition timeout_remove ::
  "('f, 'u, 'z) loop_kernel \<Rightarrow> u32 \<Rightarrow> ('f, 'u, 'z) loop_world_scheme \<Rightarrow> ('f, 'u, 'z) loop_world_scheme" where
  "timeout_remove k i w = (if i = 0 then w else snd (mainloop_remove_timeout k (sint i) w))"

text \<open>\<^verbatim>\<open>timeout_callback\<close> of \<^verbatim>\<open>timeout-mainloop.c\<close>: the structure is read again after the function of the client.\<close>

definition timeout_callback ::
  "('f, 'u, 'z) loop_kernel \<Rightarrow> nat \<Rightarrow> ('f, 'u, 'z) loop_world_scheme \<Rightarrow> ('f, 'u, 'z) loop_world_scheme" where
  "timeout_callback k p w =
     (case timeout_datas w p of None \<Rightarrow> fault w
      | Some data \<Rightarrow> (case c_func k (td_func data) (td_user_data data) w of (again, w1) \<Rightarrow>
          (case timeout_datas w1 p of None \<Rightarrow> fault w1
           | Some data1 \<Rightarrow>
               if again
               then (case mainloop_modify_timeout k (td_id data1) (td_timeout data1) w1 of (err, w2) \<Rightarrow>
                  if err = 0 then w2 else snd (mainloop_remove_timeout k (td_id data1) w2))
               else snd (mainloop_remove_timeout k (td_id data1) w1))))"

definition call_timeout ::
  "('f, 'u, 'z) loop_kernel \<Rightarrow> 'f timeout_fn \<Rightarrow> int \<Rightarrow> 'u timeout_ptr \<Rightarrow>
   ('f, 'u, 'z) loop_world_scheme \<Rightarrow> ('f, 'u, 'z) loop_world_scheme" where
  "call_timeout k f i ud w =
     (case (f, ud) of
        (Timeout_Callback, Ptr_Timeout_Data p) \<Rightarrow> timeout_callback k p w
      | (Timeout_Client g, Ptr_Timeout_Client u) \<Rightarrow> c_timeout k g i u w
      | _ \<Rightarrow> fault w)"

text \<open>\<^verbatim>\<open>timeout_callback\<close> of \<^verbatim>\<open>mainloop.c\<close>.\<close>

definition ml_timeout_callback ::
  "('f, 'u, 'z) loop_kernel \<Rightarrow> u32 \<Rightarrow> nat \<Rightarrow> ('f, 'u, 'z) loop_world_scheme \<Rightarrow> ('f, 'u, 'z) loop_world_scheme" where
  "ml_timeout_callback k events p w =
     (if events AND (EPOLLERR OR EPOLLHUP) \<noteq> 0 then w
      else (case ml_timeouts w p of None \<Rightarrow> fault w
        | Some data \<Rightarrow> (case syscall k (Sys_Read (mt_fd data)) w of (result, w1) \<Rightarrow>
            if result \<noteq> 8 then w1 else call_timeout k (mt_callback data) (mt_fd data) (mt_user_data data) w1)))"

section \<open>IO objects\<close>

definition io_ref :: "nat \<Rightarrow> ('f, 'u, 'z) loop_world_scheme \<Rightarrow> ('f, 'u, 'z) loop_world_scheme" where
  "io_ref p w = upd_io p (\<lambda>io. io\<lparr>io_ref_count := io_ref_count io + 1\<rparr>) w"

definition io_unref :: "nat option \<Rightarrow> ('f, 'u, 'z) loop_world_scheme \<Rightarrow> ('f, 'u, 'z) loop_world_scheme" where
  "io_unref ptr w = (case ptr of None \<Rightarrow> w
     | Some p \<Rightarrow> (let w1 = upd_io p (\<lambda>io. io\<lparr>io_ref_count := io_ref_count io - 1\<rparr>) w
         in case ios w1 p of None \<Rightarrow> w1 | Some io \<Rightarrow> if io_ref_count io \<noteq> 0 then w1 else free_io p w1))"

text \<open>Reading a field of an IO object that must be there.\<close>

definition io_field ::
  "(('f, 'u) io \<Rightarrow> 'a) \<Rightarrow> nat \<Rightarrow> ('f, 'u, 'z) loop_world_scheme \<Rightarrow> 'a option" where
  "io_field sel p w = map_option sel (ios w p)"

text \<open>The end of a handler: its destroy function, its fields, its event.\<close>

definition drop_disconnect ::
  "('f, 'u, 'z) loop_kernel \<Rightarrow> nat \<Rightarrow> ('f, 'u, 'z) loop_world_scheme \<Rightarrow> ('f, 'u, 'z) loop_world_scheme" where
  "drop_disconnect k p w =
     (let w1 = upd_io p (\<lambda>io. io\<lparr>io_disconnect_callback := None, io_disconnect_destroy := None, io_disconnect_data := None,
                 io_events := io_events io AND NOT EPOLLRDHUP\<rparr>)
               (io_run_destroy k io_disconnect_destroy io_disconnect_data p w)
      in case ios w1 p of None \<Rightarrow> w1 | Some io \<Rightarrow> snd (mainloop_modify_fd k (io_fd io) (io_events io) w1))"

definition drop_read ::
  "('f, 'u, 'z) loop_kernel \<Rightarrow> nat \<Rightarrow> ('f, 'u, 'z) loop_world_scheme \<Rightarrow> ('f, 'u, 'z) loop_world_scheme" where
  "drop_read k p w =
     (let w1 = upd_io p (\<lambda>io. io\<lparr>io_read_callback := None, io_read_destroy := None, io_read_data := None,
                 io_events := io_events io AND NOT EPOLLIN\<rparr>)
               (io_run_destroy k io_read_destroy io_read_data p w)
      in case ios w1 p of None \<Rightarrow> w1 | Some io \<Rightarrow> snd (mainloop_modify_fd k (io_fd io) (io_events io) w1))"

definition drop_write ::
  "('f, 'u, 'z) loop_kernel \<Rightarrow> nat \<Rightarrow> ('f, 'u, 'z) loop_world_scheme \<Rightarrow> ('f, 'u, 'z) loop_world_scheme" where
  "drop_write k p w =
     (let w1 = upd_io p (\<lambda>io. io\<lparr>io_write_callback := None, io_write_destroy := None, io_write_data := None,
                 io_events := io_events io AND NOT EPOLLOUT\<rparr>)
               (io_run_destroy k io_write_destroy io_write_data p w)
      in case ios w1 p of None \<Rightarrow> w1 | Some io \<Rightarrow> snd (mainloop_modify_fd k (io_fd io) (io_events io) w1))"

text \<open>Calling a handler that is set; the handler says whether it stays.\<close>

definition run_handler ::
  "('f, 'u, 'z) loop_kernel \<Rightarrow> (('f, 'u) io \<Rightarrow> 'f option) \<Rightarrow> (('f, 'u) io \<Rightarrow> 'u option) \<Rightarrow>
   (('f, 'u, 'z) loop_world_scheme \<Rightarrow> ('f, 'u, 'z) loop_world_scheme) \<Rightarrow> nat \<Rightarrow>
   ('f, 'u, 'z) loop_world_scheme \<Rightarrow> ('f, 'u, 'z) loop_world_scheme" where
  "run_handler k fn ud remove p w = (case ios w p of None \<Rightarrow> fault w
     | Some io \<Rightarrow> (case fn io of None \<Rightarrow> w
         | Some f \<Rightarrow> (case c_io k f p (ud io) w of (stays, w1) \<Rightarrow> if stays then w1 else remove w1)))"

definition io_callback_input ::
  "('f, 'u, 'z) loop_kernel \<Rightarrow> u32 \<Rightarrow> nat \<Rightarrow> ('f, 'u, 'z) loop_world_scheme \<Rightarrow> ('f, 'u, 'z) loop_world_scheme" where
  "io_callback_input k events p w =
     (let w1 = (if events AND EPOLLIN \<noteq> 0
                then run_handler k io_read_callback io_read_data (drop_read k p) p w else w);
          w2 = (if events AND EPOLLOUT \<noteq> 0
                then run_handler k io_write_callback io_write_data (drop_write k p) p w1 else w1)
      in io_unref (Some p) w2)"

definition io_callback ::
  "('f, 'u, 'z) loop_kernel \<Rightarrow> u32 \<Rightarrow> nat \<Rightarrow> ('f, 'u, 'z) loop_world_scheme \<Rightarrow> ('f, 'u, 'z) loop_world_scheme" where
  "io_callback k events p w =
     (let w1 = io_ref p w
      in if events AND (EPOLLRDHUP OR EPOLLHUP OR EPOLLERR) \<noteq> 0
         then (let w2 = upd_io p (\<lambda>io. io\<lparr>io_read_callback := None, io_write_callback := None\<rparr>) w1
               in case ios w2 p of None \<Rightarrow> w2
                | Some io \<Rightarrow>
                    if io_disconnect_callback io = None
                    then io_unref (Some p) (snd (mainloop_remove_fd k (io_fd io) w2))
                    else io_callback_input k events p
                           (run_handler k io_disconnect_callback io_disconnect_data (drop_disconnect k p) p w2))
         else io_callback_input k events p w1)"

definition io_new ::
  "('f, 'u, 'z) loop_kernel \<Rightarrow> int \<Rightarrow> ('f, 'u, 'z) loop_world_scheme \<Rightarrow> nat option \<times> ('f, 'u, 'z) loop_world_scheme" where
  "io_new k fd w =
     (if fd < 0 then (None, w)
      else
        (let p = ml_next w;
             io = \<lparr>io_ref_count = 0, io_fd = fd, io_events = 0, io_close_on_destroy = False,
                   io_read_callback = None, io_read_destroy = None, io_read_data = None,
                   io_write_callback = None, io_write_destroy = None, io_write_data = None,
                   io_disconnect_callback = None, io_disconnect_destroy = None, io_disconnect_data = None\<rparr>;
             w1 = w\<lparr>ml_next := p + 1, ios := (ios w)(p \<mapsto> io)\<rparr>
         in case mainloop_add_fd k fd 0 (Some Io_Callback) (Ptr_Io p) (Some Io_Cleanup) w1 of (err, w2) \<Rightarrow>
              if err < 0 then (None, free_io p w2) else (Some p, io_ref p w2)))"

definition io_destroy ::
  "('f, 'u, 'z) loop_kernel \<Rightarrow> nat option \<Rightarrow> ('f, 'u, 'z) loop_world_scheme \<Rightarrow> ('f, 'u, 'z) loop_world_scheme" where
  "io_destroy k ptr w = (case ptr of None \<Rightarrow> w
     | Some p \<Rightarrow>
         (let w1 = upd_io p (\<lambda>io. io\<lparr>io_read_callback := None, io_write_callback := None, io_disconnect_callback := None\<rparr>) w
          in case ios w1 p of None \<Rightarrow> w1
           | Some io \<Rightarrow> io_unref (Some p) (snd (mainloop_remove_fd k (io_fd io) w1))))"

definition io_get_fd :: "nat option \<Rightarrow> ('f, 'u, 'z) loop_world_scheme \<Rightarrow> int" where
  "io_get_fd ptr w = (case ptr of None \<Rightarrow> - ENOTCONN | Some p \<Rightarrow> (case ios w p of None \<Rightarrow> 0 | Some io \<Rightarrow> io_fd io))"

definition io_set_close_on_destroy ::
  "nat option \<Rightarrow> bool \<Rightarrow> ('f, 'u, 'z) loop_world_scheme \<Rightarrow> bool \<times> ('f, 'u, 'z) loop_world_scheme" where
  "io_set_close_on_destroy ptr do_close w = (case ptr of None \<Rightarrow> (False, w)
     | Some p \<Rightarrow> (True, upd_io p (\<lambda>io. io\<lparr>io_close_on_destroy := do_close\<rparr>) w))"

text \<open>The end of the three functions that set a handler: the loop learns of the new events.\<close>

definition io_set_events ::
  "('f, 'u, 'z) loop_kernel \<Rightarrow> nat \<Rightarrow> u32 \<Rightarrow> ('f, 'u, 'z) loop_world_scheme \<Rightarrow> bool \<times> ('f, 'u, 'z) loop_world_scheme" where
  "io_set_events k p events w = (case ios w p of None \<Rightarrow> (False, fault w)
     | Some io \<Rightarrow>
         if events = io_events io then (True, w)
         else (case mainloop_modify_fd k (io_fd io) events w of (err, w1) \<Rightarrow>
           if err < 0 then (False, w1) else (True, upd_io p (\<lambda>io. io\<lparr>io_events := events\<rparr>) w1)))"

definition event_mask :: "u32 \<Rightarrow> 'f option \<Rightarrow> u32 \<Rightarrow> u32" where
  "event_mask ev callback events = (if callback \<noteq> None then events OR ev else events AND NOT ev)"

text \<open>An object without a descriptor takes no handler.\<close>

definition io_usable :: "nat option \<Rightarrow> ('f, 'u, 'z) loop_world_scheme \<Rightarrow> bool" where
  "io_usable ptr w = (case ptr of None \<Rightarrow> False | Some p \<Rightarrow> (case ios w p of None \<Rightarrow> False | Some io \<Rightarrow> \<not> io_fd io < 0))"

definition io_set_read_handler ::
  "('f, 'u, 'z) loop_kernel \<Rightarrow> nat option \<Rightarrow> 'f option \<Rightarrow> 'u option \<Rightarrow> 'f option \<Rightarrow>
   ('f, 'u, 'z) loop_world_scheme \<Rightarrow> bool \<times> ('f, 'u, 'z) loop_world_scheme" where
  "io_set_read_handler k ptr callback ud destroy w =
     (if \<not> io_usable ptr w then (False, w)
      else (let p = the ptr; w1 = io_run_destroy k io_read_destroy io_read_data p w
        in case io_field io_events p w1 of None \<Rightarrow> (False, fault w1)
         | Some events \<Rightarrow> io_set_events k p (event_mask EPOLLIN callback events)
             (upd_io p (\<lambda>io. io\<lparr>io_read_callback := callback, io_read_destroy := destroy, io_read_data := ud\<rparr>) w1)))"

definition io_set_write_handler ::
  "('f, 'u, 'z) loop_kernel \<Rightarrow> nat option \<Rightarrow> 'f option \<Rightarrow> 'u option \<Rightarrow> 'f option \<Rightarrow>
   ('f, 'u, 'z) loop_world_scheme \<Rightarrow> bool \<times> ('f, 'u, 'z) loop_world_scheme" where
  "io_set_write_handler k ptr callback ud destroy w =
     (if \<not> io_usable ptr w then (False, w)
      else (let p = the ptr; w1 = io_run_destroy k io_write_destroy io_write_data p w
        in case io_field io_events p w1 of None \<Rightarrow> (False, fault w1)
         | Some events \<Rightarrow> io_set_events k p (event_mask EPOLLOUT callback events)
             (upd_io p (\<lambda>io. io\<lparr>io_write_callback := callback, io_write_destroy := destroy, io_write_data := ud\<rparr>) w1)))"

definition io_set_disconnect_handler ::
  "('f, 'u, 'z) loop_kernel \<Rightarrow> nat option \<Rightarrow> 'f option \<Rightarrow> 'u option \<Rightarrow> 'f option \<Rightarrow>
   ('f, 'u, 'z) loop_world_scheme \<Rightarrow> bool \<times> ('f, 'u, 'z) loop_world_scheme" where
  "io_set_disconnect_handler k ptr callback ud destroy w =
     (if \<not> io_usable ptr w then (False, w)
      else (let p = the ptr; w1 = io_run_destroy k io_disconnect_destroy io_disconnect_data p w
        in case io_field io_events p w1 of None \<Rightarrow> (False, fault w1)
         | Some events \<Rightarrow> io_set_events k p (event_mask EPOLLRDHUP callback events)
             (upd_io p (\<lambda>io. io\<lparr>io_disconnect_callback := callback, io_disconnect_destroy := destroy, io_disconnect_data := ud\<rparr>) w1)))"

abbreviation (input) EINTR :: int where "EINTR \<equiv> 4"

text \<open>
  \<^verbatim>\<open>writev\<close> is repeated while a signal interrupts it; an answer below zero is minus the error number.
  The loop ends when the kernel ever answers otherwise.
\<close>

partial_function (option) io_writev ::
  "('f, 'u, 'z) loop_kernel \<Rightarrow> int \<Rightarrow> bytes \<Rightarrow> ('f, 'u, 'z) loop_world_scheme \<Rightarrow> (int \<times> ('f, 'u, 'z) loop_world_scheme) option" where
  "io_writev k fd iov w =
     (case syscall k (Sys_Writev fd iov) w of (ret, w1) \<Rightarrow> if ret = - EINTR then io_writev k fd iov w1 else Some (ret, w1))"

definition io_send ::
  "('f, 'u, 'z) loop_kernel \<Rightarrow> nat option \<Rightarrow> bytes \<Rightarrow> ('f, 'u, 'z) loop_world_scheme \<Rightarrow>
   (int \<times> ('f, 'u, 'z) loop_world_scheme) option" where
  "io_send k ptr iov w = (if \<not> io_usable ptr w then Some (- ENOTCONN, w)
     else (case ptr of None \<Rightarrow> None | Some p \<Rightarrow> (case ios w p of None \<Rightarrow> None | Some io \<Rightarrow> io_writev k (io_fd io) iov w)))"

definition io_shutdown ::
  "('f, 'u, 'z) loop_kernel \<Rightarrow> nat option \<Rightarrow> ('f, 'u, 'z) loop_world_scheme \<Rightarrow> bool \<times> ('f, 'u, 'z) loop_world_scheme" where
  "io_shutdown k ptr w = (if \<not> io_usable ptr w then (False, w)
     else (case syscall k (Sys_Shutdown (io_get_fd ptr w)) w of (ret, w1) \<Rightarrow> (ret = 0, w1)))"

section \<open>Running\<close>

text \<open>\<^verbatim>\<open>sizeof(struct signalfd_siginfo)\<close> is 128.\<close>

definition signal_callback ::
  "('f, 'u, 'z) loop_kernel \<Rightarrow> int \<Rightarrow> u32 \<Rightarrow> ('f, 'u, 'z) loop_world_scheme \<Rightarrow> ('f, 'u, 'z) loop_world_scheme" where
  "signal_callback k fd events w =
     (if events AND (EPOLLERR OR EPOLLHUP) \<noteq> 0 then mainloop_quit w
      else (case syscall k (Sys_Read fd) w of (result, w1) \<Rightarrow>
        if result \<noteq> 128 then w1
        else (case loop_signal w1 of None \<Rightarrow> fault w1
          | Some data \<Rightarrow> (case sd_callback data of None \<Rightarrow> w1
              | Some f \<Rightarrow> c_signal k f (k_signo k (sys_trace w)) (sd_user_data data) w1))))"

definition call_event ::
  "('f, 'u, 'z) loop_kernel \<Rightarrow> 'f event_fn \<Rightarrow> int \<Rightarrow> u32 \<Rightarrow> 'u loop_ptr \<Rightarrow>
   ('f, 'u, 'z) loop_world_scheme \<Rightarrow> ('f, 'u, 'z) loop_world_scheme" where
  "call_event k f fd events ud w =
     (case (f, ud) of
        (Signal_Callback, Ptr_Signal) \<Rightarrow> signal_callback k fd events w
      | (Ml_Timeout_Callback, Ptr_Timeout p) \<Rightarrow> ml_timeout_callback k events p w
      | (Io_Callback, Ptr_Io p) \<Rightarrow> io_callback k events p w
      | (Event_Client g, Ptr_Client u) \<Rightarrow> c_event k g fd events u w
      | _ \<Rightarrow> fault w)"

text \<open>The events of one \<^verbatim>\<open>epoll_wait\<close>, each with the pointer registered for it, which may be freed by now.\<close>

primrec mainloop_events ::
  "('f, 'u, 'z) loop_kernel \<Rightarrow> (nat \<times> u32) list \<Rightarrow> ('f, 'u, 'z) loop_world_scheme \<Rightarrow> ('f, 'u, 'z) loop_world_scheme" where
  "mainloop_events k [] w = w"
| "mainloop_events k (e # es) w = mainloop_events k es
     (case ml_datas w (fst e) of None \<Rightarrow> fault w
      | Some data \<Rightarrow> call_event k (md_callback data) (md_fd data) (snd e) (md_user_data data) w)"

text \<open>One iteration: the kernel returns at most as many events as there is room for.\<close>

definition loop_step ::
  "('f, 'u, 'z) loop_kernel \<Rightarrow> ('f, 'u, 'z) loop_world_scheme \<Rightarrow> ('f, 'u, 'z) loop_world_scheme" where
  "loop_step k w =
     (let w1 = w\<lparr>sys_trace := sys_trace w @ [Sys_Epoll_Wait]\<rparr>
      in case k_wait k (sys_trace w) of None \<Rightarrow> w1 | Some es \<Rightarrow> mainloop_events k (take MAX_EPOLL_EVENTS es) w1)"

partial_function (option) mainloop_loop ::
  "('f, 'u, 'z) loop_kernel \<Rightarrow> ('f, 'u, 'z) loop_world_scheme \<Rightarrow> ('f, 'u, 'z) loop_world_scheme option" where
  "mainloop_loop k w = (if epoll_terminate w then Some w else mainloop_loop k (loop_step k w))"

text \<open>The end of the loop: the signal descriptor, every entry of the table, the epoll descriptor.\<close>

definition clear_entry ::
  "('f, 'u, 'z) loop_kernel \<Rightarrow> nat \<Rightarrow> ('f, 'u, 'z) loop_world_scheme \<Rightarrow> ('f, 'u, 'z) loop_world_scheme" where
  "clear_entry k i w =
     (let w1 = w\<lparr>mainloop_list := (mainloop_list w)[i := None]\<rparr>
      in case mainloop_list w ! i of None \<Rightarrow> w1
       | Some p \<Rightarrow> (case ml_datas w1 p of None \<Rightarrow> fault w1
           | Some data \<Rightarrow> free_ml_data p (call_destroy k (md_destroy data) (md_user_data data)
               (snd (syscall k (Sys_Epoll_Ctl Ctl_Del (md_fd data) 0 None) w1)))))"

definition end_signal ::
  "('f, 'u, 'z) loop_kernel \<Rightarrow> ('f, 'u, 'z) loop_world_scheme \<Rightarrow> ('f, 'u, 'z) loop_world_scheme" where
  "end_signal k w = (case loop_signal w of None \<Rightarrow> w
     | Some data \<Rightarrow> (let w1 = sys_close k (sd_fd data) (snd (mainloop_remove_fd k (sd_fd data) w))
         in case sd_destroy data of None \<Rightarrow> w1 | Some f \<Rightarrow> c_destroy k f (sd_user_data data) w1))"

definition mainloop_finish ::
  "('f, 'u, 'z) loop_kernel \<Rightarrow> ('f, 'u, 'z) loop_world_scheme \<Rightarrow> int \<times> ('f, 'u, 'z) loop_world_scheme" where
  "mainloop_finish k w =
     (let w1 = fold (clear_entry k) [0..<MAX_MAINLOOP_ENTRIES] (end_signal k w);
          w2 = (sys_close k (epoll_fd w1) w1)\<lparr>epoll_fd := 0\<rparr>
      in (exit_status w2, w2))"

text \<open>The beginning: the descriptor of the signals, when a client has set them; \<open>False\<close> for a failure.\<close>

definition start_signal ::
  "('f, 'u, 'z) loop_kernel \<Rightarrow> ('f, 'u, 'z) loop_world_scheme \<Rightarrow> bool \<times> ('f, 'u, 'z) loop_world_scheme" where
  "start_signal k w = (case loop_signal w of None \<Rightarrow> (True, w)
     | Some data \<Rightarrow> (case syscall k Sys_Sigprocmask w of (blocked, w1) \<Rightarrow>
         if blocked < 0 then (False, w1)
         else (case syscall k Sys_Signalfd w1 of (fd, w2) \<Rightarrow>
           (let w3 = w2\<lparr>loop_signal := Some (data\<lparr>sd_fd := fd\<rparr>)\<rparr>
            in if fd < 0 then (False, w3)
               else (case mainloop_add_fd k fd EPOLLIN (Some Signal_Callback) Ptr_Signal None w3 of (err, w4) \<Rightarrow>
                 if err < 0 then (False, sys_close k fd w4) else (True, w4))))))"

definition mainloop_run ::
  "('f, 'u, 'z) loop_kernel \<Rightarrow> ('f, 'u, 'z) loop_world_scheme \<Rightarrow> (int \<times> ('f, 'u, 'z) loop_world_scheme) option" where
  "mainloop_run k w = (case start_signal k w of
     (False, w1) \<Rightarrow> Some (EXIT_FAILURE, w1)
   | (True, w1) \<Rightarrow> map_option (mainloop_finish k) (mainloop_loop k w1))"

end
