(* ===== verification/Loops.thy ===== *)
theory Loops
  imports Prelude
begin

text \<open>
  Loops that may run for ever: \<open>run\<close> repeats \<open>step\<close> until \<open>stop\<close> holds, and is \<open>None\<close> when it never does.
  The event loop and the thread of the server are such loops.
\<close>

locale stepping_loop =
  fixes step :: "'s \<Rightarrow> 's" and stop :: "'s \<Rightarrow> bool" and run :: "'s \<Rightarrow> 's option"
  assumes run_stop: "stop w \<Longrightarrow> run w = Some w"
    and run_go: "\<not> stop w \<Longrightarrow> run w = run (step w)"
    and run_ends: "run w = Some v \<Longrightarrow> \<exists>n. stop ((step ^^ n) w)"
begin

lemma steps:
  "stop ((step ^^ n) w) \<Longrightarrow> (\<And>m. m < n \<Longrightarrow> \<not> stop ((step ^^ m) w)) \<Longrightarrow> run w = Some ((step ^^ n) w)"
proof (induction n arbitrary: w)
  case (Suc n)
  have "\<not> stop w" using Suc.prems(2) [of 0] by simp
  moreover have "run (step w) = Some ((step ^^ n) (step w))"
    by (rule Suc.IH) (use Suc.prems(1) Suc.prems(2) [of "Suc m" for m] in \<open>simp_all add: funpow_swap1\<close>)
  ultimately show ?case by (simp add: run_go funpow_swap1)
qed (simp add: run_stop)

lemma ends:
  assumes "stop ((step ^^ n) w)"
  shows "\<exists>k. run w = Some ((step ^^ k) w) \<and> stop ((step ^^ k) w) \<and> (\<forall>m < k. \<not> stop ((step ^^ m) w))"
proof -
  let ?k = "LEAST n. stop ((step ^^ n) w)"
  have "stop ((step ^^ ?k) w)" using assms by (rule LeastI)
  moreover have "\<not> stop ((step ^^ m) w)" if "m < ?k" for m using not_less_Least [OF that] .
  ultimately show ?thesis using steps [of ?k w] by blast
qed

text \<open>The loop returns exactly when some step stops it, with the state of the first step that does.\<close>

lemma returns_iff: "run w \<noteq> None \<longleftrightarrow> (\<exists>n. stop ((step ^^ n) w))"
  using ends run_ends by fastforce

lemma run_eq: "run w = (if \<exists>n. stop ((step ^^ n) w) then Some ((step ^^ (LEAST n. stop ((step ^^ n) w))) w) else None)"
proof (cases "\<exists>n. stop ((step ^^ n) w)")
  case True
  then have "stop ((step ^^ (LEAST n. stop ((step ^^ n) w))) w)" by (rule LeastI_ex)
  then have "run w = Some ((step ^^ (LEAST n. stop ((step ^^ n) w))) w)" by (rule steps) (rule not_less_Least)
  with True show ?thesis by simp
next
  case False
  then have "run w = None" using returns_iff by metis
  with False show ?thesis by simp
qed

lemma result:
  assumes "run w = Some v"
  shows "\<exists>n. v = (step ^^ n) w \<and> stop v \<and> (\<forall>m < n. \<not> stop ((step ^^ m) w))"
proof -
  obtain n where "stop ((step ^^ n) w)" using run_ends [OF assms] by blast
  from ends [OF this] assms show ?thesis by auto
qed

lemma invariant:
  assumes "run w = Some v" and "P w" and "\<And>w. \<not> stop w \<Longrightarrow> P w \<Longrightarrow> P (step w)"
  shows "P v"
proof -
  obtain n where n: "v = (step ^^ n) w" "\<forall>m < n. \<not> stop ((step ^^ m) w)" using result [OF assms(1)] by blast
  have "m \<le> n \<Longrightarrow> P ((step ^^ m) w)" for m
    by (induction m) (use assms(2,3) n(2) in simp_all)
  then show ?thesis using n(1) by blast
qed

end

end
