(* ===== verification/Mainloop_Inv.thy ===== *)
theory Mainloop_Inv
  imports Mainloop Loops
begin

text \<open>
  The table of the event loop owns what its entries point to: each entry has its structures, no
  two entries share one, and what is not allocated yet is not pointed to. The operations keep
  this, and the end of the loop gives everything back.
\<close>

section \<open>What an entry owns\<close>

datatype resource = Res_Data nat | Res_Timeout nat | Res_Timer nat | Res_Io nat

definition same_at ::
  "('f, 'u, 'z) loop_world_scheme \<Rightarrow> ('f, 'u, 'z) loop_world_scheme \<Rightarrow> resource \<Rightarrow> bool" where
  "same_at w w' r = (case r of Res_Data p \<Rightarrow> ml_datas w' p = ml_datas w p | Res_Timeout p \<Rightarrow> ml_timeouts w' p = ml_timeouts w p
     | Res_Timer p \<Rightarrow> timeout_datas w' p = timeout_datas w p | Res_Io p \<Rightarrow> ios w' p = ios w p)"

definition live :: "('f, 'u, 'z) loop_world_scheme \<Rightarrow> resource \<Rightarrow> bool" where
  "live w r = (case r of Res_Data p \<Rightarrow> ml_datas w p \<noteq> None | Res_Timeout p \<Rightarrow> ml_timeouts w p \<noteq> None
     | Res_Timer p \<Rightarrow> timeout_datas w p \<noteq> None | Res_Io p \<Rightarrow> ios w p \<noteq> None)"

definition res_addr :: "resource \<Rightarrow> nat" where
  "res_addr r = (case r of Res_Data p \<Rightarrow> p | Res_Timeout p \<Rightarrow> p | Res_Timer p \<Rightarrow> p | Res_Io p \<Rightarrow> p)"

lemmas res_defs = same_at_def live_def res_addr_def

lemma res_simps [simp]:
  "same_at w w' (Res_Data p) = (ml_datas w' p = ml_datas w p)" "same_at w w' (Res_Timeout p) = (ml_timeouts w' p = ml_timeouts w p)"
  "same_at w w' (Res_Timer p) = (timeout_datas w' p = timeout_datas w p)" "same_at w w' (Res_Io p) = (ios w' p = ios w p)"
  "live w (Res_Data p) = (ml_datas w p \<noteq> None)" "live w (Res_Timeout p) = (ml_timeouts w p \<noteq> None)"
  "live w (Res_Timer p) = (timeout_datas w p \<noteq> None)" "live w (Res_Io p) = (ios w p \<noteq> None)"
  "res_addr (Res_Data p) = p" "res_addr (Res_Timeout p) = p" "res_addr (Res_Timer p) = p" "res_addr (Res_Io p) = p"
  by (simp_all add: res_defs)

lemma same_at_refl [simp]: "same_at w w r"
  by (cases r) simp_all

lemma same_at_trans: "same_at u v r \<Longrightarrow> same_at v w r \<Longrightarrow> same_at u w r"
  by (cases r) simp_all

lemma same_at_live: "same_at w w' r \<Longrightarrow> live w' r = live w r"
  by (cases r) simp_all

lemma res_trace [simp]:
  "same_at w (w'\<lparr>sys_trace := t\<rparr>) r = same_at w w' r" "same_at w (w'\<lparr>mainloop_list := l\<rparr>) r = same_at w w' r"
  "same_at (w\<lparr>sys_trace := t\<rparr>) w' r = same_at w w' r" "same_at (w\<lparr>mainloop_list := l\<rparr>) w' r = same_at w w' r"
  "same_at w (w'\<lparr>ml_next := n\<rparr>) r = same_at w w' r" "same_at (w\<lparr>ml_next := n\<rparr>) w' r = same_at w w' r"
  "live (w\<lparr>sys_trace := t\<rparr>) r = live w r" "live (w\<lparr>mainloop_list := l\<rparr>) r = live w r" "live (w\<lparr>ml_next := n\<rparr>) r = live w r"
  by (cases r; simp)+

text \<open>The structures behind a user pointer, \<open>None\<close> where the functions and the pointer do not fit.\<close>

definition timer_res :: "('f, 'u) ml_timeout \<Rightarrow> resource set option" where
  "timer_res m = (case (mt_callback m, mt_destroy m, mt_user_data m) of
       (Timeout_Callback, Some Timeout_Destroy, Ptr_Timeout_Data q) \<Rightarrow> Some {Res_Timer q}
     | (Timeout_Client _, None, Ptr_Timeout_Client _) \<Rightarrow> Some {}
     | (Timeout_Client _, Some (Timeout_Destroy_Client _), Ptr_Timeout_Client _) \<Rightarrow> Some {}
     | _ \<Rightarrow> None)"

definition data_res :: "('f, 'u, 'z) loop_world_scheme \<Rightarrow> ('f, 'u) mainloop_data \<Rightarrow> resource set option" where
  "data_res w d = (case (md_callback d, md_destroy d, md_user_data d) of
       (Ml_Timeout_Callback, Some Ml_Timeout_Destroy, Ptr_Timeout t) \<Rightarrow>
         (case ml_timeouts w t of None \<Rightarrow> None
          | Some m \<Rightarrow> if mt_fd m = md_fd d then map_option (insert (Res_Timeout t)) (timer_res m) else None)
     | (Io_Callback, Some Io_Cleanup, Ptr_Io q) \<Rightarrow>
         (case ios w q of None \<Rightarrow> None | Some io \<Rightarrow> if io_fd io = md_fd d then Some {Res_Io q} else None)
     | (Event_Client _, None, Ptr_Client _) \<Rightarrow> Some {}
     | (Event_Client _, Some (Destroy_Client _), Ptr_Client _) \<Rightarrow> Some {}
     | _ \<Rightarrow> None)"

text \<open>What the table owns at an index: nothing without an entry, \<open>None\<close> for an entry that is broken.\<close>

definition slot_res :: "('f, 'u, 'z) loop_world_scheme \<Rightarrow> nat \<Rightarrow> resource set option" where
  "slot_res w i = (case mainloop_list w ! i of None \<Rightarrow> Some {}
     | Some p \<Rightarrow> (case ml_datas w p of None \<Rightarrow> None
         | Some d \<Rightarrow> if md_fd d = int i then map_option (insert (Res_Data p)) (data_res w d) else None))"

definition slot_ok :: "('f, 'u, 'z) loop_world_scheme \<Rightarrow> nat \<Rightarrow> bool" where
  "slot_ok w i = (case slot_res w i of None \<Rightarrow> False | Some R \<Rightarrow> \<forall>r \<in> R. live w r)"

definition owns :: "('f, 'u, 'z) loop_world_scheme \<Rightarrow> nat \<Rightarrow> resource set" where
  "owns w i = (case slot_res w i of None \<Rightarrow> {} | Some R \<Rightarrow> R)"

definition loop_ok :: "('f, 'u, 'z) loop_world_scheme \<Rightarrow> bool" where
  "loop_ok w \<longleftrightarrow> length (mainloop_list w) = MAX_MAINLOOP_ENTRIES \<and> \<not> ml_fault w \<and>
     (\<forall>i < MAX_MAINLOOP_ENTRIES. slot_ok w i) \<and>
     (\<forall>i < MAX_MAINLOOP_ENTRIES. \<forall>j < MAX_MAINLOOP_ENTRIES. i \<noteq> j \<longrightarrow> owns w i \<inter> owns w j = {}) \<and>
     (\<forall>r. live w r \<longrightarrow> res_addr r < ml_next w)"

text \<open>Signals are not in use: \<^verbatim>\<open>mainloop_set_signal\<close> is not called by the program.\<close>

lemma slot_res_cases:
  assumes "slot_ok w i"
  obtains "mainloop_list w ! i = None" "owns w i = {}"
  | p d R where "mainloop_list w ! i = Some p" "ml_datas w p = Some d" "md_fd d = int i" "data_res w d = Some R"
      "owns w i = insert (Res_Data p) R" "\<forall>r \<in> insert (Res_Data p) R. live w r"
  using assms by (auto simp: slot_ok_def slot_res_def owns_def split: option.splits if_splits)

text \<open>An entry stays what it is while what it owns stays.\<close>

lemma slot_res_same:
  assumes "slot_ok w i" and "\<forall>r \<in> owns w i. same_at w w' r" and "mainloop_list w' ! i = mainloop_list w ! i"
  shows "slot_res w' i = slot_res w i"
  using assms(1)
proof (cases rule: slot_res_cases)
  case 1
  with assms(3) show ?thesis by (simp add: slot_res_def)
next
  case (2 p d R)
  have "data_res w' d = data_res w d"
    using assms(2) 2(4,5)
    by (auto simp: data_res_def split: event_fn.splits destroy_fn.splits loop_ptr.splits option.splits if_splits)
  with 2 assms show ?thesis by (simp add: slot_res_def)
qed

lemma slot_same:
  assumes "slot_ok w i" and "\<forall>r \<in> owns w i. same_at w w' r" and "mainloop_list w' ! i = mainloop_list w ! i"
  shows "slot_ok w' i" and "owns w' i = owns w i"
proof -
  note s = slot_res_same [OF assms]
  show "owns w' i = owns w i" by (simp add: owns_def s)
  show "slot_ok w' i"
    using assms(1,2) same_at_live by (fastforce simp: slot_ok_def s owns_def split: option.splits)
qed

section \<open>Letting go of an entry\<close>

text \<open>
  The destroy functions of the clients do not call the loop; in the program they are all null.
\<close>

definition calm :: "('f, 'u, 'z) loop_world_scheme \<Rightarrow> ('f, 'u, 'z) loop_world_scheme \<Rightarrow> bool" where
  "calm w w' \<longleftrightarrow> mainloop_list w' = mainloop_list w \<and> ml_datas w' = ml_datas w \<and> ml_timeouts w' = ml_timeouts w \<and>
     timeout_datas w' = timeout_datas w \<and> ios w' = ios w \<and> ml_next w' = ml_next w \<and> ml_fault w' = ml_fault w \<and>
     epoll_fd w' = epoll_fd w \<and> exit_status w' = exit_status w \<and> loop_signal w' = loop_signal w"

definition destroy_calm :: "('f, 'u, 'z) loop_kernel \<Rightarrow> bool" where
  "destroy_calm k \<longleftrightarrow> (\<forall>f u w. calm w (c_destroy k f u w))"

lemma calm_refl [simp]: "calm w w"
  by (simp add: calm_def)

lemma calm_trans: "calm u v \<Longrightarrow> calm v w \<Longrightarrow> calm u w"
  by (simp add: calm_def)

lemma calm_syscall [simp]: "calm w (snd (syscall k c w))" "calm w (sys_close k fd w)"
  by (simp_all add: calm_def syscall_def sys_close_def)

lemma calm_same: "calm w w' \<Longrightarrow> same_at w w' r"
  by (cases r) (simp_all add: calm_def)

text \<open>What was owned is freed, or an IO object without its descriptor; all else stays.\<close>

definition gone :: "('f, 'u, 'z) loop_world_scheme \<Rightarrow> resource \<Rightarrow> bool" where
  "gone w r = (case r of Res_Io p \<Rightarrow> (\<exists>io. ios w p = Some io \<and> io_fd io = - 1) | _ \<Rightarrow> \<not> live w r)"

definition released ::
  "resource set \<Rightarrow> ('f, 'u, 'z) loop_world_scheme \<Rightarrow> ('f, 'u, 'z) loop_world_scheme \<Rightarrow> bool" where
  "released R w w' \<longleftrightarrow> mainloop_list w' = mainloop_list w \<and> ml_next w' = ml_next w \<and> epoll_fd w' = epoll_fd w \<and>
     exit_status w' = exit_status w \<and> loop_signal w' = loop_signal w \<and> ml_fault w' = ml_fault w \<and>
     (\<forall>r. r \<notin> R \<longrightarrow> same_at w w' r) \<and> (\<forall>r \<in> R. gone w' r)"

lemma calm_released: "calm w w' \<Longrightarrow> released {} w w'"
  using calm_same by (auto simp: released_def calm_def)

lemma calm_destroyD:
  "destroy_calm k \<Longrightarrow> calm w (case f of None \<Rightarrow> w | Some g \<Rightarrow> c_destroy k g u w)"
  by (cases f) (simp_all add: destroy_calm_def)

lemma timeout_destroy_released:
  assumes "destroy_calm k" and "timeout_datas w p \<noteq> None"
  shows "released {Res_Timer p} w (timeout_destroy k p w)"
proof -
  obtain d where d: "timeout_datas w p = Some d" using assms(2) by auto
  let ?v = "case td_destroy d of None \<Rightarrow> w | Some f \<Rightarrow> c_destroy k f (td_user_data d) w"
  have "calm w ?v" by (rule calm_destroyD [OF assms(1)])
  moreover have "timeout_destroy k p w = ?v\<lparr>timeout_datas := (timeout_datas ?v)(p := None)\<rparr>"
    using calculation d by (simp add: timeout_destroy_def free_timeout_data_def calm_def)
  moreover have "same_at w (?v\<lparr>timeout_datas := (timeout_datas ?v)(p := None)\<rparr>) r" if "r \<noteq> Res_Timer p" for r
    using calculation(1) that by (cases r) (auto simp: calm_def)
  ultimately show ?thesis by (auto simp: released_def calm_def gone_def)
qed

lemma timer_res_cases:
  assumes "timer_res m = Some R"
  obtains q where "mt_callback m = Timeout_Callback" "mt_destroy m = Some Timeout_Destroy" "mt_user_data m = Ptr_Timeout_Data q" "R = {Res_Timer q}"
  | "mt_destroy m = None" "R = {}"
  | g u where "mt_destroy m = Some (Timeout_Destroy_Client g)" "mt_user_data m = Ptr_Timeout_Client u" "R = {}"
  using assms by (auto simp: timer_res_def split: timeout_fn.splits timeout_destroy_fn.splits timeout_ptr.splits option.splits)

lemma data_res_cases:
  assumes "data_res w d = Some R"
  obtains t m S where "md_callback d = Ml_Timeout_Callback" "md_destroy d = Some Ml_Timeout_Destroy" "md_user_data d = Ptr_Timeout t"
      "ml_timeouts w t = Some m" "mt_fd m = md_fd d" "timer_res m = Some S" "R = insert (Res_Timeout t) S"
  | q io where "md_callback d = Io_Callback" "md_destroy d = Some Io_Cleanup" "md_user_data d = Ptr_Io q"
      "ios w q = Some io" "io_fd io = md_fd d" "R = {Res_Io q}"
  | "md_destroy d = None" "R = {}"
  | g u where "md_destroy d = Some (Destroy_Client g)" "md_user_data d = Ptr_Client u" "R = {}"
  using assms by (auto simp: data_res_def split: event_fn.splits destroy_fn.splits loop_ptr.splits option.splits if_splits)

lemma destroy_calmD: "destroy_calm k \<Longrightarrow> calm w (c_destroy k f u w)"
  by (simp add: destroy_calm_def)

lemma call_timeout_destroy_released:
  assumes "destroy_calm k" and "timer_res m = Some R" and "\<forall>r \<in> R. live w r"
  shows "released R w (case mt_destroy m of None \<Rightarrow> w | Some f \<Rightarrow> call_timeout_destroy k f (mt_user_data m) w)"
  using assms(2)
proof (cases rule: timer_res_cases)
  case (1 q)
  with timeout_destroy_released [OF assms(1), of w q] assms(3) show ?thesis by (simp add: call_timeout_destroy_def)
qed (simp_all add: call_timeout_destroy_def calm_released destroy_calmD [OF assms(1)])

lemma ml_timeout_destroy_released:
  assumes "destroy_calm k" and "ml_timeouts w p = Some m" and "timer_res m = Some R" and "\<forall>r \<in> R. live w r"
  shows "released (insert (Res_Timeout p) R) w (ml_timeout_destroy k p w)"
proof -
  define u where "u = (sys_close k (mt_fd m) w)\<lparr>ml_timeouts := (ml_timeouts w)(p \<mapsto> m\<lparr>mt_fd := - 1\<rparr>)\<rparr>"
  define v where "v = (case mt_destroy m of None \<Rightarrow> u | Some f \<Rightarrow> call_timeout_destroy k f (mt_user_data m) u)"
  have R: "R = {} \<or> (\<exists>q. R = {Res_Timer q})"
    using assms(3) by (cases rule: timer_res_cases) auto
  then have "\<forall>r \<in> R. live u r" using assms(4) by (auto simp: u_def sys_close_def syscall_def)
  from call_timeout_destroy_released [OF assms(1,3) this] have v: "released R u v" unfolding v_def .
  have u: "same_at w u r" if "r \<noteq> Res_Timeout p" for r
    using that by (cases r) (auto simp: u_def sys_close_def syscall_def)
  have f: "mainloop_list u = mainloop_list w" "ml_next u = ml_next w" "epoll_fd u = epoll_fd w" "exit_status u = exit_status w"
      "loop_signal u = loop_signal w" "ml_fault u = ml_fault w" "ml_timeouts u p = Some (m\<lparr>mt_fd := - 1\<rparr>)"
    by (simp_all add: u_def sys_close_def syscall_def)
  have uv: "same_at w v r" if "r \<noteq> Res_Timeout p" "r \<notin> R" for r
    using v that by (intro same_at_trans [OF u]) (simp_all add: released_def)
  have "Res_Timeout p \<notin> R" using R by auto
  then have "same_at u v (Res_Timeout p)" using v unfolding released_def by blast
  then have p: "ml_timeouts v p = Some (m\<lparr>mt_fd := - 1\<rparr>)" by (simp add: f)
  have e: "ml_timeout_destroy k p w = v\<lparr>ml_timeouts := (ml_timeouts v)(p := None)\<rparr>"
    using p unfolding ml_timeout_destroy_def assms(2) option.case Let_def v_def [symmetric] u_def [symmetric]
    by (simp add: free_ml_timeout_def)
  have s: "same_at w (v\<lparr>ml_timeouts := (ml_timeouts v)(p := None)\<rparr>) r" if "r \<notin> insert (Res_Timeout p) R" for r
    using uv [of r] that by (cases r) auto
  have g: "gone (v\<lparr>ml_timeouts := (ml_timeouts v)(p := None)\<rparr>) r" if "r \<in> insert (Res_Timeout p) R" for r
    using v R that by (auto simp: released_def gone_def)
  show ?thesis
    using v s g unfolding e released_def by (simp add: f)
qed

lemma io_run_destroy_calm: "destroy_calm k \<Longrightarrow> ios w p \<noteq> None \<Longrightarrow> calm w (io_run_destroy k fn ud p w)"
  by (auto simp: io_run_destroy_def destroy_calm_def split: option.split)

lemma io_cleanup_released:
  assumes "destroy_calm k" and "ios w p \<noteq> None"
  shows "released {Res_Io p} w (io_cleanup k p w)"
proof -
  define a where "a = io_run_destroy k io_write_destroy io_write_data p w"
  define b where "b = io_run_destroy k io_read_destroy io_read_data p a"
  define c where "c = io_run_destroy k io_disconnect_destroy io_disconnect_data p b"
  have a: "calm w a" unfolding a_def by (rule io_run_destroy_calm [OF assms])
  have b: "calm a b" using a assms unfolding b_def by (intro io_run_destroy_calm) (simp_all add: calm_def)
  have "calm b c" using a b assms unfolding c_def by (intro io_run_destroy_calm) (simp_all add: calm_def)
  with a b have c: "calm w c" by (blast intro: calm_trans)
  obtain io where io: "ios w p = Some io" using assms(2) by auto
  define d where "d = (if io_close_on_destroy io then sys_close k (io_fd io) c else c)"
  have d: "calm w d" using c calm_trans [OF c calm_syscall(2)] by (simp add: d_def)
  have "ios c p = Some io" "ios d p = Some io" using c d io by (simp_all add: calm_def)
  then have e: "io_cleanup k p w = d\<lparr>ios := (ios d)(p \<mapsto> io\<lparr>io_fd := - 1\<rparr>)\<rparr>"
    unfolding io_cleanup_def Let_def a_def [symmetric] b_def [symmetric] c_def [symmetric]
    by (simp add: upd_io_def d_def [symmetric])
  have "same_at w (d\<lparr>ios := (ios d)(p \<mapsto> io\<lparr>io_fd := - 1\<rparr>)\<rparr>) r" if "r \<noteq> Res_Io p" for r
    using calm_same [OF d, of r] that by (cases r) auto
  then show ?thesis using d unfolding e by (auto simp: released_def gone_def calm_def)
qed

lemma call_destroy_released:
  assumes "destroy_calm k" and "data_res w d = Some R" and "\<forall>r \<in> R. live w r"
  shows "released R w (call_destroy k (md_destroy d) (md_user_data d) w)"
  using assms(2)
proof (cases rule: data_res_cases)
  case (1 t m S)
  with ml_timeout_destroy_released [OF assms(1) 1(4,6)] assms(3) show ?thesis by (simp add: call_destroy_def)
next
  case (2 q io)
  with io_cleanup_released [OF assms(1), of w q] assms(3) show ?thesis by (simp add: call_destroy_def)
qed (simp_all add: call_destroy_def calm_released destroy_calmD [OF assms(1)])


section \<open>Removing entries\<close>

text \<open>Taking the entry at an index out of the table, in a step that keeps the invariant.\<close>

definition dropped :: "nat \<Rightarrow> ('f, 'u, 'z) loop_world_scheme \<Rightarrow> ('f, 'u, 'z) loop_world_scheme \<Rightarrow> bool" where
  "dropped i w w' \<longleftrightarrow> loop_ok w' \<and> mainloop_list w' = (mainloop_list w)[i := None] \<and>
     epoll_fd w' = epoll_fd w \<and> exit_status w' = exit_status w \<and> loop_signal w' = loop_signal w \<and>
     (\<forall>r. r \<notin> owns w i \<longrightarrow> same_at w w' r) \<and> (\<forall>r \<in> owns w i. gone w' r)"

lemma loop_okD:
  assumes "loop_ok w"
  shows "length (mainloop_list w) = MAX_MAINLOOP_ENTRIES" "\<not> ml_fault w" "i < MAX_MAINLOOP_ENTRIES \<Longrightarrow> slot_ok w i"
    "i < MAX_MAINLOOP_ENTRIES \<Longrightarrow> j < MAX_MAINLOOP_ENTRIES \<Longrightarrow> i \<noteq> j \<Longrightarrow> owns w i \<inter> owns w j = {}"
    "live w r \<Longrightarrow> res_addr r < ml_next w"
  using assms unfolding loop_ok_def by blast+

lemma slot_none [simp]: "mainloop_list w ! i = None \<Longrightarrow> slot_ok w i" "mainloop_list w ! i = None \<Longrightarrow> owns w i = {}"
  by (simp_all add: slot_ok_def slot_res_def owns_def)

text \<open>The invariant after a step that leaves alone what the other entries own.\<close>

lemma loop_ok_frame:
  assumes w: "loop_ok w" and l: "length (mainloop_list w') = length (mainloop_list w)" and f: "\<not> ml_fault w'"
    and o: "\<And>j. j < MAX_MAINLOOP_ENTRIES \<Longrightarrow> j \<noteq> i \<Longrightarrow> mainloop_list w' ! j = mainloop_list w ! j"
    and s: "\<And>j r. j < MAX_MAINLOOP_ENTRIES \<Longrightarrow> j \<noteq> i \<Longrightarrow> r \<in> owns w j \<Longrightarrow> same_at w w' r"
    and i: "i < MAX_MAINLOOP_ENTRIES \<Longrightarrow> slot_ok w' i"
    and d: "\<And>j. i < MAX_MAINLOOP_ENTRIES \<Longrightarrow> j < MAX_MAINLOOP_ENTRIES \<Longrightarrow> j \<noteq> i \<Longrightarrow> owns w' i \<inter> owns w j = {}"
    and n: "\<And>r. live w' r \<Longrightarrow> res_addr r < ml_next w'"
  shows "loop_ok w'"
proof -
  have e: "slot_ok w' j" "owns w' j = owns w j" if "j < MAX_MAINLOOP_ENTRIES" "j \<noteq> i" for j
    using slot_same [OF loop_okD(3) [OF w that(1)], of w'] s [OF that] o [OF that] by blast+
  have "owns w' a \<inter> owns w' b = {}" if "a < MAX_MAINLOOP_ENTRIES" "b < MAX_MAINLOOP_ENTRIES" "a \<noteq> b" for a b
  proof (cases "a = i \<or> b = i")
    case True
    with d e that show ?thesis by (metis Int_commute)
  next
    case False
    with e that loop_okD(4) [OF w that] show ?thesis by simp
  qed
  with l f i e n loop_okD(1) [OF w] show ?thesis unfolding loop_ok_def by metis
qed

lemma data_res_eq: "ml_timeouts u = ml_timeouts w \<Longrightarrow> ios u = ios w \<Longrightarrow> data_res u d = data_res w d"
  by (simp only: data_res_def)

lemma drop_entry:
  assumes "destroy_calm k" and w: "loop_ok w" and i: "i < MAX_MAINLOOP_ENTRIES"
    and p: "mainloop_list w ! i = Some p" and d: "ml_datas w p = Some d"
  shows "dropped i w (free_ml_data p (call_destroy k (md_destroy d) (md_user_data d)
      (snd (syscall k c (w\<lparr>mainloop_list := (mainloop_list w)[i := None]\<rparr>)))))"
proof -
  define u where "u = snd (syscall k c (w\<lparr>mainloop_list := (mainloop_list w)[i := None]\<rparr>))"
  define v where "v = call_destroy k (md_destroy d) (md_user_data d) u"
  obtain R where R: "data_res w d = Some R" "owns w i = insert (Res_Data p) R" "\<forall>r \<in> insert (Res_Data p) R. live w r"
    using slot_res_cases [OF loop_okD(3) [OF w i]] p d by (metis option.distinct(1) option.inject)
  have u: "same_at w u r" for r by (cases r) (simp_all add: u_def syscall_def)
  have "data_res u d = Some R" using R(1) data_res_eq [of u w] by (simp add: u_def syscall_def)
  then have v: "released R u v"
    unfolding v_def using call_destroy_released [OF assms(1)] R(3) same_at_live [OF u] by blast
  have "Res_Data p \<notin> R" using R(1) by (cases rule: data_res_cases) (auto elim: timer_res_cases)
  then have vp: "ml_datas v p = Some d" using v u [of "Res_Data p"] d unfolding released_def by (metis res_simps(1))
  define w' where "w' = v\<lparr>ml_datas := (ml_datas v)(p := None)\<rparr>"
  have f: "mainloop_list w' = (mainloop_list w)[i := None]" "\<not> ml_fault w'" "ml_next w' = ml_next w"
      "epoll_fd w' = epoll_fd w" "exit_status w' = exit_status w" "loop_signal w' = loop_signal w"
    using v loop_okD(2) [OF w] by (simp_all add: w'_def released_def u_def syscall_def)
  have s: "same_at w w' r" if "r \<notin> owns w i" for r
  proof -
    have "same_at u v r" using v that R(2) by (simp add: released_def)
    then have "same_at w v r" using u same_at_trans by blast
    with that R(2) show ?thesis by (cases r) (auto simp: w'_def)
  qed
  have g: "gone w' r" if "r \<in> owns w i" for r
    using v that R(2) \<open>Res_Data p \<notin> R\<close> by (cases r) (auto simp: released_def gone_def w'_def split: resource.splits)
  have "loop_ok w'"
  proof (rule loop_ok_frame [OF w, of _ i])
    show "slot_ok w' i" "owns w' i \<inter> owns w j = {}" for j
      using f(1) i loop_okD(1) [OF w] by simp_all
    show "same_at w w' r" if "j < MAX_MAINLOOP_ENTRIES" "j \<noteq> i" "r \<in> owns w j" for j r
      using loop_okD(4) [OF w that(1) i that(2)] that(3) s by blast
    show "res_addr r < ml_next w'" if "live w' r" for r
    proof (cases "r \<in> owns w i")
      case True
      then have "live w r" using R(2,3) by auto
      from loop_okD(5) [OF w this] f(3) show ?thesis by simp
    next
      case False
      with s same_at_live that loop_okD(5) [OF w] f(3) show ?thesis by metis
    qed
  qed (use f i in simp_all)
  moreover have "free_ml_data p v = w'" using vp by (simp add: free_ml_data_def w'_def)
  ultimately show ?thesis
    unfolding u_def [symmetric] v_def [symmetric] using f s g by (simp add: dropped_def)
qed

lemma clear_entry_dropped:
  assumes "destroy_calm k" and "loop_ok w" and "i < MAX_MAINLOOP_ENTRIES"
  shows "dropped i w (clear_entry k i w)"
  using loop_okD(3) [OF assms(2,3)]
proof (cases rule: slot_res_cases)
  case 1
  have l: "(mainloop_list w)[i := None] = mainloop_list w"
    using 1 assms(3) loop_okD(1) [OF assms(2)] by (simp add: list_update_same_conv)
  then have "clear_entry k i w = w" using 1 by (simp add: clear_entry_def Let_def)
  with 1 l assms(2) show ?thesis by (simp add: dropped_def)
next
  case (2 p d R)
  have "clear_entry k i w = free_ml_data p (call_destroy k (md_destroy d) (md_user_data d)
      (snd (syscall k (Sys_Epoll_Ctl Ctl_Del (md_fd d) 0 None) (w\<lparr>mainloop_list := (mainloop_list w)[i := None]\<rparr>))))"
    using 2 by (simp add: clear_entry_def Let_def)
  with drop_entry [OF assms 2(1,2)] show ?thesis by simp
qed

lemma mainloop_remove_fd_dropped:
  assumes "destroy_calm k" and "loop_ok w" and "valid_fd fd" and "mainloop_list w ! nat fd \<noteq> None"
  shows "dropped (nat fd) w (snd (mainloop_remove_fd k fd w))"
proof -
  have i: "nat fd < MAX_MAINLOOP_ENTRIES" using assms(3) by (auto simp: valid_fd_def MAX_MAINLOOP_ENTRIES_def nat_less_iff)
  from loop_okD(3) [OF assms(2) i] show ?thesis
  proof (cases rule: slot_res_cases)
    case 1
    with assms(4) show ?thesis by simp
  next
    case (2 p d R)
    have "snd (mainloop_remove_fd k fd w) = free_ml_data p (call_destroy k (md_destroy d) (md_user_data d)
        (snd (syscall k (Sys_Epoll_Ctl Ctl_Del (md_fd d) 0 None) (w\<lparr>mainloop_list := (mainloop_list w)[nat fd := None]\<rparr>))))"
      using 2 assms(3) by (simp add: mainloop_remove_fd_def Let_def syscall_def)
    with drop_entry [OF assms(1,2) i 2(1,2)] show ?thesis by simp
  qed
qed

lemma mainloop_remove_fd_ok: "destroy_calm k \<Longrightarrow> loop_ok w \<Longrightarrow> loop_ok (snd (mainloop_remove_fd k fd w))"
  using mainloop_remove_fd_dropped [of k w fd]
  by (cases "valid_fd fd \<and> mainloop_list w ! nat fd \<noteq> None") (auto simp: dropped_def mainloop_remove_fd_def)


section \<open>The end of the loop\<close>

lemma same_at_gone: "same_at w w' r \<Longrightarrow> gone w r \<Longrightarrow> gone w' r"
  by (cases r) (auto simp: gone_def)

lemma clear_all:
  assumes "destroy_calm k" and "loop_ok w" and "n \<le> MAX_MAINLOOP_ENTRIES"
  defines "v \<equiv> fold (clear_entry k) [0..<n] w"
  shows "loop_ok v \<and> (\<forall>i < MAX_MAINLOOP_ENTRIES. mainloop_list v ! i = (if i < n then None else mainloop_list w ! i)) \<and>
     epoll_fd v = epoll_fd w \<and> exit_status v = exit_status w \<and>
     (\<forall>r. (\<forall>i < n. r \<notin> owns w i) \<longrightarrow> same_at w v r) \<and> (\<forall>i < n. \<forall>r \<in> owns w i. gone v r)"
  using assms(3) unfolding v_def
proof (induction n)
  case 0
  with assms(2) show ?case by simp
next
  case (Suc n)
  let ?u = "fold (clear_entry k) [0..<n] w"
  have u: "loop_ok ?u" "\<And>i. i < MAX_MAINLOOP_ENTRIES \<Longrightarrow> mainloop_list ?u ! i = (if i < n then None else mainloop_list w ! i)"
      "\<And>r. (\<forall>i < n. r \<notin> owns w i) \<Longrightarrow> same_at w ?u r" "\<And>i r. i < n \<Longrightarrow> r \<in> owns w i \<Longrightarrow> gone ?u r"
      "epoll_fd ?u = epoll_fd w" "exit_status ?u = exit_status w"
    using Suc by simp_all
  have n: "n < MAX_MAINLOOP_ENTRIES" using Suc.prems by simp
  have "same_at w ?u r" if r: "r \<in> owns w n" for r
  proof (rule u(3))
    have "r \<notin> owns w i" if "i < n" for i
      using loop_okD(4) [OF assms(2) n, of i] that n r by auto
    then show "\<forall>i < n. r \<notin> owns w i" by blast
  qed
  then have o: "owns ?u n = owns w n"
    using slot_same(2) [OF loop_okD(3) [OF assms(2) n], of ?u] u(2) [OF n] by simp
  have d: "dropped n ?u (clear_entry k n ?u)" by (rule clear_entry_dropped [OF assms(1) u(1) n])
  have e: "fold (clear_entry k) [0..<Suc n] w = clear_entry k n ?u" by simp
  have "same_at w (clear_entry k n ?u) r" if "\<forall>i < Suc n. r \<notin> owns w i" for r
    using that u(3) [of r] d o same_at_trans unfolding dropped_def by (metis less_Suc_eq)
  moreover have "gone (clear_entry k n ?u) r" if "i < Suc n" "r \<in> owns w i" for i r
  proof (cases "i = n")
    case True
    with d o that show ?thesis by (simp add: dropped_def)
  next
    case False
    then have "r \<notin> owns ?u n" using loop_okD(4) [OF assms(2), of i n] that n o by auto
    with d have "same_at ?u (clear_entry k n ?u) r" by (simp add: dropped_def)
    with u(4) [of i r] False that same_at_gone show ?thesis by auto
  qed
  moreover have "mainloop_list (clear_entry k n ?u) ! i = (if i < Suc n then None else mainloop_list w ! i)"
    if "i < MAX_MAINLOOP_ENTRIES" for i
  proof (cases "i = n")
    case True
    with d loop_okD(1) [OF u(1)] n show ?thesis by (simp add: dropped_def)
  next
    case False
    with d u(2) [OF that] show ?thesis by (simp add: dropped_def)
  qed
  ultimately show ?case using d u(5,6) unfolding e by (simp add: dropped_def)
qed

lemma mainloop_finish_clears:
  assumes "destroy_calm k" and "loop_ok w" and "loop_signal w = None"
  shows "\<exists>w'. mainloop_finish k w = (exit_status w, w') \<and> mainloop_list w' = replicate MAX_MAINLOOP_ENTRIES None \<and>
     \<not> ml_fault w' \<and> epoll_fd w' = 0 \<and> last (sys_trace w') = Sys_Close (epoll_fd w) \<and>
     (\<forall>i < MAX_MAINLOOP_ENTRIES. \<forall>r \<in> owns w i. gone w' r) \<and>
     (\<forall>r. (\<forall>i < MAX_MAINLOOP_ENTRIES. r \<notin> owns w i) \<longrightarrow> same_at w w' r)"
proof -
  define v where "v = fold (clear_entry k) [0..<MAX_MAINLOOP_ENTRIES] w"
  note c = clear_all [OF assms(1,2) order_refl, folded v_def]
  define w' where "w' = (sys_close k (epoll_fd v) v)\<lparr>epoll_fd := 0\<rparr>"
  have s: "same_at v w' r" for r by (cases r) (simp_all add: w'_def sys_close_def syscall_def)
  have "mainloop_list v = replicate MAX_MAINLOOP_ENTRIES None"
    using c loop_okD(1) [of v] by (intro nth_equalityI) simp_all
  then have f: "mainloop_list w' = replicate MAX_MAINLOOP_ENTRIES None" "\<not> ml_fault w'" "epoll_fd w' = 0"
      "last (sys_trace w') = Sys_Close (epoll_fd w)" "exit_status w' = exit_status w"
    using c loop_okD(2) [of v] by (simp_all add: w'_def sys_close_def syscall_def)
  have "mainloop_finish k w = (exit_status w', w')"
    unfolding mainloop_finish_def end_signal_def assms(3) option.case v_def [symmetric] Let_def by (simp only: w'_def)
  moreover have "\<forall>i < MAX_MAINLOOP_ENTRIES. \<forall>r \<in> owns w i. gone w' r" using c s same_at_gone by blast
  moreover have "\<forall>r. (\<forall>i < MAX_MAINLOOP_ENTRIES. r \<notin> owns w i) \<longrightarrow> same_at w w' r" using c s same_at_trans by blast
  ultimately show ?thesis using f by metis
qed

section \<open>Termination\<close>

lemma mainloop_loop_ends:
  assumes "mainloop_loop k w = Some w'"
  shows "\<exists>n. epoll_terminate ((loop_step k ^^ n) w)"
  using assms
proof (rule mainloop_loop.raw_induct [rotated])
  fix f :: "('a, 'b, 'c) loop_kernel \<Rightarrow> ('a, 'b, 'c) loop_world_scheme \<Rightarrow> ('a, 'b, 'c) loop_world_scheme option" and k w w'
  assume 1: "\<And>k w w'. f k w = Some w' \<Longrightarrow> \<exists>n. epoll_terminate ((loop_step k ^^ n) w)"
    "(if epoll_terminate w then Some w else f k (loop_step k w)) = Some w'"
  show "\<exists>n. epoll_terminate ((loop_step k ^^ n) w)"
  proof (cases "epoll_terminate w")
    case False
    with 1 obtain n where "epoll_terminate ((loop_step k ^^ n) (loop_step k w))" by (metis (no_types, lifting))
    then show ?thesis by (intro exI [of _ "Suc n"]) (simp add: funpow_swap1)
  qed (auto intro: exI [of _ 0])
qed

interpretation main_steps: stepping_loop "loop_step k" epoll_terminate "mainloop_loop k" for k
  by unfold_locales (simp_all add: mainloop_loop.simps mainloop_loop_ends)

section \<open>The operations keep the table\<close>

lemma valid_fd_index: "valid_fd fd \<Longrightarrow> nat fd < MAX_MAINLOOP_ENTRIES \<and> int (nat fd) = fd"
  by (auto simp: valid_fd_def MAX_MAINLOOP_ENTRIES_def nat_less_iff)

lemma slot_res_eq:
  assumes "mainloop_list w' = mainloop_list w" "ml_datas w' = ml_datas w" "ml_timeouts w' = ml_timeouts w" "ios w' = ios w"
  shows "slot_res w' i = slot_res w i"
  unfolding slot_res_def assms data_res_eq [OF assms(3,4)] ..

lemma loop_ok_view:
  assumes "loop_ok w" and "\<And>i. slot_res w' i = slot_res w i" and "mainloop_list w' = mainloop_list w"
    and "ml_fault w' = ml_fault w" and "\<And>r. live w' r = live w r" and "ml_next w \<le> ml_next w'"
  shows "loop_ok w'"
proof -
  have "slot_ok w' i = slot_ok w i" "owns w' i = owns w i" for i
    by (simp_all only: slot_ok_def owns_def assms(2,5))
  with assms show ?thesis by (force simp: loop_ok_def)
qed

lemma calm_ok:
  assumes "calm w w'" and "loop_ok w"
  shows "loop_ok w'"
proof (rule loop_ok_view [OF assms(2) slot_res_eq])
  show "live w' r = live w r" for r using calm_same [OF assms(1)] same_at_live by blast
qed (use assms(1) in \<open>simp_all add: calm_def\<close>)

lemma loop_fields_ok:
  assumes "loop_ok w"
  shows "loop_ok (w\<lparr>sys_trace := t\<rparr>)" "ml_next w \<le> n \<Longrightarrow> loop_ok (w\<lparr>ml_next := n\<rparr>)" "loop_ok (w\<lparr>epoll_terminate := b\<rparr>)"
    "loop_ok (w\<lparr>exit_status := e\<rparr>)" "loop_ok (w\<lparr>epoll_fd := e\<rparr>)"
proof -
  have l: "live (w\<lparr>epoll_terminate := b\<rparr>) r = live w r" "live (w\<lparr>exit_status := e\<rparr>) r = live w r"
      "live (w\<lparr>epoll_fd := e\<rparr>) r = live w r" for r by (cases r; simp)+
  show "loop_ok (w\<lparr>sys_trace := t\<rparr>)" "ml_next w \<le> n \<Longrightarrow> loop_ok (w\<lparr>ml_next := n\<rparr>)" "loop_ok (w\<lparr>epoll_terminate := b\<rparr>)"
    "loop_ok (w\<lparr>exit_status := e\<rparr>)" "loop_ok (w\<lparr>epoll_fd := e\<rparr>)"
    by (rule loop_ok_view [OF assms slot_res_eq]; simp add: l)+
qed

lemma syscall_ok: "loop_ok w \<Longrightarrow> loop_ok (snd (syscall k c w))" "loop_ok w \<Longrightarrow> loop_ok (sys_close k fd w)"
  using calm_ok calm_syscall by blast+

lemma syscall_res [simp]:
  "slot_res (snd (syscall k c w)) i = slot_res w i" "data_res (snd (syscall k c w)) d = data_res w d"
  "live (snd (syscall k c w)) r = live w r" "ml_next (snd (syscall k c w)) = ml_next w" "owns (snd (syscall k c w)) i = owns w i"
  "mainloop_list (snd (syscall k c w)) = mainloop_list w" "ml_datas (snd (syscall k c w)) = ml_datas w"
proof -
  show s: "slot_res (snd (syscall k c w)) i = slot_res w i" by (rule slot_res_eq) (simp_all add: syscall_def)
  then show "owns (snd (syscall k c w)) i = owns w i" by (simp add: owns_def)
  show "data_res (snd (syscall k c w)) d = data_res w d" by (rule data_res_eq) (simp_all add: syscall_def)
qed (simp_all add: syscall_def)

text \<open>What is not owned is not in the way of a new entry.\<close>

lemma add_entry_ok:
  assumes w: "loop_ok w" and fd: "valid_fd fd" and R: "data_res w d = Some R" "\<forall>r \<in> R. live w r"
    and o: "\<And>i. i < MAX_MAINLOOP_ENTRIES \<Longrightarrow> owns w i \<inter> R = {}" and d: "md_fd d = fd" and p: "ml_next w \<le> p"
  shows "loop_ok (w\<lparr>ml_next := p + 1, ml_datas := (ml_datas w)(p \<mapsto> d), mainloop_list := (mainloop_list w)[nat fd := Some p]\<rparr>)"
    (is "loop_ok ?v")
proof (rule loop_ok_frame [OF w, of _ "nat fd"])
  have p_new: "\<not> live w (Res_Data p)" using loop_okD(5) [OF w, of "Res_Data p"] p by fastforce
  have "Res_Data p \<notin> R" using R(1) by (cases rule: data_res_cases) (auto elim: timer_res_cases)
  note i = valid_fd_index [OF fd]
  have own_live: "live w r" if "j < MAX_MAINLOOP_ENTRIES" "r \<in> owns w j" for j r
    using loop_okD(3) [OF w that(1)] that(2) by (cases rule: slot_res_cases) auto
  show same: "same_at w ?v r" if "j < MAX_MAINLOOP_ENTRIES" "j \<noteq> nat fd" "r \<in> owns w j" for j r
    using own_live [OF that(1,3)] p_new by (cases r) auto
  have "data_res ?v d = Some R" using R(1) data_res_eq [of ?v w] by simp
  then have s: "slot_res ?v (nat fd) = Some (insert (Res_Data p) R)"
    using i d loop_okD(1) [OF w] by (simp add: slot_res_def)
  have "live ?v r" if "r \<in> insert (Res_Data p) R" for r
    using that R(2) \<open>Res_Data p \<notin> R\<close> by (cases r) auto
  with s show "slot_ok ?v (nat fd)" by (simp add: slot_ok_def)
  show "owns ?v (nat fd) \<inter> owns w j = {}" if "j < MAX_MAINLOOP_ENTRIES" for j
  proof -
    have "owns ?v (nat fd) = insert (Res_Data p) R" using s by (simp only: owns_def option.case)
    moreover have "Res_Data p \<notin> owns w j" using own_live [OF that] p_new by blast
    ultimately show ?thesis using o [OF that] by auto
  qed
  show "res_addr r < ml_next ?v" if "live ?v r" for r
  proof (cases "r = Res_Data p")
    case False
    with that have "live w r" by (cases r) (auto split: if_splits)
    from loop_okD(5) [OF w this] p show ?thesis by simp
  qed simp
qed (use loop_okD(2) [OF w] in simp_all)

lemma mainloop_add_fd_ok:
  assumes w: "loop_ok w" and R: "data_res w \<lparr>md_fd = fd, md_events = ev, md_callback = cb, md_destroy = ds, md_user_data = ud\<rparr> = Some R"
    and l: "\<forall>r \<in> R. live w r" and o: "\<And>i. i < MAX_MAINLOOP_ENTRIES \<Longrightarrow> owns w i \<inter> R = {}"
  shows "loop_ok (snd (mainloop_add_fd k fd ev (Some cb) ud ds w))"
proof (cases "valid_fd fd")
  case False
  with w show ?thesis by (simp add: mainloop_add_fd_def)
next
  case True
  let ?d = "\<lparr>md_fd = fd, md_events = ev, md_callback = cb, md_destroy = ds, md_user_data = ud\<rparr>"
  define u where "u = snd (syscall k Sys_Malloc w)"
  define v where "v = snd (syscall k (Sys_Epoll_Ctl Ctl_Add fd ev (Some (ml_next u))) (u\<lparr>ml_next := ml_next u + 1\<rparr>))"
  have u: "loop_ok u" unfolding u_def by (rule syscall_ok(1) [OF w])
  then have v: "loop_ok v" unfolding v_def by (intro syscall_ok(1) loop_fields_ok(2)) simp_all
  have e: "v\<lparr>ml_datas := (ml_datas v)(ml_next u \<mapsto> ?d), mainloop_list := (mainloop_list v)[nat fd := Some (ml_next u)]\<rparr> =
      (u\<lparr>sys_trace := sys_trace v\<rparr>)\<lparr>ml_next := ml_next u + 1, ml_datas := (ml_datas u)(ml_next u \<mapsto> ?d),
        mainloop_list := (mainloop_list u)[nat fd := Some (ml_next u)]\<rparr>"
    by (simp add: v_def syscall_def)
  have "loop_ok \<dots>"
  proof -
    let ?s = "u\<lparr>sys_trace := sys_trace v\<rparr>"
    have "slot_res ?s i = slot_res w i" for i by (rule slot_res_eq) (simp_all add: u_def syscall_def)
    then have "owns ?s i = owns w i" for i by (simp add: owns_def)
    moreover have "data_res ?s ?d = data_res w ?d" by (rule data_res_eq) (simp_all add: u_def syscall_def)
    moreover have "live ?s r = live w r" for r by (simp add: u_def)
    ultimately show ?thesis
      using add_entry_ok [OF loop_fields_ok(1) [OF u], of fd "sys_trace v" ?d R "ml_next u"] True R l o by simp
  qed
  moreover have "snd (syscall k (Sys_Epoll_Ctl Ctl_Add fd ev (Some (ml_next u))) (u\<lparr>ml_next := Suc (ml_next u)\<rparr>)) = v"
    by (simp add: v_def)
  ultimately show ?thesis
    using True u v unfolding e [symmetric]
    by (auto simp: mainloop_add_fd_def Let_def case_prod_unfold u_def [symmetric])
qed


lemma owned_live:
  assumes "loop_ok w" and "i < MAX_MAINLOOP_ENTRIES" and "r \<in> owns w i"
  shows "live w r" "res_addr r < ml_next w"
proof -
  show "live w r" using loop_okD(3) [OF assms(1,2)] assms(3) by (cases rule: slot_res_cases) auto
  then show "res_addr r < ml_next w" by (rule loop_okD(5) [OF assms(1)])
qed

text \<open>The table after a step that leaves alone what it owns.\<close>

lemma loop_ok_same:
  assumes w: "loop_ok w" and l: "mainloop_list w' = mainloop_list w" "ml_fault w' = ml_fault w"
    and s: "\<And>i r. i < MAX_MAINLOOP_ENTRIES \<Longrightarrow> r \<in> owns w i \<Longrightarrow> same_at w w' r"
    and n: "\<And>r. live w' r \<Longrightarrow> res_addr r < ml_next w'"
  shows "loop_ok w'" and "i < MAX_MAINLOOP_ENTRIES \<Longrightarrow> owns w' i = owns w i"
proof -
  have e: "slot_ok w' i" "owns w' i = owns w i" if "i < MAX_MAINLOOP_ENTRIES" for i
    using slot_same [OF loop_okD(3) [OF w that], of w'] s [OF that] l by simp_all
  then show "i < MAX_MAINLOOP_ENTRIES \<Longrightarrow> owns w' i = owns w i" by blast
  show "loop_ok w'"
    using e loop_okD(1,2,4) [OF w] l n unfolding loop_ok_def by metis
qed

lemma modify_events_ok:
  assumes w: "loop_ok w" and d: "ml_datas w p = Some d"
  shows "loop_ok (w\<lparr>ml_datas := (ml_datas w)(p \<mapsto> d\<lparr>md_events := e\<rparr>)\<rparr>)" (is "loop_ok ?v")
proof (rule loop_ok_view [OF w])
  have r: "data_res ?v x = data_res w x" "data_res w (d\<lparr>md_events := e\<rparr>) = data_res w d" for x
    by (rule data_res_eq; simp)
      (cases "md_callback d"; cases "md_destroy d"; auto simp: data_res_def split: destroy_fn.split loop_ptr.split option.split)
  show "slot_res ?v i = slot_res w i" for i
    using d by (cases "mainloop_list w ! i") (auto simp: slot_res_def r split: option.split)
  show "live ?v r = live w r" for r using d by (cases r) auto
qed simp_all

lemma mainloop_modify_fd_ok: "loop_ok w \<Longrightarrow> loop_ok (snd (mainloop_modify_fd k fd ev w))"
proof -
  assume w: "loop_ok w"
  show ?thesis
  proof (cases "valid_fd fd")
    case False
    with w show ?thesis by (simp add: mainloop_modify_fd_def)
  next
    case True
    then have "nat fd < MAX_MAINLOOP_ENTRIES" using valid_fd_index by blast
    from loop_okD(3) [OF w this] show ?thesis
    proof (cases rule: slot_res_cases)
      case 1
      with True w show ?thesis by (simp add: mainloop_modify_fd_def)
    next
      case (2 p d R)
      let ?c = "Sys_Epoll_Ctl Ctl_Mod (md_fd d) ev (Some p)"
      have "loop_ok (snd (syscall k ?c w))" by (rule syscall_ok(1) [OF w])
      with modify_events_ok [OF this, of p d ev] True 2(1,2) show ?thesis
        by (simp add: mainloop_modify_fd_def case_prod_unfold)
    qed
  qed
qed

lemma upd_io_ok:
  assumes w: "loop_ok w" and p: "live w (Res_Io p)" and g: "\<And>io. io_fd (g io) = io_fd io"
  shows "loop_ok (upd_io p g w)" and "live (upd_io p g w) r = live w r"
    and "owns (upd_io p g w) i = owns w i" and "mainloop_list (upd_io p g w) = mainloop_list w"
proof -
  obtain io where io: "ios w p = Some io" using p by auto
  let ?v = "w\<lparr>ios := (ios w)(p \<mapsto> g io)\<rparr>"
  have e: "upd_io p g w = ?v" by (simp add: upd_io_def io)
  have r: "data_res ?v d = data_res w d" for d
  proof (cases "md_user_data d = Ptr_Io p")
    case True
    with io g show ?thesis
      by (cases "md_callback d"; cases "md_destroy d") (auto simp: data_res_def split: destroy_fn.split)
  next
    case False
    then show ?thesis
      by (cases "md_callback d"; cases "md_destroy d") (auto simp: data_res_def split: destroy_fn.split loop_ptr.split option.split)
  qed
  have s: "slot_res ?v i = slot_res w i" for i by (cases "mainloop_list w ! i") (auto simp: slot_res_def r split: option.split)
  show l: "live (upd_io p g w) r = live w r" for r using io unfolding e by (cases r) auto
  show "owns (upd_io p g w) i = owns w i" unfolding e by (simp add: owns_def s)
  show "mainloop_list (upd_io p g w) = mainloop_list w" unfolding e by simp
  show "loop_ok (upd_io p g w)"
    using loop_ok_view [OF w s] l unfolding e by simp
qed


text \<open>Freeing what no entry owns.\<close>

definition unowned :: "('f, 'u, 'z) loop_world_scheme \<Rightarrow> resource \<Rightarrow> bool" where
  "unowned w r \<longleftrightarrow> (\<forall>i < MAX_MAINLOOP_ENTRIES. r \<notin> owns w i)"

lemma unowned_addr: "loop_ok w \<Longrightarrow> ml_next w \<le> res_addr r \<Longrightarrow> unowned w r"
  using owned_live(2) by (fastforce simp: unowned_def)

lemma free_unowned_ok:
  assumes w: "loop_ok w" and u: "unowned w r" and l: "mainloop_list w' = mainloop_list w" "ml_fault w' = ml_fault w"
    and n: "ml_next w' = ml_next w" and s: "\<And>q. q \<noteq> r \<Longrightarrow> same_at w w' q" and d: "\<not> live w' r"
  shows "loop_ok w'" and "i < MAX_MAINLOOP_ENTRIES \<Longrightarrow> owns w' i = owns w i"
proof -
  have a: "same_at w w' q" if "i < MAX_MAINLOOP_ENTRIES" "q \<in> owns w i" for i q
    using s [of q] u that unfolding unowned_def by blast
  have b: "res_addr q < ml_next w'" if "live w' q" for q
    using that d s [of q] same_at_live loop_okD(5) [OF w] n by metis
  show "loop_ok w'" "i < MAX_MAINLOOP_ENTRIES \<Longrightarrow> owns w' i = owns w i"
    by (rule loop_ok_same [OF w l a b]; assumption)+
qed

lemma free_ml_timeout_ok:
  assumes "loop_ok w" and "unowned w (Res_Timeout p)" and "live w (Res_Timeout p)"
  shows "loop_ok (free_ml_timeout p w)" "i < MAX_MAINLOOP_ENTRIES \<Longrightarrow> owns (free_ml_timeout p w) i = owns w i"
proof -
  have e: "free_ml_timeout p w = w\<lparr>ml_timeouts := (ml_timeouts w)(p := None)\<rparr>" using assms(3) by (auto simp: free_ml_timeout_def)
  have "same_at w (w\<lparr>ml_timeouts := (ml_timeouts w)(p := None)\<rparr>) q" if "q \<noteq> Res_Timeout p" for q
    using that by (cases q) auto
  then show "loop_ok (free_ml_timeout p w)" "i < MAX_MAINLOOP_ENTRIES \<Longrightarrow> owns (free_ml_timeout p w) i = owns w i"
    unfolding e by (intro free_unowned_ok [OF assms(1,2)]; simp)+
qed

lemma free_timeout_data_ok:
  assumes "loop_ok w" and "unowned w (Res_Timer p)" and "live w (Res_Timer p)"
  shows "loop_ok (free_timeout_data p w)" "i < MAX_MAINLOOP_ENTRIES \<Longrightarrow> owns (free_timeout_data p w) i = owns w i"
proof -
  have e: "free_timeout_data p w = w\<lparr>timeout_datas := (timeout_datas w)(p := None)\<rparr>" using assms(3) by (auto simp: free_timeout_data_def)
  have "same_at w (w\<lparr>timeout_datas := (timeout_datas w)(p := None)\<rparr>) q" if "q \<noteq> Res_Timer p" for q
    using that by (cases q) auto
  then show "loop_ok (free_timeout_data p w)" "i < MAX_MAINLOOP_ENTRIES \<Longrightarrow> owns (free_timeout_data p w) i = owns w i"
    unfolding e by (intro free_unowned_ok [OF assms(1,2)]; simp)+
qed

lemma free_io_ok:
  assumes "loop_ok w" and "unowned w (Res_Io p)" and "live w (Res_Io p)"
  shows "loop_ok (free_io p w)"
proof -
  have e: "free_io p w = w\<lparr>ios := (ios w)(p := None)\<rparr>" using assms(3) by (auto simp: free_io_def)
  have "same_at w (w\<lparr>ios := (ios w)(p := None)\<rparr>) q" if "q \<noteq> Res_Io p" for q
    using that by (cases q) auto
  then show ?thesis unfolding e by (intro free_unowned_ok(1) [OF assms(1,2)]) simp_all
qed

text \<open>A structure allocated at a fresh address.\<close>

lemma fresh_ok:
  assumes w: "loop_ok w" and l: "mainloop_list w' = mainloop_list w" "ml_fault w' = ml_fault w"
    and n: "ml_next w' = ml_next w + 1" and s: "\<And>q. res_addr q \<noteq> ml_next w \<Longrightarrow> same_at w w' q"
  shows "loop_ok w'" and "i < MAX_MAINLOOP_ENTRIES \<Longrightarrow> owns w' i = owns w i"
proof -
  have a: "same_at w w' q" if "i < MAX_MAINLOOP_ENTRIES" "q \<in> owns w i" for i q
    using owned_live(2) [OF w that] by (intro s) simp
  have b: "res_addr q < ml_next w'" if "live w' q" for q
  proof (cases "res_addr q = ml_next w")
    case True
    with n show ?thesis by simp
  next
    case False
    then have "live w q" using s [OF False] that same_at_live by blast
    with loop_okD(5) [OF w] n show ?thesis by (simp add: less_Suc_eq)
  qed
  show "loop_ok w'" "i < MAX_MAINLOOP_ENTRIES \<Longrightarrow> owns w' i = owns w i"
    by (rule loop_ok_same [OF w l a b]; assumption)+
qed

lemma calm_owns: "calm w w' \<Longrightarrow> owns w' i = owns w i"
  using slot_res_eq [of w' w] by (simp add: calm_def owns_def)

text \<open>A refused registration changes nothing but the trace and the addresses used.\<close>

lemma mainloop_add_fd_fail:
  assumes "fst (mainloop_add_fd k fd ev cb ud ds w) < 0"
  shows "\<exists>t n. snd (mainloop_add_fd k fd ev cb ud ds w) = w\<lparr>sys_trace := t, ml_next := n\<rparr> \<and> ml_next w \<le> n"
proof -
  let ?r = "snd (mainloop_add_fd k fd ev cb ud ds w)"
  let ?m = "sys_trace w @ [Sys_Malloc]"
  have c: "?r = w \<or> ?r = w\<lparr>sys_trace := ?m\<rparr> \<or>
      ?r = w\<lparr>sys_trace := ?m @ [Sys_Epoll_Ctl Ctl_Add fd ev (Some (ml_next w))], ml_next := ml_next w + 1\<rparr>"
    using assms by (simp add: mainloop_add_fd_def Let_def syscall_def split: option.splits if_splits)
  have e: "w = w\<lparr>sys_trace := sys_trace w, ml_next := ml_next w\<rparr>"
      "w\<lparr>sys_trace := t\<rparr> = w\<lparr>sys_trace := t, ml_next := ml_next w\<rparr>" for t
    by simp_all
  from c show ?thesis
  proof (elim disjE)
    assume "?r = w"
    then have "?r = w\<lparr>sys_trace := sys_trace w, ml_next := ml_next w\<rparr>" using e(1) by (rule trans)
    then show ?thesis by blast
  next
    assume "?r = w\<lparr>sys_trace := ?m\<rparr>"
    then have "?r = w\<lparr>sys_trace := ?m, ml_next := ml_next w\<rparr>" using e(2) by (rule trans)
    then show ?thesis by blast
  qed (use le_add1 in blast)
qed


section \<open>Timeouts\<close>

lemma add_timeout_fail_ok:
  assumes "loop_ok w" and "unowned w (Res_Timeout p)" and "live w (Res_Timeout p)"
  shows "loop_ok (snd (add_timeout_fail k p fd w))"
    and "i < MAX_MAINLOOP_ENTRIES \<Longrightarrow> owns (snd (add_timeout_fail k p fd w)) i = owns w i"
    and "timeout_datas (snd (add_timeout_fail k p fd w)) = timeout_datas w"
proof -
  let ?u = "sys_close k fd w"
  have c: "calm w ?u" by simp
  have u: "loop_ok ?u" "unowned ?u (Res_Timeout p)" "live ?u (Res_Timeout p)"
    using calm_ok [OF c assms(1)] assms(2,3) calm_owns [OF c] c by (simp_all add: unowned_def calm_def)
  from free_ml_timeout_ok [OF this] calm_owns [OF c]
  show "loop_ok (snd (add_timeout_fail k p fd w))"
    "i < MAX_MAINLOOP_ENTRIES \<Longrightarrow> owns (snd (add_timeout_fail k p fd w)) i = owns w i"
    by (simp_all add: add_timeout_fail_def)
  show "timeout_datas (snd (add_timeout_fail k p fd w)) = timeout_datas w"
    by (simp add: add_timeout_fail_def free_ml_timeout_def fault_def sys_close_def syscall_def)
qed

lemma fst_add_fd_timers: "timeout_datas (snd (mainloop_add_fd k fd ev cb ud ds w)) = timeout_datas w"
  by (simp add: mainloop_add_fd_def syscall_def Let_def split: option.split)

text \<open>The step between the allocation of the structure and the registration.\<close>

lemma new_timeout_ok:
  assumes w: "loop_ok w" and m: "timer_res m = Some S" and S: "\<forall>r \<in> S. live w r \<and> unowned w r"
  defines "v \<equiv> w\<lparr>ml_next := ml_next w + 1, ml_timeouts := (ml_timeouts w)(ml_next w \<mapsto> m)\<rparr>"
  shows "loop_ok v" and "i < MAX_MAINLOOP_ENTRIES \<Longrightarrow> owns v i = owns w i" and "unowned v (Res_Timeout (ml_next w))"
    and "live v (Res_Timeout (ml_next w))" and "\<forall>r \<in> insert (Res_Timeout (ml_next w)) S. live v r \<and> unowned v r"
    and "timeout_datas v = timeout_datas w"
proof -
  have s: "same_at w v q" if "res_addr q \<noteq> ml_next w" for q using that by (cases q) (auto simp: v_def)
  have v: "loop_ok v" "\<And>i. i < MAX_MAINLOOP_ENTRIES \<Longrightarrow> owns v i = owns w i"
    by (rule fresh_ok [OF w _ _ _ s]; simp add: v_def)+
  show "loop_ok v" "i < MAX_MAINLOOP_ENTRIES \<Longrightarrow> owns v i = owns w i" by (rule v, assumption?)+
  show u: "unowned v (Res_Timeout (ml_next w))"
    using unowned_addr [OF w, of "Res_Timeout (ml_next w)"] v(2) by (simp add: unowned_def)
  show l: "live v (Res_Timeout (ml_next w))" by (simp add: v_def)
  have "live v r \<and> unowned v r" if "r \<in> S" for r
  proof -
    have "res_addr r < ml_next w" using S that loop_okD(5) [OF w] by blast
    then have "live v r = live w r" by (intro same_at_live s) simp
    with S that v(2) show ?thesis by (simp add: unowned_def)
  qed
  with u l show "\<forall>r \<in> insert (Res_Timeout (ml_next w)) S. live v r \<and> unowned v r" by blast
  show "timeout_datas v = timeout_datas w" by (simp add: v_def)
qed

lemma mainloop_add_timeout_ok:
  fixes w :: "('f, 'u, 'z) loop_world_scheme"
  assumes w: "loop_ok w" and m: "\<And>fd. timer_res \<lparr>mt_fd = fd, mt_callback = cb, mt_destroy = ds, mt_user_data = ud\<rparr> = Some S"
    and S: "\<forall>r \<in> S. live w r \<and> unowned w r"
    and r_def: "r = mainloop_add_timeout k msec (Some cb) ud ds w"
  shows "loop_ok (snd r) \<and> timeout_datas (snd r) = timeout_datas w \<and>
    (fst r < 0 \<longrightarrow> (\<forall>i < MAX_MAINLOOP_ENTRIES. owns (snd r) i = owns w i))"
proof -
  define u where "u = snd (syscall k Sys_Timerfd_Create (snd (syscall k Sys_Malloc w)))"
  define fd where "fd = fst (syscall k Sys_Timerfd_Create (snd (syscall k Sys_Malloc w)))"
  have cu: "calm w u" unfolding u_def by (rule calm_trans [OF calm_syscall(1) calm_syscall(1)])
  have u: "loop_ok u" "\<And>i. owns u i = owns w i" "timeout_datas u = timeout_datas w"
    using calm_ok [OF cu w] calm_owns [OF cu] cu by (simp_all add: calm_def)
  have Su: "\<forall>r \<in> S. live u r \<and> unowned u r"
    using S u(2) same_at_live [OF calm_same [OF cu]] by (simp add: unowned_def)
  define m where "m = \<lparr>mt_fd = fd, mt_callback = cb, mt_destroy = ds, mt_user_data = ud\<rparr>"
  define v where "v = u\<lparr>ml_next := ml_next u + 1, ml_timeouts := (ml_timeouts u)(ml_next u \<mapsto> m)\<rparr>"
  have ms: "timer_res m = Some S" unfolding m_def by (rule assms(2))
  note v = new_timeout_ok [OF u(1) ms Su, folded v_def]
  define x where "x = (if msec > 0 then snd (timeout_set k fd msec v) else v)"
  define armed where "armed = (if msec > 0 then fst (timeout_set k fd msec v) else 0)"
  have cx: "calm v x" by (simp add: x_def timeout_set_def case_prod_unfold)
  have x: "loop_ok x" "\<And>i. owns x i = owns v i" "timeout_datas x = timeout_datas w" "ml_timeouts x = ml_timeouts v" "ios x = ios v"
    using calm_ok [OF cx v(1)] calm_owns [OF cx] cx v(6) u(3) by (simp_all add: calm_def)
  have xl: "live x r = live v r" for r by (rule same_at_live [OF calm_same [OF cx]])
  define d :: "('f, 'u) mainloop_data" where "d = \<lparr>md_fd = fd, md_events = EPOLLIN OR EPOLLONESHOT, md_callback = Ml_Timeout_Callback,
      md_destroy = Some Ml_Timeout_Destroy, md_user_data = Ptr_Timeout (ml_next u)\<rparr>"
  have dr: "data_res x d = Some (insert (Res_Timeout (ml_next u)) S)"
    using ms by (simp add: data_res_def d_def x(4) v_def m_def)
  define a where "a = mainloop_add_fd k fd (EPOLLIN OR EPOLLONESHOT) (Some Ml_Timeout_Callback) (Ptr_Timeout (ml_next u))
      (Some Ml_Timeout_Destroy) x"
  have aok: "loop_ok (snd a)"
    unfolding a_def by (rule mainloop_add_fd_ok [OF x(1) dr [unfolded d_def]]) (use v(5) xl x(2) in \<open>auto simp: unowned_def\<close>)
  have at: "timeout_datas (snd a) = timeout_datas w" unfolding a_def fst_add_fd_timers by (rule x(3))
  have fx: "loop_ok (snd (add_timeout_fail k (ml_next u) fd x))"
      "\<And>i. i < MAX_MAINLOOP_ENTRIES \<Longrightarrow> owns (snd (add_timeout_fail k (ml_next u) fd x)) i = owns w i"
      "timeout_datas (snd (add_timeout_fail k (ml_next u) fd x)) = timeout_datas w"
    using add_timeout_fail_ok [OF x(1), of "ml_next u"] v(2,3,4) x(2-4) u(2) by (simp_all add: unowned_def)
  have fa: "loop_ok (snd (add_timeout_fail k (ml_next u) fd (snd a))) \<and>
      (\<forall>i < MAX_MAINLOOP_ENTRIES. owns (snd (add_timeout_fail k (ml_next u) fd (snd a))) i = owns w i) \<and>
      timeout_datas (snd (add_timeout_fail k (ml_next u) fd (snd a))) = timeout_datas w" if neg: "fst a < 0"
  proof -
    obtain t n where "snd a = x\<lparr>sys_trace := t, ml_next := n\<rparr>"
      using mainloop_add_fd_fail [OF neg [unfolded a_def]] unfolding a_def by blast
    moreover from this have "owns (snd a) i = owns x i" for i using slot_res_eq [of "snd a" x i] by (simp add: owns_def)
    ultimately show ?thesis
      using add_timeout_fail_ok [OF aok, of "ml_next u"] v(2,3,4) x(2,4) u(2) at by (simp add: unowned_def)
  qed
  have r: "r = (if fst (syscall k Sys_Malloc w) = 0 then (- ENOMEM, snd (syscall k Sys_Malloc w))
      else if fd < 0 then (- EIO, u)
      else if armed < 0 then add_timeout_fail k (ml_next u) fd x
      else if fst a < 0 then add_timeout_fail k (ml_next u) fd (snd a) else (fd, snd a))"
    unfolding r_def mainloop_add_timeout_def Let_def option.case case_prod_unfold a_def x_def armed_def v_def m_def u_def fd_def
    by (simp add: timeout_set_def case_prod_unfold)
  have "loop_ok (snd (syscall k Sys_Malloc w))" "owns (snd (syscall k Sys_Malloc w)) i = owns w i"
      "timeout_datas (snd (syscall k Sys_Malloc w)) = timeout_datas w" for i
    by (simp_all add: syscall_ok(1) [OF w]) (simp add: syscall_def)
  with u fx fa aok at show ?thesis unfolding r by auto
qed


lemma timeout_add_ok:
  assumes w: "loop_ok w"
  shows "loop_ok (snd (timeout_add k msec func ud ds w))"
proof -
  let ?p = "ml_next w"
  define d where "d = \<lparr>td_id = 0, td_func = func, td_destroy = ds, td_timeout = msec, td_user_data = ud\<rparr>"
  define v where "v = w\<lparr>ml_next := ?p + 1, timeout_datas := (timeout_datas w)(?p \<mapsto> d)\<rparr>"
  have s: "same_at w v q" if "res_addr q \<noteq> ?p" for q using that by (cases q) (auto simp: v_def)
  have v: "loop_ok v" "\<And>i. i < MAX_MAINLOOP_ENTRIES \<Longrightarrow> owns v i = owns w i"
    by (rule fresh_ok [OF w _ _ _ s]; simp add: v_def)+
  have n: "live v (Res_Timer ?p) \<and> unowned v (Res_Timer ?p)"
    using unowned_addr [OF w, of "Res_Timer ?p"] v(2) by (simp add: unowned_def) (simp add: v_def)
  define r where "r = mainloop_add_timeout k msec (Some Timeout_Callback) (Ptr_Timeout_Data ?p) (Some Timeout_Destroy) v"
  have m: "timer_res \<lparr>mt_fd = fd, mt_callback = Timeout_Callback, mt_destroy = Some Timeout_Destroy, mt_user_data = Ptr_Timeout_Data ?p\<rparr>
      = Some {Res_Timer ?p}" for fd by (simp add: timer_res_def)
  have S: "\<forall>q \<in> {Res_Timer ?p}. live v q \<and> unowned v q" using n by blast
  have r: "loop_ok (snd r)" "timeout_datas (snd r) = timeout_datas v"
      "fst r < 0 \<Longrightarrow> i < MAX_MAINLOOP_ENTRIES \<Longrightarrow> owns (snd r) i = owns v i" for i
    using mainloop_add_timeout_ok [OF v(1) m S r_def] by blast+
  have p: "timeout_datas (snd r) ?p = Some d" by (simp add: r(2) v_def)
  show ?thesis
  proof (cases "fst r < 0")
    case True
    have "unowned (snd r) (Res_Timer ?p)" using r(3) [OF True] n by (simp add: unowned_def)
    from free_timeout_data_ok(1) [OF r(1) this] p True show ?thesis
      by (simp add: timeout_add_def Let_def r_def d_def v_def case_prod_unfold)
  next
    case False
    let ?z = "(snd r)\<lparr>timeout_datas := (timeout_datas (snd r))(?p \<mapsto> d\<lparr>td_id := fst r\<rparr>)\<rparr>"
    have "loop_ok ?z"
    proof (rule loop_ok_view [OF r(1) slot_res_eq])
      show "live ?z q = live (snd r) q" for q using p by (cases q) auto
    qed simp_all
    with False show ?thesis
      by (simp add: timeout_add_def Let_def r_def d_def v_def case_prod_unfold)
  qed
qed

lemma timeout_remove_ok: "destroy_calm k \<Longrightarrow> loop_ok w \<Longrightarrow> loop_ok (timeout_remove k i w)"
  by (simp add: timeout_remove_def mainloop_remove_timeout_def mainloop_remove_fd_ok)

section \<open>IO objects\<close>

text \<open>An object without a descriptor is owned by no entry.\<close>

lemma io_owned_fd:
  assumes "loop_ok w" and "i < MAX_MAINLOOP_ENTRIES" and "Res_Io p \<in> owns w i"
  shows "\<exists>io. ios w p = Some io \<and> io_fd io = int i"
  using loop_okD(3) [OF assms(1,2)]
proof (cases rule: slot_res_cases)
  case 1
  with assms(3) show ?thesis by simp
next
  case (2 q d R)
  from 2(4) show ?thesis
    by (cases rule: data_res_cases) (use 2(3,5) assms(3) in \<open>auto elim!: timer_res_cases\<close>)
qed

lemma io_unowned:
  assumes "loop_ok w" and "ios w p = Some io" and "\<not> valid_fd (io_fd io) \<or> Res_Io p \<notin> owns w (nat (io_fd io))"
  shows "unowned w (Res_Io p)"
  unfolding unowned_def
proof (intro allI impI notI)
  fix i assume i: "i < MAX_MAINLOOP_ENTRIES" "Res_Io p \<in> owns w i"
  from io_owned_fd [OF assms(1) this] assms(2) have "io_fd io = int i" by simp
  with assms(3) i show False by (auto simp: valid_fd_def)
qed

lemma io_unref_ok:
  assumes "loop_ok w" and "live w (Res_Io p)" and "unowned w (Res_Io p)"
  shows "loop_ok (io_unref (Some p) w)"
proof -
  let ?v = "upd_io p (\<lambda>io. io\<lparr>io_ref_count := io_ref_count io - 1\<rparr>) w"
  have v: "loop_ok ?v" "live ?v (Res_Io p)" "unowned ?v (Res_Io p)"
    using upd_io_ok [OF assms(1,2), of "\<lambda>io. io\<lparr>io_ref_count := io_ref_count io - 1\<rparr>"] assms(2,3)
    by (simp_all add: unowned_def del: res_simps)
  from v(1) free_io_ok [OF v(1,3,2)] show ?thesis by (simp add: io_unref_def Let_def split: option.split)
qed

lemma io_new_ok:
  assumes w: "loop_ok w"
  shows "loop_ok (snd (io_new k fd w))"
proof (cases "fd < 0")
  case True
  with w show ?thesis by (simp add: io_new_def)
next
  case False
  let ?p = "ml_next w"
  define io :: "('a, 'b) io" where "io = \<lparr>io_ref_count = 0, io_fd = fd, io_events = 0, io_close_on_destroy = False,
      io_read_callback = None, io_read_destroy = None, io_read_data = None,
      io_write_callback = None, io_write_destroy = None, io_write_data = None,
      io_disconnect_callback = None, io_disconnect_destroy = None, io_disconnect_data = None\<rparr>"
  define v where "v = w\<lparr>ml_next := ?p + 1, ios := (ios w)(?p \<mapsto> io)\<rparr>"
  have s: "same_at w v q" if "res_addr q \<noteq> ?p" for q using that by (cases q) (auto simp: v_def)
  have v: "loop_ok v" "\<And>i. i < MAX_MAINLOOP_ENTRIES \<Longrightarrow> owns v i = owns w i"
    by (rule fresh_ok [OF w _ _ _ s]; simp add: v_def)+
  have n: "unowned v (Res_Io ?p)" "ios v ?p = Some io"
    using unowned_addr [OF w, of "Res_Io ?p"] v(2) by (simp add: unowned_def) (simp add: v_def)
  define r where "r = mainloop_add_fd k fd 0 (Some Io_Callback) (Ptr_Io ?p) (Some Io_Cleanup) v"
  define d :: "('a, 'b) mainloop_data" where "d = \<lparr>md_fd = fd, md_events = 0, md_callback = Io_Callback, md_destroy = Some Io_Cleanup, md_user_data = Ptr_Io ?p\<rparr>"
  have "data_res v d = Some {Res_Io ?p}" using n(2) by (simp add: data_res_def d_def io_def)
  then have r: "loop_ok (snd r)"
    unfolding r_def d_def by (rule mainloop_add_fd_ok [OF v(1)]) (use n in \<open>auto simp: unowned_def\<close>)
  have "ios (snd r) = ios v" by (simp add: r_def mainloop_add_fd_def syscall_def Let_def split: option.split)
  then have l: "live (snd r) (Res_Io ?p)" using n(2) by simp
  have e: "snd (io_new k fd w) = (if fst r < 0 then free_io ?p (snd r) else io_ref ?p (snd r))"
    using False by (simp add: io_new_def Let_def r_def v_def io_def case_prod_unfold)
  show ?thesis
  proof (cases "fst r < 0")
    case True
    then obtain t m where "snd r = v\<lparr>sys_trace := t, ml_next := m\<rparr>" using mainloop_add_fd_fail unfolding r_def by blast
    then have "owns (snd r) i = owns v i" for i using slot_res_eq [of "snd r" v i] by (simp add: owns_def)
    then have "unowned (snd r) (Res_Io ?p)" using n(1) by (simp add: unowned_def)
    from free_io_ok [OF r this l] True e show ?thesis by simp
  next
    case False
    with e upd_io_ok(1) [OF r l] show ?thesis by (simp add: io_ref_def)
  qed
qed

lemma io_object_destroy_ok:
  assumes "destroy_calm k" and w: "loop_ok w" and p: "live w (Res_Io p)"
  shows "loop_ok (io_destroy k (Some p) w)"
proof -
  let ?g = "\<lambda>io. io\<lparr>io_read_callback := None, io_write_callback := None, io_disconnect_callback := None\<rparr>"
  define v where "v = upd_io p ?g w"
  have v: "loop_ok v" "live v (Res_Io p)" using upd_io_ok(1,2) [OF w p, of ?g] p by (simp_all add: v_def del: res_simps)
  then obtain io where io: "ios v p = Some io" by auto
  define u where "u = snd (mainloop_remove_fd k (io_fd io) v)"
  have u: "loop_ok u" unfolding u_def by (rule mainloop_remove_fd_ok [OF assms(1) v(1)])
  have "live u (Res_Io p) \<and> unowned u (Res_Io p)"
  proof (cases "valid_fd (io_fd io) \<and> mainloop_list v ! nat (io_fd io) \<noteq> None")
    case False
    then have "u = v" by (auto simp: u_def mainloop_remove_fd_def)
    moreover have "Res_Io p \<notin> owns v (nat (io_fd io))" if "valid_fd (io_fd io)" using False that by simp
    ultimately show ?thesis using io_unowned [OF v(1) io] v(2) by auto
  next
    case True
    then have d: "dropped (nat (io_fd io)) v u" unfolding u_def by (intro mainloop_remove_fd_dropped [OF assms(1) v(1)]) simp_all
    show ?thesis
    proof (cases "Res_Io p \<in> owns v (nat (io_fd io))")
      case True
      with d have "gone u (Res_Io p)" by (simp add: dropped_def)
      then obtain io' where "ios u p = Some io'" "io_fd io' = - 1" by (auto simp: gone_def)
      with io_unowned [OF u this(1)] show ?thesis by (simp add: valid_fd_def)
    next
      case False
      then have "same_at v u (Res_Io p)" using d by (simp add: dropped_def del: res_simps)
      then have "ios u p = Some io" using io by simp
      moreover have "mainloop_list u ! nat (io_fd io) = None"
        using d True loop_okD(1) [OF v(1)] valid_fd_index by (simp add: dropped_def)
      ultimately show ?thesis using io_unowned [OF u, of p io] by simp
    qed
  qed
  with io_unref_ok [OF u] io show ?thesis by (simp add: io_destroy_def Let_def v_def [symmetric] u_def del: res_simps)
qed


lemma io_run_destroy_ok:
  assumes "destroy_calm k" and "loop_ok w" and "live w (Res_Io p)"
  shows "loop_ok (io_run_destroy k fn ud p w)" and "live (io_run_destroy k fn ud p w) r = live w r"
proof -
  have c: "calm w (io_run_destroy k fn ud p w)" using io_run_destroy_calm [OF assms(1)] assms(3) by auto
  show "loop_ok (io_run_destroy k fn ud p w)" by (rule calm_ok [OF c assms(2)])
  show "live (io_run_destroy k fn ud p w) r = live w r" by (rule same_at_live [OF calm_same [OF c]])
qed

lemma modify_fd_ios: "ml_fault w \<or> ios (snd (mainloop_modify_fd k fd ev w)) = ios w"
  by (simp add: mainloop_modify_fd_def syscall_def fault_def split: option.split)

lemma io_set_events_ok:
  assumes "loop_ok w" and "live w (Res_Io p)"
  shows "loop_ok (snd (io_set_events k p ev w))"
proof -
  obtain io where io: "ios w p = Some io" using assms(2) by auto
  let ?m = "snd (mainloop_modify_fd k (io_fd io) ev w)"
  have m: "loop_ok ?m" by (rule mainloop_modify_fd_ok [OF assms(1)])
  have "live ?m (Res_Io p)" using modify_fd_ios loop_okD(2) [OF assms(1)] io by (metis option.distinct(1) res_simps(8))
  from m upd_io_ok(1) [OF m this, of "\<lambda>io. io\<lparr>io_events := ev\<rparr>"] assms(1) io show ?thesis
    by (simp add: io_set_events_def case_prod_unfold)
qed

lemma set_handler_ok:
  assumes c: "destroy_calm k" and w: "loop_ok w" and p: "live w (Res_Io p)" and g: "\<And>io. io_fd (g io) = io_fd io"
  shows "loop_ok (snd (case io_field io_events p (io_run_destroy k fn ud p w) of None \<Rightarrow> (False, fault (io_run_destroy k fn ud p w))
     | Some ev \<Rightarrow> io_set_events k p (event_mask e cb ev) (upd_io p g (io_run_destroy k fn ud p w))))"
proof -
  let ?v = "io_run_destroy k fn ud p w"
  have v: "loop_ok ?v" "live ?v (Res_Io p)" using io_run_destroy_ok [OF c w p] p by blast+
  have "loop_ok (upd_io p g ?v)" "live (upd_io p g ?v) (Res_Io p)" using upd_io_ok(1,2) [OF v g] v(2) by blast+
  from io_set_events_ok [OF this] v(2) show ?thesis by (auto simp: io_field_def split: option.split)
qed

lemma io_set_handler_ok:
  assumes "destroy_calm k" and w: "loop_ok w" and "live w (Res_Io p)"
  shows "loop_ok (snd (io_set_read_handler k (Some p) cb ud ds w))" "loop_ok (snd (io_set_write_handler k (Some p) cb ud ds w))"
    "loop_ok (snd (io_set_disconnect_handler k (Some p) cb ud ds w))"
  using w unfolding io_set_read_handler_def io_set_write_handler_def io_set_disconnect_handler_def Let_def option.sel
  by (cases "io_usable (Some p) w"; simp add: set_handler_ok [OF assms])+

end
