(* ===== verification/Mainloop_Props.thy ===== *)
theory Mainloop_Props
  imports Mainloop_Inv
begin

text \<open>
  The event loop as its clients see it: any sequence of operations keeps the table, the loop
  returns and gives everything back once it is told to quit, a timeout that is added and removed
  leaves no trace, and where the batch of events of one wait goes wrong.
\<close>

section \<open>Sequences of operations\<close>

datatype ('f, 'u) loop_op =
    Op_Add_Fd int u32 'f "'u option" "'f option" | Op_Modify_Fd int u32 | Op_Remove_Fd int
  | Op_Timeout_Add u32 'f "'u option" "'f option" | Op_Timeout_Remove u32 | Op_Modify_Timeout int u32
  | Op_Io_New int | Op_Io_Destroy nat | Op_Io_Close nat bool | Op_Io_Read nat "'f option" "'u option" "'f option"
  | Op_Io_Write nat "'f option" "'u option" "'f option" | Op_Io_Disconnect nat "'f option" "'u option" "'f option"
  | Op_Io_Shutdown nat | Op_Quit

fun loop_do :: "('f, 'u, 'z) loop_kernel \<Rightarrow> ('f, 'u) loop_op \<Rightarrow> ('f, 'u, 'z) loop_world_scheme \<Rightarrow> ('f, 'u, 'z) loop_world_scheme" where
  "loop_do k (Op_Add_Fd fd ev f ud ds) w =
     snd (mainloop_add_fd k fd ev (Some (Event_Client f)) (Ptr_Client ud) (map_option Destroy_Client ds) w)"
| "loop_do k (Op_Modify_Fd fd ev) w = snd (mainloop_modify_fd k fd ev w)"
| "loop_do k (Op_Remove_Fd fd) w = snd (mainloop_remove_fd k fd w)"
| "loop_do k (Op_Timeout_Add msec f ud ds) w = snd (timeout_add k msec f ud ds w)"
| "loop_do k (Op_Timeout_Remove i) w = timeout_remove k i w"
| "loop_do k (Op_Modify_Timeout i msec) w = snd (mainloop_modify_timeout k i msec w)"
| "loop_do k (Op_Io_New fd) w = snd (io_new k fd w)"
| "loop_do k (Op_Io_Destroy p) w = io_destroy k (Some p) w"
| "loop_do k (Op_Io_Close p b) w = snd (io_set_close_on_destroy (Some p) b w)"
| "loop_do k (Op_Io_Read p cb ud ds) w = snd (io_set_read_handler k (Some p) cb ud ds w)"
| "loop_do k (Op_Io_Write p cb ud ds) w = snd (io_set_write_handler k (Some p) cb ud ds w)"
| "loop_do k (Op_Io_Disconnect p cb ud ds) w = snd (io_set_disconnect_handler k (Some p) cb ud ds w)"
| "loop_do k (Op_Io_Shutdown p) w = snd (io_shutdown k (Some p) w)"
| "loop_do k Op_Quit w = mainloop_quit w"

text \<open>Clients pass only pointers to IO objects that they have not destroyed.\<close>

definition op_valid :: "('f, 'u) loop_op \<Rightarrow> ('f, 'u, 'z) loop_world_scheme \<Rightarrow> bool" where
  "op_valid op w = (case op of Op_Io_Destroy p \<Rightarrow> live w (Res_Io p) | Op_Io_Close p _ \<Rightarrow> live w (Res_Io p)
     | Op_Io_Read p _ _ _ \<Rightarrow> live w (Res_Io p) | Op_Io_Write p _ _ _ \<Rightarrow> live w (Res_Io p)
     | Op_Io_Disconnect p _ _ _ \<Rightarrow> live w (Res_Io p) | _ \<Rightarrow> True)"

fun ops_valid :: "('f, 'u, 'z) loop_kernel \<Rightarrow> ('f, 'u) loop_op list \<Rightarrow> ('f, 'u, 'z) loop_world_scheme \<Rightarrow> bool" where
  "ops_valid k [] w = True"
| "ops_valid k (op # ops) w = (op_valid op w \<and> ops_valid k ops (loop_do k op w))"

lemma loop_do_ok:
  assumes "destroy_calm k" and w: "loop_ok w" and "op_valid op w"
  shows "loop_ok (loop_do k op w)"
proof (cases op)
  case (Op_Add_Fd fd ev f ud ds)
  have "data_res w \<lparr>md_fd = fd, md_events = ev, md_callback = Event_Client f, md_destroy = map_option Destroy_Client ds,
      md_user_data = Ptr_Client ud\<rparr> = Some {}" by (cases ds) (simp_all add: data_res_def)
  from mainloop_add_fd_ok [OF w this] Op_Add_Fd show ?thesis by simp
next
  case (Op_Modify_Timeout i msec)
  let ?u = "if 0 < msec then snd (timeout_set k i msec w) else w"
  have "loop_ok ?u" using w syscall_ok(1) [OF w] by (simp add: timeout_set_def case_prod_unfold)
  moreover from mainloop_modify_fd_ok [OF this] have "loop_ok (snd (mainloop_modify_fd k i (EPOLLIN OR EPOLLONESHOT) ?u))" .
  ultimately show ?thesis
    using Op_Modify_Timeout by (simp add: mainloop_modify_timeout_def Let_def case_prod_unfold split: if_splits)
next
  case (Op_Io_Close p b)
  with assms upd_io_ok(1) [OF w, of p "\<lambda>io. io\<lparr>io_close_on_destroy := b\<rparr>"] show ?thesis
    by (simp add: io_set_close_on_destroy_def op_valid_def del: res_simps)
next
  case (Op_Io_Shutdown p)
  with w syscall_ok(1) [OF w] show ?thesis by (simp add: io_shutdown_def case_prod_unfold)
next
  case Op_Quit
  with loop_fields_ok(3) [OF w] show ?thesis by (simp add: mainloop_quit_def)
qed (use assms in \<open>simp_all add: op_valid_def mainloop_modify_fd_ok mainloop_remove_fd_ok timeout_add_ok timeout_remove_ok
      io_new_ok io_object_destroy_ok io_set_handler_ok del: res_simps\<close>)

lemma loop_run_ok:
  "destroy_calm k \<Longrightarrow> loop_ok w \<Longrightarrow> ops_valid k ops w \<Longrightarrow> loop_ok (fold (loop_do k) ops w)"
  by (induction ops arbitrary: w) (simp_all add: loop_do_ok)

text \<open>A process before its first loop: the static variables, and what has been allocated so far.\<close>

definition loop_blank :: "('f, 'u, 'z) loop_world_scheme \<Rightarrow> bool" where
  "loop_blank w \<longleftrightarrow> \<not> ml_fault w \<and> loop_signal w = None \<and> (\<forall>r. live w r \<longrightarrow> res_addr r < ml_next w)"

lemma mainloop_init_ok:
  assumes "loop_blank w"
  shows "loop_ok (mainloop_init k w)"
proof -
  let ?v = "mainloop_init k w"
  have "mainloop_list ?v ! i = None" if "i < MAX_MAINLOOP_ENTRIES" for i
    using that by (simp add: mainloop_init_def syscall_def)
  moreover have "live ?v r = live w r" for r by (cases r) (simp_all add: mainloop_init_def syscall_def)
  moreover have "ml_next ?v = ml_next w" "length (mainloop_list ?v) = MAX_MAINLOOP_ENTRIES" "ml_fault ?v = ml_fault w"
    by (simp_all add: mainloop_init_def syscall_def)
  ultimately show ?thesis using assms by (simp add: loop_ok_def loop_blank_def)
qed

definition sample_loop_kernel :: "(nat, nat, unit) loop_kernel" where
  "sample_loop_kernel = \<lparr>k_answer = (\<lambda>t c. case c of Sys_Malloc \<Rightarrow> 1 | Sys_Timerfd_Create \<Rightarrow> 7 | Sys_Epoll_Create \<Rightarrow> 3 | _ \<Rightarrow> 0),
     k_wait = (\<lambda>t. Some [(0, EPOLLIN)]), k_signo = (\<lambda>t. 0), c_event = (\<lambda>f fd ev ud. mainloop_quit), c_signal = (\<lambda>f s ud w. w),
     c_timeout = (\<lambda>f i ud w. w), c_destroy = (\<lambda>f ud w. w), c_func = (\<lambda>f ud w. (False, w)), c_io = (\<lambda>f p ud w. (True, w))\<rparr>"

definition sample_loop :: "(nat, nat) loop_world" where
  "sample_loop = \<lparr>epoll_fd = 0, epoll_terminate = False, exit_status = 0, mainloop_list = [], loop_signal = None,
     ml_datas = (\<lambda>p. None), ml_timeouts = (\<lambda>p. None), timeout_datas = (\<lambda>p. None), ios = (\<lambda>p. None), ml_next = 0,
     ml_fault = False, sys_trace = []\<rparr>"

lemma sample_loop_ok: "destroy_calm sample_loop_kernel" "loop_blank sample_loop" "loop_ok (mainloop_init k sample_loop)"
proof -
  show "destroy_calm sample_loop_kernel" by (simp add: destroy_calm_def sample_loop_kernel_def)
  have "\<not> live sample_loop r" for r by (cases r) (simp_all add: sample_loop_def)
  then show b: "loop_blank sample_loop" by (simp add: loop_blank_def) (simp add: sample_loop_def)
  from mainloop_init_ok [OF b] show "loop_ok (mainloop_init k sample_loop)" .
qed

text \<open>
  Claim C33. Whatever its clients ask of the event loop after \<^verbatim>\<open>mainloop_init\<close>, and whatever the kernel
  answers, the table stays in order: 128 slots, each either empty or with an entry for its own
  descriptor whose structures are all allocated, no structure shared between two entries, and
  nothing freed twice or used after it was freed. The clients pass only IO objects they have not
  destroyed, and their destroy functions do not call the loop.
\<close>

theorem loop_table_invariant:
  assumes "destroy_calm k" and "loop_blank w" and "ops_valid k ops (mainloop_init k w)"
  shows "loop_ok (fold (loop_do k) ops (mainloop_init k w))"
  by (rule loop_run_ok [OF assms(1) mainloop_init_ok [OF assms(2)] assms(3)])

theorem loop_table_invariant_witness:
  "loop_ok (fold (loop_do sample_loop_kernel)
     [Op_Timeout_Add 30000 1 None None, Op_Io_New 9, Op_Timeout_Remove 7, Op_Quit] (mainloop_init sample_loop_kernel sample_loop))"
  by (rule loop_table_invariant [OF sample_loop_ok(1,2)]) (simp add: op_valid_def)

section \<open>Running\<close>

text \<open>
  Claim C34. The loop returns exactly when some iteration leaves the flag set that \<^verbatim>\<open>mainloop_quit\<close> sets; in
  particular it never returns once \<^verbatim>\<open>epoll_wait\<close> always fails, as it does without a valid epoll
  descriptor, which \<^verbatim>\<open>mainloop_init\<close> does not check.
\<close>

theorem mainloop_run_returns_iff:
  assumes "loop_signal w = None"
  shows "(mainloop_run k w \<noteq> None \<longleftrightarrow> (\<exists>n. epoll_terminate ((loop_step k ^^ n) w))) \<and>
    ((\<forall>t. k_wait k t = None) \<and> \<not> epoll_terminate w \<longrightarrow> mainloop_run k w = None)"
proof -
  have r: "mainloop_run k w = map_option (mainloop_finish k) (mainloop_loop k w)"
    using assms by (simp add: mainloop_run_def start_signal_def)
  then have "mainloop_run k w \<noteq> None \<longleftrightarrow> (\<exists>n. epoll_terminate ((loop_step k ^^ n) w))"
    using main_steps.returns_iff [of k w] by simp
  moreover have "\<not> epoll_terminate ((loop_step k ^^ n) w)" if "\<forall>t. k_wait k t = None" "\<not> epoll_terminate w" for n
    using that by (induction n) (simp_all add: loop_step_def Let_def)
  ultimately show ?thesis by blast
qed

theorem mainloop_run_returns_iff_witness:
  "mainloop_run (sample_loop_kernel\<lparr>k_wait := \<lambda>t. None\<rparr>) sample_loop = None"
  using mainloop_run_returns_iff [of sample_loop "sample_loop_kernel\<lparr>k_wait := \<lambda>t. None\<rparr>"]
  by (simp add: sample_loop_def)



section \<open>Timeouts\<close>

text \<open>
  Claim C36. The expiry of a timeout is exact: for every number of milliseconds the arithmetic in 32 bits does
  not wrap, the nanoseconds are below a second, and seconds and nanoseconds add up to it.
\<close>

theorem timeout_spec_exact:
  "unat (snd (timeout_spec msec)) < 1000000000 \<and>
   unat (fst (timeout_spec msec)) * 1000000000 + unat (snd (timeout_spec msec)) = unat msec * 1000000"
proof -
  let ?m = "unat msec"
  have lt: "?m < 4294967296" using unsigned_less [of msec] by simp
  have s: "unat (msec div 1000) = ?m div 1000" by (simp add: unat_div)
  then have m: "unat (msec div 1000 * 1000) = ?m div 1000 * 1000"
    using lt by (simp add: unat_word_ariths)
  define x where "x = msec - msec div 1000 * 1000"
  have d: "unat x = ?m mod 1000" by (simp add: x_def minus_div_mult_eq_mod unat_mod)
  have r: "?m mod 1000 < 1000" by simp
  have n: "unat (x * 1000 * 1000) = ?m mod 1000 * 1000000"
    using r by (simp add: unat_word_ariths d)
  have "?m mod 1000 * 1000000 < 1000000000 \<and> ?m div 1000 * 1000000000 + ?m mod 1000 * 1000000 = ?m * 1000000"
    using r div_mult_mod_eq [of ?m 1000] by linarith
  then show ?thesis by (simp only: timeout_spec_def Let_def x_def [symmetric] fst_conv snd_conv s n)
qed


text \<open>What adding a timeout does when it succeeds, and that it leaves nothing behind when it does not.\<close>

lemma mainloop_add_fd_success:
  assumes "\<not> fst (mainloop_add_fd k fd ev (Some cb) ud ds w) < 0"
  shows "valid_fd fd \<and> (\<exists>t. mainloop_add_fd k fd ev (Some cb) ud ds w = (0, w\<lparr>sys_trace := t, ml_next := ml_next w + 1,
      ml_datas := (ml_datas w)(ml_next w \<mapsto> \<lparr>md_fd = fd, md_events = ev, md_callback = cb, md_destroy = ds, md_user_data = ud\<rparr>),
      mainloop_list := (mainloop_list w)[nat fd := Some (ml_next w)]\<rparr>))"
proof -
  let ?m = "sys_trace w @ [Sys_Malloc]"
  have a: "valid_fd fd" "k_answer k (sys_trace w) Sys_Malloc \<noteq> 0"
      "\<not> k_answer k ?m (Sys_Epoll_Ctl Ctl_Add fd ev (Some (ml_next w))) < 0"
    using assms by (auto simp: mainloop_add_fd_def Let_def syscall_def split: if_splits)
  show ?thesis
  proof (intro conjI exI)
    show "valid_fd fd" by (rule a(1))
    show "mainloop_add_fd k fd ev (Some cb) ud ds w = (0, w\<lparr>sys_trace := ?m @ [Sys_Epoll_Ctl Ctl_Add fd ev (Some (ml_next w))],
        ml_next := ml_next w + 1, ml_datas := (ml_datas w)(ml_next w \<mapsto>
          \<lparr>md_fd = fd, md_events = ev, md_callback = cb, md_destroy = ds, md_user_data = ud\<rparr>),
        mainloop_list := (mainloop_list w)[nat fd := Some (ml_next w)]\<rparr>)"
      using a by (simp add: mainloop_add_fd_def Let_def syscall_def)
  qed
qed

text \<open>The structure is gone again and the descriptor closed.\<close>

lemma add_timeout_fail_frees:
  assumes "ml_timeouts v p = Some m" and "ml_timeouts w p = None" and "v = w\<lparr>sys_trace := t, ml_next := n, ml_timeouts := (ml_timeouts w)(p \<mapsto> m)\<rparr>"
  shows "add_timeout_fail k p fd v = (- EIO, w\<lparr>sys_trace := t @ [Sys_Close fd], ml_next := n\<rparr>)"
proof -
  have "((ml_timeouts w)(p \<mapsto> m))(p := None) = ml_timeouts w" using assms(2) by auto
  then show ?thesis
    using assms(1) unfolding assms(3) by (cases w) (simp add: add_timeout_fail_def sys_close_def syscall_def free_ml_timeout_def)
qed

lemma timeout_add_cases:
  fixes w :: "('f, 'u, 'z) loop_world_scheme"
  assumes w: "loop_ok w"
  defines "p \<equiv> ml_next w"
  shows "(\<exists>fd t d m e. valid_fd fd \<and> timeout_add k msec func ud ds w = (word_of_int fd, w\<lparr>sys_trace := t, ml_next := p + 3,
      timeout_datas := (timeout_datas w)(p \<mapsto> d), ml_timeouts := (ml_timeouts w)(p + 1 \<mapsto> m), ml_datas := (ml_datas w)(p + 2 \<mapsto> e),
      mainloop_list := (mainloop_list w)[nat fd := Some (p + 2)]\<rparr>) \<and> md_fd e = fd \<and> mt_fd m = fd \<and>
      md_callback e = Ml_Timeout_Callback \<and> md_destroy e = Some Ml_Timeout_Destroy \<and> md_user_data e = Ptr_Timeout (p + 1) \<and>
      timer_res m = Some {Res_Timer p}) \<or>
    (\<exists>t n. p \<le> n \<and> timeout_add k msec func ud ds w = (0, w\<lparr>sys_trace := t, ml_next := n\<rparr>))"
proof -
  define d where "d = \<lparr>td_id = 0, td_func = func, td_destroy = ds, td_timeout = msec, td_user_data = ud\<rparr>"
  define v where "v = w\<lparr>ml_next := p + 1, timeout_datas := (timeout_datas w)(p \<mapsto> d)\<rparr>"
  define r where "r = mainloop_add_timeout k msec (Some Timeout_Callback) (Ptr_Timeout_Data p) (Some Timeout_Destroy) v"
  have fresh: "timeout_datas w p = None" "ml_timeouts w (p + 1) = None"
    using loop_okD(5) [OF w, of "Res_Timer p"] loop_okD(5) [OF w, of "Res_Timeout (p + 1)"] by (fastforce simp: p_def)+
  have a: "timeout_add k msec func ud ds w = (if fst r < 0 then (0, free_timeout_data p (snd r))
      else (word_of_int (fst r), (snd r)\<lparr>timeout_datas := (timeout_datas (snd r))(p \<mapsto> d\<lparr>td_id := fst r\<rparr>)\<rparr>))"
    unfolding r_def d_def v_def timeout_add_def Let_def p_def by (simp add: case_prod_unfold)
  define t1 where "t1 = sys_trace w @ [Sys_Malloc]"
  define fd where "fd = k_answer k t1 Sys_Timerfd_Create"
  define m :: "('f, 'u) ml_timeout" where "m = \<lparr>mt_fd = fd, mt_callback = Timeout_Callback, mt_destroy = Some Timeout_Destroy, mt_user_data = Ptr_Timeout_Data p\<rparr>"
  define c where "c = Sys_Timerfd_Settime fd (fst (timeout_spec msec)) (snd (timeout_spec msec))"
  define t2 where "t2 = t1 @ [Sys_Timerfd_Create] @ (if msec > 0 then [c] else [])"
  define y where "y = v\<lparr>sys_trace := t1 @ [Sys_Timerfd_Create], ml_next := p + 2, ml_timeouts := (ml_timeouts w)(p + 1 \<mapsto> m)\<rparr>"
  define x where "x = (if msec > 0 then y\<lparr>sys_trace := t2\<rparr> else y)"
  define b where "b = mainloop_add_fd k fd (EPOLLIN OR EPOLLONESHOT) (Some Ml_Timeout_Callback) (Ptr_Timeout (p + 1)) (Some Ml_Timeout_Destroy) x"
  have rc: "r = (if k_answer k (sys_trace w) Sys_Malloc = 0 then (- ENOMEM, v\<lparr>sys_trace := t1\<rparr>)
      else if fd < 0 then (- EIO, v\<lparr>sys_trace := t1 @ [Sys_Timerfd_Create]\<rparr>)
      else if msec > 0 \<and> k_answer k (t1 @ [Sys_Timerfd_Create]) c < 0 then add_timeout_fail k (p + 1) fd x
      else if fst b < 0 then add_timeout_fail k (p + 1) fd (snd b) else (fd, snd b))"
    by (simp add: r_def mainloop_add_timeout_def Let_def syscall_def timeout_set_def case_prod_unfold v_def x_def y_def b_def t2_def t1_def
        fd_def c_def m_def)
  have y: "y = v\<lparr>sys_trace := t1 @ [Sys_Timerfd_Create], ml_next := p + 2, ml_timeouts := (ml_timeouts v)(p + 1 \<mapsto> m)\<rparr>"
    by (simp add: y_def v_def)
  have x: "x = v\<lparr>sys_trace := t2, ml_next := p + 2, ml_timeouts := (ml_timeouts v)(p + 1 \<mapsto> m)\<rparr>"
    by (cases v) (simp add: x_def y t2_def)
  have mv: "ml_timeouts v (p + 1) = None" using fresh(2) by (simp add: v_def)
  have freed: "free_timeout_data p (v\<lparr>sys_trace := t, ml_next := n\<rparr>) = w\<lparr>sys_trace := t, ml_next := n\<rparr>" for t n
  proof -
    have "((timeout_datas w)(p \<mapsto> d))(p := None) = timeout_datas w" using fresh(1) by auto
    then show ?thesis by (cases w) (simp add: free_timeout_data_def v_def)
  qed
  consider (failed) "\<exists>t n. p \<le> n \<and> fst r < 0 \<and> snd r = v\<lparr>sys_trace := t, ml_next := n\<rparr>" | (ok) "r = (fd, snd b)" "\<not> fst b < 0"
  proof -
    have e: "v\<lparr>sys_trace := t\<rparr> = v\<lparr>sys_trace := t, ml_next := p + 1\<rparr>" for t by (simp add: v_def)
    have f: "add_timeout_fail k (p + 1) fd x = (- EIO, v\<lparr>sys_trace := t2 @ [Sys_Close fd], ml_next := p + 2\<rparr>)"
      by (rule add_timeout_fail_frees [OF _ mv x]) (simp add: x)
    have g: "\<exists>t n. p \<le> n \<and> add_timeout_fail k (p + 1) fd (snd b) = (- EIO, v\<lparr>sys_trace := t, ml_next := n\<rparr>)" if neg: "fst b < 0"
    proof -
      obtain t n where b: "snd b = x\<lparr>sys_trace := t, ml_next := n\<rparr>" "ml_next x \<le> n"
        using mainloop_add_fd_fail [OF neg [unfolded b_def]] unfolding b_def by blast
      have "snd b = v\<lparr>sys_trace := t, ml_next := n, ml_timeouts := (ml_timeouts v)(p + 1 \<mapsto> m)\<rparr>"
        unfolding b(1) x by (cases v) simp
      from add_timeout_fail_frees [OF _ mv this, where k = k and fd = fd]
      have "add_timeout_fail k (p + 1) fd (snd b) = (- EIO, v\<lparr>sys_trace := t @ [Sys_Close fd], ml_next := n\<rparr>)"
        by (simp add: b(1) x)
      moreover have "p \<le> n" using b(2) by (simp add: x)
      ultimately show ?thesis by blast
    qed
    have neg: thesis if "r = (c, v\<lparr>sys_trace := t, ml_next := n\<rparr>)" "c < 0" "p \<le> n" for c t n
      using that failed by fastforce
    have "r = (- ENOMEM, v\<lparr>sys_trace := t1\<rparr>) \<or> r = (- EIO, v\<lparr>sys_trace := t1 @ [Sys_Timerfd_Create]\<rparr>) \<or>
        r = add_timeout_fail k (p + 1) fd x \<or> fst b < 0 \<and> r = add_timeout_fail k (p + 1) fd (snd b) \<or> \<not> fst b < 0 \<and> r = (fd, snd b)"
      using rc by presburger
    then show ?thesis
    proof (elim disjE conjE)
      assume "r = (- ENOMEM, v\<lparr>sys_trace := t1\<rparr>)"
      then have "r = (- ENOMEM, v\<lparr>sys_trace := t1, ml_next := p + 1\<rparr>)" by (subst e [symmetric])
      then show ?thesis by (rule neg) simp_all
    next
      assume "r = (- EIO, v\<lparr>sys_trace := t1 @ [Sys_Timerfd_Create]\<rparr>)"
      then have "r = (- EIO, v\<lparr>sys_trace := t1 @ [Sys_Timerfd_Create], ml_next := p + 1\<rparr>)" by (subst e [symmetric])
      then show ?thesis by (rule neg) simp_all
    next
      assume "r = add_timeout_fail k (p + 1) fd x"
      from trans [OF this f] show ?thesis by (rule neg) simp_all
    next
      assume b: "fst b < 0" and r: "r = add_timeout_fail k (p + 1) fd (snd b)"
      from g [OF b] obtain t n where tn: "p \<le> n" "r = (- EIO, v\<lparr>sys_trace := t, ml_next := n\<rparr>)" using r by auto
      show ?thesis by (rule neg [OF tn(2) _ tn(1)]) simp
    qed (rule ok)
  qed
  then show ?thesis
  proof cases
    case failed
    then obtain t n where "p \<le> n" "fst r < 0" "snd r = v\<lparr>sys_trace := t, ml_next := n\<rparr>" by blast
    with a freed [where t = t and n = n] show ?thesis by auto
  next
    case ok
    define e where "e = \<lparr>md_fd = fd, md_events = EPOLLIN OR EPOLLONESHOT, md_callback = (Ml_Timeout_Callback :: 'f event_fn),
        md_destroy = Some (Ml_Timeout_Destroy :: 'f destroy_fn), md_user_data = (Ptr_Timeout (p + 1) :: 'u loop_ptr)\<rparr>"
    obtain t where b: "valid_fd fd" "b = (0, x\<lparr>sys_trace := t, ml_next := ml_next x + 1, ml_datas := (ml_datas x)(ml_next x \<mapsto> e),
        mainloop_list := (mainloop_list x)[nat fd := Some (ml_next x)]\<rparr>)"
      using mainloop_add_fd_success [OF ok(2) [unfolded b_def]] unfolding b_def [symmetric] e_def by blast
    have "\<not> fst r < 0" using ok(1) b(1) by (simp add: valid_fd_def)
    moreover have "(snd r)\<lparr>timeout_datas := (timeout_datas (snd r))(p \<mapsto> d\<lparr>td_id := fst r\<rparr>)\<rparr> = w\<lparr>sys_trace := t, ml_next := p + 3,
        timeout_datas := (timeout_datas w)(p \<mapsto> d\<lparr>td_id := fd\<rparr>), ml_timeouts := (ml_timeouts w)(p + 1 \<mapsto> m), ml_datas := (ml_datas w)(p + 2 \<mapsto> e),
        mainloop_list := (mainloop_list w)[nat fd := Some (p + 2)]\<rparr>"
      unfolding ok(1) b(2) x v_def by (cases w) simp
    moreover have "timer_res m = Some {Res_Timer p}" by (simp add: timer_res_def m_def)
    ultimately have "valid_fd fd \<and> timeout_add k msec func ud ds w = (word_of_int fd, w\<lparr>sys_trace := t, ml_next := p + 3,
        timeout_datas := (timeout_datas w)(p \<mapsto> d\<lparr>td_id := fd\<rparr>), ml_timeouts := (ml_timeouts w)(p + 1 \<mapsto> m), ml_datas := (ml_datas w)(p + 2 \<mapsto> e),
        mainloop_list := (mainloop_list w)[nat fd := Some (p + 2)]\<rparr>) \<and> md_fd e = fd \<and> mt_fd m = fd \<and>
        md_callback e = Ml_Timeout_Callback \<and> md_destroy e = Some Ml_Timeout_Destroy \<and> md_user_data e = Ptr_Timeout (p + 1) \<and>
        timer_res m = Some {Res_Timer p}"
      unfolding a using b(1) ok(1) by (simp add: e_def m_def)
    then show ?thesis by blast
  qed
qed

text \<open>The slot of a timeout that was added is removed with its three structures and nothing else.\<close>

lemma added_slot_removed:
  assumes calm: "destroy_calm k" and w: "loop_ok w" and w1: "loop_ok w1" and fd: "valid_fd fd" and p: "p = ml_next w"
    and i: "w1 = w\<lparr>sys_trace := t, ml_next := p + 3, timeout_datas := (timeout_datas w)(p \<mapsto> d), ml_timeouts := (ml_timeouts w)(p + 1 \<mapsto> m),
        ml_datas := (ml_datas w)(p + 2 \<mapsto> e), mainloop_list := (mainloop_list w)[nat fd := Some (p + 2)]\<rparr>"
    and e: "md_fd e = fd" "mt_fd m = fd" "md_callback e = Ml_Timeout_Callback" "md_destroy e = Some Ml_Timeout_Destroy"
      "md_user_data e = Ptr_Timeout (p + 1)" "timer_res m = Some {Res_Timer p}"
    and w2: "w2 = snd (mainloop_remove_fd k fd w1)"
  shows "mainloop_list w1 ! nat fd = Some (p + 2) \<and> mainloop_list w2 = (mainloop_list w)[nat fd := None] \<and>
    (\<forall>q. live w2 q = live w q) \<and> (\<forall>q. live w q \<longrightarrow> same_at w w2 q)"
proof -
  have n: "nat fd < 128" "int (nat fd) = fd" using valid_fd_index [OF fd] by (simp_all add: MAX_MAINLOOP_ENTRIES_def)
  have l: "length (mainloop_list w) = 128" using loop_okD(1) [OF w] by (simp add: MAX_MAINLOOP_ENTRIES_def)
  have slot: "mainloop_list w1 ! nat fd = Some (p + 2)" using n l by (simp add: i)
  let ?R = "{Res_Data (p + 2), Res_Timeout (p + 1), Res_Timer p}"
  have own: "owns w1 (nat fd) = ?R" using n l e by (auto simp: owns_def slot_res_def data_res_def i)
  have d: "dropped (nat fd) w1 w2"
    unfolding w2 by (rule mainloop_remove_fd_dropped [OF calm w1 fd]) (simp add: slot)
  have s1: "same_at w w1 q" if "q \<notin> ?R" for q using that by (cases q) (auto simp: i)
  have s: "same_at w w2 q" if "q \<notin> ?R" for q
    using d that own by (intro same_at_trans [OF s1 [OF that]]) (simp add: dropped_def)
  have new: "\<not> live w q" if "q \<in> ?R" for q using that loop_okD(5) [OF w, of q] p by fastforce
  have "\<forall>q \<in> ?R. gone w2 q" using d unfolding dropped_def own by blast
  then have gone: "\<not> live w2 q" if "q \<in> ?R" for q using that by (cases q) (simp_all add: gone_def)
  have "live w2 q = live w q" for q
  proof (cases "q \<in> ?R")
    case True
    show ?thesis using gone [OF True] new [OF True] by blast
  qed (rule same_at_live [OF s])
  moreover have "same_at w w2 q" if "live w q" for q using s [of q] new [of q] that by blast
  moreover have "mainloop_list w2 = (mainloop_list w)[nat fd := None]" using d by (simp add: dropped_def i)
  ultimately show ?thesis using slot by blast
qed



section \<open>The events of one wait\<close>

text \<open>
  Claim C38. The events of one wait are handled with the pointers the kernel returned for all of them at the
  start: when the handler of an event removes the descriptor of a later event of the same wait, the
  structure of that event is used after it was freed.
\<close>

theorem removed_descriptor_used:
  assumes c: "destroy_calm k" and w: "loop_ok w" and fd: "valid_fd fd2" "fd1 \<noteq> fd2"
    and e1: "mainloop_list w ! nat fd1 = Some p1" "ml_datas w p1 = Some d1" "md_callback d1 = Event_Client f" "md_user_data d1 = Ptr_Client ud"
    and e2: "mainloop_list w ! nat fd2 = Some p2"
    and f: "c_event k f (md_fd d1) ev1 ud w = snd (mainloop_remove_fd k fd2 w)"
  shows "ml_fault (mainloop_events k [(p1, ev1), (p2, ev2)] w)"
proof -
  let ?v = "snd (mainloop_remove_fd k fd2 w)"
  have n: "nat fd2 < MAX_MAINLOOP_ENTRIES" using valid_fd_index [OF fd(1)] by blast
  have d: "dropped (nat fd2) w ?v" by (rule mainloop_remove_fd_dropped [OF c w fd(1)]) (simp add: e2)
  from loop_okD(3) [OF w n] have "Res_Data p2 \<in> owns w (nat fd2)"
    by (cases rule: slot_res_cases) (use e2 in simp_all)
  with d have "ml_datas ?v p2 = None" by (auto simp: dropped_def gone_def)
  then show ?thesis using e1 f by (simp add: call_event_def fault_def)
qed

definition removing_kernel :: "(nat, nat, unit) loop_kernel" where
  "removing_kernel = sample_loop_kernel\<lparr>c_event := \<lambda>f fd ev ud w. snd (mainloop_remove_fd sample_loop_kernel 6 w)\<rparr>"

lemma remove_same_kernel:
  assumes "k_answer k = k_answer k'" and "c_destroy k = c_destroy k'"
  shows "mainloop_remove_fd k fd w = mainloop_remove_fd k' fd w"
proof -
  have "syscall k = syscall k'" by (intro ext) (simp add: syscall_def assms)
  moreover from this have "sys_close k = sys_close k'" by (intro ext) (simp add: sys_close_def)
  moreover have "timeout_destroy k = timeout_destroy k'" by (intro ext) (simp only: timeout_destroy_def assms)
  moreover from this have "call_timeout_destroy k = call_timeout_destroy k'" by (intro ext) (simp only: call_timeout_destroy_def assms)
  moreover from calculation have "ml_timeout_destroy k = ml_timeout_destroy k'" by (intro ext) (simp only: ml_timeout_destroy_def)
  moreover have "io_run_destroy k = io_run_destroy k'" by (intro ext) (simp only: io_run_destroy_def assms)
  moreover from calculation have "io_cleanup k = io_cleanup k'" by (intro ext) (simp only: io_cleanup_def)
  moreover from calculation have "call_destroy k = call_destroy k'" by (intro ext) (simp only: call_destroy_def assms)
  ultimately show ?thesis by (simp only: mainloop_remove_fd_def)
qed

theorem removed_descriptor_used_witness:
  "ml_fault (mainloop_events removing_kernel [(0, EPOLLIN), (1, EPOLLIN)]
     (fold (loop_do removing_kernel) [Op_Add_Fd 5 EPOLLIN 1 None None, Op_Add_Fd 6 EPOLLIN 2 None None]
       (mainloop_init removing_kernel sample_loop)))"
proof -
  let ?ops = "[Op_Add_Fd 5 EPOLLIN 1 None None, Op_Add_Fd 6 EPOLLIN 2 None None]"
  let ?w = "fold (loop_do removing_kernel) ?ops (mainloop_init removing_kernel sample_loop)"
  have c: "destroy_calm removing_kernel" by (simp add: destroy_calm_def removing_kernel_def sample_loop_kernel_def)
  have w: "loop_ok ?w" by (rule loop_run_ok [OF c sample_loop_ok(3)]) (simp add: op_valid_def)
  let ?d = "\<lparr>md_fd = 5, md_events = EPOLLIN, md_callback = Event_Client 1, md_destroy = None, md_user_data = Ptr_Client None\<rparr>"
  have m: "mainloop_list ?w ! nat 5 = Some 0" "mainloop_list ?w ! nat 6 = Some 1" "ml_datas ?w 0 = Some ?d"
    by (simp_all add: mainloop_add_fd_def mainloop_init_def syscall_def Let_def valid_fd_def MAX_MAINLOOP_ENTRIES_def
        removing_kernel_def sample_loop_kernel_def sample_loop_def)
  have e: "c_event removing_kernel 1 (md_fd ?d) EPOLLIN None ?w = snd (mainloop_remove_fd removing_kernel 6 ?w)"
    using remove_same_kernel [of removing_kernel sample_loop_kernel 6 ?w] by (simp add: removing_kernel_def)
  have v: "valid_fd 6" by (simp add: valid_fd_def MAX_MAINLOOP_ENTRIES_def)
  show ?thesis by (rule removed_descriptor_used [OF c w v _ m(1,3) _ _ m(2) e]) simp_all
qed

end
