(* ===== verification/Crypto.thy ===== *)
theory Crypto
  imports Bytes
begin

text \<open>
  The cryptographic functions of \<^verbatim>\<open>src/shared/crypto.c\<close>: the layout of the messages handed to the
  ciphers of the kernel, the descriptors opened and closed for them, and the swaps between the
  byte order of the specification (most significant octet first) and of the callers. The ciphers
  and the answers of the calls are arguments.
\<close>

unbundle bit_operations_syntax

section \<open>Calls to the kernel\<close>

datatype crypto_call =
    Cr_Open | Cr_Socket | Cr_Bind int string string | Cr_Close int | Cr_Set_Key int bytes | Cr_Accept int
  | Cr_Sendmsg int bytes | Cr_Send int bytes | Cr_Read int nat

text \<open>
  The answer to a call after the calls made so far, what a successful \<^verbatim>\<open>read\<close> delivers, and what an
  array on the stack holds before it is written.
\<close>

record crypto_env =
  cr_answer :: "crypto_call list \<Rightarrow> crypto_call \<Rightarrow> int"
  cr_data :: "crypto_call list \<Rightarrow> bytes"
  cr_stack :: "nat \<Rightarrow> u8"

type_synonym crypto_trace = "crypto_call list"

definition cr_call :: "crypto_env \<Rightarrow> crypto_call \<Rightarrow> crypto_trace \<Rightarrow> int \<times> crypto_trace" where
  "cr_call e c t = (cr_answer e t c, t @ [c])"

definition cr_close :: "crypto_env \<Rightarrow> int \<Rightarrow> crypto_trace \<Rightarrow> crypto_trace" where
  "cr_close e fd t = snd (cr_call e (Cr_Close fd) t)"

text \<open>\<^verbatim>\<open>read\<close> into an array of \<open>n\<close> bytes: what is not delivered keeps its old value.\<close>

definition cr_read :: "crypto_env \<Rightarrow> int \<Rightarrow> nat \<Rightarrow> crypto_trace \<Rightarrow> int \<times> bytes \<times> crypto_trace" where
  "cr_read e fd n t =
     (case cr_call e (Cr_Read fd n) t of (len, t1) \<Rightarrow>
        (let got = (if len < 0 then [] else take (min n (nat len)) (cr_data e t))
         in (len, got @ map (cr_stack e) [length got..<n], t1)))"

section \<open>The object\<close>

record bt_crypto =
  cr_ref_count :: int
  ecb_aes :: int
  cr_urandom :: int
  cmac_aes :: int

definition urandom_setup :: "crypto_env \<Rightarrow> crypto_trace \<Rightarrow> int \<times> crypto_trace" where
  "urandom_setup e t = (case cr_call e Cr_Open t of (fd, t1) \<Rightarrow> if fd < 0 then (- 1, t1) else (fd, t1))"

text \<open>\<^verbatim>\<open>ecb_aes_setup\<close> and \<^verbatim>\<open>cmac_aes_setup\<close> differ in the names of the algorithm.\<close>

definition alg_setup :: "crypto_env \<Rightarrow> string \<Rightarrow> string \<Rightarrow> crypto_trace \<Rightarrow> int \<times> crypto_trace" where
  "alg_setup e type name t =
     (case cr_call e Cr_Socket t of (fd, t1) \<Rightarrow>
        if fd < 0 then (- 1, t1)
        else (case cr_call e (Cr_Bind fd type name) t1 of (r, t2) \<Rightarrow>
          if r < 0 then (- 1, cr_close e fd t2) else (fd, t2)))"

definition ecb_aes_setup :: "crypto_env \<Rightarrow> crypto_trace \<Rightarrow> int \<times> crypto_trace" where
  "ecb_aes_setup e t = alg_setup e ''skcipher'' ''ecb(aes)'' t"

definition cmac_aes_setup :: "crypto_env \<Rightarrow> crypto_trace \<Rightarrow> int \<times> crypto_trace" where
  "cmac_aes_setup e t = alg_setup e ''hash'' ''cmac(aes)'' t"

definition bt_crypto_ref :: "bt_crypto option \<Rightarrow> bt_crypto option" where
  "bt_crypto_ref crypto = map_option (\<lambda>c. c\<lparr>cr_ref_count := cr_ref_count c + 1\<rparr>) crypto"

definition bt_crypto_new :: "crypto_env \<Rightarrow> crypto_trace \<Rightarrow> bt_crypto option \<times> crypto_trace" where
  "bt_crypto_new e t =
     (case ecb_aes_setup e t of (ecb, t1) \<Rightarrow>
        if ecb < 0 then (None, t1)
        else (case urandom_setup e t1 of (ur, t2) \<Rightarrow>
          if ur < 0 then (None, cr_close e ecb t2)
          else (case cmac_aes_setup e t2 of (cm, t3) \<Rightarrow>
            if cm < 0 then (None, cr_close e ecb (cr_close e ur t3))
            else (bt_crypto_ref (Some \<lparr>cr_ref_count = 0, ecb_aes = ecb, cr_urandom = ur, cmac_aes = cm\<rparr>), t3))))"

text \<open>The object after giving up a reference: \<open>None\<close> when it was freed.\<close>

definition bt_crypto_unref :: "crypto_env \<Rightarrow> bt_crypto option \<Rightarrow> crypto_trace \<Rightarrow> bt_crypto option \<times> crypto_trace" where
  "bt_crypto_unref e crypto t = (case crypto of None \<Rightarrow> (None, t)
     | Some c \<Rightarrow>
         (let c1 = c\<lparr>cr_ref_count := cr_ref_count c - 1\<rparr>
          in if cr_ref_count c1 \<noteq> 0 then (Some c1, t)
             else (None, cr_close e (cmac_aes c1) (cr_close e (ecb_aes c1) (cr_close e (cr_urandom c1) t)))))"

definition bt_crypto_random_bytes ::
  "crypto_env \<Rightarrow> bt_crypto option \<Rightarrow> u8 \<Rightarrow> crypto_trace \<Rightarrow> (bool \<times> bytes) \<times> crypto_trace" where
  "bt_crypto_random_bytes e crypto num_bytes t = (case crypto of None \<Rightarrow> ((False, []), t)
     | Some c \<Rightarrow> (case cr_read e (cr_urandom c) (unat num_bytes) t of (len, buf, t1) \<Rightarrow> ((\<not> len < uint num_bytes, buf), t1)))"

section \<open>The ciphers\<close>

definition alg_new :: "crypto_env \<Rightarrow> int \<Rightarrow> bytes \<Rightarrow> crypto_trace \<Rightarrow> int \<times> crypto_trace" where
  "alg_new e fd keyval t = (case cr_call e (Cr_Set_Key fd keyval) t of (r, t1) \<Rightarrow>
     if r < 0 then (- 1, t1) else cr_call e (Cr_Accept fd) t1)"

definition alg_encrypt :: "crypto_env \<Rightarrow> int \<Rightarrow> bytes \<Rightarrow> nat \<Rightarrow> crypto_trace \<Rightarrow> bytes option \<times> crypto_trace" where
  "alg_encrypt e fd inbuf outlen t =
     (case cr_call e (Cr_Sendmsg fd inbuf) t of (len, t1) \<Rightarrow>
        if len < 0 then (None, t1)
        else (case cr_read e fd outlen t1 of (n, out, t2) \<Rightarrow> if n < 0 then (None, t2) else (Some out, t2)))"

text \<open>The loop that writes \<^verbatim>\<open>dst[len - 1 - i] = src[i]\<close>.\<close>

primrec swap_loop :: "bytes \<Rightarrow> bytes \<Rightarrow> nat \<Rightarrow> nat \<Rightarrow> bytes" where
  "swap_loop src dst len 0 = dst"
| "swap_loop src dst len (Suc i) = (swap_loop src dst len i)[len - 1 - i := src ! i]"

definition swap_buf :: "bytes \<Rightarrow> bytes \<Rightarrow> u16 \<Rightarrow> bytes" where
  "swap_buf src dst len = swap_loop src dst (unat len) (unat len)"

text \<open>An array of \<open>n\<close> bytes that is not initialised.\<close>

definition stack_buf :: "crypto_env \<Rightarrow> nat \<Rightarrow> bytes" where
  "stack_buf e n = map (cr_stack e) [0..<n]"

definition CMAC_MSG_MAX :: nat where "CMAC_MSG_MAX = 80"

text \<open>Sending a message to a descriptor of the hash and reading the code, with the descriptor closed at the end.\<close>

definition hash_message :: "crypto_env \<Rightarrow> int \<Rightarrow> bytes \<Rightarrow> crypto_trace \<Rightarrow> bytes option \<times> crypto_trace" where
  "hash_message e fd msg t =
     (case cr_call e (Cr_Send fd msg) t of (len, t1) \<Rightarrow>
        if len < 0 then (None, cr_close e fd t1)
        else (case cr_read e fd 16 t1 of (n, out, t2) \<Rightarrow>
          if n < 0 then (None, cr_close e fd t2) else (Some out, cr_close e fd t2)))"

text \<open>
  The message array has the length computed in 16 bits; with a message of more than 65531 bytes
  the copy would run past it. The list form needs \<open>length m = unat m_len\<close>.
\<close>

definition bt_crypto_sign_att ::
  "crypto_env \<Rightarrow> bt_crypto option \<Rightarrow> bytes \<Rightarrow> bytes \<Rightarrow> u16 \<Rightarrow> u32 \<Rightarrow> crypto_trace \<Rightarrow> bytes option \<times> crypto_trace" where
  "bt_crypto_sign_att e crypto key m m_len sign_cnt t =
     (let msg_len = m_len + 4
      in case crypto of None \<Rightarrow> (None, t)
       | Some c \<Rightarrow>
           (let msg = memcpy_at (memcpy_at (replicate (unat msg_len) 0) 0 m) (unat m_len) (put_le32 sign_cnt);
                tmp = swap_buf key (stack_buf e 16) 16
            in case alg_new e (cmac_aes c) tmp t of (fd, t1) \<Rightarrow>
                 if fd < 0 then (None, t1)
                 else (case hash_message e fd (swap_buf msg (stack_buf e (unat msg_len)) msg_len) t1 of
                     (None, t2) \<Rightarrow> (None, t2)
                   | (Some out, t2) \<Rightarrow>
                       (Some (take 12 (drop 4 (swap_buf (memcpy_at out 8 (put_be32 sign_cnt)) tmp 16))), t2))))"

definition bt_crypto_e ::
  "crypto_env \<Rightarrow> bt_crypto option \<Rightarrow> bytes \<Rightarrow> bytes \<Rightarrow> crypto_trace \<Rightarrow> bytes option \<times> crypto_trace" where
  "bt_crypto_e e crypto key plaintext t = (case crypto of None \<Rightarrow> (None, t)
     | Some c \<Rightarrow>
         (case alg_new e (ecb_aes c) (swap_buf key (stack_buf e 16) 16) t of (fd, t1) \<Rightarrow>
            if fd < 0 then (None, t1)
            else (case alg_encrypt e fd (swap_buf plaintext (stack_buf e 16) 16) 16 t1 of
                (None, t2) \<Rightarrow> (None, cr_close e fd t2)
              | (Some out, t2) \<Rightarrow> (Some (swap_buf out (stack_buf e 16) 16), cr_close e fd t2))))"

definition aes_cmac ::
  "crypto_env \<Rightarrow> bt_crypto option \<Rightarrow> bytes \<Rightarrow> bytes \<Rightarrow> crypto_trace \<Rightarrow> bytes option \<times> crypto_trace" where
  "aes_cmac e crypto key msg t =
     (if length msg > CMAC_MSG_MAX then (None, t)
      else (case crypto of None \<Rightarrow> (None, t)
        | Some c \<Rightarrow> (case alg_new e (cmac_aes c) (swap_buf key (stack_buf e 16) 16) t of (fd, t1) \<Rightarrow>
            if fd < 0 then (None, t1)
            else (case hash_message e fd (take (length msg) (swap_buf msg (stack_buf e CMAC_MSG_MAX) (of_nat (length msg)))) t1 of
                (None, t2) \<Rightarrow> (None, t2)
              | (Some out, t2) \<Rightarrow> (Some (swap_buf out (stack_buf e 16) 16), t2)))))"

section \<open>The functions of pairing\<close>

definition bt_crypto_ah ::
  "crypto_env \<Rightarrow> bt_crypto option \<Rightarrow> bytes \<Rightarrow> bytes \<Rightarrow> crypto_trace \<Rightarrow> bytes option \<times> crypto_trace" where
  "bt_crypto_ah e crypto k r t = (case crypto of None \<Rightarrow> (None, t)
     | Some c \<Rightarrow>
         (let rp = take 3 r @ replicate 13 0
          in case bt_crypto_e e crypto k rp t of
               (None, t1) \<Rightarrow> (None, t1) | (Some encrypted, t1) \<Rightarrow> (Some (take 3 encrypted), t1)))"

text \<open>Two words of 64 bits, in the byte order of a little endian host.\<close>

definition u128_xor :: "bytes \<Rightarrow> bytes \<Rightarrow> bytes" where
  "u128_xor p q = put_le64 (get_le64 p 0 XOR get_le64 q 0) @ put_le64 (get_le64 p 8 XOR get_le64 q 8)"

definition bt_crypto_c1 ::
  "crypto_env \<Rightarrow> bt_crypto option \<Rightarrow> bytes \<Rightarrow> bytes \<Rightarrow> bytes \<Rightarrow> bytes \<Rightarrow> u8 \<Rightarrow> bytes \<Rightarrow> u8 \<Rightarrow> bytes \<Rightarrow> crypto_trace \<Rightarrow>
   bytes option \<times> crypto_trace" where
  "bt_crypto_c1 e crypto k r pres preq iat ia rat ra t =
     (let p1 = [iat, rat] @ take 7 preq @ take 7 pres;
          p2 = take 6 ra @ take 6 ia @ replicate 4 0
      in case bt_crypto_e e crypto k (u128_xor r p1) t of
           (None, t1) \<Rightarrow> (None, t1)
         | (Some res, t1) \<Rightarrow> bt_crypto_e e crypto k (u128_xor res p2) t1)"

definition bt_crypto_s1 ::
  "crypto_env \<Rightarrow> bt_crypto option \<Rightarrow> bytes \<Rightarrow> bytes \<Rightarrow> bytes \<Rightarrow> crypto_trace \<Rightarrow> bytes option \<times> crypto_trace" where
  "bt_crypto_s1 e crypto k r1 r2 t = bt_crypto_e e crypto k (take 8 r2 @ take 8 r1) t"

definition bt_crypto_f4 ::
  "crypto_env \<Rightarrow> bt_crypto option \<Rightarrow> bytes \<Rightarrow> bytes \<Rightarrow> bytes \<Rightarrow> u8 \<Rightarrow> crypto_trace \<Rightarrow> bytes option \<times> crypto_trace" where
  "bt_crypto_f4 e crypto u v x z t = (case crypto of None \<Rightarrow> (None, t)
     | Some c \<Rightarrow> aes_cmac e crypto x ([z] @ take 32 v @ take 32 u) t)"

definition f5_btle :: bytes where "f5_btle = [0x65, 0x6c, 0x74, 0x62]"
definition f5_salt :: bytes where
  "f5_salt = [0xbe, 0x83, 0x60, 0x5a, 0xdb, 0x0b, 0x37, 0x60, 0x38, 0xa5, 0xf5, 0xaa, 0x91, 0x83, 0x88, 0x6c]"

text \<open>The results are the two keys, each \<open>None\<close> when its array is not written.\<close>

definition bt_crypto_f5 ::
  "crypto_env \<Rightarrow> bt_crypto option \<Rightarrow> bytes \<Rightarrow> bytes \<Rightarrow> bytes \<Rightarrow> bytes \<Rightarrow> bytes \<Rightarrow> crypto_trace \<Rightarrow>
   (bytes option \<times> bytes option) \<times> crypto_trace" where
  "bt_crypto_f5 e crypto w n1 n2 a1 a2 t =
     (case aes_cmac e crypto f5_salt (take 32 w) t of
        (None, t1) \<Rightarrow> ((None, None), t1)
      | (Some key, t1) \<Rightarrow>
          (let m = [0x00, 0x01] @ take 7 a2 @ take 7 a1 @ take 16 n2 @ take 16 n1 @ f5_btle
           in case aes_cmac e crypto key (m @ [0]) t1 of
                (None, t2) \<Rightarrow> ((None, None), t2)
              | (Some mackey, t2) \<Rightarrow> (case aes_cmac e crypto key (m @ [1]) t2 of (ltk, t3) \<Rightarrow> ((Some mackey, ltk), t3))))"

definition bt_crypto_f6 ::
  "crypto_env \<Rightarrow> bt_crypto option \<Rightarrow> bytes \<Rightarrow> bytes \<Rightarrow> bytes \<Rightarrow> bytes \<Rightarrow> bytes \<Rightarrow> bytes \<Rightarrow> bytes \<Rightarrow> crypto_trace \<Rightarrow>
   bytes option \<times> crypto_trace" where
  "bt_crypto_f6 e crypto w n1 n2 r io_cap a1 a2 t =
     aes_cmac e crypto w (take 7 a2 @ take 7 a1 @ take 3 io_cap @ take 16 r @ take 16 n2 @ take 16 n1) t"

definition bt_crypto_g2 ::
  "crypto_env \<Rightarrow> bt_crypto option \<Rightarrow> bytes \<Rightarrow> bytes \<Rightarrow> bytes \<Rightarrow> bytes \<Rightarrow> crypto_trace \<Rightarrow> u32 option \<times> crypto_trace" where
  "bt_crypto_g2 e crypto u v x y t =
     (case aes_cmac e crypto x (take 16 y @ take 32 v @ take 32 u) t of
        (None, t1) \<Rightarrow> (None, t1) | (Some tmp, t1) \<Rightarrow> (Some (get_le32 tmp 0 mod 1000000), t1))"

definition bt_crypto_h6 ::
  "crypto_env \<Rightarrow> bt_crypto option \<Rightarrow> bytes \<Rightarrow> bytes \<Rightarrow> crypto_trace \<Rightarrow> bytes option \<times> crypto_trace" where
  "bt_crypto_h6 e crypto w keyid t = aes_cmac e crypto w (take 4 keyid) t"

section \<open>Swapping\<close>

lemma swap_loop_nth:
  assumes "length dst = n" and "i \<le> n"
  shows "length (swap_loop src dst n i) = n \<and>
    (\<forall>j < n. swap_loop src dst n i ! j = (if n \<le> j + i then src ! (n - 1 - j) else dst ! j))"
  using assms(2)
proof (induction i)
  case 0
  with assms(1) show ?case by simp
next
  case (Suc i)
  then have l: "length (swap_loop src dst n i) = n" by simp
  have "swap_loop src dst n (Suc i) ! j = (if n \<le> j + Suc i then src ! (n - 1 - j) else dst ! j)" if "j < n" for j
  proof (cases "j = n - 1 - i")
    case True
    then have "n - 1 - j = i" using Suc.prems by simp
    with True Suc l show ?thesis by (auto simp: nth_list_update)
  next
    case False
    with Suc that l show ?thesis by (auto simp: nth_list_update)
  qed
  with l show ?case by simp
qed

lemma swap_buf_rev:
  assumes "length src = unat n" and "length dst = unat n"
  shows "swap_buf src dst n = rev src"
proof (rule nth_equalityI)
  note s = swap_loop_nth [OF assms(2) order_refl, of src]
  show "length (swap_buf src dst n) = length (rev src)" using s assms(1) by (simp add: swap_buf_def)
  fix j assume "j < length (swap_buf src dst n)"
  with s have "j < unat n" by (simp add: swap_buf_def)
  with s assms(1) show "swap_buf src dst n ! j = rev src ! j" by (simp add: swap_buf_def rev_nth)
qed

text \<open>A longer destination keeps its end.\<close>

lemma swap_loop_append:
  assumes "i \<le> n" and "length dst = n"
  shows "swap_loop src (dst @ rest) n i = swap_loop src dst n i @ rest"
  using assms(1)
proof (induction i)
  case (Suc i)
  moreover have "length (swap_loop src dst n i) = n" using swap_loop_nth [OF assms(2)] Suc.prems by simp
  ultimately show ?case by (simp add: list_update_append1)
qed simp

lemma length_stack_buf [simp]: "length (stack_buf e n) = n"
  by (simp add: stack_buf_def)

lemma swap_buf_prefix:
  assumes "length src \<le> n" and "n < 65536"
  shows "take (length src) (swap_buf src (stack_buf e n) (of_nat (length src))) = rev src"
proof -
  have l: "unat (of_nat (length src) :: u16) = length src" using assms by (simp add: unat_of_nat)
  define a where "a = take (length src) (stack_buf e n)"
  define b where "b = drop (length src) (stack_buf e n)"
  have ab: "stack_buf e n = a @ b" "length a = length src" using assms(1) by (simp_all add: a_def b_def)
  then have "swap_buf src (stack_buf e n) (of_nat (length src)) = swap_buf src a (of_nat (length src)) @ b"
    unfolding swap_buf_def l ab(1) by (intro swap_loop_append) simp_all
  moreover have "swap_buf src a (of_nat (length src)) = rev src"
    using ab(2) l by (intro swap_buf_rev) simp_all
  ultimately show ?thesis by simp
qed

text \<open>Sixteen bytes, read as two words and written again.\<close>

lemma take_2_drop: "n + 2 \<le> length bs \<Longrightarrow> take 2 (drop n bs) = [bs ! n, bs ! (n + 1)]"
  by (rule nth_equalityI) (auto simp: less_2_cases_iff)

lemma put_get_le16_at: "n + 2 \<le> length bs \<Longrightarrow> put_le16 (get_le16 bs n) = take 2 (drop n bs)"
proof -
  assume "n + 2 \<le> length bs"
  moreover have "ucast (ucast (bs ! n) OR push_bit 8 (ucast (bs ! (n + 1)) :: u16)) = bs ! n"
    by (rule bit_word_eqI) (auto simp: bit_simps)
  moreover have "ucast (drop_bit 8 (ucast (bs ! n) OR push_bit 8 (ucast (bs ! (n + 1)) :: u16))) = bs ! (n + 1)"
    by (rule bit_word_eqI) (auto simp: bit_simps dest: bit_imp_le_length)
  ultimately show ?thesis by (simp add: take_2_drop get_le16_def put_le16_def)
qed

lemma put_get_le32_at:
  assumes "n + 4 \<le> length bs"
  shows "put_le32 (get_le32 bs n) = take 4 (drop n bs)"
proof -
  have a: "ucast (ucast a OR push_bit 16 (ucast b :: u32)) = a" for a b :: u16
    by (rule bit_word_eqI) (auto simp: bit_simps)
  have b: "ucast (drop_bit 16 (ucast a OR push_bit 16 (ucast b :: u32))) = b" for a b :: u16
    by (rule bit_word_eqI) (auto simp: bit_simps dest: bit_imp_le_length)
  have "take 4 (drop n bs) = take 2 (drop n bs) @ take 2 (drop (n + 2) bs)"
    using take_add [of 2 2 "drop n bs"] by (simp add: add.commute)
  with assms show ?thesis unfolding put_le32_def get_le32_def a b by (simp add: put_get_le16_at)
qed

lemma put_get_le64_at:
  assumes "n + 8 \<le> length bs"
  shows "put_le64 (get_le64 bs n) = take 8 (drop n bs)"
proof -
  have a: "ucast (ucast a OR push_bit 32 (ucast b :: u64)) = a" for a b :: u32
    by (rule bit_word_eqI) (auto simp: bit_simps)
  have b: "ucast (drop_bit 32 (ucast a OR push_bit 32 (ucast b :: u64))) = b" for a b :: u32
    by (rule bit_word_eqI) (auto simp: bit_simps dest: bit_imp_le_length)
  have "take 8 (drop n bs) = take 4 (drop n bs) @ take 4 (drop (n + 4) bs)"
    using take_add [of 4 4 "drop n bs"] by (simp add: add.commute)
  with assms show ?thesis unfolding put_le64_def get_le64_def a b by (simp add: put_get_le32_at)
qed

lemma put_le64_xor: "put_le64 (x XOR y) = map2 (XOR) (put_le64 x) (put_le64 y)"
  by (simp add: put_le64_def put_le32_def put_le16_def drop_bit_xor unsigned_xor_eq)

lemma u128_xor_bytes:
  assumes "length p = 16" and "length q = 16"
  shows "u128_xor p q = map2 (XOR) p q"
proof -
  have "map2 (XOR) (take 8 p @ drop 8 p) (take 8 q @ drop 8 q) = map2 (XOR) (take 8 p) (take 8 q) @ map2 (XOR) (drop 8 p) (drop 8 q)"
    using assms by (subst zip_append) simp_all
  then show ?thesis
    using assms by (simp add: u128_xor_def put_le64_xor put_get_le64_at)
qed

end
