(* ===== verification/Crypto_Props.thy ===== *)
theory Crypto_Props
  imports Crypto
begin

text \<open>
  The cryptographic functions against the definitions of the Bluetooth specification, which are
  written over octet strings with the most significant octet first, and the descriptors they
  open and close.
\<close>

section \<open>Ciphers that work\<close>

text \<open>
  The documented behaviour of the ciphers of the kernel: every call succeeds, a descriptor
  accepted after a key was set encrypts the block it is sent with that key, or returns the code
  of the message it is sent.
\<close>

definition kernel_ciphers :: "crypto_env \<Rightarrow> (bytes \<Rightarrow> bytes \<Rightarrow> bytes) \<Rightarrow> (bytes \<Rightarrow> bytes \<Rightarrow> bytes) \<Rightarrow> bool" where
  "kernel_ciphers e ecb cmac \<longleftrightarrow>
     (\<forall>t c. 0 \<le> cr_answer e t c) \<and> (\<forall>t fd. cr_answer e t (Cr_Read fd 16) = 16) \<and>
     (\<forall>t fd key fd' m. cr_data e (t @ [Cr_Set_Key fd key, Cr_Accept fd, Cr_Sendmsg fd' m]) = ecb key m) \<and>
     (\<forall>t fd key fd' m. cr_data e (t @ [Cr_Set_Key fd key, Cr_Accept fd, Cr_Send fd' m]) = cmac key m) \<and>
     (\<forall>key m. length (ecb key m) = 16 \<and> length (cmac key m) = 16)"

lemma bt_crypto_e_works:
  assumes "kernel_ciphers e ecb cmac" and "length key = 16" and "length p = 16"
  shows "fst (bt_crypto_e e (Some c) key p t) = Some (rev (ecb (rev key) (rev p)))"
proof -
  have l: "length (ecb (rev key) (rev p)) = 16" using assms(1) by (simp add: kernel_ciphers_def)
  have s: "swap_buf key (stack_buf e 16) 16 = rev key" "swap_buf p (stack_buf e 16) 16 = rev p"
      "swap_buf (ecb (rev key) (rev p)) (stack_buf e 16) 16 = rev (ecb (rev key) (rev p))"
    using assms(2,3) l by (simp_all add: swap_buf_rev)
  have a: "\<not> cr_answer e u k < 0" "cr_answer e u (Cr_Read fd 16) = 16"
      "cr_data e (u @ [Cr_Set_Key f key', Cr_Accept f, Cr_Sendmsg f' m]) = ecb key' m" for u k fd f f' key' m
    using assms(1) by (simp_all add: kernel_ciphers_def not_less)
  show ?thesis
    using l by (simp add: bt_crypto_e_def alg_new_def alg_encrypt_def cr_read_def cr_call_def s a)
qed

lemma aes_cmac_works:
  assumes "kernel_ciphers e ecb cmac" and "length key = 16" and "length m \<le> 80"
  shows "fst (aes_cmac e (Some c) key m t) = Some (rev (cmac (rev key) (rev m)))"
proof -
  have l: "length (cmac (rev key) (rev m)) = 16" using assms(1) by (simp add: kernel_ciphers_def)
  have s: "swap_buf key (stack_buf e 16) 16 = rev key"
      "swap_buf (cmac (rev key) (rev m)) (stack_buf e 16) 16 = rev (cmac (rev key) (rev m))"
    using assms(2) l by (simp_all add: swap_buf_rev)
  have p: "take (length m) (swap_buf m (stack_buf e 80) (of_nat (length m))) = rev m"
    using assms(3) by (intro swap_buf_prefix) simp_all
  have a: "\<not> cr_answer e u k < 0" "cr_answer e u (Cr_Read fd 16) = 16"
      "cr_data e (u @ [Cr_Set_Key f key', Cr_Accept f, Cr_Send f' x]) = cmac key' x" for u k fd f f' key' x
    using assms(1) by (simp_all add: kernel_ciphers_def not_less)
  show ?thesis
    using l assms(3) by (simp add: aes_cmac_def hash_message_def alg_new_def cr_read_def cr_call_def s p a CMAC_MSG_MAX_def)
qed

section \<open>The functions of the specification\<close>

text \<open>Volume 3, part H, section 2.2, over octet strings with the most significant octet first.\<close>

definition spec_ah :: "(bytes \<Rightarrow> bytes \<Rightarrow> bytes) \<Rightarrow> bytes \<Rightarrow> bytes \<Rightarrow> bytes" where
  "spec_ah ecb k r = drop 13 (ecb k (replicate 13 0 @ r))"

definition spec_c1 ::
  "(bytes \<Rightarrow> bytes \<Rightarrow> bytes) \<Rightarrow> bytes \<Rightarrow> bytes \<Rightarrow> bytes \<Rightarrow> bytes \<Rightarrow> u8 \<Rightarrow> u8 \<Rightarrow> bytes \<Rightarrow> bytes \<Rightarrow> bytes" where
  "spec_c1 ecb k r preq pres iat rat ia ra =
     (let p1 = pres @ preq @ [rat, iat]; p2 = replicate 4 0 @ ia @ ra
      in ecb k (map2 (XOR) (ecb k (map2 (XOR) r p1)) p2))"

definition spec_s1 :: "(bytes \<Rightarrow> bytes \<Rightarrow> bytes) \<Rightarrow> bytes \<Rightarrow> bytes \<Rightarrow> bytes \<Rightarrow> bytes" where
  "spec_s1 ecb k r1 r2 = ecb k (drop 8 r1 @ drop 8 r2)"

definition spec_f4 :: "(bytes \<Rightarrow> bytes \<Rightarrow> bytes) \<Rightarrow> bytes \<Rightarrow> bytes \<Rightarrow> bytes \<Rightarrow> u8 \<Rightarrow> bytes" where
  "spec_f4 cmac u v x z = cmac x (u @ v @ [z])"

definition spec_f5_key :: "(bytes \<Rightarrow> bytes \<Rightarrow> bytes) \<Rightarrow> u8 \<Rightarrow> bytes \<Rightarrow> bytes \<Rightarrow> bytes \<Rightarrow> bytes \<Rightarrow> bytes \<Rightarrow> bytes" where
  "spec_f5_key cmac counter w n1 n2 a1 a2 =
     (let salt = [0x6c, 0x88, 0x83, 0x91, 0xaa, 0xf5, 0xa5, 0x38, 0x60, 0x37, 0x0b, 0xdb, 0x5a, 0x60, 0x83, 0xbe];
          key_id = [0x62, 0x74, 0x6c, 0x65]
      in cmac (cmac salt w) ([counter] @ key_id @ n1 @ n2 @ a1 @ a2 @ [0x01, 0x00]))"

definition spec_f6 :: "(bytes \<Rightarrow> bytes \<Rightarrow> bytes) \<Rightarrow> bytes \<Rightarrow> bytes \<Rightarrow> bytes \<Rightarrow> bytes \<Rightarrow> bytes \<Rightarrow> bytes \<Rightarrow> bytes \<Rightarrow> bytes" where
  "spec_f6 cmac w n1 n2 r io_cap a1 a2 = cmac w (n1 @ n2 @ r @ io_cap @ a1 @ a2)"

definition spec_g2 :: "(bytes \<Rightarrow> bytes \<Rightarrow> bytes) \<Rightarrow> bytes \<Rightarrow> bytes \<Rightarrow> bytes \<Rightarrow> bytes \<Rightarrow> u32" where
  "spec_g2 cmac u v x y = get_be32 (cmac x (u @ v @ y)) 12 mod 1000000"

lemma rev_map2: "length xs = length ys \<Longrightarrow> rev (map2 f xs ys) = map2 f (rev xs) (rev ys)"
  by (simp add: rev_map zip_rev)

lemma get_le32_rev: "length bs = 16 \<Longrightarrow> get_le32 (rev bs) 0 = get_be32 bs 12"
  by (simp add: get_le32_def get_be32_def get_le16_def get_be16_def rev_nth or.commute)

lemma fst_pair: "fst p = x \<Longrightarrow> \<exists>t. p = (x, t)"
  by (cases p) simp

lemma c1_works:
  assumes "kernel_ciphers e ecb cmac" and "length k = 16" and "length r = 16" and "length preq = 7" and "length pres = 7"
    and "length ia = 6" and "length ra = 6"
  shows "fst (bt_crypto_c1 e (Some c) (rev k) (rev r) (rev pres) (rev preq) iat (rev ia) rat (rev ra) t) =
    Some (rev (spec_c1 ecb k r preq pres iat rat ia ra))"
proof -
  let ?p1 = "pres @ preq @ [rat, iat]"
  let ?p2 = "replicate 4 0 @ ia @ ra"
  let ?a = "map2 (XOR) r ?p1"
  have l: "length (ecb x y) = 16" for x y using assms(1) by (simp add: kernel_ciphers_def)
  have p1: "u128_xor (rev r) ([iat, rat] @ take 7 (rev preq) @ take 7 (rev pres)) = rev ?a"
    using assms by (simp add: u128_xor_bytes rev_map2)
  have p2: "u128_xor (rev (ecb k ?a)) (take 6 (rev ra) @ take 6 (rev ia) @ replicate 4 0) = rev (map2 (XOR) (ecb k ?a) ?p2)"
    using assms l by (simp add: u128_xor_bytes rev_map2)
  have "fst (bt_crypto_e e (Some c) (rev k) (rev ?a) t) = Some (rev (ecb k ?a))"
    using bt_crypto_e_works [OF assms(1), of "rev k" "rev ?a" c t] assms by simp
  then obtain t1 where "bt_crypto_e e (Some c) (rev k) (rev ?a) t = (Some (rev (ecb k ?a)), t1)"
    by (metis prod.collapse)
  with p1 p2 bt_crypto_e_works [OF assms(1), of "rev k" "rev (map2 (XOR) (ecb k ?a) ?p2)" c t1] assms l show ?thesis
    by (simp add: bt_crypto_c1_def spec_c1_def Let_def)
qed

lemma f5_works:
  assumes "kernel_ciphers e ecb cmac" and "length w = 32" and "length n1 = 16" and "length n2 = 16" and "length a1 = 7" and "length a2 = 7"
  shows "fst (bt_crypto_f5 e (Some c) (rev w) (rev n1) (rev n2) (rev a1) (rev a2) t) =
    (Some (rev (spec_f5_key cmac 0 w n1 n2 a1 a2)), Some (rev (spec_f5_key cmac 1 w n1 n2 a1 a2)))"
proof -
  let ?salt = "[0x6c, 0x88, 0x83, 0x91, 0xaa, 0xf5, 0xa5, 0x38, 0x60, 0x37, 0x0b, 0xdb, 0x5a, 0x60, 0x83, 0xbe] :: bytes"
  let ?id = "[0x62, 0x74, 0x6c, 0x65] :: bytes"
  let ?m = "[0x00, 0x01] @ take 7 (rev a2) @ take 7 (rev a1) @ take 16 (rev n2) @ take 16 (rev n1) @ f5_btle"
  let ?k = "cmac ?salt w"
  have l: "length (cmac x y) = 16" for x y using assms(1) by (simp add: kernel_ciphers_def)
  have salt: "f5_salt = rev ?salt" by (simp add: f5_salt_def)
  have m: "?m @ [i] = rev ([i] @ ?id @ n1 @ n2 @ a1 @ a2 @ [0x01, 0x00])" for i
    using assms by (simp add: f5_btle_def)
  have "fst (aes_cmac e (Some c) f5_salt (take 32 (rev w)) t) = Some (rev ?k)"
    using aes_cmac_works [OF assms(1), of "rev ?salt" "rev w" c t] assms(2) unfolding salt by simp
  then obtain t1 where 1: "aes_cmac e (Some c) f5_salt (take 32 (rev w)) t = (Some (rev ?k), t1)" by (metis prod.collapse)
  have k: "fst (aes_cmac e (Some c) (rev ?k) (?m @ [i]) u) = Some (rev (spec_f5_key cmac i w n1 n2 a1 a2))" for i u
    using aes_cmac_works [OF assms(1), of "rev ?k" "?m @ [i]" c u] assms l unfolding m
    by (simp add: spec_f5_key_def Let_def)
  obtain t2 where 2: "aes_cmac e (Some c) (rev ?k) (?m @ [0]) t1 = (Some (rev (spec_f5_key cmac 0 w n1 n2 a1 a2)), t2)"
    using k [of 0 t1] by (metis prod.collapse)
  show ?thesis
    using k [of 1 t2] by (simp add: bt_crypto_f5_def 1 2 Let_def case_prod_unfold del: append.simps append_assoc)
qed


text \<open>A kernel with ciphers that can be evaluated.\<close>

definition toy_cipher :: "bytes \<Rightarrow> bytes \<Rightarrow> bytes" where
  "toy_cipher key m = take 16 (map2 (XOR) (key @ replicate 16 0) (m @ replicate 16 0x5A) @ replicate 16 0)"

definition sample_ciphers :: crypto_env where
  "sample_ciphers = \<lparr>cr_answer = (\<lambda>t c. case c of Cr_Read _ _ \<Rightarrow> 16 | _ \<Rightarrow> 5),
     cr_data = (\<lambda>t. case rev t of Cr_Sendmsg _ m # _ # Cr_Set_Key _ key # _ \<Rightarrow> toy_cipher key m
                   | Cr_Send _ m # _ # Cr_Set_Key _ key # _ \<Rightarrow> toy_cipher key m | _ \<Rightarrow> []), cr_stack = (\<lambda>i. 0xAA)\<rparr>"

lemma sample_ciphers_work: "kernel_ciphers sample_ciphers toy_cipher toy_cipher"
  by (simp add: kernel_ciphers_def sample_ciphers_def toy_cipher_def split: crypto_call.split)

definition sample_crypto :: bt_crypto where
  "sample_crypto = \<lparr>cr_ref_count = 1, ecb_aes = 5, cr_urandom = 6, cmac_aes = 7\<rparr>"


section \<open>Signatures\<close>

lemma rev_put_be32: "rev (put_be32 x) = put_le32 x"
  by (simp add: put_be32_def put_le32_def put_be16_def put_le16_def)

lemma memcpy_at_append: "length bs = length ys \<Longrightarrow> memcpy_at (xs @ ys) (length xs) bs = xs @ bs"
  by (simp add: memcpy_at_def)

lemma hash_message_trace:
  "\<exists>s. snd (hash_message e fd x t) = t @ s \<and> (s = [Cr_Send fd x, Cr_Close fd] \<or> s = [Cr_Send fd x, Cr_Read fd 16, Cr_Close fd])"
  by (simp add: hash_message_def cr_read_def cr_call_def cr_close_def)

text \<open>
  Claim C40. The signature of a PDU: the sign counter with the least significant octet first, then the eight
  most significant octets of the code of the PDU and the counter, swapped. Whatever the kernel
  answers, the descriptor accepted for it is closed again, once and last.
\<close>

theorem crypto_sign_att_layout:
  assumes "length key = 16" and "length m = unat m_len" and "unat m_len < 65532"
  shows "(kernel_ciphers e ecb cmac \<longrightarrow> fst (bt_crypto_sign_att e (Some c) (rev key) m m_len cnt t) =
      Some (put_le32 cnt @ rev (take 8 (cmac key (rev (m @ put_le32 cnt)))))) \<and>
    (let K = Cr_Set_Key (cmac_aes c) key; A = Cr_Accept (cmac_aes c); fd = cr_answer e (t @ [K]) A
     in \<exists>s. snd (bt_crypto_sign_att e (Some c) (rev key) m m_len cnt t) = t @ s \<and>
       (s = [K] \<or> s = [K, A] \<and> fd < 0 \<or>
        \<not> fd < 0 \<and> (\<exists>x. s = [K, A, Cr_Send fd x, Cr_Close fd] \<or> s = [K, A, Cr_Send fd x, Cr_Read fd 16, Cr_Close fd])))"
proof -
  have n: "unat (m_len + 4) = unat m_len + 4"
    using assms(3) by (simp add: unat_word_ariths)
  have "memcpy_at (replicate (unat m_len + 4) 0) 0 m = m @ replicate 4 0"
    using assms(2) by (simp add: memcpy_at_def)
  then have msg: "memcpy_at (memcpy_at (replicate (unat (m_len + 4)) 0) 0 m) (unat m_len) (put_le32 cnt) = m @ put_le32 cnt"
    unfolding n assms(2) [symmetric] by (simp add: memcpy_at_append)
  have k: "swap_buf (rev key) (stack_buf e 16) 16 = key" using assms(1) by (simp add: swap_buf_rev)
  have s: "swap_buf (m @ put_le32 cnt) (stack_buf e (unat (m_len + 4))) (m_len + 4) = rev (m @ put_le32 cnt)"
    using assms(2) n by (intro swap_buf_rev) simp_all
  let ?K = "Cr_Set_Key (cmac_aes c) key" and ?A = "Cr_Accept (cmac_aes c)"
  let ?x = "rev (m @ put_le32 cnt)"
  define fd where "fd = cr_answer e (t @ [?K]) ?A"
  define h where "h = hash_message e fd ?x (t @ [?K, ?A])"
  have f: "bt_crypto_sign_att e (Some c) (rev key) m m_len cnt t =
      (if cr_answer e t ?K < 0 then (None, t @ [?K]) else if fd < 0 then (None, t @ [?K, ?A])
       else (map_option (\<lambda>out. take 12 (drop 4 (swap_buf (memcpy_at out 8 (put_be32 cnt)) key 16))) (fst h), snd h))"
    unfolding bt_crypto_sign_att_def Let_def option.case msg k s
    by (cases "fst h") (simp_all add: alg_new_def cr_call_def fd_def h_def case_prod_unfold)
  have "fst (bt_crypto_sign_att e (Some c) (rev key) m m_len cnt t) = Some (put_le32 cnt @ rev (take 8 (cmac key ?x)))"
    if w: "kernel_ciphers e ecb cmac"
  proof -
    have a: "\<not> cr_answer e u c' < 0" "cr_answer e u (Cr_Read f 16) = 16"
        "cr_data e (u @ [Cr_Set_Key f key', Cr_Accept f, Cr_Send f' x]) = cmac key' x" "length (cmac key ?x) = 16"
      for u c' f f' key' x using w by (simp_all add: kernel_ciphers_def not_less)
    have h: "fst h = Some (cmac key ?x)"
      using a(4) by (simp add: h_def hash_message_def cr_read_def cr_call_def a(1-3) del: rev_append)
    have "memcpy_at (cmac key ?x) 8 (put_be32 cnt) = take 8 (cmac key ?x) @ put_be32 cnt @ drop 12 (cmac key ?x)"
      by (simp add: memcpy_at_def)
    then have "swap_buf (memcpy_at (cmac key ?x) 8 (put_be32 cnt)) key 16 =
        rev (drop 12 (cmac key ?x)) @ put_le32 cnt @ rev (take 8 (cmac key ?x))"
      using a(4) assms(1) by (simp add: swap_buf_rev rev_put_be32)
    with a(1) h a(4) show ?thesis unfolding f fd_def by simp
  qed
  moreover have "\<exists>s. snd (bt_crypto_sign_att e (Some c) (rev key) m m_len cnt t) = t @ s \<and> (s = [?K] \<or> s = [?K, ?A] \<and> fd < 0 \<or>
      \<not> fd < 0 \<and> (\<exists>x. s = [?K, ?A, Cr_Send fd x, Cr_Close fd] \<or> s = [?K, ?A, Cr_Send fd x, Cr_Read fd 16, Cr_Close fd]))"
    using hash_message_trace [of e fd ?x "t @ [?K, ?A]"] unfolding f h_def [symmetric] by auto
  ultimately show ?thesis unfolding Let_def fd_def [symmetric] by blast
qed

theorem crypto_sign_att_layout_witness:
  "fst (bt_crypto_sign_att sample_ciphers (Some sample_crypto) (rev (replicate 16 1)) [0xD2, 0x03, 0x00] 3 1 []) =
     Some (put_le32 1 @ rev (take 8 (toy_cipher (replicate 16 1) (rev ([0xD2, 0x03, 0x00] @ put_le32 1)))))"
  using crypto_sign_att_layout [of "replicate 16 1" "[0xD2, 0x03, 0x00]" 3 sample_ciphers toy_cipher toy_cipher sample_crypto 1 "[]"]
    sample_ciphers_work by simp

end
