(* ===== verification/Service.thy ===== *)
theory Service
  imports Server
begin

text \<open>
  The thread of \<^verbatim>\<open>src/server.c\<close> that advertises, listens, serves one connection and starts again, and
  the process around it in \<^verbatim>\<open>src/main.c\<close>: sequences of calls to the Bluetooth stack and the kernel,
  recorded in a trace, with the answer to each call an argument. The library functions of the HCI
  library are calls. Printing is left out.
\<close>

section \<open>Calls\<close>

record adv_parameters =
  ap_min_interval :: u16
  ap_max_interval :: u16
  ap_chan_map :: u8
  ap_advtype :: u8

datatype svc_call =
    Hci_Get_Route | Hci_Open_Dev int | Hci_Close_Dev int | Hci_Set_Filter int | Hci_Send_Cmd int u16 u16 bytes
  | Hci_Read_Event int | Hci_Req_Adv_Parameters int adv_parameters nat | Hci_Req_Adv_Enable int u8 nat
  | Sk_Socket | Sk_Bind int u16 | Sk_Security int int | Sk_Listen int int | Sk_Select int nat | Sk_Accept int | Sk_Close int
  | Pt_Sigmask_Unblock | Pt_Sigaction

type_synonym svc_trace = "svc_call list"

text \<open>
  One connection: what the kernel says while the server is created and destroyed, and the events
  of the main loop, those of one wait together.
\<close>

type_synonym clk_batch = "clk_input list"

record session =
  ss_kernel :: clk_kernel
  ss_sock :: sock_info
  ss_crypto :: bool
  ss_batches :: "clk_batch list"
  ss_end_kernel :: clk_kernel

text \<open>The answers, the flag \<^verbatim>\<open>bail\<close> that a signal may set at any time, and the connections.\<close>

record svc_env =
  sv_answer :: "svc_trace \<Rightarrow> svc_call \<Rightarrow> int"
  sv_readable :: "svc_trace \<Rightarrow> bool"
  sv_bail :: "svc_trace \<Rightarrow> bool"
  sv_session :: "svc_trace \<Rightarrow> session"

definition svc :: "svc_env \<Rightarrow> svc_call \<Rightarrow> svc_trace \<Rightarrow> int \<times> svc_trace" where
  "svc e c t = (sv_answer e t c, t @ [c])"

definition svc_do :: "svc_env \<Rightarrow> svc_call \<Rightarrow> svc_trace \<Rightarrow> svc_trace" where
  "svc_do e c t = snd (svc e c t)"

section \<open>Advertising\<close>

definition adv_cmd1 :: bytes where
  "adv_cmd1 = [0x1E, 0x02, 0x01, 0x1A, 0x1A, 0xFF, 0x4C, 0x00, 0x02, 0x15, 0xE2,
     0x0A, 0x39, 0xF4, 0x73, 0xF5, 0x4B, 0xC4, 0xA1, 0x2F, 0x17, 0xD1, 0xAD, 0x07, 0xA9, 0x61,
     0x00, 0x00, 0x00, 0x00, 0xC8, 0x00]"

definition adv_cmd2 :: bytes where
  "adv_cmd2 = [0x0c, 0x0a, 0x09] @ map of_char ''Wallclock'' @ replicate 20 0x00"

definition adv_params :: adv_parameters where
  "adv_params = \<lparr>ap_min_interval = 0x0800, ap_max_interval = 0x0800, ap_chan_map = 7, ap_advtype = 0\<rparr>"

text \<open>The calls up to the label \<^verbatim>\<open>fail\<close>, with the value of \<^verbatim>\<open>rc\<close> there.\<close>

definition advert_calls :: "svc_env \<Rightarrow> int \<Rightarrow> svc_trace \<Rightarrow> int \<times> svc_trace" where
  "advert_calls e dd t =
     (case svc e (Hci_Set_Filter dd) t of (r1, t1) \<Rightarrow> if r1 < 0 then (- 1, t1) else
      (case svc e (Hci_Send_Cmd dd 8 8 adv_cmd1) t1 of (r2, t2) \<Rightarrow> if r2 < 0 then (- 1, t2) else
       (case svc e (Hci_Read_Event dd) t2 of (r3, t3) \<Rightarrow> if r3 < 0 then (- 1, t3) else
        (case svc e (Hci_Send_Cmd dd 8 9 adv_cmd2) t3 of (r4, t4) \<Rightarrow> if r4 < 0 then (- 1, t4) else
         (case svc e (Hci_Read_Event dd) t4 of (r5, t5) \<Rightarrow> if r5 < 0 then (- 1, t5) else
          (case svc e (Hci_Req_Adv_Parameters dd adv_params 500) t5 of (r6, t6) \<Rightarrow> if r6 < 0 then (- 1, t6) else
             svc e (Hci_Req_Adv_Enable dd 1 1000) t6))))))"

text \<open>\<open>None\<close>: the process exits.\<close>

definition restart_advert :: "svc_env \<Rightarrow> svc_trace \<Rightarrow> int option \<times> svc_trace" where
  "restart_advert e t =
     (case svc e Hci_Get_Route t of (dev_id, t1) \<Rightarrow>
        (case svc e (Hci_Open_Dev dev_id) t1 of (dd, t2) \<Rightarrow>
           if dd < 0 then (None, t2)
           else (case advert_calls e dd t2 of (rc, t3) \<Rightarrow> (Some rc, svc_do e (Hci_Close_Dev dd) t3))))"

section \<open>Listening\<close>

definition ATT_CID :: u16 where "ATT_CID = 4"
definition BT_SECURITY_LOW :: int where "BT_SECURITY_LOW = 1"

text \<open>The calls on the listening socket up to the label \<^verbatim>\<open>fail\<close>, with the value of \<^verbatim>\<open>nsk\<close> there.\<close>

definition listen_calls :: "svc_env \<Rightarrow> int \<Rightarrow> svc_trace \<Rightarrow> int \<times> svc_trace" where
  "listen_calls e sk t =
     (case svc e (Sk_Bind sk ATT_CID) t of (r1, t1) \<Rightarrow> if r1 < 0 then (- 1, t1) else
      (case svc e (Sk_Security sk BT_SECURITY_LOW) t1 of (r2, t2) \<Rightarrow> if r2 < 0 then (- 1, t2) else
       (case svc e (Sk_Listen sk 0) t2 of (r3, t3) \<Rightarrow> if r3 < 0 then (- 1, t3) else
        (case svc e (Sk_Select sk 90) t3 of (rc, t4) \<Rightarrow>
           if rc < 0 then (- 1, t4)
           else if rc = 0 then (- 1, t4)
           else if sv_readable e t3 then svc e (Sk_Accept sk) t4
           else (- 1, t4)))))"

definition l2cap_le_att_listen_and_accept :: "svc_env \<Rightarrow> svc_trace \<Rightarrow> int \<times> svc_trace" where
  "l2cap_le_att_listen_and_accept e t =
     (case svc e Sk_Socket t of (sk, t1) \<Rightarrow>
        if sk < 0 then (- 1, t1)
        else (case listen_calls e sk t1 of (nsk, t2) \<Rightarrow> (nsk, svc_do e (Sk_Close sk) t2)))"

section \<open>Serving a connection\<close>

text \<open>
  The loop ends after the wait in which \<^verbatim>\<open>mainloop_quit\<close> was called, and at once when the process exits.
  \<open>None\<close>: it still waits when there are no more events.
\<close>

definition clk_run_batch :: "clk_batch \<Rightarrow> server \<Rightarrow> server" where
  "clk_run_batch b w = fold (\<lambda>ev w. if exited w then w else clk_do ev w) b w"

primrec clk_loop :: "clk_batch list \<Rightarrow> server \<Rightarrow> server option" where
  "clk_loop [] w = (if quitting w \<or> exited w then Some w else None)"
| "clk_loop (b # bs) w = (if quitting w \<or> exited w then Some w else clk_loop bs (clk_run_batch b w))"

text \<open>The global variables outlive a connection; \<open>old\<close> holds their values.\<close>

definition keep_globals :: "server \<Rightarrow> server \<Rightarrow> server" where
  "keep_globals old w = w\<lparr>gLastPollTime := gLastPollTime old, gPollInterval := gPollInterval old, gDelta := gDelta old,
     gVbat := gVbat old, gMatch := gMatch old, gPollCount := gPollCount old, gTimeouts := gTimeouts old,
     gFaceTime := gFaceTime old, lastActivity := lastActivity old\<rparr>"

text \<open>The object of the connection, once destroyed, has closed the descriptor when it was told to.\<close>

definition io_closed_fd :: "svc_env \<Rightarrow> int \<Rightarrow> server \<Rightarrow> svc_trace \<Rightarrow> svc_trace" where
  "io_closed_fd e fd w t = (if io_close w \<and> \<not> att_io w then svc_do e (Sk_Close fd) t else t)"

text \<open>How the service of a connection ends, and what holds the global variables afterwards.\<close>

datatype svc_result = Svc_Return int | Svc_Exit | Svc_Wait

definition gatt_service :: "svc_env \<Rightarrow> int \<Rightarrow> server \<Rightarrow> svc_trace \<Rightarrow> svc_result \<times> server \<times> svc_trace" where
  "gatt_service e fd old t =
     (let s = sv_session e t
      in case server_create (ss_kernel s) (ss_sock s) (ss_crypto s) (gFaceTime old) fd 0 of
           (True, Some w) \<Rightarrow>
             (case clk_loop (ss_batches s) (keep_globals old w) of
                None \<Rightarrow> (Svc_Wait, old, t)
              | Some w1 \<Rightarrow>
                  if exited w1 then (Svc_Exit, w1, t)
                  else (let w2 = server_destroy (ss_end_kernel s) w1 in (Svc_Return 0, w2, io_closed_fd e fd w2 t)))
         | (_, Some w) \<Rightarrow> if exited w then (Svc_Exit, w, t) else (Svc_Return 1, old, svc_do e (Sk_Close fd) (io_closed_fd e fd w t))
         | (_, None) \<Rightarrow> (Svc_Return 1, old, svc_do e (Sk_Close fd) t))"

section \<open>The thread\<close>

text \<open>The thread runs, or the process has exited, or the thread waits in the loop of a connection for ever.\<close>

datatype svc_status = Running | Exited | Waiting

record service =
  sw_trace :: svc_trace
  sw_dd :: int
  sw_fd :: int
  sw_server :: server
  sw_status :: svc_status

text \<open>The part of an iteration after advertising has started.\<close>

definition serve_once :: "svc_env \<Rightarrow> service \<Rightarrow> service" where
  "serve_once e w =
     (case svc e Hci_Get_Route (sw_trace w) of (dev_id, t1) \<Rightarrow>
        (case svc e (Hci_Open_Dev dev_id) t1 of (dd, t2) \<Rightarrow>
           if dd < 0 then w\<lparr>sw_trace := t2, sw_dd := dd, sw_status := Exited\<rparr>
           else (case l2cap_le_att_listen_and_accept e t2 of (fd, t3) \<Rightarrow>
             if fd \<ge> 0
             then (case gatt_service e fd (sw_server w) t3 of
                 (Svc_Return rc, v, t4) \<Rightarrow>
                   w\<lparr>sw_trace := svc_do e (Hci_Close_Dev dd) (svc_do e (Sk_Close fd) t4), sw_dd := dd, sw_fd := fd, sw_server := v\<rparr>
               | (Svc_Exit, v, t4) \<Rightarrow> w\<lparr>sw_trace := t4, sw_dd := dd, sw_fd := fd, sw_server := v, sw_status := Exited\<rparr>
               | (Svc_Wait, v, t4) \<Rightarrow> w\<lparr>sw_trace := t4, sw_dd := dd, sw_fd := fd, sw_server := v, sw_status := Waiting\<rparr>)
             else w\<lparr>sw_trace := svc_do e (Hci_Close_Dev dd) t3, sw_dd := dd, sw_fd := fd\<rparr>)))"

definition thread_step :: "svc_env \<Rightarrow> service \<Rightarrow> service" where
  "thread_step e w =
     (case restart_advert e (sw_trace w) of
        (None, t) \<Rightarrow> w\<lparr>sw_trace := t, sw_status := Exited\<rparr>
      | (Some rc, t) \<Rightarrow> if rc < 0 then w\<lparr>sw_trace := t\<rparr> else serve_once e (w\<lparr>sw_trace := t\<rparr>))"

partial_function (option) thread_loop :: "svc_env \<Rightarrow> service \<Rightarrow> service option" where
  "thread_loop e w =
     (if sw_status w \<noteq> Running then Some w else if sv_bail e (sw_trace w) then Some w else thread_loop e (thread_step e w))"

definition server_thread :: "svc_env \<Rightarrow> service \<Rightarrow> service option" where
  "server_thread e w =
     (case svc e Pt_Sigmask_Unblock (sw_trace w) of (rc, t1) \<Rightarrow>
        if rc \<noteq> 0 then Some (w\<lparr>sw_trace := t1\<rparr>)
        else map_option
               (\<lambda>v. if sw_status v \<noteq> Running then v
                    else v\<lparr>sw_trace := svc_do e (Hci_Close_Dev (sw_dd v)) (svc_do e (Sk_Close (sw_fd v)) (sw_trace v))\<rparr>)
               (thread_loop e (w\<lparr>sw_trace := svc_do e Pt_Sigaction t1\<rparr>)))"

section \<open>The process\<close>

datatype main_call = Mn_Block_Signals | Mn_Create_Thread | Mn_Unblock_Term | Mn_Sigaction_Term | Mn_Sigaction_Int | Mn_Notify_Ready | Mn_Join

text \<open>
  The exit status, the calls made and the face time the thread finds. \<open>ans\<close> is the result of a
  call; the face time is set before the thread is created.
\<close>

definition main_calls :: "(main_call \<Rightarrow> int) \<Rightarrow> int \<times> main_call list" where
  "main_calls ans =
     (if ans Mn_Block_Signals \<noteq> 0 then (1, [Mn_Block_Signals])
      else if ans Mn_Create_Thread \<noteq> 0 then (1, [Mn_Block_Signals, Mn_Create_Thread])
      else if ans Mn_Unblock_Term \<noteq> 0 then (1, [Mn_Block_Signals, Mn_Create_Thread, Mn_Unblock_Term])
      else (if ans Mn_Join \<noteq> 0 then 1 else 0,
            [Mn_Block_Signals, Mn_Create_Thread, Mn_Unblock_Term, Mn_Sigaction_Term, Mn_Sigaction_Int, Mn_Notify_Ready, Mn_Join]))"

definition main_args :: "clk_kernel \<Rightarrow> string list \<Rightarrow> u64 option" where
  "main_args K argv =
     (if length argv \<ge> 3 \<and> argv ! 1 = ''-s'' then get_clock_face_time K (argv ! 2) else Some 0)"

definition clock_main :: "clk_kernel \<Rightarrow> (main_call \<Rightarrow> int) \<Rightarrow> string list \<Rightarrow> int \<times> main_call list \<times> u64" where
  "clock_main K ans argv = (case main_args K argv of None \<Rightarrow> (1, [], 0)
     | Some face \<Rightarrow> (case main_calls ans of (status, calls) \<Rightarrow> (status, calls, face)))"

end
