(* ===== verification/Service_Props.thy ===== *)
theory Service_Props
  imports Service Server_Db Loops
begin

text \<open>
  The whole program: one connection keeps the invariants of all layers, the connections one after
  the other keep the global variables in range, and which descriptors the thread closes.
\<close>

section \<open>One connection\<close>

text \<open>Identifiers of armed timeouts are not given out again.\<close>

fun batch_fresh :: "clk_batch \<Rightarrow> server \<Rightarrow> bool" where
  "batch_fresh [] w = True"
| "batch_fresh (ev # evs) w = ((exited w \<or> fresh_timeout (snd ev) w) \<and> batch_fresh evs (if exited w then w else clk_do ev w))"

fun loop_fresh :: "clk_batch list \<Rightarrow> server \<Rightarrow> bool" where
  "loop_fresh [] w = True"
| "loop_fresh (b # bs) w = (batch_fresh b w \<and> loop_fresh bs (clk_run_batch b w))"

lemma clk_do_att_ok: "att_ok w \<Longrightarrow> fresh_timeout (snd ev) w \<Longrightarrow> att_ok (clk_do ev w)"
  using clk_run_att_ok [of w "[ev]"] by simp

lemma clk_do_inv: "clk_inv w \<Longrightarrow> clk_inv (clk_do ev w)"
  using clk_run_inv [of w "[ev]"] by simp

lemma clk_run_batch_inv: "clk_inv w \<Longrightarrow> clk_inv (clk_run_batch b w)"
  unfolding clk_run_batch_def by (induction b arbitrary: w) (simp_all add: clk_do_inv)

lemma clk_run_batch_att_ok: "att_ok w \<Longrightarrow> batch_fresh b w \<Longrightarrow> att_ok (clk_run_batch b w)"
  unfolding clk_run_batch_def by (induction b arbitrary: w) (simp_all add: clk_do_att_ok split: if_splits)

lemma clk_loop_inv: "clk_loop bs w = Some w' \<Longrightarrow> clk_inv w \<Longrightarrow> clk_inv w'"
  by (induction bs arbitrary: w) (auto simp: clk_run_batch_inv split: if_splits)

lemma clk_loop_att_ok: "clk_loop bs w = Some w' \<Longrightarrow> att_ok w \<Longrightarrow> loop_fresh bs w \<Longrightarrow> att_ok w'"
  by (induction bs arbitrary: w) (auto simp: clk_run_batch_att_ok split: if_splits)

text \<open>The ranges of the values a clock reports.\<close>

definition clock_ranges :: "server \<Rightarrow> bool" where
  "clock_ranges w \<longleftrightarrow> unat (gVbat w) < 4096 \<and> (gPollInterval w = 0 \<or> (\<exists>i < 16. gPollInterval w = 2 ^ i))"

lemma keep_globals_inv: "clk_inv w \<Longrightarrow> clock_ranges old \<Longrightarrow> clk_inv (keep_globals old w)"
  by (simp add: clk_inv_def gs_inv_def clock_ranges_def keep_globals_def)

lemma keep_globals_att_ok: "att_ok (keep_globals old w) = att_ok w"
  by (rule att_ok_more) (simp add: keep_globals_def bt_att.defs)

lemma clk_inv_ranges: "clk_inv w \<Longrightarrow> clock_ranges w"
  by (simp add: clk_inv_def clock_ranges_def)



section \<open>The end of a connection\<close>

text \<open>A relation that does not look at the prepare queue is kept by the completions that come late, and to the end.\<close>

locale gs_free_queue = gs_relation k R for k :: "('c, 'v, 'z) gs_env_of" and R +
  assumes any_queue: "R w (w\<lparr>prep_queue := q\<rparr>)"
begin

lemma any_queue_rel: "R u w \<Longrightarrow> R u (w\<lparr>gs_fault := c, prep_queue := q\<rparr>)"
  using rel_trans [OF fault_rel any_queue] .

lemma store_any_rel: "store_prep_data k h off val w = (b, w') \<Longrightarrow> R u w \<Longrightarrow> R u w'"
  by (auto simp: store_prep_data_def prep_data_new_def Let_def intro!: any_queue_rel fault_rel
      dest: reliable_rel split: option.splits if_splits prod.splits bool.splits)

lemma prep_complete_any_rel: "R u w \<Longrightarrow> R u (prep_write_complete_cb k d p e w)"
  by (auto simp: prep_write_complete_cb_def Let_def intro!: step_rel split: prod.splits dest: store_any_rel)

lemma db_event_rel: "R u w \<Longrightarrow> R u (gs_db_event k ev w)"
  by (auto simp: gs_db_event_def exec_write_complete_cb_def read_by_type_complete_rel read_complete_rel
      read_multiple_complete_rel write_complete_rel prep_complete_any_rel exec_next_rel
      split: db_event.split db_cb.split db_ud.split)

lemma ref_rel: "R w (w\<lparr>gs_db := (gs_db w)\<lparr>db_ref_count := n\<rparr>\<rparr>)"
  by (rule rel_db) (simp add: db_inv_def db_wf_def db_clients_def)

lemma events_rel: "R u w \<Longrightarrow> R u (fold (gs_db_event k) evs w)"
  by (induction evs arbitrary: w) (simp_all add: db_event_rel)

lemma db_unref_rel: "R u w \<Longrightarrow> R u (gs_db_unref k w)"
  by (auto simp: gs_db_unref_def gatt_db_unref_def Let_def
      intro!: events_rel rel_trans [OF _ ref_rel] split: if_splits)

end

lemma ranges_frame:
  assumes "bt_att.more w' = bt_att.more w"
  shows "clock_ranges w \<longrightarrow> clock_ranges w'"
proof -
  have "gVbat w' = gVbat w \<and> gPollInterval w' = gPollInterval w" using assms by (cases w; cases w') simp
  then show ?thesis by (simp add: clock_ranges_def)
qed

lemma bt_att_send_more: "bt_att.more (snd (bt_att_send env opc pdu len cb ud d w)) = bt_att.more w"
  using bt_att_send_shape [of env opc pdu len cb ud d w] by (auto simp: att_frame)

lemma ranges_send: "clock_ranges (snd (bt_att_send env opc pdu len cb ud d w)) = clock_ranges w"
proof -
  have "bt_att.more (snd (bt_att_send env opc pdu len cb ud d w)) = bt_att.more w"
    by (rule bt_att_send_more)
  from ranges_frame [OF this] ranges_frame [OF this [symmetric]] show ?thesis by blast
qed

lemma ranges_data_cb: "clock_ranges (clock_read_data_cb K buf w) = clock_ranges w"
  unfolding clock_read_data_cb_def bt_gatt_server_send_notification_def Let_def
  by (metis (no_types, lifting) case_prod_unfold snd_conv ranges_send)

lemma ranges_fields [simp]:
  "clock_ranges (w\<lparr>exited := a\<rparr>) = clock_ranges w" "clock_ranges (w\<lparr>gs_fault := b\<rparr>) = clock_ranges w"
  "clock_ranges (w\<lparr>lastActivity := h\<rparr>) = clock_ranges w" "clock_ranges (w\<lparr>gFaceTime := x\<rparr>) = clock_ranges w"
  "clock_ranges (w\<lparr>svc_chngd_enabled := a\<rparr>) = clock_ranges w" "clock_ranges (w\<lparr>clock_read_data_notify := a\<rparr>) = clock_ranges w"
  by (simp_all add: clock_ranges_def)

lemma clock_command_ranges: "clock_ranges w \<Longrightarrow> clock_ranges (clock_command K cmd w)"
proof -
  assume "clock_ranges w"
  moreover have "clock_ranges (w\<lparr>gPollInterval := push_bit (unat (sts_interval (msg_sts_of m))) 1, gDelta := b,
      gVbat := sts_battery (msg_sts_of m), gMatch := d, gLastPollTime := e, gPollCount := f, gTimeouts := g\<rparr>)" for m b d e f g
    using sts_ranges [of m] by (auto simp: clock_ranges_def push_bit_of_1)
  ultimately show ?thesis
    by (simp add: clock_command_def Let_def ranges_data_cb)
qed

lemma clk_write_ranges: "clock_ranges w \<Longrightarrow> clock_ranges (snd (clk_write K f p i off v opc ud w))"
  by (cases f) (auto simp: clk_write_def gatt_svc_chngd_ccc_write_cb_def clock_read_data_ccc_write_cb_def
      clock_write_data_write_cb_def clock_command_ranges split: option.split)

interpretation clk_ranges_gs: gs_free_queue "clk_env K" "\<lambda>w w'. clock_ranges w \<longrightarrow> clock_ranges w'" for K
  by unfold_locales
    (auto simp: clk_write_ranges ranges_send gs_send_simps clk_att_base_def bt_att_set_mtu_def,
     auto simp: clock_ranges_def)

interpretation clk_ranges_att: att_relation "gs_att_env (clk_env K)" "\<lambda>w w'. clock_ranges w \<longrightarrow> clock_ranges w'" for K
proof
  fix w w' w1 w2 w3 :: server and f opc rsp ud p err i
  show "bt_att.more w' = bt_att.more w \<Longrightarrow> att_mtu w' = att_mtu w \<or> 23 \<le> unat (att_mtu w') \<Longrightarrow> clock_ranges w \<longrightarrow> clock_ranges w'"
    by (rule ranges_frame)
  show "clock_ranges w1 \<longrightarrow> clock_ranges w2 \<Longrightarrow> clock_ranges w2 \<longrightarrow> clock_ranges w3 \<Longrightarrow> clock_ranges w1 \<longrightarrow> clock_ranges w3" by blast
  show "clock_ranges w \<longrightarrow> clock_ranges (e_notify (gs_att_env (clk_env K)) f opc p ud w)"
    using clk_ranges_gs.notify_rel [of w K f opc p ud] by (simp add: gs_att_env_def)
qed (simp_all add: gs_att_env_def gs_response_def gs_destroy_def conf_cb_def destroy_ind_data_def clk_att_base_def
    clock_ranges_def split: att_cb.split option.split att_ud.split clk_fn.split)

lemma free_ranges: "clock_ranges v \<Longrightarrow> clock_ranges (bt_gatt_server_free (clk_env K) v)"
proof -
  assume v: "clock_ranges v"
  define u where "u = fold (\<lambda>i x. snd (bt_att_unregister (gs_att_env (clk_env K)) i x)) (gs_ids v) v"
  have "clock_ranges u"
    using clk_ranges_att.fold_rel [of v v "\<lambda>i x. snd (bt_att_unregister (gs_att_env (clk_env K)) i x)" "gs_ids v"]
      clk_ranges_att.unregister_rel(1) v by (simp add: u_def)
  then have "clock_ranges (u\<lparr>prep_queue := [], gs_freed := True\<rparr>)" by (simp add: clock_ranges_def)
  moreover have "(case gs_debug_destroy v of None \<Rightarrow> v | Some d \<Rightarrow> ge_destroy (clk_env K) d (gs_debug_data v) v) = v"
    by (simp split: option.split)
  ultimately show ?thesis
    using clk_ranges_att.unref_rel clk_ranges_gs.db_unref_rel
    by (simp only: bt_gatt_server_free_def Let_def u_def) blast
qed

lemma destroy_ranges: "clock_ranges w \<Longrightarrow> clock_ranges (server_destroy K w)"
proof -
  assume "clock_ranges w"
  then have "clock_ranges (w\<lparr>gs_ref_count := n\<rparr>)" for n by (simp add: clock_ranges_def)
  then have "clock_ranges (bt_gatt_server_unref (clk_env K) w)"
    using free_ranges by (simp add: bt_gatt_server_unref_def Let_def)
  then show ?thesis using clk_ranges_gs.db_unref_rel by (simp add: server_destroy_def)
qed

section \<open>One connection after the other\<close>

lemma no_bearer:
  "(bt_att_new k crypto fd False :: (clk_fn att_cb, (clk_fn, unit) att_ud) bt_att option) = None \<Longrightarrow> server_create K k crypto face fd mtu = (False, None)"
  by (simp add: server_create_def)

lemma created_inv:
  assumes "server_create K k crypto face fd mtu = (True, Some w)"
  shows "clk_inv w"
proof -
  have "(bt_att_new k crypto fd False :: (clk_fn att_cb, (clk_fn, unit) att_ud) bt_att option) \<noteq> None"
    using assms no_bearer by (metis option.distinct(1) prod.inject)
  then obtain att where "(bt_att_new k crypto fd False :: (clk_fn att_cb, (clk_fn, unit) att_ud) bt_att option) = Some att"
    by blast
  from created_ready [OF this assms] show ?thesis by (auto simp: clk_ready_def)
qed

lemma gatt_service_ranges:
  assumes "gatt_service e fd old t = (r, v, t')" and "clock_ranges old" and "r \<noteq> Svc_Exit"
  shows "clock_ranges v"
proof -
  let ?s = "sv_session e t"
  obtain ok sv where c: "server_create (ss_kernel ?s) (ss_sock ?s) (ss_crypto ?s) (gFaceTime old) fd 0 = (ok, sv)" by fastforce
  show ?thesis
  proof (cases "ok \<and> sv \<noteq> None")
    case True
    then obtain w where w: "server_create (ss_kernel ?s) (ss_sock ?s) (ss_crypto ?s) (gFaceTime old) fd 0 = (True, Some w)"
      using c by auto
    have "clk_inv w1" if "clk_loop (ss_batches ?s) (keep_globals old w) = Some w1" for w1
      by (rule clk_loop_inv [OF that keep_globals_inv [OF created_inv [OF w] assms(2)]])
    with assms w clk_inv_ranges destroy_ranges show ?thesis
      by (auto simp: gatt_service_def Let_def split: if_splits option.splits)
  next
    case False
    with assms c show ?thesis by (auto simp: gatt_service_def Let_def split: bool.splits option.splits if_splits)
  qed
qed

lemma serve_once_ranges: "clock_ranges (sw_server w) \<Longrightarrow> sw_status (serve_once e w) = Running \<Longrightarrow> clock_ranges (sw_server (serve_once e w))"
  using gatt_service_ranges
  by (fastforce simp: serve_once_def split: prod.splits if_splits svc_result.splits)

lemma thread_step_ranges:
  "clock_ranges (sw_server w) \<Longrightarrow> sw_status (thread_step e w) = Running \<Longrightarrow> clock_ranges (sw_server (thread_step e w))"
  using serve_once_ranges
  by (fastforce simp: thread_step_def split: prod.splits if_splits option.splits)

section \<open>The descriptors of the thread\<close>

text \<open>
  The descriptors that are open after a trace, and whether one was closed that was not open.
\<close>

definition fd_call :: "int \<Rightarrow> svc_call \<Rightarrow> int list \<times> bool \<Rightarrow> int list \<times> bool" where
  "fd_call r c s = (case s of (os, bad) \<Rightarrow> (case c of
     Hci_Open_Dev i \<Rightarrow> (if r < 0 then os else r # os, bad)
   | Sk_Socket \<Rightarrow> (if r < 0 then os else r # os, bad)
   | Sk_Accept i \<Rightarrow> (if r < 0 then os else r # os, bad)
   | Hci_Close_Dev i \<Rightarrow> (remove1 i os, bad \<or> i \<notin> set os)
   | Sk_Close i \<Rightarrow> (remove1 i os, bad \<or> i \<notin> set os)
   | _ \<Rightarrow> (os, bad)))"

definition fds :: "svc_env \<Rightarrow> svc_trace \<Rightarrow> int list \<times> bool" where
  "fds e t = snd (fold (\<lambda>c (u, s). (u @ [c], fd_call (sv_answer e u c) c s)) t ([], [], False))"

lemma fds_snoc [simp]: "fds e (t @ [c]) = fd_call (sv_answer e t c) c (fds e t)"
proof -
  have "fst (fold (\<lambda>c (u, s). (u @ [c], fd_call (sv_answer e u c) c s)) t ([], [], False)) = t"
    by (induction t rule: rev_induct) (simp_all add: case_prod_unfold)
  then show ?thesis by (simp add: fds_def case_prod_unfold)
qed

lemma fds_do [simp]: "fds e (svc_do e c t) = fd_call (sv_answer e t c) c (fds e t)"
  by (simp add: svc_do_def svc_def)

lemma fd_calls:
  "fd_call r (Hci_Open_Dev i) s = (if r < 0 then s else (r # fst s, snd s))"
  "fd_call r Sk_Socket s = (if r < 0 then s else (r # fst s, snd s))"
  "fd_call r (Sk_Accept i) s = (if r < 0 then s else (r # fst s, snd s))"
  "fd_call r (Hci_Close_Dev i) s = (remove1 i (fst s), snd s \<or> i \<notin> set (fst s))"
  "fd_call r (Sk_Close i) s = (remove1 i (fst s), snd s \<or> i \<notin> set (fst s))"
  "fd_call r Hci_Get_Route s = s" "fd_call r (Hci_Set_Filter i) s = s" "fd_call r (Hci_Send_Cmd i a b c) s = s"
  "fd_call r (Hci_Read_Event i) s = s" "fd_call r (Hci_Req_Adv_Parameters i p n) s = s"
  "fd_call r (Hci_Req_Adv_Enable i q n) s = s" "fd_call r (Sk_Bind i d) s = s" "fd_call r (Sk_Security i j) s = s"
  "fd_call r (Sk_Listen i j) s = s" "fd_call r (Sk_Select i n) s = s" "fd_call r Pt_Sigmask_Unblock s = s"
  "fd_call r Pt_Sigaction s = s"
  by (simp_all add: fd_call_def case_prod_unfold)

lemma svc_fds: "svc e c t = (r, t') \<Longrightarrow> fds e t' = fd_call r c (fds e t)"
  by (auto simp: svc_def)

lemma fds_do_fst: "svc_do e c t = t' \<Longrightarrow> fds e t' = fd_call (sv_answer e t c) c (fds e t)"
  by auto

lemma advert_calls_fds: "advert_calls e dd t = (rc, t') \<Longrightarrow> fds e t' = fds e t"
  by (auto simp: advert_calls_def fd_calls split: if_splits prod.splits dest!: svc_fds)

lemma restart_advert_fds: "restart_advert e t = (Some rc, t') \<Longrightarrow> fds e t' = fds e t"
  by (auto simp: restart_advert_def fd_calls split: if_splits prod.splits
      dest!: advert_calls_fds svc_fds)

lemma listen_calls_fds:
  "listen_calls e sk t = (nsk, t') \<Longrightarrow> fds e t' = (if nsk < 0 then fds e t else (nsk # fst (fds e t), snd (fds e t)))"
  by (auto simp: listen_calls_def fd_calls split: if_splits prod.splits dest!: svc_fds)

lemma listen_fds:
  "l2cap_le_att_listen_and_accept e t = (nsk, t') \<Longrightarrow>
     fds e t' = (if nsk < 0 then fds e t else (nsk # fst (fds e t), snd (fds e t)))"
  by (auto simp: l2cap_le_att_listen_and_accept_def fd_calls split: if_splits prod.splits
      dest!: listen_calls_fds svc_fds)

text \<open>The descriptor of the connection was closed before the thread closes it.\<close>

definition closed_early :: "int \<Rightarrow> server \<Rightarrow> bool" where
  "closed_early rc v \<longleftrightarrow> rc \<noteq> 0 \<or> io_close v \<and> \<not> att_io v"

lemma gatt_service_fds:
  assumes "gatt_service e fd old t = (Svc_Return rc, v, t')" and "fds e t = (fd # os, bad)" and "fd \<notin> set os"
  shows "fds e t' = (fd # os, bad) \<and> \<not> closed_early rc v \<or>
    fst (fds e t') = os \<and> closed_early rc v"
proof -
  have io: "fds e (io_closed_fd e fd x t) = (if io_close x \<and> \<not> att_io x then os else fd # os, bad)" for x
    using assms(2) by (simp add: io_closed_fd_def fd_calls)
  have "fst (fds e (svc_do e (Sk_Close fd) (io_closed_fd e fd x t))) = os"
      "fst (fds e (svc_do e (Sk_Close fd) t)) = os" for x
    using io [of x] assms(2,3) by (simp_all add: fd_calls remove1_idem)
  then show ?thesis
    using assms(1) io
    by (auto simp: gatt_service_def Let_def closed_early_def split: prod.splits bool.splits option.splits if_splits)
qed

text \<open>One connection: nothing stays open, and its descriptor is closed again if it was closed early.\<close>

lemma serve_once_fds:
  assumes "svc e Hci_Get_Route (sw_trace w) = (dev, t1)" and "svc e (Hci_Open_Dev dev) t1 = (dd, t2)" and "0 \<le> dd"
    and "l2cap_le_att_listen_and_accept e t2 = (fd, t3)" and "0 \<le> fd"
    and "gatt_service e fd (sw_server w) t3 = (Svc_Return rc, v, t4)" and "fd \<notin> set (fst (fds e t2))"
  shows "fst (fds e (sw_trace (serve_once e w))) = fst (fds e (sw_trace w)) \<and>
    (closed_early rc v \<longrightarrow> snd (fds e (sw_trace (serve_once e w))))"
proof -
  let ?os = "fst (fds e (sw_trace w))"
  have t2: "fds e t2 = (dd # ?os, snd (fds e (sw_trace w)))"
    using svc_fds [OF assms(1)] svc_fds [OF assms(2)] assms(3) by (simp add: fd_calls)
  have t3: "fds e t3 = (fd # dd # ?os, snd (fds e (sw_trace w)))"
    using listen_fds [OF assms(4)] assms(5) t2 by simp
  have "fd \<notin> set (dd # ?os)" using assms(7) t2 by simp
  from gatt_service_fds [OF assms(6) t3 this] this show ?thesis
    using assms by (auto simp: serve_once_def fd_calls remove1_idem)
qed

lemma serve_once_no_connection:
  assumes "svc e Hci_Get_Route (sw_trace w) = (dev, t1)" and "svc e (Hci_Open_Dev dev) t1 = (dd, t2)" and "0 \<le> dd"
    and "l2cap_le_att_listen_and_accept e t2 = (fd, t3)" and "fd < 0"
  shows "fds e (sw_trace (serve_once e w)) = fds e (sw_trace w)"
  using assms svc_fds [OF assms(1)] svc_fds [OF assms(2)] listen_fds [OF assms(4)]
  by (simp add: serve_once_def fd_calls)

text \<open>The kernel gives a descriptor that is not open.\<close>

definition fresh_accept :: "svc_env \<Rightarrow> bool" where
  "fresh_accept e \<longleftrightarrow> (\<forall>t fd t'. l2cap_le_att_listen_and_accept e t = (fd, t') \<longrightarrow> fd \<notin> set (fst (fds e t)))"

lemma serve_once_keeps:
  assumes "fresh_accept e" and "sw_status (serve_once e w) = Running"
  shows "fst (fds e (sw_trace (serve_once e w))) = fst (fds e (sw_trace w))"
proof -
  obtain dev t1 dd t2 fd t3 where s: "svc e Hci_Get_Route (sw_trace w) = (dev, t1)" "svc e (Hci_Open_Dev dev) t1 = (dd, t2)"
      "l2cap_le_att_listen_and_accept e t2 = (fd, t3)" by fastforce
  have dd: "0 \<le> dd" using assms(2) s by (auto simp: serve_once_def split: if_splits)
  show ?thesis
  proof (cases "0 \<le> fd")
    case True
    obtain r v t4 where g: "gatt_service e fd (sw_server w) t3 = (r, v, t4)" by (metis prod_cases3)
    then obtain rc where "r = Svc_Return rc"
      using assms(2) s dd True by (cases r) (auto simp: serve_once_def)
    with serve_once_fds [OF s(1,2) dd s(3) True] g s(3) assms(1) show ?thesis by (auto simp: fresh_accept_def)
  next
    case False
    then show ?thesis using serve_once_no_connection [OF s(1,2) dd s(3)] by simp
  qed
qed

lemma thread_step_keeps:
  assumes "fresh_accept e" and "sw_status (thread_step e w) = Running"
  shows "fst (fds e (sw_trace (thread_step e w))) = fst (fds e (sw_trace w))"
proof -
  obtain r t where r: "restart_advert e (sw_trace w) = (r, t)" by fastforce
  with assms(2) obtain rc where rc: "r = Some rc" by (cases r) (simp_all add: thread_step_def)
  then have t: "fds e t = fds e (sw_trace w)" using restart_advert_fds r by blast
  show ?thesis
  proof (cases "rc < 0")
    case False
    then have "thread_step e w = serve_once e (w\<lparr>sw_trace := t\<rparr>)" by (simp add: thread_step_def r rc)
    with serve_once_keeps [OF assms(1), of "w\<lparr>sw_trace := t\<rparr>"] assms(2) t show ?thesis by simp
  qed (simp add: thread_step_def r rc t)
qed

section \<open>The loop of the thread\<close>

definition thread_stops :: "svc_env \<Rightarrow> service \<Rightarrow> bool" where
  "thread_stops e w \<longleftrightarrow> sw_status w \<noteq> Running \<or> sv_bail e (sw_trace w)"

lemma thread_loop_ends:
  assumes "thread_loop e w = Some v"
  shows "\<exists>n. thread_stops e ((thread_step e ^^ n) w)"
  using assms
proof (rule thread_loop.raw_induct [rotated])
  fix f :: "svc_env \<Rightarrow> service \<Rightarrow> service option" and e w v
  assume 1: "\<And>e w v. f e w = Some v \<Longrightarrow> \<exists>n. thread_stops e ((thread_step e ^^ n) w)"
    "(if sw_status w \<noteq> Running then Some w else if sv_bail e (sw_trace w) then Some w else f e (thread_step e w)) = Some v"
  show "\<exists>n. thread_stops e ((thread_step e ^^ n) w)"
  proof (cases "thread_stops e w")
    case False
    with 1 obtain n where "thread_stops e ((thread_step e ^^ n) (thread_step e w))" unfolding thread_stops_def by metis
    then show ?thesis by (intro exI [of _ "Suc n"]) (simp add: funpow_swap1)
  qed (auto intro: exI [of _ 0])
qed

interpretation thread_steps: stepping_loop "thread_step e" "thread_stops e" "thread_loop e" for e
proof
  fix w v
  show "thread_stops e w \<Longrightarrow> thread_loop e w = Some w"
    by (subst thread_loop.simps) (auto simp: thread_stops_def)
  show "\<not> thread_stops e w \<Longrightarrow> thread_loop e w = thread_loop e (thread_step e w)"
    by (subst thread_loop.simps) (auto simp: thread_stops_def)
  show "thread_loop e w = Some v \<Longrightarrow> \<exists>n. thread_stops e ((thread_step e ^^ n) w)" by (rule thread_loop_ends)
qed

lemma thread_loop_keeps:
  assumes "fresh_accept e" and "thread_loop e w = Some v" and "sw_status v = Running" and "clock_ranges (sw_server w)"
  shows "fst (fds e (sw_trace v)) = fst (fds e (sw_trace w)) \<and> clock_ranges (sw_server v)"
proof -
  let ?P = "\<lambda>v. sw_status v = Running \<longrightarrow> fst (fds e (sw_trace v)) = fst (fds e (sw_trace w)) \<and> clock_ranges (sw_server v)"
  have "?P (thread_step e u)" if "\<not> thread_stops e u" "?P u" for u
    using that thread_step_keeps [OF assms(1), of u] thread_step_ranges [of u e] by (auto simp: thread_stops_def)
  moreover have "?P w" using assms(4) by blast
  ultimately have "?P v" using thread_steps.invariant [OF assms(2), of ?P] by blast
  with assms(3) show ?thesis by blast
qed



text \<open>A kernel that gives two devices, a listening socket and no connection before the signal.\<close>

definition sample_svc :: svc_env where
  "sample_svc = \<lparr>sv_answer = \<lambda>t c. case c of Sk_Accept i \<Rightarrow> 3 | Sk_Socket \<Rightarrow> 5 | Hci_Open_Dev i \<Rightarrow> 4 | Sk_Select i n \<Rightarrow> 1 | _ \<Rightarrow> 0,
     sv_readable = \<lambda>t. True, sv_bail = \<lambda>t. 2 < length t,
     sv_session = \<lambda>t. \<lparr>ss_kernel = sample_kernel, ss_sock = local_socket, ss_crypto = False,
       ss_batches = [[(sample_kernel, In_Disconnect 0)]], ss_end_kernel = sample_kernel\<rparr>\<rparr>"

definition sample_service :: service where
  "sample_service = \<lparr>sw_trace = [], sw_dd = 0, sw_fd = 0, sw_server = sample_server, sw_status = Running\<rparr>"

lemma fds_nonneg: "i \<in> set (fst (fds e t)) \<Longrightarrow> 0 \<le> i"
proof (induction t rule: rev_induct)
  case (snoc c t)
  then show ?case
    by (cases c) (auto simp: fd_calls split: if_splits dest: notin_set_remove1 in_set_remove1 [THEN iffD1] set_remove1_subset [THEN subsetD])
qed (simp add: fds_def)

definition idle_svc :: svc_env where
  "idle_svc = sample_svc\<lparr>sv_answer := \<lambda>t c. case c of Sk_Socket \<Rightarrow> 5 | Hci_Open_Dev i \<Rightarrow> 4 | _ \<Rightarrow> 0\<rparr>"


text \<open>
  Claim C32. A connection that the peer ends: its descriptor is closed by the IO object, which was told to,
  and closed again by the thread, when it may belong to something else; so too when the server
  could not be created. The thread leaves no descriptor open.
\<close>

theorem connection_closed_twice:
  assumes "svc e Hci_Get_Route (sw_trace w) = (dev, t1)" and "svc e (Hci_Open_Dev dev) t1 = (dd, t2)" and "0 \<le> dd"
    and "l2cap_le_att_listen_and_accept e t2 = (fd, t3)" and "0 \<le> fd" and "fd \<notin> set (fst (fds e t2))"
    and "gatt_service e fd (sw_server w) t3 = (Svc_Return rc, v, t4)" and "rc \<noteq> 0 \<or> io_close v \<and> \<not> att_io v"
  shows "fst (fds e (sw_trace (serve_once e w))) = fst (fds e (sw_trace w)) \<and>
    snd (fds e (sw_trace (serve_once e w))) \<and>
    (\<exists>t. sw_trace (serve_once e w) = t @ [Sk_Close fd, Hci_Close_Dev dd] \<and> fd \<notin> set (fst (fds e t)))"
proof -
  have t3: "fds e t3 = (fd # fst (fds e t2), snd (fds e t2))" using listen_fds [OF assms(4)] assms(5) by simp
  have "sw_trace (serve_once e w) = t4 @ [Sk_Close fd, Hci_Close_Dev dd]"
    using assms by (simp add: serve_once_def svc_do_def svc_def [of _ "Sk_Close _"] svc_def [of _ "Hci_Close_Dev _"])
  moreover have "fd \<notin> set (fst (fds e t4))"
    using gatt_service_fds [OF assms(7) t3 assms(6)] assms(6,8) by (auto simp: closed_early_def)
  ultimately show ?thesis
    using serve_once_fds [OF assms(1-5,7,6)] assms(8) by (auto simp: closed_early_def)
qed

theorem connection_closed_twice_witness:
  "snd (fds sample_svc (sw_trace (serve_once sample_svc sample_service)))"
proof -
  let ?t2 = "[Hci_Get_Route, Hci_Open_Dev 0]"
  have l: "l2cap_le_att_listen_and_accept sample_svc ?t2 =
      (3, ?t2 @ [Sk_Socket, Sk_Bind 5 4, Sk_Security 5 1, Sk_Listen 5 0, Sk_Select 5 90, Sk_Accept 5, Sk_Close 5])"
    by code_simp
  have "case gatt_service sample_svc 3 sample_server (snd (l2cap_le_att_listen_and_accept sample_svc ?t2)) of
      (Svc_Return rc, v, t4) \<Rightarrow> rc \<noteq> 0 \<or> io_close v \<and> \<not> att_io v | _ \<Rightarrow> False"
    by code_simp
  then obtain rc v t4 where g: "gatt_service sample_svc 3 sample_server (snd (l2cap_le_att_listen_and_accept sample_svc ?t2)) =
      (Svc_Return rc, v, t4)" "rc \<noteq> 0 \<or> io_close v \<and> \<not> att_io v"
    by (auto split: prod.splits svc_result.splits)
  have "3 \<notin> set (fst (fds sample_svc ?t2))" by code_simp
  with connection_closed_twice [of sample_svc sample_service 0 "[Hci_Get_Route]" 4 ?t2 3, OF _ _ _ _ _ _ _ g(2)] g(1) l
  show ?thesis by (simp add: sample_service_def sample_svc_def svc_def)
qed

end
