(* ===== verification/Command_Props.thy ===== *)
theory Command_Props
  imports Clock_Props Server_Props Gatt_Server_Props
begin

text \<open>
  The clock's commands from the socket to the global variables: what the layers between the
  bearer and the command interpreter make of a write command.
\<close>

section \<open>The command interpreter sees little of the state\<close>

definition clock_vars where
  "clock_vars (w :: server) = ((gPollInterval w, gDelta w, gVbat w, gMatch w, gLastPollTime w),
     (gPollCount w, gTimeouts w, gFaceTime w, lastActivity w, exited w))"

text \<open>Two states alike for the interpreter: the variables, the outgoing queue and what a notification needs.\<close>

definition alike :: "server \<Rightarrow> server \<Rightarrow> bool" where
  "alike u w \<longleftrightarrow> can_answer u \<and> can_answer w \<and> clock_vars u = clock_vars w \<and> outbox u = outbox w \<and>
     clock_read_data_handle u = clock_read_data_handle w"

lemma alike_data_cb:
  assumes "alike u w" and "length buf \<le> 20"
  shows "clock_vars (clock_read_data_cb K buf u) = clock_vars (clock_read_data_cb K buf w)"
    "outbox (clock_read_data_cb K buf u) = outbox (clock_read_data_cb K buf w)"
proof -
  have c: "can_answer u" "can_answer w" using assms(1) by (simp_all add: alike_def)
  note d = data_cb_outbox [OF c(1) assms(2), of K] data_cb_outbox [OF c(2) assms(2), of K]
  show "clock_vars (clock_read_data_cb K buf u) = clock_vars (clock_read_data_cb K buf w)"
    using assms(1) more_eq_clock [OF d(2)] more_eq_clock [OF d(4)] by (simp add: alike_def clock_vars_def)
  show "outbox (clock_read_data_cb K buf u) = outbox (clock_read_data_cb K buf w)"
    using assms(1) d(1,3) by (simp add: alike_def)
qed

lemma clock_vars_cong:
  assumes "clock_vars v = clock_vars v'"
  shows "clock_vars (v\<lparr>lastActivity := x\<rparr>) = clock_vars (v'\<lparr>lastActivity := x\<rparr>)"
    "clock_vars (v\<lparr>gFaceTime := y\<rparr>) = clock_vars (v'\<lparr>gFaceTime := y\<rparr>)"
    "clock_vars (v\<lparr>exited := z\<rparr>) = clock_vars (v'\<lparr>exited := z\<rparr>)"
    "gFaceTime v = gFaceTime v'" "gLastPollTime v = gLastPollTime v'" "gPollCount v = gPollCount v'"
  using assms by (simp_all add: clock_vars_def)

lemma alike_status:
  assumes "alike u w" and "u1 = u\<lparr>gPollInterval := a, gDelta := b, gVbat := c, gMatch := d, gLastPollTime := e,
      gPollCount := gPollCount u + 1, gTimeouts := g\<rparr>"
    and "w1 = w\<lparr>gPollInterval := a, gDelta := b, gVbat := c, gMatch := d, gLastPollTime := e,
      gPollCount := gPollCount w + 1, gTimeouts := g\<rparr>"
  shows "alike u1 w1"
  using assms by (simp add: alike_def clock_vars_def)

lemma alike_command:
  assumes "alike u w"
  shows "clock_vars (clock_command K cmd u) = clock_vars (clock_command K cmd w) \<and>
    outbox (clock_command K cmd u) = outbox (clock_command K cmd w)"
proof -
  have v: "clock_vars u = clock_vars w" "outbox u = outbox w" using assms by (simp_all add: alike_def)
  note g = clock_vars_cong [OF v(1)]
  note n = alike_data_cb [OF assms, of "msg_u64_bytes x y" for x y, simplified]
  define m where "m = take (min (length cmd) sizeof_msg) cmd @ drop (min (length cmd) sizeof_msg) (ck_stack K)"
  let ?S = "\<lambda>v. v\<lparr>gPollInterval := push_bit (unat (sts_interval (msg_sts_of m))) 1, gDelta := sts_offset (msg_sts_of m),
      gVbat := sts_battery (msg_sts_of m), gMatch := sts_match (msg_sts_of m), gLastPollTime := ck_time K,
      gPollCount := gPollCount v + 1, gTimeouts := ucast (sts_timeouts (msg_sts_of m))\<rparr> :: server"
  let ?N = "\<lambda>v. clock_read_data_cb K [SRVR_ACCEPT_DONE] (?S v)"
  note s = alike_data_cb [OF alike_status [OF assms refl refl], of "[SRVR_ACCEPT_DONE]", simplified]
  consider "m ! 0 = CLK_REQ_FACE_TIME" | "m ! 0 \<noteq> CLK_REQ_FACE_TIME" "m ! 0 = CLK_REQ_TIME"
    | "m ! 0 \<noteq> CLK_REQ_FACE_TIME" "m ! 0 \<noteq> CLK_REQ_TIME" "m ! 0 = CLK_ACCEPT_STATUS"
    | "m ! 0 \<noteq> CLK_REQ_FACE_TIME" "m ! 0 \<noteq> CLK_REQ_TIME" "m ! 0 \<noteq> CLK_ACCEPT_STATUS" by blast
  then show ?thesis
  proof cases
    case 1
    then have "clock_command K cmd x = (if gFaceTime x \<noteq> 0 then
        (clock_read_data_cb K (msg_u64_bytes SRVR_ACCEPT_FACE_TIME (gFaceTime x)) x)\<lparr>lastActivity := ck_time K\<rparr>
        else x\<lparr>exited := True\<rparr>)" for x
      unfolding clock_command_def Let_def m_def by simp
    then show ?thesis using g n v clock_vars_cong(1) [OF n(1)] by simp
  next
    case 2
    then have "clock_command K cmd x = clock_read_data_cb K (msg_u64_bytes SRVR_ACCEPT_TIME (get_time K)) x" for x
      unfolding clock_command_def Let_def m_def by simp
    then show ?thesis using n by simp
  next
    case 3
    then have "clock_command K cmd x = (let w3 = (?N x)\<lparr>lastActivity := gLastPollTime (?N x)\<rparr>
        in if gFaceTime w3 \<noteq> 0 then w3\<lparr>gFaceTime := 0\<rparr> else w3)" for x
      unfolding clock_command_def Let_def m_def [symmetric] by simp
    moreover have "clock_vars (?N u) = clock_vars (?N w)" "outbox (?N u) = outbox (?N w)" by (rule s)+
    ultimately show ?thesis
      unfolding Let_def using clock_vars_cong [of "?N u" "?N w"] clock_vars_cong(2) [OF clock_vars_cong(1) [of "?N u" "?N w"]]
      by simp
  next
    case 4
    then have "clock_command K cmd x = x" for x unfolding clock_command_def Let_def m_def [symmetric] by simp
    then show ?thesis using v by simp
  qed
qed

section \<open>The table of the database is not changed by pending operations\<close>

definition clk_row_of :: "(clk_fn db_cb, unit db_ud) gatt_db_attribute \<Rightarrow> clk_row" where
  "clk_row_of a = (attr_handle a, attr_uuid a, permissions a, attr_value a, Option.bind (read_func a) db_client, Option.bind (write_func a) db_client)"

lemma slot_rows: "map (\<lambda>(p, a). r a) (concat (map (slot_attr x) (enumerate n xs))) =
  map the (filter (\<lambda>v. v \<noteq> None) (map (map_option r) xs))"
proof (induction xs arbitrary: n)
  case (Cons y ys)
  then show ?case by (cases y) (simp_all add: slot_attr_def)
qed simp

lemma db_rows_services:
  "db_rows db = concat (map (\<lambda>s. map the (filter (\<lambda>v. v \<noteq> None) (map (map_option clk_row_of) (attributes s)))) (filter active (services db)))"
proof -
  have "db_rows db = map (\<lambda>(p, a). clk_row_of a) (active_attrs db)" by (simp add: db_rows_def clk_row_of_def)
  also have "\<dots> = concat (map (\<lambda>s. map (\<lambda>(p, a). clk_row_of a) (svc_attrs s)) (filter active (services db)))"
    by (simp add: active_attrs_def map_concat o_def)
  finally show ?thesis by (simp add: svc_attrs_def slot_rows)
qed

lemma concat_filter_map:
  assumes "\<And>s. R (g s) = R s" and "\<And>s. P (g s) = P s"
  shows "concat (map R (filter P (map g ss))) = concat (map R (filter P ss))"
  by (induction ss) (simp_all add: assms)

lemma db_rows_upd_attr:
  assumes "\<And>a. clk_row_of (f a) = clk_row_of a"
  shows "db_rows (upd_attr p f db) = db_rows db"
proof -
  let ?g = "\<lambda>s. if svc_addr s = fst p then s\<lparr>attributes := (attributes s)[snd p := map_option f (attributes s ! snd p)]\<rparr> else s"
  let ?R = "\<lambda>s. map the (filter (\<lambda>v. v \<noteq> None) (map (map_option clk_row_of) (attributes s)))"
  have "map_option clk_row_of (map_option f x) = map_option clk_row_of x" for x
    using assms by (cases x) simp_all
  then have "?R (?g s) = ?R s" for s
    by (simp add: map_update) (metis list_update_id map_update)
  moreover have "active (?g s) = active s" for s by simp
  ultimately have "concat (map ?R (filter active (map ?g ss))) = concat (map ?R (filter active ss))" for ss
    by (rule concat_filter_map)
  moreover have "services (upd_attr p f db) = map ?g (services db)" by (simp add: upd_attr_def upd_service_def)
  ultimately show ?thesis by (simp only: db_rows_services)
qed

section \<open>A write command to the attribute of the clock\<close>

lemma clock_command_db: "gs_db (clock_command K cmd w) = gs_db w"
proof -
  have "gs_db (clock_read_data_cb K buf v) = gs_db v" for buf v
    using more_eq_server [OF send_more]
    unfolding clock_read_data_cb_def bt_gatt_server_send_notification_def Let_def case_prod_unfold snd_conv by blast
  then show ?thesis by (simp add: clock_command_def Let_def)
qed

lemma write_command_runs:
  assumes "can_answer w" and "\<not> pending_write_op w" and "gatt_db_get_attribute (gs_db w) h = Some p"
    and "attr_at (gs_db w) p = Some a" and "check_permissions (clk_env K) p write_mask w = 0"
    and "write_func a = Some (Db_Client_Cb Clock_Write_Data_Write_Cb)" and "cmd \<noteq> []" and "length cmd \<le> 100"
  shows "\<exists>db1 db2. write_cb (clk_env K) BT_ATT_OP_WRITE_CMD (put_le16 h @ cmd) w =
      (clock_command K cmd (w\<lparr>pending_write_op := True, gs_db := db1\<rparr>))\<lparr>gs_db := db2, pending_write_op := False\<rparr> \<and>
    db_inv db1 \<and> db_rows db2 = db_rows (gs_db w)"
proof -
  let ?w = "w\<lparr>pending_write_op := True\<rparr>"
  define i where "i = write_id a + 1"
  define pend :: "(clk_fn db_cb, unit db_ud) pending" where "pend = \<lparr>p_id = i, p_timeout_id = ge_tid (clk_env K) ?w, p_func = Write_Complete_Cb, p_user_data = Ud_Write \<lparr>wo_opcode = BT_ATT_OP_WRITE_CMD\<rparr>\<rparr>"
  define db1 where "db1 = upd_attr p (\<lambda>a. a\<lparr>write_id := i, pending_writes := lq_push_tail pend (pending_writes a)\<rparr>) (gs_db w)"
  let ?c = "clock_command K cmd (w\<lparr>pending_write_op := True, gs_db := db1\<rparr>)"
  define db2 where "db2 = snd (snd (gatt_db_attribute_write_result db1 (Some p) i 0))"
  have r: "gatt_db_attribute_write (ge_junk (clk_env K) ?w) (ge_tid (clk_env K) ?w) (gs_db w) (Some p) 0 (Some cmd) BT_ATT_OP_WRITE_CMD
      (Some Write_Complete_Cb) (Ud_Write \<lparr>wo_opcode = BT_ATT_OP_WRITE_CMD\<rparr>) =
      (True, [Call_Write (Db_Client_Cb Clock_Write_Data_Write_Cb) p i 0 (Some cmd) BT_ATT_OP_WRITE_CMD (attr_user_data a)], db1)"
    using assms(4,6) by (simp add: gatt_db_attribute_write_def i_def pend_def db1_def Let_def)
  have inv: "db_inv db1" by (rule write_db_inv [OF _ r]) (use assms(1) in \<open>simp add: can_answer_def\<close>)
  have gs: "gs_db ?c = db1" using clock_command_db by simp
  have rows1: "db_rows db1 = db_rows (gs_db w)" unfolding db1_def by (rule db_rows_upd_attr) (simp add: clk_row_of_def)
  have "db_rows db2 = db_rows db1"
    unfolding db2_def gatt_db_attribute_write_result_def
    by (auto split: option.split prod.split intro: db_rows_upd_attr simp: clk_row_of_def)
  moreover have "get_le16 (put_le16 h @ cmd) 0 = h" by (rule get_put_le16_0)
  then have "write_cb (clk_env K) BT_ATT_OP_WRITE_CMD (put_le16 h @ cmd) w = async_write_op_destroy (?c\<lparr>gs_db := db2\<rparr>)"
    using assms(2-5,7,8) r gs
    by (simp add: write_cb_def Let_def gs_attribute_write_def run_write_event_def write_complete_cb_def clk_write_def
        clock_write_data_write_cb_def db2_def db_client_def)
  moreover have "\<not> gs_freed ?c"
    using clock_command_silent [of "w\<lparr>pending_write_op := True, gs_db := db1\<rparr>" K cmd] assms(1)
    by (simp add: silent_def can_answer_def)
  ultimately show ?thesis using inv rows1 by (auto simp: async_write_op_destroy_def)
qed

section \<open>The attribute of the clock in the table\<close>

lemma clock_attribute:
  assumes "db_inv (gs_db w)" and "db_rows (gs_db w) = clock_table"
  shows "\<exists>p a. gatt_db_get_attribute (gs_db w) 18 = Some p \<and> attr_at (gs_db w) p = Some a \<and>
    permissions a = BT_ATT_PERM_WRITE \<and> write_func a = Some (Db_Client_Cb Clock_Write_Data_Write_Cb)"
proof -
  have wf: "db_wf (gs_db w)" using assms(1) by (simp add: db_inv_def)
  have "(18, uuid_of_string UUID_I2C_WRITE_DATA, BT_ATT_PERM_WRITE, None, None, Some Clock_Write_Data_Write_Cb) \<in> set (db_rows (gs_db w))"
    unfolding assms(2) clock_table_def by simp
  then obtain p a where a: "(p, a) \<in> set (active_attrs (gs_db w))" "attr_handle a = 18" "permissions a = BT_ATT_PERM_WRITE"
      "Option.bind (write_func a) db_client = Some Clock_Write_Data_Write_Cb"
    by (auto simp: db_rows_def)
  have "write_func a = Some (Db_Client_Cb Clock_Write_Data_Write_Cb)"
    using a(4) by (auto simp: db_client_def split: db_cb.splits bind_splits)
  with a in_active_attrs [OF wf] get_attribute_iff [OF wf] show ?thesis by blast
qed

lemma write_permitted:
  assumes "attr_at (gs_db w) p = Some a" and "permissions a = BT_ATT_PERM_WRITE" and "0 \<le> fst (bt_att_get_security (ge_att k) w)"
  shows "check_permissions k p write_mask w = 0"
proof -
  have perm: "gatt_db_attribute_get_permissions (gs_db w) (Some p) = BT_ATT_PERM_WRITE"
    using assms(1,2) by (simp add: gatt_db_attribute_get_permissions_def)
  have bits: "write_mask AND BT_ATT_PERM_READ = 0" "BT_ATT_PERM_WRITE AND write_mask = BT_ATT_PERM_WRITE"
      "BT_ATT_PERM_WRITE AND BT_ATT_PERM_WRITE = BT_ATT_PERM_WRITE" "BT_ATT_PERM_WRITE \<noteq> 0"
      "BT_ATT_PERM_WRITE AND BT_ATT_PERM_SECURE = 0" "BT_ATT_PERM_WRITE AND BT_ATT_PERM_AUTHEN = 0"
      "BT_ATT_PERM_WRITE AND BT_ATT_PERM_ENCRYPT = 0"
    by code_simp+
  show ?thesis using assms(3) by (simp add: check_permissions_def Let_def perm bits case_prod_unfold)
qed

section \<open>From the socket to the variables\<close>

lemma write_command_handler:
  assumes "registered w" and "0 < att_ref_count w"
    and "can_read_data (gs_att_env (clk_env K)) (Some (BT_ATT_OP_WRITE_CMD # p)) w = (b, w')"
  shows "b \<and> w' = (write_cb (clk_env K) BT_ATT_OP_WRITE_CMD p (w\<lparr>att_ref_count := att_ref_count w + 2\<rparr>))\<lparr>att_ref_count := att_ref_count w\<rparr> \<and>
    same_bearer w w'"
proof -
  let ?u = "w\<lparr>att_ref_count := att_ref_count w + 1\<rparr>"
  have r: "registered ?u" "0 < att_ref_count ?u" using assms(1,2) by (simp_all add: registered_def)
  have o: "BT_ATT_OP_WRITE_CMD AND ATT_OP_SIGNED_MASK = 0"
      "BT_ATT_OP_WRITE_CMD \<in> fst ` set (gs_handler_table :: (u8 \<times> clk_fn att_cb) list)"
    by (simp_all add: gs_handler_table_def att_opcodes ATT_OP_SIGNED_MASK_def)
  have f: "f = Write_Cb" if "(BT_ATT_OP_WRITE_CMD, f) \<in> set (gs_handler_table :: (u8 \<times> clk_fn att_cb) list)" for f
    using that by (simp add: gs_handler_table_def att_opcodes)
  have e: "att_ref_count ?u = att_ref_count w + 1" "?u\<lparr>att_ref_count := att_ref_count w + 1 + 1\<rparr> = w\<lparr>att_ref_count := att_ref_count w + 2\<rparr>"
    by (cases w; simp)+
  from handle_notify_runs [OF r o, of K p, unfolded e(1), unfolded e(2)] obtain f ud v where
      h: "(BT_ATT_OP_WRITE_CMD, f) \<in> set gs_handler_table"
      "v = gs_notify (clk_env K) f BT_ATT_OP_WRITE_CMD p ud (w\<lparr>att_ref_count := att_ref_count w + 2\<rparr>)"
      "att_handle_notify (gs_att_env (clk_env K)) BT_ATT_OP_WRITE_CMD p ?u = v\<lparr>att_ref_count := att_ref_count w + 1\<rparr>"
      "same_bearer ?u (v\<lparr>att_ref_count := att_ref_count w + 1\<rparr>)"
    by blast
  have t: "get_op_type BT_ATT_OP_WRITE_CMD = ATT_OP_TYPE_CMD" by code_simp
  have "b \<and> w' = v\<lparr>att_ref_count := att_ref_count w\<rparr>"
    using assms h(3) t
    by (simp add: can_read_data_def ATT_MIN_PDU_LEN_def bt_att_ref_def bt_att_unref_def Let_def)
  moreover have "v = write_cb (clk_env K) BT_ATT_OP_WRITE_CMD p (w\<lparr>att_ref_count := att_ref_count w + 2\<rparr>)"
    unfolding h(2) f [OF h(1)] by (simp add: gs_notify_def)
  ultimately show ?thesis using h(4) by (auto simp: same_bearer_def)
qed



end
