(* ===== verification/Att_Pdus.thy ===== *)
theory Att_Pdus
  imports Att_Inv
begin

text \<open>
  What is written to the socket: every PDU the bearer holds or has written satisfies a predicate, if all that
  its clients hand to it do. The locale \<open>att_typed\<close> carries an invariant that knows this over every event of
  the kernel.
\<close>

section \<open>The PDUs of a bearer\<close>

definition pdus :: "('f, 'u, 'z) bt_att_scheme \<Rightarrow> bytes set" where
  "pdus w = set (att_sent w) \<union> op_pdu ` (set (req_queue w) \<union> set (ind_queue w) \<union> set (write_queue w) \<union>
     set_option (pending_req w) \<union> set_option (pending_ind w))"

lemma created_pdu:
  assumes "create_att_send_op env opc pdu len cb ud d w = Some op" and "opc AND ATT_OP_SIGNED_MASK = 0"
  shows "op_pdu op = opc # (case pdu of None \<Rightarrow> [] | Some p \<Rightarrow> take (unat len) p)"
  using assms
  by (auto simp: create_att_send_op_def encode_pdu_def Let_def unat_eq_0 split: if_split_asm option.split)

lemma pdus_wakeup [simp]: "pdus (wakeup_writer w) = pdus w"
  by (simp add: pdus_def wakeup_writer_def)

lemma pdus_enqueue: "pdus (enqueue_op op w) = insert (op_pdu op) (pdus w)"
  by (cases "op_type op") (auto simp: pdus_def enqueue_op_def lq_push_tail_def)

lemma pdus_send:
  assumes "opc AND ATT_OP_SIGNED_MASK = 0"
  shows "pdus (snd (bt_att_send env opc pdu len cb ud d w)) \<subseteq>
    insert (opc # (case pdu of None \<Rightarrow> [] | Some p \<Rightarrow> take (unat len) p)) (pdus w)"
proof -
  have "pdus (w\<lparr>next_send_id := i\<rparr>) = pdus w" for i by (simp add: pdus_def)
  then show ?thesis
    using bt_att_send_shape [of env opc pdu len cb ud d w] created_pdu [OF _ assms]
    by (auto simp: pdus_enqueue)
qed

text \<open>The events that come from the kernel.\<close>

fun kernel_event :: "('f, 'u) att_input \<Rightarrow> bool" where
  "kernel_event (In_Read input) = True"
| "kernel_event (In_Write ret tid) = True"
| "kernel_event (In_Timeout i) = True"
| "kernel_event (In_Disconnect err) = True"
| "kernel_event _ = False"

section \<open>An invariant that types them\<close>

locale att_typed =
  fixes env :: "('f, 'u, ('f, 'u, 'z) bt_att_scheme) att_env"
    and T :: "bytes \<Rightarrow> bool"
    and J :: "('f, 'u, 'z) bt_att_scheme \<Rightarrow> bool"
  assumes typed: "J w \<Longrightarrow> p \<in> pdus w \<Longrightarrow> T p"
    and bearer: "J w \<Longrightarrow> bt_att.more w' = bt_att.more w \<Longrightarrow> att_mtu w' = att_mtu w \<Longrightarrow> (\<And>p. p \<in> pdus w' \<Longrightarrow> T p) \<Longrightarrow> J w'"
    and error_typed: "T (BT_ATT_OP_ERROR_RSP # opc # put_le16 h @ [e])"
    and response_inv: "J w \<Longrightarrow> J (e_response env f opc rsp ud w)"
    and notify_inv: "J w \<Longrightarrow> J (e_notify env f opc p ud w)"
    and destroy_inv: "J w \<Longrightarrow> J (e_destroy env f ud w)"
    and disconnect_inv: "J w \<Longrightarrow> J (e_disconnect env f err ud w)"
    and timeout_inv: "J w \<Longrightarrow> J (e_timeout env f i opc ud w)"
begin

lemma op_typed:
  assumes "J w"
  shows "op \<in> set (req_queue w) \<Longrightarrow> T (op_pdu op)" "op \<in> set (ind_queue w) \<Longrightarrow> T (op_pdu op)"
    "op \<in> set (write_queue w) \<Longrightarrow> T (op_pdu op)" "pending_req w = Some op \<Longrightarrow> T (op_pdu op)"
    "pending_ind w = Some op \<Longrightarrow> T (op_pdu op)"
  by (rule typed [OF assms]; simp add: pdus_def)+

lemma own: "J w \<Longrightarrow> bt_att.more w' = bt_att.more w \<Longrightarrow> att_mtu w' = att_mtu w \<Longrightarrow> pdus w' \<subseteq> pdus w \<Longrightarrow> J w'"
  using typed by (blast intro: bearer)

lemma own_fields:
  assumes "J w"
  shows "J (w\<lparr>in_req := b\<rparr>)" "J (w\<lparr>att_freed := b\<rparr>)" "J (w\<lparr>att_notify_list := n\<rparr>)" "J (w\<lparr>disconn_list := l\<rparr>)"
    "J (w\<lparr>att_ref_count := c\<rparr>)" "J (w\<lparr>io_sec_level := s\<rparr>)" "J (w\<lparr>io_writer := b\<rparr>)" "J (w\<lparr>att_timers := t\<rparr>)"
    "J (w\<lparr>pending_req := None\<rparr>)" "J (w\<lparr>pending_ind := None\<rparr>)"
    "J (w\<lparr>req_queue := []\<rparr>)" "J (w\<lparr>ind_queue := []\<rparr>)" "J (w\<lparr>write_queue := []\<rparr>)"
    "J (timeout_remove_att j w)" "J (wakeup_writer w)" "J (io_shutdown_att w)" "J (io_destroy_att w)"
    "J (bt_att_ref w)" "J (write_watch_destroy w)"
  using assms by (auto intro!: own [OF assms] simp: pdus_def timeout_remove_att_def io_shutdown_att_def io_destroy_att_def
      bt_att_ref_def write_watch_destroy_def att_frame)

text \<open>An operation that is put into a field is one the bearer had.\<close>

lemma op_fields:
  assumes "J w"
  shows "T (op_pdu op) \<Longrightarrow> J (w\<lparr>pending_req := Some op\<rparr>)" "T (op_pdu op) \<Longrightarrow> J (w\<lparr>pending_ind := Some op\<rparr>)"
    "T (op_pdu op) \<Longrightarrow> J (w\<lparr>att_sent := att_sent w @ [op_pdu op]\<rparr>)"
    "(\<And>op. op \<in> set q \<Longrightarrow> T (op_pdu op)) \<Longrightarrow> J (w\<lparr>req_queue := q\<rparr>)"
    "(\<And>op. op \<in> set q \<Longrightarrow> T (op_pdu op)) \<Longrightarrow> J (w\<lparr>ind_queue := q\<rparr>)"
    "(\<And>op. op \<in> set q \<Longrightarrow> T (op_pdu op)) \<Longrightarrow> J (w\<lparr>write_queue := q\<rparr>)"
  using typed [OF assms] by (auto intro!: bearer [OF assms] simp: pdus_def)

lemma send_inv:
  assumes "J w" and "opc AND ATT_OP_SIGNED_MASK = 0" and "T (opc # (case pdu of None \<Rightarrow> [] | Some p \<Rightarrow> take (unat len) p))"
  shows "J (snd (bt_att_send env' opc pdu len cb ud d w))"
proof (rule bearer [OF assms(1)])
  show "bt_att.more (snd (bt_att_send env' opc pdu len cb ud d w)) = bt_att.more w"
    "att_mtu (snd (bt_att_send env' opc pdu len cb ud d w)) = att_mtu w"
    using bt_att_send_shape [of env' opc pdu len cb ud d w] by (auto simp: att_frame)
  show "T p" if "p \<in> pdus (snd (bt_att_send env' opc pdu len cb ud d w))" for p
    using pdus_send [OF assms(2)] that typed [OF assms(1)] assms(3) by blast
qed

lemma not_supported_inv: "J w \<Longrightarrow> J (respond_not_supported env' opc w)"
  unfolding respond_not_supported_def
  by (rule send_inv) (use error_typed [of opc 0] in \<open>simp_all add: BT_ATT_OP_ERROR_RSP_def ATT_OP_SIGNED_MASK_def\<close>)

lemma calls:
  assumes "J w"
  shows "J (call_destroy env d ud w)" "J (destroy_att_send_op env op w)" "J (disc_att_send_op env op w)"
    "J (destroy_att_notify env n w)" "J (destroy_att_disconn env dc w)" "J (disconn_handler env err i w)"
proof -
  have d: "J (call_destroy env d ud v)" if "J v" for d ud v
    using that destroy_inv by (simp add: call_destroy_def split: option.split)
  then show "J (call_destroy env d ud w)" using assms by blast
  have s: "J (destroy_att_send_op env op v)" if "J v" for v
    using that by (auto simp: destroy_att_send_op_def intro!: d own_fields)
  then show "J (destroy_att_send_op env op w)" using assms by blast
  show "J (disc_att_send_op env op w)"
    using assms response_inv by (auto simp: disc_att_send_op_def intro!: s split: option.split)
  show "J (destroy_att_notify env n w)" "J (destroy_att_disconn env dc w)"
    using d assms by (simp_all add: destroy_att_notify_def destroy_att_disconn_def)
  show "J (disconn_handler env err i w)"
    using assms disconnect_inv by (auto simp: disconn_handler_def split: option.split)
qed

lemma fold_inv: "J w \<Longrightarrow> (\<And>x w. J w \<Longrightarrow> J (g x w)) \<Longrightarrow> J (fold g xs w)"
  by (induction xs arbitrary: w) auto

lemmas step_inv = own_fields calls response_inv notify_inv timeout_inv

lemma cancel_pending_inv: "J w \<Longrightarrow> J (cancel_pending_req env w)" "J w \<Longrightarrow> J (cancel_pending_ind env w)"
  by (auto simp: cancel_pending_req_def cancel_pending_ind_def cancel_att_send_op_def
      intro!: op_fields step_inv dest: op_typed split: option.split)

lemma cancel_all_inv: "J w \<Longrightarrow> J (bt_att_cancel_all env w)"
  by (auto simp: bt_att_cancel_all_def Let_def intro!: cancel_pending_inv fold_inv step_inv)

lemma unregister_all_inv: "J w \<Longrightarrow> J (bt_att_unregister_all env w)"
  by (auto simp: bt_att_unregister_all_def Let_def intro!: fold_inv step_inv)

lemma unref_inv: "J w \<Longrightarrow> J (bt_att_unref env w)"
  by (auto simp: bt_att_unref_def bt_att_free_def Let_def intro!: step_inv cancel_all_inv unregister_all_inv split: option.split)

lemma security_inv: "change_security env e w = (b, w') \<Longrightarrow> J w \<Longrightarrow> J w'"
  by (auto simp: change_security_def bt_att_set_security_def Let_def intro!: own_fields split: if_splits)

lemma finish_req_inv: "J w \<Longrightarrow> J (finish_req env op opc p w)"
  by (auto simp: finish_req_def Let_def intro!: step_inv split: option.split)

lemma error_rsp_inv:
  assumes "handle_error_rsp env p w = (b, opc, w')" and "J w" shows "J w'"
proof -
  have retry: "J (v\<lparr>pending_req := None, req_queue := lq_push_head (op\<lparr>op_timeout_id := 0\<rparr>) (req_queue v)\<rparr>)"
    if "J v" "T (op_pdu op)" for v op
  proof -
    have "J (v\<lparr>pending_req := None\<rparr>)" using that(1) by (rule own_fields)
    then have "J (v\<lparr>pending_req := None\<rparr>\<lparr>req_queue := lq_push_head (op\<lparr>op_timeout_id := 0\<rparr>) (req_queue v)\<rparr>)"
      by (rule op_fields(4)) (use that op_typed(1) [OF that(1)] in \<open>auto simp: lq_push_head_def\<close>)
    then show ?thesis by simp
  qed
  from assms show ?thesis
    by (auto simp: handle_error_rsp_def Let_def intro!: retry own_fields(14) op_typed(4) dest: security_inv
        split: option.splits if_splits prod.splits bool.splits)
qed

lemma handle_rsp_inv: "J w \<Longrightarrow> J (handle_rsp env opc p w)"
  by (auto simp: handle_rsp_def intro!: step_inv finish_req_inv dest: error_rsp_inv
      split: option.split prod.splits bool.splits if_splits)

lemma handle_conf_inv: "J w \<Longrightarrow> J (handle_conf env p w)"
  by (auto simp: handle_conf_def Let_def intro!: step_inv split: option.split)

lemma notify_loop_inv: "J w \<Longrightarrow> J (snd (notify_loop env opc p ns found w))"
  by (induction ns arbitrary: found w) (simp_all add: Let_def notify_inv)

lemma handle_notify_inv: "J w \<Longrightarrow> J (att_handle_notify env opc p w)"
proof -
  assume a: "J w"
  have "J v" if "notify_loop env opc q ns b (bt_att_ref w) = (found, v)" for q ns b found v
    using notify_loop_inv [of "bt_att_ref w" opc q ns b] that own_fields(18) [OF a] by simp
  with a show ?thesis
    by (auto simp: att_handle_notify_def Let_def intro!: unref_inv step_inv not_supported_inv split: prod.split)
qed

lemma can_read_inv: "J w \<Longrightarrow> J (snd (can_read_data env input w))"
  by (auto simp: can_read_data_def Let_def intro!: unref_inv handle_rsp_inv handle_conf_inv handle_notify_inv step_inv
      split: option.split att_op_type.split)

lemma pick_next_inv: "pick_next_send_op w = (Some op, w') \<Longrightarrow> J w \<Longrightarrow> J w' \<and> T (op_pdu op)"
  using op_typed [of w]
  by (auto simp: pick_next_send_op_def lq_pop_head_def intro!: op_fields split: prod.splits option.splits if_splits list.splits)

lemma can_write_inv: "can_write_data env ret tid w = (b, w') \<Longrightarrow> J w \<Longrightarrow> J w'"
proof -
  assume c: "can_write_data env ret tid w = (b, w')" and w: "J w"
  show "J w'"
  proof (cases "fst (pick_next_send_op w)")
    case None
    then show ?thesis using c w by (auto simp: can_write_data_def split: prod.splits)
  next
    case (Some op)
    then obtain v where p: "pick_next_send_op w = (Some op, v)" by (metis prod.collapse)
    then have v: "J v" "T (op_pdu op)" using pick_next_inv w by blast+
    let ?s = "v\<lparr>att_sent := att_sent v @ [op_pdu op]\<rparr>" and ?a = "op\<lparr>op_timeout_id := tid\<rparr>"
    have s: "J ?s" using op_fields(3) v by blast
    have "J (?s\<lparr>pending_req := Some ?a\<rparr>)" "J (?s\<lparr>pending_ind := Some ?a\<rparr>)"
      by (rule op_fields [OF s]; simp add: v)+
    with c p s v show ?thesis
      by (auto simp: can_write_data_def Let_def intro!: step_inv split: if_splits option.splits att_op_type.splits)
  qed
qed

theorem do_inv: "kernel_event i \<Longrightarrow> J w \<Longrightarrow> J (att_do env i w)"
proof (cases i)
  case (In_Write ret tid)
  then show "J w \<Longrightarrow> J (att_do env i w)"
    by (auto simp: att_write_event_def intro!: step_inv dest: can_write_inv split: prod.split bool.split)
next
  case (In_Timeout j)
  then show "J w \<Longrightarrow> J (att_do env i w)"
    by (auto simp: att_timeout_cb_def Let_def intro!: step_inv split: option.split prod.split)
next
  case (In_Disconnect err)
  then show "J w \<Longrightarrow> J (att_do env i w)"
    by (auto simp: disconnect_cb_def Let_def intro!: unref_inv unregister_all_inv fold_inv step_inv split: option.split)
qed (simp_all add: can_read_inv)

end

end
