(* ===== verification/Pdu_Props.thy ===== *)
theory Pdu_Props
  imports Att_Pdus Service_Props Clock_Props
begin

text \<open>
  The types of what goes over the air: from creation to disconnection every PDU that is queued or was written is an
  error response, a response with the parameters of its opcode, or a notification of the clock's read value that
  carries one of the server's messages.
\<close>

section \<open>Types of PDUs\<close>

definition server_msg :: "bytes \<Rightarrow> bool" where
  "server_msg m \<longleftrightarrow> m = [SRVR_ACCEPT_DONE] \<or> length m = 9 \<and> m ! 0 \<in> set [SRVR_ACCEPT_FACE_TIME, SRVR_ACCEPT_TIME]"

definition pdu_typed :: "u16 \<Rightarrow> bytes \<Rightarrow> bool" where
  "pdu_typed h p \<longleftrightarrow> (case p of [] \<Rightarrow> False
     | opc # b \<Rightarrow>
         if opc = BT_ATT_OP_ERROR_RSP then length b = 4
         else if opc = BT_ATT_OP_HANDLE_VAL_NOT then take 2 b = put_le16 h \<and> server_msg (drop 2 b)
         else opc \<noteq> 0 \<and> rsp_shape opc b)"

text \<open>The invariant: \<open>h\<close> is the handle of the read value.\<close>

definition clk_typed :: "u16 \<Rightarrow> server \<Rightarrow> bool" where
  "clk_typed h w \<longleftrightarrow> clk_inv w \<and> clock_read_data_handle w = h \<and> (\<forall>p \<in> pdus w. pdu_typed h p)"

lemma pdus_fields [simp]:
  "pdus (w\<lparr>gs_db := db\<rparr>) = pdus w" "pdus (w\<lparr>pending_read_op := a\<rparr>) = pdus w" "pdus (w\<lparr>pending_write_op := a\<rparr>) = pdus w"
  "pdus (w\<lparr>gs_fault := a\<rparr>) = pdus w" "pdus (w\<lparr>prep_queue := q\<rparr>) = pdus w" "pdus (w\<lparr>gs_mtu := m\<rparr>) = pdus w"
  "pdus (w\<lparr>gs_mtu := m, att_mtu := m'\<rparr>) = pdus w"
  by (simp_all add: pdus_def)

lemma pdus_clock_fields [simp]:
  fixes w :: server
  shows "pdus (w\<lparr>lastActivity := t\<rparr>) = pdus w" "pdus (w\<lparr>gFaceTime := x\<rparr>) = pdus w" "pdus (w\<lparr>exited := b\<rparr>) = pdus w"
    "pdus (w\<lparr>quitting := b\<rparr>) = pdus w" "pdus (w\<lparr>svc_chngd_enabled := b\<rparr>) = pdus w" "pdus (w\<lparr>clock_read_data_notify := b\<rparr>) = pdus w"
    "pdus (w\<lparr>gPollInterval := a1, gDelta := a2, gVbat := a3, gMatch := a4, gLastPollTime := a5, gPollCount := a6, gTimeouts := a7\<rparr>) = pdus w"
  by (simp_all add: pdus_def)

lemma typed_send:
  assumes "clk_typed h w" and "opc AND ATT_OP_SIGNED_MASK = 0"
    and "pdu_typed h (opc # (case pdu of None \<Rightarrow> [] | Some p \<Rightarrow> take (unat len) p))"
  shows "clk_typed h (snd (bt_att_send env opc pdu len cb ud d w))"
proof -
  have "clock_read_data_handle (snd (bt_att_send env opc pdu len cb ud d w)) = clock_read_data_handle w"
    by (rule more_eq_clock) (rule bt_att_send_more)
  with assms clk_inv_send [of env opc pdu len cb ud d w] pdus_send [OF assms(2), of env pdu len cb ud d w] show ?thesis
    unfolding clk_typed_def by blast
qed

lemma unknown_not_sent: "snd (bt_att_send env 0 pdu len cb ud d w) = w"
  by (simp add: bt_att_send_def create_att_send_op_def get_op_type_def att_opcode_type_table_def att_opcodes
      ATT_OP_CMD_MASK_def)

lemma response_opcodes: "rsp_shape opc b \<Longrightarrow> opc \<noteq> 0 \<Longrightarrow> opc AND ATT_OP_SIGNED_MASK = 0 \<and>
    opc \<noteq> BT_ATT_OP_ERROR_RSP \<and> opc \<noteq> BT_ATT_OP_HANDLE_VAL_NOT"
  by (auto simp: rsp_shape_def att_opcodes ATT_OP_SIGNED_MASK_def split: if_split_asm)

lemma shape_take: "rsp_shape opc b \<Longrightarrow> rsp_shape opc (take (unat (of_nat (length b) :: u16)) b)"
  by (auto simp: rsp_shape_def)

lemma typed_response:
  assumes "clk_typed h w" and "rsp_shape opc (value_bytes pdu)"
  shows "clk_typed h (gs_send k opc pdu w)"
proof (cases "opc = 0")
  case True
  with assms(1) show ?thesis by (simp add: gs_send_def unknown_not_sent)
next
  case False
  from response_opcodes [OF assms(2) this] have o: "opc AND ATT_OP_SIGNED_MASK = 0"
    "opc \<noteq> BT_ATT_OP_ERROR_RSP" "opc \<noteq> BT_ATT_OP_HANDLE_VAL_NOT" by auto
  show ?thesis
    unfolding gs_send_def
    by (rule typed_send [OF assms(1) o(1)])
      (use assms(2) shape_take [OF assms(2)] False o in \<open>auto simp: pdu_typed_def value_bytes_def split: option.splits\<close>)
qed

lemma typed_error: "clk_typed h w \<Longrightarrow> clk_typed h (gs_error k opc hn e w)"
  unfolding gs_error_def bt_att_send_error_rsp_def
  by (auto intro!: typed_send simp: pdu_typed_def put_le16_def att_opcodes ATT_OP_SIGNED_MASK_def)

section \<open>The messages of the clock\<close>

lemma typed_data_cb:
  assumes "clk_typed h w" and "server_msg m"
  shows "clk_typed h (clock_read_data_cb K m w)"
proof -
  have l: "length m \<le> 9" using assms(2) by (auto simp: server_msg_def)
  have "23 \<le> unat (att_mtu w)" using assms(1) by (simp add: clk_typed_def clk_inv_def gs_inv_def)
  then have v: "gs_value_pdu (clock_read_data_handle w) m w = put_le16 h @ m"
    using assms(1) l by (simp add: gs_value_pdu_def Let_def bt_att_get_mtu_def clk_typed_def)
  have small: "unat (of_nat k :: u16) = k" if "k < 65536" for k using that by (simp add: unsigned_of_nat take_bit_eq_mod)
  have n: "take (unat (of_nat (length (put_le16 h @ m)) :: u16)) (put_le16 h @ m) = put_le16 h @ m"
    using l by (intro take_all) (subst small, simp_all)
  show ?thesis
    unfolding clock_read_data_cb_def bt_gatt_server_send_notification_def Let_def case_prod_unfold snd_conv v
    by (rule typed_send [OF assms(1)])
      (simp_all only: option.case n, simp_all add: att_opcodes ATT_OP_SIGNED_MASK_def pdu_typed_def assms(2) put_le16_def)
qed

lemma typed_fields:
  assumes "clk_typed h w"
  shows "clk_typed h (w\<lparr>lastActivity := t\<rparr>)" "clk_typed h (w\<lparr>gFaceTime := x\<rparr>)" "clk_typed h (w\<lparr>exited := b\<rparr>)"
    "clk_typed h (w\<lparr>quitting := b\<rparr>)" "clk_typed h (w\<lparr>svc_chngd_enabled := b\<rparr>)" "clk_typed h (w\<lparr>clock_read_data_notify := b\<rparr>)"
  using assms by (simp_all add: clk_typed_def)

lemma typed_command: "clk_typed h w \<Longrightarrow> clk_typed h (clock_command K cmd w)"
proof -
  assume w: "clk_typed h w"
  have "clk_typed h (w\<lparr>gPollInterval := push_bit (unat (sts_interval (msg_sts_of m))) 1, gDelta := b,
      gVbat := sts_battery (msg_sts_of m), gMatch := d, gLastPollTime := e, gPollCount := f, gTimeouts := g\<rparr>)" for m b d e f g
    using w sts_ranges [of m] by (auto simp: clk_typed_def clk_inv_def gs_inv_def push_bit_of_1)
  moreover have "server_msg [SRVR_ACCEPT_DONE]" "server_msg (msg_u64_bytes SRVR_ACCEPT_TIME x)"
      "server_msg (msg_u64_bytes SRVR_ACCEPT_FACE_TIME x)" for x
    by (simp_all add: server_msg_def, simp_all add: msg_u64_bytes_def)
  ultimately show ?thesis
    using w by (simp add: clock_command_def Let_def typed_data_cb typed_fields)
qed

lemma typed_write: "clk_typed h w \<Longrightarrow> clk_typed h (snd (clk_write K f p i off v opc ud w))"
  by (cases f) (auto simp: clk_write_def gatt_svc_chngd_ccc_write_cb_def clock_read_data_ccc_write_cb_def
      clock_write_data_write_cb_def typed_command typed_fields split: option.split)

section \<open>Runs\<close>

interpretation clk_typed_gs: gs_relation "clk_env K" "\<lambda>w w'. clk_typed h w \<longrightarrow> clk_typed h w'" for K h
  by unfold_locales
    (auto simp: typed_write typed_response typed_error clk_att_base_def bt_att_set_mtu_def,
     auto simp: clk_typed_def clk_inv_def gs_inv_def)


interpretation clk_typed_att: att_typed "gs_att_env (clk_env K)" "pdu_typed h" "clk_typed h" for K h
proof
  fix w w' :: server and f opc rsp ud p err i hn e
  show "clk_typed h w \<Longrightarrow> p \<in> pdus w \<Longrightarrow> pdu_typed h p" by (simp add: clk_typed_def)
  show "clk_typed h w'" if w: "clk_typed h w" and m: "bt_att.more w' = bt_att.more w" "att_mtu w' = att_mtu w"
    and t: "\<And>p. p \<in> pdus w' \<Longrightarrow> pdu_typed h p"
    using w t more_eq_clk_inv [OF m(1)] more_eq_clock(11) [OF m(1)] m(2) by (simp add: clk_typed_def)
  show "pdu_typed h (BT_ATT_OP_ERROR_RSP # opc # put_le16 hn @ [e])" by (simp add: pdu_typed_def)
  show "clk_typed h w \<Longrightarrow> clk_typed h (e_notify (gs_att_env (clk_env K)) f opc p ud w)"
    using clk_typed_gs.notify_rel [of h w K f opc p ud] by (simp add: gs_att_env_def)
qed (simp_all add: gs_att_env_def gs_response_def gs_destroy_def conf_cb_def destroy_ind_data_def clk_att_base_def typed_fields
    split: att_cb.split option.split att_ud.split clk_fn.split)

lemma typed_run:
  assumes "clk_loop bs w = Some w'" and "\<forall>b \<in> set bs. \<forall>ev \<in> set b. kernel_event (snd ev)" and "clk_typed h w"
  shows "clk_typed h w'"
  using assms
proof (induction bs arbitrary: w)
  case (Cons b bs)
  have "clk_typed h (clk_run_batch b v)" if "clk_typed h v" for v
    unfolding clk_run_batch_def
  proof (rule fold_invariant [where Q = "\<lambda>ev. kernel_event (snd ev)" and P = "clk_typed h"])
    show "kernel_event (snd ev)" if "ev \<in> set b" for ev using that Cons.prems(2) by simp
    show "clk_typed h (if exited u then u else clk_do ev u)" if "kernel_event (snd ev)" "clk_typed h u" for ev u
      using clk_typed_att.do_inv [OF that] that(2) by (simp add: clk_do_def)
  qed (rule that)
  with Cons show ?case by (auto split: if_splits)
qed (auto split: if_splits)

lemma created_typed:
  fixes att :: "(clk_fn att_cb, (clk_fn, unit) att_ud) bt_att"
  assumes "bt_att_new k crypto fd False = Some att" and "server_create K k crypto face fd mtu = (ok, Some w)"
  shows "clk_typed 14 w"
proof -
  let ?u = "bare_server att face fd mtu"
  obtain v where p: "populate_db K ?u = (True, v)"
    using populate_succeeds [of K ?u] by (cases "populate_db K ?u") (simp add: bare_server_def fresh_server_def)
  have w: "w = v" using assms(2) p by (simp add: server_create_populates [OF assms(1)])
  have "pdus w = {}"
    using trans [OF populated_bearer [OF populate_db_populated [OF p]] bare_server_facts(1) [OF assms(1), of face mtu]]
      bt_att_new_shape [OF assms(1)] unfolding w
    by (cases v) (auto simp: bt_att.defs bt_att_ref_def att_blank_def pdus_def)
  moreover have "clk_inv w" "clock_read_data_handle w = 14"
    using created_ready [OF assms] by (auto simp: clk_ready_def)
  ultimately show ?thesis by (simp add: clk_typed_def)
qed

text \<open>
  Claim C5. What the program says is well typed: from the creation of the server to the end of its connection,
  whatever the peer sends, the kernel answers and the timeouts do, every PDU that was written to the socket or
  still waits is an error response of five bytes, a response whose parameters have the length its opcode
  requires where that is fixed, or a notification of the clock's read value carrying one complete message of
  the server: an acknowledgement of one byte, or a time of nine.
\<close>

theorem sent_pdus_typed:
  fixes att :: "(clk_fn att_cb, (clk_fn, unit) att_ud) bt_att"
  assumes "bt_att_new k crypto fd False = Some att" and "server_create K k crypto face fd mtu = (ok, Some w)"
    and "clock_ranges old" and "\<forall>b \<in> set bs. \<forall>ev \<in> set b. kernel_event (snd ev)"
    and "clk_loop bs (keep_globals old w) = Some w'"
  shows "\<forall>p \<in> set (att_sent w') \<union> set (outbox w'). pdu_typed 14 p"
proof -
  have "clk_typed 14 w" by (rule created_typed [OF assms(1,2)])
  then have "clk_typed 14 (keep_globals old w)"
    using keep_globals_inv [OF _ assms(3)] by (simp add: clk_typed_def keep_globals_def pdus_def)
  from typed_run [OF assms(5,4) this] show ?thesis by (auto simp: clk_typed_def pdus_def outbox_def)
qed

theorem sent_pdus_typed_witness:
  "\<exists>w'. clk_loop [[(sample_kernel, In_Read (Some [BT_ATT_OP_READ_REQ, 3, 0])), (sample_kernel, In_Write 0 1),
       (sample_kernel, In_Read (Some [BT_ATT_OP_WRITE_CMD, 18, 0, CLK_REQ_TIME])), (sample_kernel, In_Write 0 2)],
       [(sample_kernel, In_Disconnect 0)]] (keep_globals sample_server sample_server) = Some w' \<and>
     length (att_sent w') = 2 \<and> (\<forall>p \<in> set (att_sent w'). pdu_typed 14 p)"
proof -
  let ?bs = "[[(sample_kernel, In_Read (Some [BT_ATT_OP_READ_REQ, 3, 0])), (sample_kernel, In_Write 0 1),
       (sample_kernel, In_Read (Some [BT_ATT_OP_WRITE_CMD, 18, 0, CLK_REQ_TIME])), (sample_kernel, In_Write 0 2)],
       [(sample_kernel, In_Disconnect 0)]]"
  have r: "clock_ranges sample_server" using sample_ready clk_inv_ranges by (simp add: clk_ready_def)
  have "map_option (\<lambda>w. length (att_sent w)) (clk_loop ?bs (keep_globals sample_server sample_server)) = Some 2"
    by code_simp
  then obtain w' where w: "clk_loop ?bs (keep_globals sample_server sample_server) = Some w'" "length (att_sent w') = 2"
    by auto
  have "\<forall>b \<in> set ?bs. \<forall>ev \<in> set b. kernel_event (snd ev)" by simp
  from sent_pdus_typed [OF local_att_new sample_server r this w(1)] w show ?thesis by blast
qed

end
