(* ===== verification/Byte_Order.thy ===== *)
theory Byte_Order
  imports Bytes
begin

text \<open>
  The conversions of \<^verbatim>\<open>lib/bluetooth.h\<close> as they are written for a little-endian host, by unaligned loads and
  stores and by the byte swaps of the C library, and the address helpers. They agree with the accessors of
  \<^verbatim>\<open>shared/util.h\<close> in \<open>Bytes\<close>, which do not mention the host.
\<close>

section \<open>Loads, stores and swaps\<close>

text \<open>A word in the memory of a little-endian host, \<open>n\<close> bytes from the offset on.\<close>

definition bt_get_unaligned :: "nat \<Rightarrow> bytes \<Rightarrow> nat \<Rightarrow> 'a::len word" where
  "bt_get_unaligned n bs off = foldr (\<lambda>b a. push_bit 8 a OR ucast b) (take n (drop off bs)) 0"

definition bt_put_unaligned :: "nat \<Rightarrow> 'a::len word \<Rightarrow> bytes" where
  "bt_put_unaligned n v = map (\<lambda>i. ucast (drop_bit (8 * i) v)) [0..<n]"

definition bswap_16 :: "u16 \<Rightarrow> u16" where
  "bswap_16 x = drop_bit 8 x OR push_bit 8 x"

definition bswap_32 :: "u32 \<Rightarrow> u32" where
  "bswap_32 x = drop_bit 24 x OR (drop_bit 8 x AND 0xff00) OR push_bit 8 (x AND 0xff00) OR push_bit 24 x"

definition bswap_64 :: "u64 \<Rightarrow> u64" where
  "bswap_64 x = ucast (bswap_32 (ucast (drop_bit 32 x))) OR push_bit 32 (ucast (bswap_32 (ucast x)))"

section \<open>Accessors\<close>

definition bt_get_le64 :: "bytes \<Rightarrow> nat \<Rightarrow> u64" where
  "bt_get_le64 bs off = bt_get_unaligned 8 bs off"

definition bt_get_be64 :: "bytes \<Rightarrow> nat \<Rightarrow> u64" where
  "bt_get_be64 bs off = bswap_64 (bt_get_unaligned 8 bs off)"

definition bt_get_le32 :: "bytes \<Rightarrow> nat \<Rightarrow> u32" where
  "bt_get_le32 bs off = bt_get_unaligned 4 bs off"

definition bt_get_be32 :: "bytes \<Rightarrow> nat \<Rightarrow> u32" where
  "bt_get_be32 bs off = bswap_32 (bt_get_unaligned 4 bs off)"

definition bt_get_le16 :: "bytes \<Rightarrow> nat \<Rightarrow> u16" where
  "bt_get_le16 bs off = bt_get_unaligned 2 bs off"

definition bt_get_be16 :: "bytes \<Rightarrow> nat \<Rightarrow> u16" where
  "bt_get_be16 bs off = bswap_16 (bt_get_unaligned 2 bs off)"

definition bt_put_le64 :: "u64 \<Rightarrow> bytes" where
  "bt_put_le64 v = bt_put_unaligned 8 v"

definition bt_put_be64 :: "u64 \<Rightarrow> bytes" where
  "bt_put_be64 v = bt_put_unaligned 8 (bswap_64 v)"

definition bt_put_le32 :: "u32 \<Rightarrow> bytes" where
  "bt_put_le32 v = bt_put_unaligned 4 v"

definition bt_put_be32 :: "u32 \<Rightarrow> bytes" where
  "bt_put_be32 v = bt_put_unaligned 4 (bswap_32 v)"

definition bt_put_le16 :: "u16 \<Rightarrow> bytes" where
  "bt_put_le16 v = bt_put_unaligned 2 v"

definition bt_put_be16 :: "u16 \<Rightarrow> bytes" where
  "bt_put_be16 v = bt_put_unaligned 2 (bswap_16 v)"

section \<open>Network order\<close>

definition ntohl :: "u32 \<Rightarrow> u32" where
  "ntohl = bswap_32"

definition ntoh64 :: "u64 \<Rightarrow> u64" where
  "ntoh64 n =
     (let tmp = ucast (ntohl (ucast (n AND 0x00000000ffffffff))); h = ucast (ntohl (ucast (drop_bit 32 n)))
      in h OR push_bit 32 tmp)"

definition ntoh128 :: "bytes \<Rightarrow> bytes" where
  "ntoh128 src = bswap_128 src"

definition btoh128 :: "bytes \<Rightarrow> bytes" where
  "btoh128 src = take 16 src"

section \<open>Addresses\<close>

definition sizeof_bdaddr :: nat where "sizeof_bdaddr = 6"

definition bacmp :: "bytes \<Rightarrow> bytes \<Rightarrow> int" where
  "bacmp ba1 ba2 = memcmp (take sizeof_bdaddr ba1) (take sizeof_bdaddr ba2)"

definition bacpy :: "bytes \<Rightarrow> bytes \<Rightarrow> bytes" where
  "bacpy dst src = memcpy_at dst 0 (take sizeof_bdaddr src)"

section \<open>Agreement\<close>

lemma loaded_bytes:
  fixes bs :: bytes
  shows "off + 2 \<le> length bs \<Longrightarrow> take 2 (drop off bs) = [bs ! off, bs ! (off + 1)]"
    "off + 4 \<le> length bs \<Longrightarrow> take 4 (drop off bs) = [bs ! off, bs ! (off + 1), bs ! (off + 2), bs ! (off + 3)]"
    "off + 8 \<le> length bs \<Longrightarrow> take 8 (drop off bs) = take 4 (drop off bs) @ take 4 (drop (off + 4) bs)"
proof -
  show "off + 2 \<le> length bs \<Longrightarrow> take 2 (drop off bs) = [bs ! off, bs ! (off + 1)]"
    by (rule nth_equalityI) (auto simp: nth_Cons' less_Suc_eq numeral_eq_Suc)
  show "off + 4 \<le> length bs \<Longrightarrow> take 4 (drop off bs) = [bs ! off, bs ! (off + 1), bs ! (off + 2), bs ! (off + 3)]"
    by (rule nth_equalityI) (auto simp: nth_Cons' less_Suc_eq numeral_eq_Suc)
  show "off + 8 \<le> length bs \<Longrightarrow> take 8 (drop off bs) = take 4 (drop off bs) @ take 4 (drop (off + 4) bs)"
    using take_add [of 4 4 "drop off bs"] by (simp add: add.commute)
qed

lemma get16_agree:
  assumes "off + 2 \<le> length bs"
  shows "bt_get_le16 bs off = get_le16 bs off" "bt_get_be16 bs off = get_be16 bs off"
proof -
  note d = bt_get_unaligned_def loaded_bytes(1) [OF assms]
  show "bt_get_le16 bs off = get_le16 bs off"
    by (simp add: bt_get_le16_def d get_le16_def or.commute)
  show "bt_get_be16 bs off = get_be16 bs off"
    by (rule bit_word_eqI) (auto simp: bt_get_be16_def d get_be16_def bswap_16_def bit_simps dest: bit_imp_le_length)
qed

text \<open>Bytes at their places in a wider word, and what a swap does to them.\<close>

lemma widened_bytes:
  fixes b :: u8
  shows "(ucast (push_bit 8 (ucast b :: u16)) :: u32) = push_bit 8 (ucast b)"
    "(ucast (ucast b :: u16) :: u32) = ucast b" "(ucast (ucast b :: u32) :: u64) = ucast b"
    "(ucast (push_bit 8 (ucast b :: u32)) :: u64) = push_bit 8 (ucast b)"
    "(ucast (push_bit 16 (ucast b :: u32)) :: u64) = push_bit 16 (ucast b)"
    "(ucast (push_bit 24 (ucast b :: u32)) :: u64) = push_bit 24 (ucast b)"
  by (rule bit_word_eqI; auto simp: bit_simps dest: bit_imp_le_length)+

lemma get_le32_bytes:
  "get_le32 bs off = ucast (bs ! off) OR push_bit 8 (ucast (bs ! (off + 1))) OR
     push_bit 16 (ucast (bs ! (off + 2))) OR push_bit 24 (ucast (bs ! (off + 3)))"
  "get_be32 bs off = push_bit 24 (ucast (bs ! off)) OR push_bit 16 (ucast (bs ! (off + 1))) OR
     push_bit 8 (ucast (bs ! (off + 2))) OR ucast (bs ! (off + 3))"
  by (simp_all add: get_le32_def get_le16_def get_be32_def get_be16_def unsigned_or_eq widened_bytes push_bit_or or.assoc
      numeral_3_eq_3)

lemma bswap_32_or: "bswap_32 (x OR y) = bswap_32 x OR bswap_32 y"
  by (simp add: bswap_32_def drop_bit_or push_bit_or bit.conj_disj_distrib2 or.assoc or.left_commute)

lemma bswap_32_byte:
  fixes b :: u8
  shows "bswap_32 (ucast b) = push_bit 24 (ucast b)" "bswap_32 (push_bit 8 (ucast b)) = push_bit 16 (ucast b)"
    "bswap_32 (push_bit 16 (ucast b)) = push_bit 8 (ucast b)" "bswap_32 (push_bit 24 (ucast b)) = ucast b"
proof -
  have m: "(0xff00 :: u32) = push_bit 8 (mask 8)" by (simp add: mask_eq_exp_minus_1 push_bit_eq_mult)
  have d: "drop_bit 8 (ucast b :: u32) = 0" "drop_bit 24 (ucast b :: u32) = 0" "ucast b AND push_bit 8 (mask 8 :: u32) = 0"
    "drop_bit 8 (push_bit 8 (ucast b :: u32)) = ucast b" 
    by (rule bit_word_eqI; auto simp: bit_simps dest: bit_imp_le_length)+
  show "bswap_32 (ucast b) = push_bit 24 (ucast b)" unfolding bswap_32_def m using d by simp
  show "bswap_32 (push_bit 8 (ucast b)) = push_bit 16 (ucast b)"
    unfolding bswap_32_def m by (rule bit_word_eqI; auto simp: bit_simps dest: bit_imp_le_length)
  show "bswap_32 (push_bit 16 (ucast b)) = push_bit 8 (ucast b)"
    unfolding bswap_32_def m by (rule bit_word_eqI; auto simp: bit_simps dest: bit_imp_le_length)
  show "bswap_32 (push_bit 24 (ucast b)) = ucast b"
    unfolding bswap_32_def m by (rule bit_word_eqI; auto simp: bit_simps dest: bit_imp_le_length)
qed

lemma get32_agree:
  assumes "off + 4 \<le> length bs"
  shows "bt_get_le32 bs off = get_le32 bs off" "bt_get_be32 bs off = get_be32 bs off"
proof -
  have l: "bt_get_unaligned 4 bs off = get_le32 bs off"
    by (simp add: bt_get_unaligned_def loaded_bytes(2) [OF assms] get_le32_bytes push_bit_or or.assoc or.left_commute or.commute)
  then show "bt_get_le32 bs off = get_le32 bs off" by (simp add: bt_get_le32_def)
  show "bt_get_be32 bs off = get_be32 bs off"
    by (simp add: bt_get_be32_def l get_le32_bytes bswap_32_or bswap_32_byte or.assoc or.left_commute or.commute)
qed


text \<open>Four bytes loaded on top of \<open>z\<close>, and their value in a wider word.\<close>

lemma foldr_loads:
  fixes a b c d :: u8
  shows "(foldr (\<lambda>b a. push_bit 8 a OR ucast b) [a, b, c, d] z :: u64) =
    push_bit 32 z OR ucast (foldr (\<lambda>b a. push_bit 8 a OR ucast b) [a, b, c, d] 0 :: u32)"
  by (simp add: push_bit_or unsigned_or_eq widened_bytes or.assoc)

lemma halves:
  fixes a b :: u32
  shows "ucast (drop_bit 32 (ucast a OR push_bit 32 (ucast b :: u64))) = b" "ucast (ucast a OR push_bit 32 (ucast b :: u64)) = a"
  by (rule bit_word_eqI; auto simp: bit_simps dest: bit_imp_le_length)+

lemma get64_agree:
  assumes "off + 8 \<le> length bs"
  shows "bt_get_le64 bs off = get_le64 bs off" "bt_get_be64 bs off = get_be64 bs off"
proof -
  have a: "off + 4 \<le> length bs" "off + 4 + 4 \<le> length bs" using assms by simp_all
  have "(bt_get_unaligned 4 bs off :: u32) = get_le32 bs off" "(bt_get_unaligned 4 bs (off + 4) :: u32) = get_le32 bs (off + 4)"
    using get32_agree(1) [OF a(1)] get32_agree(1) [OF a(2)] by (simp_all add: bt_get_le32_def)
  then have l: "(bt_get_unaligned 8 bs off :: u64) = ucast (get_le32 bs off) OR push_bit 32 (ucast (get_le32 bs (off + 4)))"
    unfolding bt_get_unaligned_def loaded_bytes(3) [OF assms] foldr_append
    unfolding loaded_bytes(2) [OF a(1)] loaded_bytes(2) [OF a(2)] foldr_loads by (simp only: push_bit_of_0 or.left_neutral or.commute)
  then show "bt_get_le64 bs off = get_le64 bs off" by (simp add: bt_get_le64_def get_le64_def)
  have "bswap_32 (get_le32 bs off) = get_be32 bs off" "bswap_32 (get_le32 bs (off + 4)) = get_be32 bs (off + 4)"
    using get32_agree [OF a(1)] get32_agree [OF a(2)] by (simp_all add: bt_get_le32_def bt_get_be32_def)
  then show "bt_get_be64 bs off = get_be64 bs off"
    unfolding bt_get_be64_def l bswap_64_def halves get_be64_def by (simp add: or.commute)
qed

lemma put16_agree: "bt_put_le16 v = put_le16 v" "bt_put_be16 v = put_be16 v"
proof -
  show "bt_put_le16 v = put_le16 v" by (simp add: bt_put_le16_def bt_put_unaligned_def put_le16_def upt_rec)
  have "ucast (bswap_16 v) = (ucast (drop_bit 8 v) :: u8)" "ucast (drop_bit 8 (bswap_16 v)) = (ucast v :: u8)"
    unfolding bswap_16_def by (rule bit_word_eqI; auto simp: bit_simps dest: bit_imp_le_length)+
  then show "bt_put_be16 v = put_be16 v" by (simp add: bt_put_be16_def bt_put_unaligned_def put_be16_def upt_rec)
qed

lemma put32_agree: "bt_put_le32 v = put_le32 v" "bt_put_be32 v = put_be32 v"
proof -
  have b: "(ucast (ucast v :: u16) :: u8) = ucast v" "(ucast (drop_bit 8 (ucast v :: u16)) :: u8) = ucast (drop_bit 8 v)"
    "(ucast (ucast (drop_bit 16 v) :: u16) :: u8) = ucast (drop_bit 16 v)"
    "(ucast (drop_bit 8 (ucast (drop_bit 16 v) :: u16)) :: u8) = ucast (drop_bit 24 v)" for v :: u32
    by (rule bit_word_eqI; auto simp: bit_simps dest: bit_imp_le_length)+
  show le: "bt_put_le32 v = put_le32 v" for v
    by (simp add: bt_put_le32_def bt_put_unaligned_def put_le32_def put_le16_def upt_rec b)
  have m: "(0xff00 :: u32) = push_bit 8 (mask 8)" by (simp add: mask_eq_exp_minus_1 push_bit_eq_mult)
  have "(ucast (bswap_32 v) :: u8) = ucast (drop_bit 24 v)" "(ucast (drop_bit 8 (bswap_32 v)) :: u8) = ucast (drop_bit 16 v)"
    "(ucast (drop_bit 16 (bswap_32 v)) :: u8) = ucast (drop_bit 8 v)" "(ucast (drop_bit 24 (bswap_32 v)) :: u8) = ucast v"
    unfolding bswap_32_def m by (rule bit_word_eqI; auto simp: bit_simps dest: bit_imp_le_length)+
  then show "bt_put_be32 v = put_be32 v"
    by (simp add: bt_put_be32_def bt_put_unaligned_def put_be32_def put_be16_def upt_rec b)
qed

lemma put64_agree: "bt_put_le64 v = put_le64 v" "bt_put_be64 v = put_be64 v"
proof -
  have u: "[0..<8] = [0..<4] @ map ((+) 4) [0..<4]" by (simp add: upt_rec)
  have b: "(ucast (drop_bit (8 * i) (ucast v :: u32)) :: u8) = ucast (drop_bit (8 * i) v)" if "i < 4" for i and v :: u64
    using that by (intro bit_word_eqI) (auto simp: bit_simps)
  have c: "(ucast (drop_bit (8 * i) (ucast (drop_bit 32 v) :: u32)) :: u8) = ucast (drop_bit (8 * (4 + i)) v)"
    if "i < 4" for i and v :: u64
    using b [OF that, of "drop_bit 32 v"] by (simp add: add.commute)
  have p: "bt_put_unaligned 8 v = bt_put_unaligned 4 (ucast v :: u32) @ bt_put_unaligned 4 (ucast (drop_bit 32 v) :: u32)" for v :: u64
    unfolding bt_put_unaligned_def u using b c by simp
  have le: "bt_put_unaligned 4 v = put_le32 v" "put_le32 (bswap_32 v) = put_be32 v" for v
    using put32_agree(1) [of v] put32_agree(2) [of v] put32_agree(1) [of "bswap_32 v"]
    by (simp_all add: bt_put_le32_def bt_put_be32_def)
  show "bt_put_le64 v = put_le64 v" by (simp add: bt_put_le64_def p le put_le64_def)
  show "bt_put_be64 v = put_be64 v" unfolding bt_put_be64_def p bswap_64_def halves by (simp add: le put_be64_def)
qed

text \<open>Network order is big endian: storing the converted word natively stores the bytes in network order.\<close>

lemma ntoh64_bytes: "ntoh64 n = bswap_64 n" "bt_put_unaligned 8 (ntoh64 n) = put_be64 n"
proof -
  have m: "(0x00000000ffffffff :: u64) = mask 32" by (simp add: mask_eq_exp_minus_1)
  have "(ucast (n AND mask 32) :: u32) = ucast n" by (rule bit_word_eqI) (auto simp: bit_simps dest: bit_imp_le_length)
  then show n: "ntoh64 n = bswap_64 n" by (simp add: ntoh64_def ntohl_def m bswap_64_def)
  show "bt_put_unaligned 8 (ntoh64 n) = put_be64 n" using put64_agree(2) by (simp add: n bt_put_be64_def)
qed

lemma bacmp_0: "6 \<le> length a \<Longrightarrow> 6 \<le> length b \<Longrightarrow> bacmp a b = 0 \<longleftrightarrow> take 6 a = take 6 b"
  by (simp add: bacmp_def sizeof_bdaddr_def memcmp_eq_0)

lemma bacpy_bacmp: "6 \<le> length dst \<Longrightarrow> 6 \<le> length src \<Longrightarrow> bacmp (bacpy dst src) src = 0 \<and> drop 6 (bacpy dst src) = drop 6 dst"
  by (simp add: bacmp_0 bacpy_def memcpy_at_def sizeof_bdaddr_def)

end
