(* ===== verification/Uuid_Order.thy ===== *)
theory Uuid_Order
  imports Uuid "HOL-Library.List_Lexorder" "HOL-Library.Option_ord"
begin

text \<open>
  \<^verbatim>\<open>bt_uuid_cmp\<close> as an order: UUIDs are compared by their 128 bit forms, a total preorder in which the short and
  the long form of a UUID are equivalent.
\<close>

definition uuid_key :: "bt_uuid \<Rightarrow> bytes option" where
  "uuid_key u = map_option u128_data (bt_uuid_to_uuid128 u)"

instantiation bt_uuid :: preorder
begin

definition less_eq_bt_uuid :: "bt_uuid \<Rightarrow> bt_uuid \<Rightarrow> bool" where
  "less_eq_bt_uuid a b \<longleftrightarrow> uuid_key a \<le> uuid_key b"

definition less_bt_uuid :: "bt_uuid \<Rightarrow> bt_uuid \<Rightarrow> bool" where
  "less_bt_uuid a b \<longleftrightarrow> uuid_key a < uuid_key b"

instance
  by standard (auto simp: less_eq_bt_uuid_def less_bt_uuid_def intro: order_trans)

end

lemma uuid_total: "a \<le> b \<or> b \<le> (a :: bt_uuid)"
  by (auto simp: less_eq_bt_uuid_def)

lemma memcmp_order: "length xs = length ys \<Longrightarrow> (memcmp xs ys < 0 \<longleftrightarrow> xs < ys) \<and> (memcmp xs ys \<le> 0 \<longleftrightarrow> xs \<le> ys)"
  by (induction xs ys rule: memcmp.induct) (auto simp: not_less)

text \<open>The sign of the comparison is the order.\<close>

lemma bt_uuid_cmp_order:
  assumes "bt_uuid_cmp a b = Some c" and "length (the (uuid_key a)) = length (the (uuid_key b))"
  shows "(c < 0 \<longleftrightarrow> a < b) \<and> (c \<le> 0 \<longleftrightarrow> a \<le> b) \<and> (c = 0 \<longleftrightarrow> a \<le> b \<and> b \<le> a)"
proof -
  obtain x y where k: "uuid_key a = Some x" "uuid_key b = Some y" "c = memcmp x y"
    using assms(1) by (auto simp: bt_uuid_cmp_def bt_uuid128_cmp_def uuid_key_def split: option.splits)
  then show ?thesis
    using memcmp_order [of x y] memcmp_eq_0 [of x y] assms(2)
    by (auto simp: less_eq_bt_uuid_def less_bt_uuid_def)
qed

text \<open>What the searches of the database take for the same type is equivalent in it.\<close>

lemma uuid_match_equivalent:
  assumes "uuid_ok a" and "uuid_ok b"
  shows "uuid_match a b \<longleftrightarrow> a \<le> b \<and> b \<le> a"
proof -
  obtain d e where k: "bt_uuid_to_uuid128 a = Some (BT_UUID128 d)" "length d = 16"
      "bt_uuid_to_uuid128 b = Some (BT_UUID128 e)" "length e = 16"
    using uuid_ok_128 [OF assms(1)] uuid_ok_128 [OF assms(2)] by metis
  then show ?thesis
    using uuid_match_iff [OF assms] by (auto simp: less_eq_bt_uuid_def uuid_key_def)
qed

end
