(* ===== verification/Util.thy ===== *)
theory Util
  imports Util_Tables Uuid
begin

text \<open>
  The helpers of \<^verbatim>\<open>src/shared/util.c\<close>: the text handed to a debug function, the allocation of identifiers in
  a bitmap, the names of UUIDs and appearances, and two functions on strings. What the code
  writes to its buffers is a list; a result \<open>None\<close> is \<^verbatim>\<open>NULL\<close>. Memory is always available, so that
  \<^verbatim>\<open>btd_malloc\<close> returns.
\<close>

unbundle bit_operations_syntax

section \<open>Debug text\<close>

text \<open>
  \<open>formatted\<close> is what \<^verbatim>\<open>vsnprintf\<close> makes of the format, \<open>None\<close> for a missing format. The result is what the
  debug function gets, if there is one: at most 77 characters.
\<close>

definition util_debug :: "bool \<Rightarrow> string option \<Rightarrow> string option" where
  "util_debug has_function formatted = (case formatted of
     None \<Rightarrow> None
   | Some s \<Rightarrow> if has_function then Some (take 77 s) else None)"

definition isprint :: "u8 \<Rightarrow> bool" where
  "isprint b \<longleftrightarrow> 0x20 \<le> b \<and> b \<le> 0x7E"

text \<open>The buffer of 68 characters and the lines passed to the function so far.\<close>

definition hexdump_byte :: "nat \<Rightarrow> u8 \<Rightarrow> string \<Rightarrow> string" where
  "hexdump_byte i b str =
     str[(i mod 16) * 3 + 1 := CHR '' '', (i mod 16) * 3 + 2 := hexdigit (uint (drop_bit 4 b)),
         (i mod 16) * 3 + 3 := hexdigit (uint (b AND 0xF)), i mod 16 + 51 := if isprint b then char_of (unat b) else CHR ''.'']"

text \<open>The end of a line; its last character is the terminating zero.\<close>

definition hexdump_end :: "string \<Rightarrow> string" where
  "hexdump_end str = str[49 := CHR '' '', 50 := CHR '' '', 67 := CHR 0x00]"

fun hexdump_loop :: "nat \<Rightarrow> bytes \<Rightarrow> string \<Rightarrow> string list \<Rightarrow> string \<times> string list" where
  "hexdump_loop i [] str out = (str, out)"
| "hexdump_loop i (b # bs) str out =
     (let str1 = hexdump_byte i b str
      in if (i + 1) mod 16 = 0
         then (let str2 = hexdump_end str1 in hexdump_loop (i + 1) bs (str2[0 := CHR '' '']) (out @ [take 67 str2]))
         else hexdump_loop (i + 1) bs str1 out)"

definition hexdump_pad :: "nat \<Rightarrow> string \<Rightarrow> string" where
  "hexdump_pad n str = fold (\<lambda>j s. s[j * 3 + 1 := CHR '' '', j * 3 + 2 := CHR '' '', j * 3 + 3 := CHR '' '', j + 51 := CHR '' ''])
     [n ..< 16] str"

text \<open>\<open>junk\<close> is what the buffer holds at the start. The result: the lines, without their terminating zero.\<close>

definition util_hexdump :: "string \<Rightarrow> char \<Rightarrow> bytes \<Rightarrow> bool \<Rightarrow> string list" where
  "util_hexdump junk dir buf has_function =
     (if \<not> has_function \<or> buf = [] then []
      else (case hexdump_loop 0 buf (junk[0 := dir]) [] of
          (str, out) \<Rightarrow> if length buf mod 16 > 0
            then out @ [take 67 (hexdump_end (hexdump_pad (length buf mod 16) str))] else out))"

section \<open>Directory entries\<close>

definition DT_UNKNOWN :: u8 where "DT_UNKNOWN = 0"
definition DT_DIR :: u8 where "DT_DIR = 4"
definition PATH_MAX :: nat where "PATH_MAX = 4096"

text \<open>\<open>lstat\<close>: whether the call succeeds and finds a directory.\<close>

definition util_get_dt :: "(string \<Rightarrow> bool) \<Rightarrow> string \<Rightarrow> string \<Rightarrow> u8" where
  "util_get_dt lstat parent name = (if lstat (take (PATH_MAX - 1) (parent @ ''/'' @ name)) then DT_DIR else DT_UNKNOWN)"

section \<open>Identifiers in a bitmap\<close>

text \<open>\<^verbatim>\<open>ffs\<close>: one more than the least position of a set bit, 0 when there is none.\<close>

definition ffs :: "u32 \<Rightarrow> u8" where
  "ffs x = (case find (\<lambda>i. bit x i) [0 ..< 32] of None \<Rightarrow> 0 | Some i \<Rightarrow> of_nat (i + 1))"

definition util_get_uid :: "u32 \<Rightarrow> u8 \<Rightarrow> u8 \<times> u32" where
  "util_get_uid bitmap maximum =
     (let i = ffs (NOT bitmap)
      in if i = 0 \<or> i > maximum then (0, bitmap) else (i, bitmap OR push_bit (unat (i - 1)) 1))"

text \<open>Shifts by more than 31 places have no meaning in C; no caller passes an identifier above 32.\<close>

definition util_clear_uid :: "u32 \<Rightarrow> u8 \<Rightarrow> u32" where
  "util_clear_uid bitmap i = (if i = 0 then bitmap else bitmap AND NOT (push_bit (unat (i - 1)) 1))"

section \<open>Names\<close>

fun uuid16_lookup :: "(u16 \<times> string) list \<Rightarrow> u16 \<Rightarrow> string" where
  "uuid16_lookup [] u = ''Unknown''"
| "uuid16_lookup ((v, s) # t) u = (if v = u then s else uuid16_lookup t u)"

definition bt_uuid16_to_str :: "u16 \<Rightarrow> string" where
  "bt_uuid16_to_str u = uuid16_lookup uuid16_table u"

definition bt_uuid32_to_str :: "u32 \<Rightarrow> string" where
  "bt_uuid32_to_str u = (if u AND 0xffff0000 = 0 then bt_uuid16_to_str (ucast (u AND 0x0000ffff)) else ''Unknown'')"

text \<open>
  \<open>strtol(s, &endptr, 0)\<close>: the value, cut off at the limits of a 64 bit \<open>long\<close>, and the rest at \<open>endptr\<close>.
\<close>

fun base_digits :: "int \<Rightarrow> nat \<Rightarrow> int \<Rightarrow> string \<Rightarrow> nat \<times> int \<times> string" where
  "base_digits base k acc [] = (k, acc, [])"
| "base_digits base k acc (c # cs) = (case hexval c of
      None \<Rightarrow> (k, acc, c # cs)
    | Some d \<Rightarrow> if d < base then base_digits base (Suc k) (base * acc + d) cs else (k, acc, c # cs))"

definition strtol0 :: "string \<Rightarrow> int \<times> string" where
  "strtol0 s =
     (let (neg, _, s1) = hex_sign (length s + 1) (dropWhile isspace s);
          (pre, _, s2) = hex_prefix (length s + 1) s1;
          (k, v, r) = (if pre then base_digits 16 0 0 s2
                       else if s1 \<noteq> [] \<and> hd s1 = CHR ''0'' then base_digits 8 0 0 s1 else base_digits 10 0 0 s1)
      in if k = 0 then (if pre then (0, tl s1) else (0, s))
         else (max (- (2 ^ 63)) (min (2 ^ 63 - 1) (if neg then - v else v)), r))"

definition lower :: "char \<Rightarrow> char" where
  "lower c = (let n = (of_char c :: nat) in if 65 \<le> n \<and> n \<le> 90 then char_of (n + 32) else c)"

fun uuid128_lookup :: "(string \<times> string) list \<Rightarrow> string \<Rightarrow> string option" where
  "uuid128_lookup [] u = None"
| "uuid128_lookup ((v, s) # t) u = (if map lower v = map lower u then Some s else uuid128_lookup t u)"

definition bt_uuidstr_to_str :: "string option \<Rightarrow> string option" where
  "bt_uuidstr_to_str uuid = (case uuid of None \<Rightarrow> None | Some s \<Rightarrow>
     if length s < 36 then
       (case strtol0 s of (v, r) \<Rightarrow>
          let val = word_of_int v :: u32
          in if r \<noteq> [] then None
             else if val > 0xFFFF then Some (bt_uuid32_to_str val) else Some (bt_uuid16_to_str (ucast val)))
     else if length s \<noteq> 36 then None
     else (case uuid128_lookup uuid128_table s of
         Some name \<Rightarrow> Some name
       | None \<Rightarrow>
           if map lower (drop 8 s) \<noteq> ''-0000-1000-8000-00805f9b34fb'' then Some ''Vendor specific''
           else (case scan_hex 8 s of None \<Rightarrow> None | Some (v, _) \<Rightarrow> Some (bt_uuid32_to_str (word_of_int v)))))"

text \<open>\<open>kind\<close> is the name of the last generic entry passed, at first that of the first entry.\<close>

fun appear_from :: "(u16 \<times> bool \<times> string) list \<Rightarrow> string \<Rightarrow> u16 \<Rightarrow> string" where
  "appear_from [] kind a = kind"
| "appear_from ((v, generic, s) # t) kind a =
     (if generic \<and> a < v then kind
      else (let kind' = (if generic then s else kind) in if v = a then s else appear_from t kind' a))"

definition bt_appear_to_str :: "u16 \<Rightarrow> string" where
  "bt_appear_to_str a = appear_from appearance_table (snd (snd (hd appearance_table))) a"

section \<open>Strings\<close>

text \<open>
  The loop that replaces \<open>d\<close> by \<open>c\<close>, not the terminating zero: each search starts where the last one ended, on the
  character just written, so that the loop does not end (\<open>None\<close>) when the two are the same.
\<close>

definition strchr_from :: "nat \<Rightarrow> char \<Rightarrow> string \<Rightarrow> nat option" where
  "strchr_from i d s = find (\<lambda>j. s ! j = d) [i ..< length s]"

partial_function (option) delimit_loop :: "nat \<Rightarrow> char \<Rightarrow> char \<Rightarrow> string \<Rightarrow> string option" where
  "delimit_loop i d c s = (case strchr_from i d s of None \<Rightarrow> Some s | Some j \<Rightarrow> delimit_loop j d c (s[j := c]))"

fun delimit_all :: "string \<Rightarrow> char \<Rightarrow> string \<Rightarrow> string option" where
  "delimit_all [] c s = Some s"
| "delimit_all (d # del) c s = (case delimit_loop 0 d c s of None \<Rightarrow> None | Some s' \<Rightarrow> delimit_all del c s')"

text \<open>The outer option: whether the function returns.\<close>

definition strdelimit :: "string option \<Rightarrow> string \<Rightarrow> char \<Rightarrow> string option option" where
  "strdelimit str del c = (case str of None \<Rightarrow> Some None
     | Some s \<Rightarrow> if s = [] then Some (Some s) else map_option Some (delimit_all del c s))"

text \<open>The sign of \<^verbatim>\<open>strncmp\<close> on the first \<open>n\<close> characters.\<close>

fun strncmp :: "nat \<Rightarrow> string \<Rightarrow> string \<Rightarrow> int" where
  "strncmp 0 s t = 0"
| "strncmp (Suc n) [] [] = 0"
| "strncmp (Suc n) [] (d # t) = - 1"
| "strncmp (Suc n) (c # s) [] = 1"
| "strncmp (Suc n) (c # s) (d # t) = (if c = d then strncmp n s t else if (of_char c :: nat) < of_char d then - 1 else 1)"

definition strsuffix :: "string option \<Rightarrow> string option \<Rightarrow> int" where
  "strsuffix str suffix = (case (str, suffix) of
     (Some s, Some t) \<Rightarrow>
       if s = [] \<and> t \<noteq> [] then - 1
       else if t = [] \<and> s \<noteq> [] then - 1
       else if length s < length t then - 1
       else strncmp (length t) (drop (length s - length t) s) t
   | _ \<Rightarrow> - 1)"

end
