(* ===== verification/Util_Props.thy ===== *)
theory Util_Props
  imports Util
begin

text \<open>
  The helpers against references: the hexadecimal dump line by line, the identifiers, the names, and when
  \<^verbatim>\<open>strdelimit\<close> returns.
\<close>

section \<open>The dump\<close>

definition hex_cell :: "u8 \<Rightarrow> string" where
  "hex_cell b = [CHR '' '', hexdigit (uint (drop_bit 4 b)), hexdigit (uint (b AND 0xF))]"

definition printed :: "u8 \<Rightarrow> char" where
  "printed b = (if isprint b then char_of (unat b) else CHR ''.'')"

text \<open>A line of up to sixteen bytes: in hexadecimal, padded, and as characters, padded.\<close>

definition hex_line :: "char \<Rightarrow> bytes \<Rightarrow> string" where
  "hex_line c bs = c # concat (map hex_cell bs @ replicate (16 - length bs) ''   '') @ ''  '' @
     map printed bs @ replicate (16 - length bs) (CHR '' '')"

function hex_lines :: "char \<Rightarrow> bytes \<Rightarrow> string list" where
  "hex_lines c bs = (if bs = [] then [] else hex_line c (take 16 bs) # hex_lines (CHR '' '') (drop 16 bs))"
  by pat_completeness auto
termination by (relation "measure (\<lambda>(c, bs). length bs)") auto

declare hex_lines.simps [simp del]

lemma nth_concat_cells:
  assumes "\<And>x. x \<in> set xs \<Longrightarrow> length x = 3" and "q < 3 * length xs"
  shows "concat xs ! q = xs ! (q div 3) ! (q mod 3)"
  using assms
proof (induction xs arbitrary: q)
  case (Cons x xs)
  then have x: "length x = 3" by simp
  show ?case
  proof (cases "q < 3")
    case False
    then have "concat xs ! (q - 3) = xs ! ((q - 3) div 3) ! ((q - 3) mod 3)"
      using Cons.prems by (intro Cons.IH) auto
    moreover have "q div 3 = Suc ((q - 3) div 3)" "(q - 3) mod 3 = q mod 3" using False by presburger+
    ultimately show ?thesis using x False by (simp add: nth_append)
  qed (use x in \<open>simp add: nth_append\<close>)
qed simp

lemma length_concat_cells: "(\<And>x. x \<in> set xs \<Longrightarrow> length x = 3) \<Longrightarrow> length (concat xs) = 3 * length xs"
  by (induction xs) auto

text \<open>The character of a line at a position.\<close>

definition line_at :: "char \<Rightarrow> bytes \<Rightarrow> nat \<Rightarrow> char" where
  "line_at c bs p = (if p = 0 then c
     else if p \<le> 48 then (if (p - 1) div 3 < length bs then hex_cell (bs ! ((p - 1) div 3)) ! ((p - 1) mod 3) else CHR '' '')
     else if p \<le> 50 then CHR '' ''
     else if p - 51 < length bs then printed (bs ! (p - 51)) else CHR '' '')"

lemma hex_line_nth:
  assumes "length bs \<le> 16"
  shows "length (hex_line c bs) = 67" "p < 67 \<Longrightarrow> hex_line c bs ! p = line_at c bs p"
proof -
  define cells where "cells = map hex_cell bs @ replicate (16 - length bs) ''   ''"
  have l: "length x = 3" if "x \<in> set cells" for x using that by (auto simp: cells_def hex_cell_def)
  have "length cells = 16" using assms by (simp add: cells_def)
  then have n: "length (concat cells) = 48" using length_concat_cells [OF l] by simp
  have line: "hex_line c bs = c # concat cells @ ''  '' @ map printed bs @ replicate (16 - length bs) (CHR '' '')"
    by (simp add: hex_line_def cells_def)
  show "length (hex_line c bs) = 67" using assms n by (simp add: line)
  show "hex_line c bs ! p = line_at c bs p" if "p < 67"
  proof -
    consider "p = 0" | "1 \<le> p" "p \<le> 48" | "p = 49 \<or> p = 50" | "51 \<le> p" by linarith
    then show ?thesis
    proof cases
      case 2
      moreover have "p - 1 < 48" using 2 by linarith
      ultimately have "hex_line c bs ! p = concat cells ! (p - 1)"
        using n by (simp add: line nth_Cons' nth_append)
      also have "\<dots> = cells ! ((p - 1) div 3) ! ((p - 1) mod 3)"
        using nth_concat_cells [of cells "p - 1", OF l] 2 \<open>length cells = 16\<close> by simp
      also have "\<dots> = line_at c bs p"
      proof (cases "(p - 1) div 3 < length bs")
        case False
        have "(p - 1) div 3 < 16" using 2 by linarith
        then have "cells ! ((p - 1) div 3) = ''   ''" using False assms by (simp add: cells_def nth_append)
        moreover have "''   '' ! r = CHR '' ''" if "r < 3" for r :: nat
          using that by (auto simp: less_Suc_eq numeral_3_eq_3)
        ultimately show ?thesis using 2 False by (simp add: line_at_def)
      qed (use 2 in \<open>simp add: nth_append line_at_def cells_def\<close>)
      finally show ?thesis .
    next
      case 3
      then show ?thesis using n by (auto simp: line line_at_def nth_append)
    next
      case 4
      moreover have "48 \<le> p - 1" using 4 by linarith
      ultimately have "hex_line c bs ! p = (map printed bs @ replicate (16 - length bs) (CHR '' '')) ! (p - 51)"
        using n that by (simp add: line nth_Cons' nth_append)
      then show ?thesis using 4 that by (simp add: line_at_def nth_append)
    qed (simp add: line line_at_def)
  qed
qed

text \<open>The buffer after some bytes of a line.\<close>

fun fill :: "nat \<Rightarrow> bytes \<Rightarrow> string \<Rightarrow> string" where
  "fill i [] s = s"
| "fill i (b # bs) s = fill (i + 1) bs (hexdump_byte i b s)"

lemma length_hexdump [simp]: "length (hexdump_byte i b s) = length s" "length (fill i bs s) = length s"
  "length (hexdump_end s) = length s" "length (hexdump_pad n s) = length s"
proof -
  show b: "length (hexdump_byte i b s) = length s" for i b s by (simp add: hexdump_byte_def)
  show "length (fill i bs s) = length s" by (induction bs arbitrary: i s) (simp_all add: b)
  show "length (hexdump_end s) = length s" by (simp add: hexdump_end_def)
  have "length (fold (\<lambda>j s. s[j * 3 + 1 := CHR '' '', j * 3 + 2 := CHR '' '', j * 3 + 3 := CHR '' '', j + 51 := CHR '' '']) js s) = length s"
    for js by (induction js arbitrary: s) simp_all
  then show "length (hexdump_pad n s) = length s" by (simp add: hexdump_pad_def)
qed

text \<open>What a position of the line stands for: the byte and the place in its cell, or the byte's character.\<close>

definition byte_of :: "nat \<Rightarrow> nat" where
  "byte_of p = (if p \<le> 48 then (p - 1) div 3 else p - 51)"

definition data_at :: "nat \<Rightarrow> bool" where
  "data_at p \<longleftrightarrow> 1 \<le> p \<and> p \<le> 48 \<or> 51 \<le> p \<and> p \<le> 66"

definition char_at :: "u8 \<Rightarrow> nat \<Rightarrow> char" where
  "char_at b p = (if p \<le> 48 then hex_cell b ! ((p - 1) mod 3) else printed b)"

definition put_cell :: "nat \<Rightarrow> char \<Rightarrow> char \<Rightarrow> char \<Rightarrow> char \<Rightarrow> string \<Rightarrow> string" where
  "put_cell j a b c d s = s[j * 3 + 1 := a, j * 3 + 2 := b, j * 3 + 3 := c, j + 51 := d]"

lemma length_put_cell [simp]: "length (put_cell j a b c d s) = length s"
  by (simp add: put_cell_def)

lemma put_cell_nth:
  assumes "length s = 68" and "p < 67" and j: "j < 16"
  shows "put_cell j a b c d s ! p =
    (if data_at p \<and> byte_of p = j then (if p \<le> 48 then [a, b, c] ! ((p - 1) mod 3) else d) else s ! p)"
proof -
  consider "data_at p" "byte_of p = j" "p \<le> 48" | "data_at p" "byte_of p = j" "48 < p"
    | "\<not> (data_at p \<and> byte_of p = j)" by linarith
  then show ?thesis
  proof cases
    case 1
    then have q: "(p - 1) div 3 = j" "1 \<le> p" by (auto simp: data_at_def byte_of_def)
    have "p - 1 = (p - 1) div 3 * 3 + (p - 1) mod 3" by (rule div_mult_mod_eq [symmetric])
    then have "p - 1 = j * 3 + (p - 1) mod 3" unfolding q(1) .
    moreover have "(p - 1) mod 3 = 0 \<or> (p - 1) mod 3 = 1 \<or> (p - 1) mod 3 = 2" by linarith
    ultimately consider "p = j * 3 + 1" "(p - 1) mod 3 = 0" | "p = j * 3 + 2" "(p - 1) mod 3 = 1" | "p = j * 3 + 3" "(p - 1) mod 3 = 2"
      using q(2) by linarith
    then have "put_cell j a b c d s ! p = [a, b, c] ! ((p - 1) mod 3)"
    proof cases
      case 1
      show ?thesis unfolding 1(2) unfolding 1(1) using j assms(1) by (simp add: put_cell_def nth_list_update)
    next
      case 2
      show ?thesis unfolding 2(2) unfolding 2(1) using j assms(1) by (simp add: put_cell_def nth_list_update)
    next
      case 3
      show ?thesis unfolding 3(2) unfolding 3(1) using j assms(1) by (simp add: put_cell_def nth_list_update)
    qed
    with 1 show ?thesis by simp
  next
    case 2
    then have "p = j + 51" by (auto simp: data_at_def byte_of_def)
    with 2 j assms show ?thesis by (auto simp: put_cell_def nth_list_update)
  next
    case 3
    have f: "data_at (j * 3 + r) \<and> byte_of (j * 3 + r) = j" if "1 \<le> r" "r \<le> 3" for r
    proof -
      have "j * 3 + r - 1 = (r - 1) + j * 3" "r - 1 < 3" using that by simp_all
      then have "(j * 3 + r - 1) div 3 = j" by simp
      then show ?thesis using that j by (simp add: data_at_def byte_of_def)
    qed
    have g: "data_at (j + 51) \<and> byte_of (j + 51) = j" using j by (simp add: data_at_def byte_of_def)
    have ne: "p \<noteq> q" if "data_at q \<and> byte_of q = j" for q using 3 that by blast
    have "p \<noteq> j * 3 + 1" by (rule ne [OF f]) simp_all
    moreover have "p \<noteq> j * 3 + 2" by (rule ne [OF f]) simp_all
    moreover have "p \<noteq> j * 3 + 3" by (rule ne [OF f]) simp_all
    moreover have "p \<noteq> j + 51" by (rule ne [OF g])
    ultimately have "put_cell j a b c d s ! p = s ! p" unfolding put_cell_def by (simp only: nth_list_update_neq)
    with 3 show ?thesis by auto
  qed
qed

lemma hexdump_byte_nth:
  assumes "length s = 68" and "p < 67"
  shows "hexdump_byte i b s ! p = (if data_at p \<and> byte_of p = i mod 16 then char_at b p else s ! p)"
proof -
  have "hexdump_byte i b s = put_cell (i mod 16) (CHR '' '') (hexdigit (uint (drop_bit 4 b))) (hexdigit (uint (b AND 0xF))) (printed b) s"
    by (simp add: hexdump_byte_def put_cell_def printed_def)
  then show ?thesis using put_cell_nth [OF assms, of "i mod 16"] by (simp add: char_at_def hex_cell_def)
qed

lemma fill_nth:
  assumes "length s = 68" and "p < 67" and "i mod 16 + length bs \<le> 16"
  shows "fill i bs s ! p = (if data_at p \<and> i mod 16 \<le> byte_of p \<and> byte_of p < i mod 16 + length bs
    then char_at (bs ! (byte_of p - i mod 16)) p else s ! p)"
  using assms(1,3)
proof (induction bs arbitrary: i s)
  case (Cons b bs)
  show ?case
  proof (cases "bs = []")
    case True
    then show ?thesis using hexdump_byte_nth [OF Cons.prems(1) assms(2), of i b] by auto
  next
    case False
    then have "0 < length bs" by simp
    then have "i mod 16 + 1 < 16" using Cons.prems(2) unfolding list.size by linarith
    then have m: "(i + 1) mod 16 = i mod 16 + 1" by (simp add: mod_Suc)
    have "fill (i + 1) bs (hexdump_byte i b s) ! p =
        (if data_at p \<and> i mod 16 + 1 \<le> byte_of p \<and> byte_of p < i mod 16 + 1 + length bs
         then char_at (bs ! (byte_of p - (i mod 16 + 1))) p else hexdump_byte i b s ! p)"
      using Cons.IH [of "hexdump_byte i b s" "i + 1"] Cons.prems unfolding m by simp
    then show ?thesis
      using hexdump_byte_nth [OF Cons.prems(1) assms(2), of i b] by (auto simp: nth_Cons')
  qed
qed auto

lemma pad_nth:
  assumes "length s = 68" and "p < 67" and "n \<le> 16"
  shows "hexdump_pad n s ! p = (if data_at p \<and> n \<le> byte_of p then CHR '' '' else s ! p)"
proof -
  let ?P = "\<lambda>j. put_cell j (CHR '' '') (CHR '' '') (CHR '' '') (CHR '' '')"
  have step: "?P j t ! p = (if data_at p \<and> byte_of p = j then CHR '' '' else t ! p)" if "length t = 68" "j < 16" for j t
  proof -
    have "[CHR '' '', CHR '' '', CHR '' ''] ! r = CHR '' ''" if "r < 3" for r :: nat
      using that by (auto simp: less_Suc_eq numeral_3_eq_3)
    then show ?thesis using put_cell_nth [OF that(1) assms(2) that(2)] by simp
  qed
  have "length (fold ?P js t) = length t" for js t by (induction js arbitrary: t) simp_all
  then have "fold ?P [n ..< m] s ! p = (if data_at p \<and> n \<le> byte_of p \<and> byte_of p < m then CHR '' '' else s ! p)" if "n \<le> m" "m \<le> 16" for m
    using that
  proof (induction m)
    case (Suc m)
    then show ?case
    proof (cases "n = Suc m")
      case False
      then have "[n ..< Suc m] = [n ..< m] @ [m]" "n \<le> m" using Suc.prems(2) by simp_all
      then show ?thesis using Suc step [of "fold ?P [n ..< m] s" m] assms(1) by auto
    qed auto
  qed auto
  moreover have "data_at p \<Longrightarrow> byte_of p < 16" by (auto simp: data_at_def byte_of_def)
  moreover have "hexdump_pad n s = fold ?P [n ..< 16] s" unfolding hexdump_pad_def put_cell_def ..
  ultimately show ?thesis using assms(3) by auto
qed

text \<open>A finished line.\<close>

lemma finished_line:
  assumes "length s = 68" and "length bs \<le> 16" and "i mod 16 = 0"
  shows "take 67 (hexdump_end (hexdump_pad (length bs) (fill i bs s))) = hex_line (s ! 0) bs"
proof (rule nth_equalityI)
  show "length (take 67 (hexdump_end (hexdump_pad (length bs) (fill i bs s)))) = length (hex_line (s ! 0) bs)"
    using assms hex_line_nth(1) by simp
  fix p assume "p < length (take 67 (hexdump_end (hexdump_pad (length bs) (fill i bs s))))"
  then have p: "p < 67" by simp
  let ?t = "hexdump_pad (length bs) (fill i bs s)"
  have "?t ! p = (if data_at p then if byte_of p < length bs then char_at (bs ! byte_of p) p else CHR '' '' else s ! p)"
    using pad_nth [of "fill i bs s" p "length bs"] fill_nth [OF assms(1) p, of i bs] assms p by auto
  then have "hexdump_end ?t ! p = line_at (s ! 0) bs p"
    using p assms(1) by (auto simp: hexdump_end_def nth_list_update line_at_def data_at_def byte_of_def char_at_def)
  then show "take 67 (hexdump_end ?t) ! p = hex_line (s ! 0) bs ! p"
    using p hex_line_nth(2) [OF assms(2) p] by simp
qed

text \<open>The loop within a line, and over a whole line.\<close>

lemma loop_part:
  "i mod 16 + length bs < 16 \<Longrightarrow> hexdump_loop i (bs @ rest) s out = hexdump_loop (i + length bs) rest (fill i bs s) out"
proof (induction bs arbitrary: i s)
  case (Cons b bs)
  then have m: "(i + 1) mod 16 = i mod 16 + 1" by (simp add: mod_Suc)
  with Cons.prems have "(i + 1) mod 16 \<noteq> 0" by simp
  moreover have "(i + 1) mod 16 + length bs < 16" using Cons.prems m by simp
  ultimately show ?case using Cons.IH [of "i + 1"] by (simp add: Let_def)
qed simp

lemma fill_append: "fill i (xs @ ys) s = fill (i + length xs) ys (fill i xs s)"
  by (induction xs arbitrary: i s) simp_all

lemma loop_line:
  assumes "i mod 16 = 0" and "length bs = 16" and "length s = 68"
  shows "hexdump_loop i (bs @ rest) s out = hexdump_loop (i + 16) rest ((hexdump_end (fill i bs s))[0 := CHR '' '']) (out @ [hex_line (s ! 0) bs])"
proof -
  obtain xs b where bs: "bs = xs @ [b]" "length xs = 15" using assms(2) by (cases bs rule: rev_cases) auto
  have m: "(i + 15 + 1) mod 16 = 0" using assms(1) by presburger
  have "hexdump_loop i (bs @ rest) s out = hexdump_loop (i + 15) (b # rest) (fill i xs s) out"
    using loop_part [of i xs "b # rest"] bs assms(1) by simp
  also have "\<dots> = hexdump_loop (i + 16) rest ((hexdump_end (fill i bs s))[0 := CHR '' '']) (out @ [take 67 (hexdump_end (fill i bs s))])"
    using m bs by (simp add: fill_append Let_def add.assoc add.commute [of 16])
  also have "take 67 (hexdump_end (fill i bs s)) = hex_line (s ! 0) bs"
    using finished_line [OF assms(3) _ assms(1), of bs] assms(2) by (simp add: hexdump_pad_def)
  finally show ?thesis .
qed

lemma loop_lines:
  assumes "i mod 16 = 0" and "length s = 68" and "hexdump_loop i bs s out = (s', out')"
  shows "(if length bs mod 16 > 0 then out' @ [take 67 (hexdump_end (hexdump_pad (length bs mod 16) s'))] else out') =
    out @ hex_lines (s ! 0) bs"
  using assms
proof (induction "length bs" arbitrary: i bs s out rule: less_induct)
  case less
  show ?case
  proof (cases "length bs < 16")
    case True
    then have "hexdump_loop i (bs @ []) s out = (fill i bs s, out)"
      by (subst loop_part) (use less.prems(1) in simp_all)
    then have r: "s' = fill i bs s" "out' = out" using less.prems(3) by simp_all
    show ?thesis
      using True finished_line [OF less.prems(2) _ less.prems(1), of bs] r hex_lines.simps [of "s ! 0" bs] hex_lines.simps [of _ "[]"]
      by auto
  next
    case False
    let ?a = "take 16 bs" and ?b = "drop 16 bs"
    let ?t = "(hexdump_end (fill i ?a s))[0 := CHR '' '']"
    have "hexdump_loop i bs s out = hexdump_loop (i + 16) ?b ?t (out @ [hex_line (s ! 0) ?a])"
      using loop_line [OF less.prems(1) _ less.prems(2), of ?a ?b out] False by simp
    then have "hexdump_loop (i + 16) ?b ?t (out @ [hex_line (s ! 0) ?a]) = (s', out')" using less.prems(3) by simp
    from less.hyps [OF _ _ _ this] False less.prems(1,2)
    have "(if length ?b mod 16 > 0 then out' @ [take 67 (hexdump_end (hexdump_pad (length ?b mod 16) s'))] else out') =
        out @ [hex_line (s ! 0) ?a] @ hex_lines (?t ! 0) ?b"
      by (simp add: mod_add_self2)
    moreover have "length ?b mod 16 = length bs mod 16" using False by (simp add: le_mod_geq)
    moreover have "?t ! 0 = CHR '' ''" using less.prems(2) by simp
    moreover have "hex_lines (s ! 0) bs = hex_line (s ! 0) ?a # hex_lines (CHR '' '') ?b"
      using False by (subst hex_lines.simps) auto
    ultimately show ?thesis by (simp cong: if_cong)
  qed
qed

theorem util_hexdump_lines:
  assumes "length junk = 68"
  shows "util_hexdump junk dir buf True = hex_lines dir buf"
proof (cases "buf = []")
  case False
  obtain s' out' where r: "hexdump_loop 0 buf (junk[0 := dir]) [] = (s', out')" by fastforce
  have "length (junk[0 := dir]) = 68" "junk[0 := dir] ! 0 = dir" using assms by simp_all
  with loop_lines [OF _ _ r] False r show ?thesis by (simp add: util_hexdump_def)
qed (simp add: util_hexdump_def hex_lines.simps)

section \<open>Identifiers\<close>

lemma ffs_cases:
  obtains (none) "ffs x = 0" "\<And>i. i < 32 \<Longrightarrow> \<not> bit x i"
  | (some) i where "i < 32" "bit x i" "\<And>j. j < i \<Longrightarrow> \<not> bit x j" "ffs x = of_nat (i + 1)" "unat (ffs x) = i + 1"
proof (cases "find (\<lambda>i. bit x i) [0 ..< 32]")
  case None
  have "ffs x = 0" by (simp add: ffs_def None)
  with None show ?thesis by (intro none) (auto simp: find_None_iff)
next
  case (Some i)
  then have "i < 32" "bit x i" "\<And>j. j < i \<Longrightarrow> \<not> bit x j" by (auto simp: find_Some_iff)
  moreover have "ffs x = of_nat (i + 1)" by (simp add: ffs_def Some)
  moreover have "unat (of_nat (i + 1) :: u8) = i + 1"
    unfolding unat_of_nat using \<open>i < 32\<close> by simp
  ultimately show ?thesis using some by metis
qed

lemma util_uid_allocates:
  assumes "util_get_uid bitmap maximum = (i, b)"
  shows "(i = 0 \<longleftrightarrow> (\<forall>j < min 32 (unat maximum). bit bitmap j)) \<and>
    (i = 0 \<longrightarrow> b = bitmap) \<and>
    (i \<noteq> 0 \<longrightarrow> i \<le> maximum \<and> unat i \<le> 32 \<and> \<not> bit bitmap (unat i - 1) \<and> (\<forall>j < unat i - 1. bit bitmap j) \<and>
      (\<forall>j. bit b j \<longleftrightarrow> bit bitmap j \<or> j = unat i - 1) \<and> util_clear_uid b i = bitmap)"
proof (cases rule: ffs_cases [of "NOT bitmap"])
  case none
  then have "i = 0" "b = bitmap" using assms by (simp_all add: util_get_uid_def Let_def)
  with none show ?thesis by (auto simp: bit_not_iff)
next
  case (some k)
  show ?thesis
  proof (cases "ffs (NOT bitmap) > maximum")
    case True
    then have "unat maximum \<le> k" using some(5) by (simp add: word_less_nat_alt)
    moreover have "i = 0" "b = bitmap" using True assms by (simp_all add: util_get_uid_def Let_def)
    ultimately show ?thesis using some(1,3) by (auto simp: bit_not_iff)
  next
    case False
    have "ffs (NOT bitmap) \<noteq> 0" using some(5) by force
    then have i: "i = ffs (NOT bitmap)" "b = bitmap OR push_bit (unat (i - 1)) 1"
      using False assms by (auto simp: util_get_uid_def Let_def)
    have "unat (i - 1) = k"
      using some(5) i(1) by (simp add: unat_minus_one [OF \<open>ffs (NOT bitmap) \<noteq> 0\<close>])
    then have b: "bit b j \<longleftrightarrow> bit bitmap j \<or> j = k" for j
      using some(1) i(2) by (auto simp: bit_or_iff push_bit_of_1 bit_exp_iff)
    have "util_clear_uid b i = bitmap"
      using \<open>unat (i - 1) = k\<close> \<open>ffs (NOT bitmap) \<noteq> 0\<close> i(1) some(1,2) b
      by (intro bit_word_eqI) (auto simp: util_clear_uid_def bit_and_iff bit_not_iff push_bit_of_1 bit_exp_iff)
    moreover have "k < unat maximum" using False some(5) by (simp add: word_less_nat_alt not_less)
    ultimately show ?thesis
      using i(1) some b False \<open>ffs (NOT bitmap) \<noteq> 0\<close> by (auto simp: bit_not_iff not_less)
  qed
qed

section \<open>Delimiters\<close>

lemma strchr_from_cases:
  obtains (none) "strchr_from i d s = None" "\<And>j. i \<le> j \<Longrightarrow> j < length s \<Longrightarrow> s ! j \<noteq> d"
  | (some) j where "strchr_from i d s = Some j" "i \<le> j" "j < length s" "s ! j = d" "\<And>l. i \<le> l \<Longrightarrow> l < j \<Longrightarrow> s ! l \<noteq> d"
proof (cases "strchr_from i d s")
  case None
  then show ?thesis by (intro none) (auto simp: strchr_from_def find_None_iff)
next
  case (Some j)
  have f: "find (\<lambda>j. s ! j = d) [i ..< length s] = Some j" using Some by (simp add: strchr_from_def)
  obtain n where n: "n < length s - i" "s ! (i + n) = d" "j = i + n" "\<forall>m < n. s ! (i + m) \<noteq> d"
    using f by (auto simp: find_Some_iff)
  have "s ! l \<noteq> d" if "i \<le> l" "l < j" for l
    using n(3,4) that by (metis add_diff_inverse_nat add_less_cancel_left not_less)
  with Some n show ?thesis by (intro some) auto
qed

text \<open>The loop replaces every occurrence, when the two characters differ; otherwise it ends only if there is none.\<close>

lemma delimit_loop_replaces:
  assumes "c \<noteq> d"
  shows "(\<And>j. j < i \<Longrightarrow> j < length s \<Longrightarrow> s ! j \<noteq> d) \<Longrightarrow> delimit_loop i d c s = Some (map (\<lambda>x. if x = d then c else x) s)"
proof (induction "count_list s d" arbitrary: i s)
  case 0
  then have "d \<notin> set s" by (simp add: count_list_0_iff)
  then have "strchr_from i d s = None" by (auto simp: strchr_from_def find_None_iff)
  moreover have "map (\<lambda>x. if x = d then c else x) s = s"
    using \<open>d \<notin> set s\<close> by (intro map_idI) auto
  ultimately show ?case by (subst delimit_loop.simps) simp
next
  case (Suc n)
  have "d \<in> set s" using Suc.hyps(2) by (metis count_list_0_iff nat.distinct(1))
  show ?case
  proof (cases rule: strchr_from_cases [of i d s])
    case none
    with \<open>d \<in> set s\<close> Suc.prems show ?thesis by (metis in_set_conv_nth not_less)
  next
    case (some j)
    have split: "s = take j s @ d # drop (Suc j) s" using id_take_nth_drop [OF some(3)] some(4) by simp
    have upd: "s[j := c] = take j s @ c # drop (Suc j) s" using some(3) by (rule upd_conv_take_nth_drop)
    have "count_list s d = count_list (take j s @ d # drop (Suc j) s) d" by (rule arg_cong [OF split])
    then have n: "n = count_list (s[j := c]) d" using Suc.hyps(2) assms by (simp add: upd)
    have "(s[j := c]) ! l \<noteq> d" if "l < j" "l < length (s[j := c])" for l
      using that some(5) [of l] Suc.prems [of l] by (cases "i \<le> l") auto
    from Suc.hyps(1) [OF n this] have "delimit_loop j d c (s[j := c]) = Some (map (\<lambda>x. if x = d then c else x) (s[j := c]))" .
    moreover have "map (\<lambda>x. if x = d then c else x) (s[j := c]) = map (\<lambda>x. if x = d then c else x) (take j s @ d # drop (Suc j) s)"
      unfolding upd by simp
    moreover have "\<dots> = map (\<lambda>x. if x = d then c else x) s" by (rule arg_cong [OF split [symmetric]])
    ultimately show ?thesis using some(1) by (subst delimit_loop.simps) simp
  qed
qed

lemma delimit_loop_same:
  assumes "delimit_loop i d d s = Some t"
  shows "strchr_from i d s = None"
  using assms
proof (rule delimit_loop.raw_induct [where P = "\<lambda>i d c s t. c = d \<longrightarrow> strchr_from i d s = None", rule_format, rotated])
  fix f :: "nat \<Rightarrow> char \<Rightarrow> char \<Rightarrow> string \<Rightarrow> string option" and i d c s t
  assume f: "\<And>i d c s t. f i d c s = Some t \<Longrightarrow> c = d \<Longrightarrow> strchr_from i d s = None"
    "(case strchr_from i d s of None \<Rightarrow> Some s | Some j \<Rightarrow> f j d c (s[j := c])) = Some t" "c = d"
  show "strchr_from i d s = None"
  proof (cases rule: strchr_from_cases [of i d s])
    case (some j)
    then have "s[j := c] = s" using f(3) by (metis list_update_id)
    then have "f j d c s = Some t" using f(2) some(1) by simp
    then have "strchr_from j d s = None" by (rule f(1)) (rule f(3))
    then show ?thesis using some(3,4) by (auto simp: strchr_from_def find_None_iff)
  qed
qed simp

text \<open>
  \<^verbatim>\<open>strdelimit\<close> replaces every character of \<open>del\<close> by \<open>c\<close>, when \<open>c\<close> is not one of them; when it is, it does not
  return on a string that has a \<open>c\<close>.
\<close>

lemma strdelimit_replaces:
  assumes "c \<notin> set del"
  shows "strdelimit (Some s) del c = Some (Some (map (\<lambda>x. if x \<in> set del then c else x) s))"
proof -
  have "delimit_all del c s = Some (map (\<lambda>x. if x \<in> set del then c else x) s)"
    using assms
  proof (induction del arbitrary: s)
    case (Cons d del)
    have "delimit_loop 0 d c s = Some (map (\<lambda>x. if x = d then c else x) s)"
      by (rule delimit_loop_replaces) (use Cons.prems in auto)
    then have "delimit_all (d # del) c s = Some (map (\<lambda>x. if x \<in> set del then c else x) (map (\<lambda>x. if x = d then c else x) s))"
      using Cons by simp
    also have "map (\<lambda>x. if x \<in> set del then c else x) (map (\<lambda>x. if x = d then c else x) s) = map (\<lambda>x. if x \<in> set (d # del) then c else x) s"
      using Cons.prems by auto
    finally show ?case .
  qed simp
  then show ?thesis by (simp add: strdelimit_def)
qed

lemma strdelimit_never_returns:
  assumes "c \<in> set del" and "c \<in> set s"
  shows "strdelimit (Some s) del c = None"
proof -
  have "delimit_all del c s = None"
    using assms
  proof (induction del arbitrary: s)
    case (Cons d del)
    show ?case
    proof (cases "d = c")
      case True
      have "delimit_loop 0 c c s = None"
      proof (rule ccontr)
        assume "delimit_loop 0 c c s \<noteq> None"
        then have "strchr_from 0 c s = None" using delimit_loop_same by blast
        then show False using Cons.prems(2) by (auto simp: strchr_from_def find_None_iff in_set_conv_nth)
      qed
      with True show ?thesis by simp
    next
      case False
      then have "delimit_loop 0 d c s = Some (map (\<lambda>x. if x = d then c else x) s)" by (intro delimit_loop_replaces) auto
      moreover have "c \<in> set (map (\<lambda>x. if x = d then c else x) s)" using Cons.prems(2) by force
      ultimately show ?thesis using Cons False by auto
    qed
  qed simp
  then show ?thesis using assms(2) by (auto simp: strdelimit_def)
qed

section \<open>Names\<close>

lemma hex_parts:
  "hex_string 4 0 = ''0000''" "hex_string 4 0x1000 = ''1000''" "hex_string 4 0x8000 = ''8000''"
  "hex_string 8 0x00805f9b = ''00805f9b''" "hex_string 4 0x34fb = ''34fb''"
  by code_simp+

lemma put_be32_short: "put_be32 (ucast (u :: u16)) = [0, 0] @ put_be16 u"
proof -
  have "ucast (drop_bit 16 (ucast u :: u32)) = (0 :: u16)" "ucast (ucast u :: u32) = (u :: u16)"
    by (rule bit_word_eqI; auto simp: bit_simps dest: bit_imp_le_length)+
  then show ?thesis by (simp add: put_be32_def) (simp add: put_be16_def)
qed

lemma short_parts:
  "(ucast (u :: u16) :: u32) AND 0xffff0000 = 0" "ucast ((ucast (u :: u16) :: u32) AND 0x0000ffff) = u"
proof -
  have m: "(0xffff0000 :: u32) = push_bit 16 (mask 16)" "(0x0000ffff :: u32) = mask 16" by (simp_all add: mask_eq_exp_minus_1 push_bit_eq_mult)
  show "(ucast u :: u32) AND 0xffff0000 = 0" "ucast ((ucast u :: u32) AND 0x0000ffff) = u"
    unfolding m by (rule bit_word_eqI; auto simp: bit_simps dest: bit_imp_le_length)+
qed

lemma base_text:
  assumes "bt_uuid_to_uuid128 u = Some (BT_UUID128 (put_be32 v @ drop 4 bluetooth_base_uuid))"
  shows "bt_uuid_to_string (Some u) 37 = (0, hex_string 8 (uint v) @ ''-0000-1000-8000-00805f9b34fb'')"
proof -
  let ?d = "put_be32 v @ drop 4 bluetooth_base_uuid"
  have t: "get_be16 ?d 4 = 0" "get_be16 ?d 6 = 0x1000" "get_be16 ?d 8 = 0x8000" "get_be32 ?d 10 = 0x00805f9b" "get_be16 ?d 14 = 0x34fb"
    by (simp_all add: get_be16_def get_be32_def bluetooth_base_uuid_def put_be32_def put_be16_def)
  have "get_be32 ?d 0 = v" using get_put_be32 [of "[]" v] by simp
  with t have "uuid128_string ?d = hex_string 8 (uint v) @ ''-0000-1000-8000-00805f9b34fb''"
    unfolding uuid128_string_def by (simp add: hex_parts)
  then show ?thesis by (simp add: bt_uuid_to_string_def assms)
qed

lemma uuid128_lookup_none:
  "(\<And>k v. (k, v) \<in> set t \<Longrightarrow> map lower k \<noteq> map lower u) \<Longrightarrow> uuid128_lookup t u = None"
  by (induction t u rule: uuid128_lookup.induct) auto

lemma base_text_name:
  "bt_uuidstr_to_str (Some (hex_string 8 (uint v) @ ''-0000-1000-8000-00805f9b34fb'')) = Some (bt_uuid32_to_str v)"
proof -
  let ?tail = "''-0000-1000-8000-00805f9b34fb''"
  let ?s = "hex_string 8 (uint v) @ ?tail"
  have tail: "map lower ?tail = ?tail" by code_simp
  have keys: "\<forall>(k, v) \<in> set uuid128_table. drop 8 (map lower k) \<noteq> ?tail" by code_simp
  have "drop 8 (map lower ?s) = map lower ?tail" by (simp add: drop_map)
  then have d: "drop 8 (map lower ?s) = ?tail" unfolding tail .
  have "map lower k \<noteq> map lower ?s" if "(k, n) \<in> set uuid128_table" for k n
  proof
    assume "map lower k = map lower ?s"
    then have "drop 8 (map lower k) = ?tail" using d by (simp only:)
    with keys that show False by auto
  qed
  then have l: "uuid128_lookup uuid128_table ?s = None" by (rule uuid128_lookup_none)
  have n: "length ?s = 36" by simp
  have "map lower (drop 8 ?s) = ?tail" using d by (simp only: drop_map)
  moreover have "scan_hex 8 ?s = Some (uint v, ?tail)"
    using uint_lt2p [of v] by (intro scan_hex_hex_string(1)) simp_all
  ultimately show ?thesis
    unfolding bt_uuidstr_to_str_def option.case using l n by (simp only: less_irrefl if_False not_True_eq_False option.case prod.case) simp
qed

text \<open>
  The name of a UUID does not depend on how it is written: the text \<^verbatim>\<open>bt_uuid_to_string\<close> prints for a short UUID has the name
  its number has.
\<close>

lemma uuid_names_agree:
  "bt_uuidstr_to_str (Some (snd (bt_uuid_to_string (Some (BT_UUID16 u)) 37))) = Some (bt_uuid16_to_str u)"
  "bt_uuidstr_to_str (Some (snd (bt_uuid_to_string (Some (BT_UUID32 v)) 37))) = Some (bt_uuid32_to_str v)"
proof -
  have "bt_uuid_to_uuid128 (BT_UUID32 v) = Some (BT_UUID128 (put_be32 v @ drop 4 bluetooth_base_uuid))" for v
    by (simp add: bt_uuid_to_uuid128_def bt_uuid32_to_uuid128_def memcpy_at_def BASE_UUID32_OFFSET_def)
  from base_text [OF this]
  show "bt_uuidstr_to_str (Some (snd (bt_uuid_to_string (Some (BT_UUID32 v)) 37))) = Some (bt_uuid32_to_str v)"
    by (simp only: snd_conv base_text_name)
  have "bt_uuid_to_uuid128 (BT_UUID16 u) = Some (BT_UUID128 (put_be32 (ucast u) @ drop 4 bluetooth_base_uuid))"
    by (simp add: uuid16_to_128 put_be32_short)
  from base_text [OF this]
  have "bt_uuidstr_to_str (Some (snd (bt_uuid_to_string (Some (BT_UUID16 u)) 37))) = Some (bt_uuid32_to_str (ucast u))"
    by (simp only: snd_conv base_text_name)
  then show "bt_uuidstr_to_str (Some (snd (bt_uuid_to_string (Some (BT_UUID16 u)) 37))) = Some (bt_uuid16_to_str u)"
    by (simp add: bt_uuid32_to_str_def short_parts)
qed

text \<open>
  The name of an appearance: that of its entry, or else of the last kind of appearance that begins at or below it. The
  table is in ascending order, on which the early end of the loop relies.
\<close>

definition kinds_upto :: "u16 \<Rightarrow> (u16 \<times> bool \<times> string) list \<Rightarrow> string list" where
  "kinds_upto a t = map (\<lambda>(v, g, s). s) (filter (\<lambda>(v, g, s). g \<and> v \<le> a) t)"

lemma appear_from_sorted:
  "sorted_wrt (\<lambda>x y. fst x < fst y) t \<Longrightarrow>
   appear_from t kind a = (case map_of (map (\<lambda>(v, g, s). (v, s)) t) a of Some s \<Rightarrow> s | None \<Rightarrow> last (kind # kinds_upto a t))"
proof (induction t arbitrary: kind)
  case (Cons x t)
  obtain v g s where x: "x = (v, g, s)" by (cases x)
  have later: "v < w" if "(w, h, r) \<in> set t" for w h r using Cons.prems that x by force
  show ?case
  proof (cases "a < v")
    case True
    then have "a < w" if "(w, h, r) \<in> set t" for w h r using later [OF that] by simp
    then have n: "map_of (map (\<lambda>(v, g, s). (v, s)) t) a = None" "kinds_upto a t = []"
      by (force simp: map_of_eq_None_iff, force simp: kinds_upto_def filter_empty_conv)
    show ?thesis
      using Cons True n unfolding x by (auto simp: kinds_upto_def)
  next
    case False
    then show ?thesis using Cons unfolding x by (auto simp: kinds_upto_def split: option.split)
  qed
qed (simp add: kinds_upto_def)

lemma bt_appear_to_str_names:
  "bt_appear_to_str a = (case map_of (map (\<lambda>(v, g, s). (v, s)) appearance_table) a of
     Some s \<Rightarrow> s | None \<Rightarrow> last (''Unknown'' # kinds_upto a appearance_table))"
proof -
  have "sorted_wrt (\<lambda>x y. fst x < fst y) appearance_table" by code_simp
  moreover have "snd (snd (hd appearance_table)) = ''Unknown''" by code_simp
  ultimately show ?thesis using appear_from_sorted [of appearance_table] by (simp add: bt_appear_to_str_def)
qed

end
