(* ===== verification/Spec2Isabelle.thy ===== *)
theory Spec2Isabelle
  imports Queue Uuid Gatt_Db_Inv Att_Inv Server_Props Gatt_Server_Lists Clock_Props Mainloop_Props Crypto_Props Service_Props Command_Props Pdu_Props Byte_Order Uuid_Order Util_Props
begin

text \<open>
  The wall clock server: a verification development.

  The program (\<^verbatim>\<open>src/src\<close>) is a daemon that gives a battery driven wall clock the time over Bluetooth Low
  Energy. It advertises, accepts a connection on the fixed ATT channel, and serves a small attribute
  database over it with the GATT server of BlueZ (\<^verbatim>\<open>src/bluez-5.50\<close>): the clock writes commands to one
  attribute and is answered by notifications of another. One thread serves one connection after the
  other; within a connection everything happens in callbacks of an event loop.

  \<^bold>\<open>Parts and theories.\<close> From the bottom, with the code each group of definitions translates:

  \<^item> \<open>Prelude\<close>: machine integer types (\<open>u8\<close>, \<open>u16\<close>, \<dots>), byte strings, errno values, generic lemmas, the
    collections of simplification rules. \<open>Loops\<close>: loops that may run for ever.
  \<^item> \<open>Bytes\<close> (\<^verbatim>\<open>shared/util.h\<close>, \<^verbatim>\<open>lib/bluetooth.h\<close>): byte order accessors; \<open>Byte_Order\<close>: the same as they
    are written for a little-endian host, network order and addresses. \<open>Uuid\<close> (\<^verbatim>\<open>lib/uuid.c\<close>), and
    \<open>Uuid_Order\<close>: its comparison as a preorder.
  \<^item> \<open>Queue\<close> (\<^verbatim>\<open>shared/queue.c\<close>): the linked list with its pointers, and the list operations that it
    refines and that the other theories use.
  \<^item> \<open>Gatt_Db\<close> (\<^verbatim>\<open>shared/gatt-db.c\<close>): services, attributes, searches, reads and writes with their pending
    results. \<open>Gatt_Db_Inv\<close>: its well-formedness and what its operations guarantee.
  \<^item> \<open>Att_Types\<close> (\<^verbatim>\<open>shared/att-types.h\<close>), \<open>Att\<close> (\<^verbatim>\<open>shared/att.c\<close>): the bearer with its queues of operations,
    timeouts, security and registered handlers. \<open>Att_Inv\<close>: its invariant and properties. \<open>Att_Rel\<close>: relations
    that every event of the bearer keeps; \<open>Att_Pdus\<close>: invariants that know what its queues carry.
  \<^item> \<open>Gatt_Server\<close> (\<^verbatim>\<open>shared/gatt-server.c\<close>): the request handlers and their continuations.
    \<open>Gatt_Server_Inv\<close>, \<open>Gatt_Server_Rsp\<close>, \<open>Gatt_Server_Props\<close>, \<open>Gatt_Server_Lists\<close>: what they keep, the responses
    they give, single requests, and the list responses against references.
  \<^item> \<open>Commands\<close> (\<^verbatim>\<open>src/commands.c\<close>, \<^verbatim>\<open>src/messages.h\<close>): the messages of the clock and what they change.
    \<open>Server\<close> (\<^verbatim>\<open>src/server.c\<close>): attribute callbacks, the database, creation and destruction, the events of a
    connection. \<open>Server_Db\<close>, \<open>Server_Inv\<close>, \<open>Server_Props\<close>, \<open>Clock_Props\<close>: the properties of the whole stack under
    these callbacks.
  \<^item> \<open>Mainloop\<close> (\<^verbatim>\<open>shared/mainloop.c\<close>, \<^verbatim>\<open>io-mainloop.c\<close>, \<^verbatim>\<open>timeout-mainloop.c\<close>): the event loop with an explicit heap.
    \<open>Mainloop_Inv\<close>, \<open>Mainloop_Props\<close>: who owns what, and that all of it is given back.
  \<^item> \<open>Crypto\<close> (\<^verbatim>\<open>shared/crypto.c\<close>) and \<open>Crypto_Props\<close>: the messages handed to the ciphers, against the
    functions of the Bluetooth specification.
  \<^item> \<open>Command_Props\<close>: a command of the clock from the write request that carries it, through the GATT server
    and the database, to the call of its handler. \<open>Pdu_Props\<close>: what may go over the air.
  \<^item> \<open>Service\<close> (the rest of \<^verbatim>\<open>src/server.c\<close>, \<^verbatim>\<open>src/main.c\<close>) and \<open>Service_Props\<close>: advertising, listening, one
    connection after the other, the process.
  \<^item> \<open>Util_Tables\<close>, \<open>Util\<close> (\<^verbatim>\<open>shared/util.c\<close>): the tables of names of UUIDs and appearances with their searches,
    the hexadecimal dump, the bitmap of identifiers, string helpers. \<open>Util_Props\<close>: the dump against a
    description of its lines, identifiers that are new and in range, the searches against the tables.

  \<^bold>\<open>State and interaction.\<close> The state is one extensible record that grows with the layers, as the C
  structures point to each other: \<open>bt_att\<close>, then \<open>gatt_world\<close> (the GATT server and its database), then
  \<open>server\<close> (the clock and the global variables). A C function is a function on this state, with its result
  beside it. Function pointers with their user data are values of datatypes (\<open>att_cb\<close>, \<open>db_cb\<close>, \<open>clk_fn\<close>);
  what a call through one does is a field of an environment record (\<open>att_env\<close>, \<open>gs_env\<close>), which the layer
  above supplies. The database, whose functions are called while its caller is half done, returns the
  calls it makes as events in order. Kernel, time and random numbers are arguments: a value per
  event, or a function from the calls made so far to the answer (\<open>loop_kernel\<close>, \<open>svc_env\<close>). \<open>att_do\<close>, \<open>clk_do\<close>
  and \<open>loop_do\<close> are the steps of bearer, program and event loop; a run is a fold over events. Errors are
  values: \<open>None\<close>, \<open>False\<close>, or the negative number of the code; reading or writing outside a buffer
  or of freed memory sets a fault flag (\<open>gs_fault\<close>, \<open>ml_fault\<close>) or is \<open>None\<close>.

  \<^bold>\<open>Interfaces.\<close> \<open>simulation\<close> (a concrete data type implements an abstract one; interpreted on the pointer
  queue), \<open>att_client\<close> (what the bearer asks of the code behind its callbacks), \<open>att_typed\<close> (the same with the types of the PDUs), \<open>att_relation\<close> and
  \<open>gs_attr_relation\<close>, \<open>gs_relation\<close>, \<open>gs_free_queue\<close> (relations that all steps of bearer and GATT server keep when
  the client's functions do), \<open>gs_client\<close> (what the GATT server asks of attribute functions so that every
  request is answered) and \<open>stepping_loop\<close> (a loop that may run for ever). They are interpreted on the clock's
  callbacks in \<open>Server_Inv\<close>, \<open>Server_Props\<close>, \<open>Service_Props\<close> and \<open>Pdu_Props\<close>, and on the loops in \<open>Mainloop_Inv\<close> and \<open>Service_Props\<close>.

  \<^bold>\<open>What is shown.\<close> The whole program: a created server offers exactly the table of the clock's services;
  from creation to the end of a connection the invariants of all layers hold, whatever peer, kernel and
  timers do; every request is answered exactly once and at once; a status command has its effect and a
  time request its answer; what is written to the socket is well typed; the thread leaves no descriptor open. Each layer: the database is well formed
  after every operation and its lookups and searches are exact; the bearer keeps its queues in order,
  answers a second request in flight by shutting down, and retries under its security rules only; the
  loops that fill list responses equal references; long reads and queued writes transfer whole values; the
  MTU is in its bounds; the pointer queue refines lists; UUID strings are parsed back; the event loop
  owns what its table points to, returns exactly when told to, and gives everything back; timer values
  are exact; the pairing functions are those of the specification. Several theorems show where the
  code does not do what it means to: signed commands that are not verified, descriptors closed twice,
  notifications that ignore their configuration, a freed structure used within one batch of events,
  status commands that read uninitialised memory, a delimiter replacement that does not end.

  \<^bold>\<open>Recursion and bounds.\<close> Loops over lists are structural. Where termination is not known (walking a list
  that may be cyclic, retrying an interrupted call, the event loop, the thread, the scan of
  \<^verbatim>\<open>strdelimit\<close>) the definition is a
  \<open>partial_function\<close> into \<open>option\<close>, and \<open>None\<close> means that it does not return; there are theorems for when it
  does. No definition takes fuel. Integers have the width of the code; lengths of byte strings are
  natural numbers where the code's type cannot overflow for the buffers at hand, and wrap-around is
  written out where it can (prepared writes, value lengths, identifiers).

  \<^bold>\<open>Assumptions and what is left out.\<close> Memory is never exhausted. A client's attribute function reports its
  result as its last action or later, never twice. The identifiers of pending database operations do
  not wrap around within one synchronous call. Debug and log output is left out
  where the functions above call it (the functions that format it are in \<open>Util\<close>), as are the socket structures
  and constants of \<^verbatim>\<open>lib/bluetooth.h\<close> and \<^verbatim>\<open>lib/l2cap.h\<close> that only the kernel interface uses, and the HCI
  library, whose sources are not here: its functions are calls in the trace. Signals appear as the flag
  they set, read whenever the code reads it.
\<close>

end
